(* ===== verification/Prelude.thy ===== *)
theory Prelude
  imports Main "HOL-Library.Word"
begin

section \<open>Prelude: machine words, results, shared list facts\<close>

text \<open>
  Names and facts every component shares: the Rust integer types as words, the saturating and
  checked operations of the standard library the sources call, the single-bit test
  \<open>w & (1 << k) != 0\<close>, the result type with its bind, and the collections of simplification
  rules the component theories draw on.
\<close>

unbundle bit_operations_syntax

named_theorems wbits \<open>bit-level facts about words\<close>
named_theorems res_simps \<open>case analysis of results\<close>
named_theorems keeping \<open>operations that keep an invariant\<close>

type_synonym u8 = "8 word"
type_synonym u16 = "16 word"
type_synonym u32 = "32 word"
type_synonym u64 = "64 word"

subsection \<open>Single bits and fields\<close>

definition has_bit :: "'a::len word \<Rightarrow> nat \<Rightarrow> bool" where
  "has_bit w k \<longleftrightarrow> w AND push_bit k 1 \<noteq> 0"

lemma has_bit_iff [simp]: "has_bit w k \<longleftrightarrow> bit w k"
proof
  assume "bit w k"
  then have "bit (w AND push_bit k 1) k"
    by (auto simp: bit_simps dest: bit_imp_le_length)
  then show "has_bit w k"
    by (auto simp: has_bit_def)
next
  assume "has_bit w k"
  then obtain n where "bit (w AND push_bit k 1) n"
    by (auto simp: has_bit_def bit_eq_iff)
  then show "bit w k"
    by (auto simp: bit_simps)
qed

definition field :: "'a::len word \<Rightarrow> nat \<Rightarrow> nat \<Rightarrow> 'a word" where
  "field w lo n = drop_bit lo w AND mask n"

lemma bit_field [wbits]:
  "bit (field (w :: 'a::len word) lo n) i \<longleftrightarrow> bit w (lo + i) \<and> i < n"
  by (auto simp: field_def bit_simps dest: bit_imp_le_length)

lemma unat_take: "unat (take_bit n w) = unat w mod 2 ^ n" for w :: "'a::len word"
  by (simp only: unsigned_take_bit_eq take_bit_eq_mod [of n "unat w"])

lemma unat_drop: "unat (drop_bit n w) = unat w div 2 ^ n" for w :: "'a::len word"
  by (simp only: unat_drop_bit_eq drop_bit_eq_div [of n "unat w"])

lemma unat_push: "unat w * 2 ^ n < 2 ^ LENGTH('a) \<Longrightarrow> unat (push_bit n w) = unat w * 2 ^ n"
  for w :: "'a::len word"
  by (simp only: unsigned_push_bit_eq push_bit_eq_mult [of n "unat w"] take_bit_nat_eq_self_iff)

lemma unat_and_mask: "unat (w AND mask n) = unat w mod 2 ^ n" for w :: "'a::len word"
  by (simp only: unat_take flip: take_bit_eq_mask)

lemma unat_ucast_small: "unat w < 2 ^ LENGTH('b) \<Longrightarrow> unat (ucast w :: 'b::len word) = unat w"
  for w :: "'a::len word"
  by (simp only: unsigned_ucast_eq take_bit_nat_eq_self_iff)

lemma word_of_unat: "word_of_nat (unat w) = w" for w :: "'a::len word"
  by simp

lemma odd_unat_div: "odd (unat w div 2 ^ n) \<longleftrightarrow> bit w n" for w :: "'a::len word"
  using bit_iff_odd [of "unat w" n] by (simp add: bit_unsigned_iff)

lemma odd_unat: "odd (unat w) \<longleftrightarrow> bit w 0" for w :: "'a::len word"
  using odd_unat_div [of w 0] by simp

lemma unat_field: "unat (field (w :: 'a::len word) lo n) = unat w div 2 ^ lo mod 2 ^ n"
proof -
  have "field w lo n = take_bit n (drop_bit lo w)"
    by (simp add: field_def take_bit_eq_mask)
  then show ?thesis
    by (simp only: unat_take unat_drop)
qed

lemma unat_less_exp: "unat (w :: 'a::len word) < 2 ^ LENGTH('a)"
  by (rule unsigned_less)

lemma unat_u64_less: "unat (w :: u64) < 18446744073709551616"
  using unat_less_exp [of w] by simp

lemma unat_add_of_nat:
  "unat a + i < 2 ^ LENGTH('a) \<Longrightarrow> unat (a + word_of_nat i) = unat a + i" for a :: "'a::len word"
  by (simp add: unat_word_ariths unat_of_nat mod_add_right_eq)

lemma unat_sub_le: "b \<le> a \<Longrightarrow> unat (a - b) = unat a - unat b" for a b :: "'a::len word"
  by (simp add: unat_sub word_le_nat_alt)

text \<open>A base whose low bits are clear and an offset that only has low bits: \<open>|\<close> is \<open>+\<close>.\<close>

lemma or_base_offset:
  fixes b off :: u64
  assumes "2 ^ n dvd unat b" and "unat off < 2 ^ n" and "n \<le> 64"
  shows "unat (b OR off) = unat b + unat off" and "unat b + unat off < 2 ^ 64"
proof -
  have low: "take_bit n b = 0"
    using assms(1) by (simp add: word_unat_eq_iff unat_take dvd_eq_mod_eq_0 del: take_bit_eq_mod)
  have high: "take_bit n off = off"
    using assms(2) by (simp add: word_unat_eq_iff unat_take)
  have "b AND off = 0"
  proof (rule bit_word_eqI)
    fix i assume "i < LENGTH(64)"
    show "bit (b AND off) i \<longleftrightarrow> bit (0 :: u64) i"
    proof (cases "i < n")
      case True
      then have "\<not> bit b i"
        using low by (metis bit_0_eq bit_take_bit_iff bot_apply bot_bool_def)
      then show ?thesis by (simp add: bit_simps)
    next
      case False
      then have "\<not> bit off i"
        using high by (metis bit_take_bit_iff)
      then show ?thesis by (simp add: bit_simps)
    qed
  qed
  then have sum: "b OR off = b + off"
    by (simp add: disjunctive_add_eq_or)
  obtain q where q: "unat b = 2 ^ n * q"
    using assms(1) by auto
  have "(2::nat) ^ 64 = 2 ^ n * 2 ^ (64 - n)"
    using assms(3) by (simp flip: power_add)
  then have "2 ^ n * q < 2 ^ n * 2 ^ (64 - n)"
    using q unat_u64_less [of b] by simp
  then have "q + 1 \<le> 2 ^ (64 - n)"
    by simp
  then have "2 ^ n * (q + 1) \<le> (2::nat) ^ 64"
    using \<open>(2::nat) ^ 64 = 2 ^ n * 2 ^ (64 - n)\<close> by (metis mult_le_mono2)
  then show bound: "unat b + unat off < 2 ^ 64"
    using q assms(2) by (simp add: algebra_simps)
  then show "unat (b OR off) = unat b + unat off"
    by (simp add: sum unat_word_ariths)
qed

lemma mask_numerals:
  "(0xF :: 'a::len word) = mask 4" "(0xFF :: 'a word) = mask 8" "(0xFFF :: 'a word) = mask 12"
  "(0xFFFF :: 'a word) = mask 16"
  "(0xFFFFFFFF :: 'a word) = mask 32" "(7 :: 'a word) = mask 3" "(3 :: 'a word) = mask 2"
  by (simp_all add: mask_eq_exp_minus_1)

lemma and_flag_neq_0: "w AND push_bit k 1 \<noteq> 0 \<longleftrightarrow> bit w k" for w :: "'a::len word"
  using has_bit_iff [of w k] by (simp only: has_bit_def)

subsection \<open>Saturating and checked arithmetic\<close>

definition sat_add :: "'a::len word \<Rightarrow> 'a word \<Rightarrow> 'a word" where
  "sat_add a b = (if unat a + unat b < 2 ^ LENGTH('a) then a + b else - 1)"

definition sat_mul :: "'a::len word \<Rightarrow> 'a word \<Rightarrow> 'a word" where
  "sat_mul a b = (if unat a * unat b < 2 ^ LENGTH('a) then a * b else - 1)"

definition sat_sub :: "'a::len word \<Rightarrow> 'a word \<Rightarrow> 'a word" where
  "sat_sub a b = (if b \<le> a then a - b else 0)"

definition checked_add :: "'a::len word \<Rightarrow> 'a word \<Rightarrow> 'a word option" where
  "checked_add a b = (if unat a + unat b < 2 ^ LENGTH('a) then Some (a + b) else None)"

lemma unat_minus_one_max [simp]: "unat (- 1 :: 'a::len word) = 2 ^ LENGTH('a) - 1"
  by (simp add: unsigned_minus_1_eq_mask mask_eq_exp_minus_1)

lemma unat_sat_add:
  "unat (sat_add a b) = min (unat a + unat b) (2 ^ LENGTH('a) - 1)" for a b :: "'a::len word"
  by (auto simp: sat_add_def unat_word_ariths min_def)

lemma unat_sat_mul:
  "unat (sat_mul a b) = min (unat a * unat b) (2 ^ LENGTH('a) - 1)" for a b :: "'a::len word"
proof (cases "unat a * unat b < 2 ^ LENGTH('a)")
  case True
  then show ?thesis by (simp add: sat_mul_def unat_word_ariths)
next
  case False
  then have "2 ^ LENGTH('a) \<le> unat a * unat b"
    by simp
  then have "2 ^ LENGTH('a) - 1 \<le> unat a * unat b"
    by linarith
  with False show ?thesis by (simp add: sat_mul_def min_absorb2 del: One_nat_def)
qed

lemma checked_add_SomeD:
  "checked_add a b = Some c \<Longrightarrow> unat c = unat a + unat b \<and> c = a + b"
  by (auto simp: checked_add_def unat_word_ariths split: if_splits)

subsection \<open>Results\<close>

text \<open>A Rust \<open>Result<T, E>\<close> is \<open>'e + 'a\<close>; \<open>and_then\<close> is the \<open>?\<close> operator.\<close>

definition and_then :: "'e + 'a \<Rightarrow> ('a \<Rightarrow> 'e + 'b) \<Rightarrow> 'e + 'b" where
  "and_then r f = (case r of Inl e \<Rightarrow> Inl e | Inr x \<Rightarrow> f x)"

lemma and_then_simps [simp]:
  "and_then (Inl e) f = Inl e"
  "and_then (Inr x) f = f x"
  by (simp_all add: and_then_def)

lemma and_then_Inr_iff [res_simps]:
  "and_then r f = Inr y \<longleftrightarrow> (\<exists>x. r = Inr x \<and> f x = Inr y)"
  by (cases r) auto

lemma and_then_Inl_iff [res_simps]:
  "and_then r f = Inl e \<longleftrightarrow> r = Inl e \<or> (\<exists>x. r = Inr x \<and> f x = Inl e)"
  by (cases r) auto

definition map_err :: "('e \<Rightarrow> 'f) \<Rightarrow> 'e + 'a \<Rightarrow> 'f + 'a" where
  "map_err f r = (case r of Inl e \<Rightarrow> Inl (f e) | Inr x \<Rightarrow> Inr x)"

lemma map_err_simps [simp]:
  "map_err f (Inl e) = Inl (f e)"
  "map_err f (Inr x) = Inr x"
  by (simp_all add: map_err_def)

lemma map_err_Inr_iff [res_simps]: "map_err f r = Inr y \<longleftrightarrow> r = Inr y"
  by (cases r) auto

lemma map_err_Inl_iff [res_simps]: "map_err f r = Inl y \<longleftrightarrow> (\<exists>e. r = Inl e \<and> y = f e)"
  by (cases r) auto

definition ok :: "'e + 'a \<Rightarrow> 'a option" where
  "ok r = (case r of Inl _ \<Rightarrow> None | Inr x \<Rightarrow> Some x)"

lemma ok_simps [simp]: "ok (Inl e) = None" "ok (Inr x) = Some x"
  by (simp_all add: ok_def)

text \<open>\<open>Option::unwrap_or\<close>.\<close>

definition unwrap_or :: "'a \<Rightarrow> 'a option \<Rightarrow> 'a" where
  "unwrap_or d x = (case x of None \<Rightarrow> d | Some y \<Rightarrow> y)"

lemma unwrap_or_simps [simp]: "unwrap_or d None = d" "unwrap_or d (Some y) = y"
  by (simp_all add: unwrap_or_def)

text \<open>A fallible \<open>map\<close> over a list that stops at the first error, as a \<open>for\<close> loop with \<open>?\<close>.\<close>

fun map_res :: "('a \<Rightarrow> 'e + 'b) \<Rightarrow> 'a list \<Rightarrow> 'e + 'b list" where
  "map_res f [] = Inr []"
| "map_res f (x # xs) = and_then (f x) (\<lambda>y. and_then (map_res f xs) (\<lambda>ys. Inr (y # ys)))"

lemma map_res_Inr_iff:
  "map_res f xs = Inr ys \<longleftrightarrow> length ys = length xs \<and> (\<forall>i < length xs. f (xs ! i) = Inr (ys ! i))"
proof (induction xs arbitrary: ys)
  case Nil
  then show ?case by auto
next
  case (Cons x xs)
  show ?case
  proof (cases ys)
    case Nil
    then show ?thesis by (auto simp: res_simps)
  next
    case (Cons y ys')
    then show ?thesis
      by (auto simp: res_simps Cons.IH nth_Cons' less_Suc_eq_0_disj split: if_splits)
  qed
qed

lemma find_nth_unique:
  assumes "i < length xs" and "P (xs ! i)" and "\<And>j. j < i \<Longrightarrow> \<not> P (xs ! j)"
  shows "find P xs = Some (xs ! i)"
  using assms by (subst find_Some_iff) blast

text \<open>\<open>Iterator::find_map\<close>.\<close>

fun find_map :: "('a \<Rightarrow> 'b option) \<Rightarrow> 'a list \<Rightarrow> 'b option" where
  "find_map f [] = None"
| "find_map f (x # xs) = (case f x of None \<Rightarrow> find_map f xs | Some y \<Rightarrow> Some y)"

lemma find_map_SomeD: "find_map f xs = Some y \<Longrightarrow> \<exists>x \<in> set xs. f x = Some y"
  by (induction xs) (auto split: option.splits)

lemma find_map_None_iff: "find_map f xs = None \<longleftrightarrow> (\<forall>x \<in> set xs. f x = None)"
  by (induction xs) (auto split: option.splits)

lemma map_res_Inl_ex: "map_res f xs = Inl e \<Longrightarrow> \<exists>x \<in> set xs. f x = Inl e"
  by (induction xs) (auto simp: res_simps)

subsection \<open>Operations on a state that may fail\<close>

text \<open>
  A call that changes a state and returns a result, and the \<open>?\<close> that goes on with its value. What
  holds after a call that succeeds, and that a call never fails, are composed the same way.
\<close>

type_synonym ('s, 'e, 'a) op = "'s \<Rightarrow> 's \<times> ('e + 'a)"

definition then_do :: "('s, 'e, 'a) op \<Rightarrow> ('a \<Rightarrow> ('s, 'e, 'b) op) \<Rightarrow> ('s, 'e, 'b) op" where
  "then_do m k s = (case m s of (s', Inl e) \<Rightarrow> (s', Inl e) | (s', Inr x) \<Rightarrow> k x s')"

definition give :: "'a \<Rightarrow> ('s, 'e, 'a) op" where
  "give x s = (s, Inr x)"

fun each_do :: "('x \<Rightarrow> ('s, 'e, unit) op) \<Rightarrow> 'x list \<Rightarrow> ('s, 'e, unit) op" where
  "each_do f [] = give ()"
| "each_do f (x # xs) = then_do (f x) (\<lambda>_. each_do f xs)"

definition succeeds_with :: "('s \<Rightarrow> bool) \<Rightarrow> ('s, 'e, 'a) op \<Rightarrow> ('s \<Rightarrow> bool) \<Rightarrow> bool" where
  "succeeds_with P m Q \<longleftrightarrow> (\<forall>s s' x. P s \<longrightarrow> m s = (s', Inr x) \<longrightarrow> Q s')"

definition never_fails :: "('s, 'e, 'a) op \<Rightarrow> bool" where
  "never_fails m \<longleftrightarrow> (\<forall>s. \<exists>x. snd (m s) = Inr x)"

lemma succeeds_withD: "succeeds_with P m Q \<Longrightarrow> P s \<Longrightarrow> m s = (s', Inr x) \<Longrightarrow> Q s'"
  by (simp add: succeeds_with_def)

lemma succeeds_with_then:
  "succeeds_with P m Q \<Longrightarrow> (\<And>x. succeeds_with Q (k x) R) \<Longrightarrow> succeeds_with P (then_do m k) R"
  unfolding succeeds_with_def then_do_def by (fastforce split: prod.splits sum.splits)

lemma succeeds_with_give: "succeeds_with P (give x) P"
  by (simp add: succeeds_with_def give_def)

lemma succeeds_with_if:
  "succeeds_with P m Q \<Longrightarrow> succeeds_with P n Q \<Longrightarrow> succeeds_with P (if b then m else n) Q"
  by simp

lemma succeeds_with_each:
  "(\<And>x. succeeds_with P (f x) P) \<Longrightarrow> succeeds_with P (each_do f xs) P"
  by (induction xs) (auto intro: succeeds_with_then succeeds_with_give)

lemma never_fails_then:
  assumes "never_fails m" "\<And>x. never_fails (k x)"
  shows "never_fails (then_do m k)"
  unfolding never_fails_def
proof
  fix s
  obtain s' x where m: "m s = (s', Inr x)"
    using assms(1) unfolding never_fails_def by (cases "m s") (auto dest: spec [of _ s])
  obtain y where "snd (k x s') = Inr y"
    using assms(2) unfolding never_fails_def by blast
  then show "\<exists>y. snd (then_do m k s) = Inr y"
    by (simp add: then_do_def m)
qed

lemma never_fails_give: "never_fails (give x)"
  by (simp add: never_fails_def give_def)

lemma never_fails_each: "(\<And>x. never_fails (f x)) \<Longrightarrow> never_fails (each_do f xs)"
  by (induction xs) (auto intro: never_fails_then never_fails_give)

lemma never_fails_if: "never_fails m \<Longrightarrow> never_fails m' \<Longrightarrow> never_fails (if c then m else m')"
  by simp

lemma never_failsE: "never_fails m \<Longrightarrow> (\<And>s' x. m s = (s', Inr x) \<Longrightarrow> thesis) \<Longrightarrow> thesis"
  unfolding never_fails_def by (metis prod.collapse)

lemma each_do_append: "each_do f (xs @ ys) = then_do (each_do f xs) (\<lambda>_. each_do f ys)"
  by (induction xs) (auto simp: then_do_def give_def fun_eq_iff split: prod.splits sum.splits)

subsection \<open>Invariants of operations\<close>

text \<open>
  \<open>yields P m Q\<close>: from a state with \<open>P\<close> the call leaves one with \<open>P\<close>, whether it succeeds or fails,
  and a value it returns has \<open>Q\<close>. \<open>keeps\<close> says nothing of the value.
\<close>

definition yields :: "('s \<Rightarrow> bool) \<Rightarrow> ('s, 'e, 'a) op \<Rightarrow> ('a \<Rightarrow> bool) \<Rightarrow> bool" where
  "yields P m Q \<longleftrightarrow> (\<forall>s. P s \<longrightarrow> P (fst (m s)) \<and> (\<forall>x. snd (m s) = Inr x \<longrightarrow> Q x))"

abbreviation keeps :: "('s \<Rightarrow> bool) \<Rightarrow> ('s, 'e, 'a) op \<Rightarrow> bool" where
  "keeps P m \<equiv> yields P m (\<lambda>_. True)"

lemma yields_weaken: "yields P m Q \<Longrightarrow> (\<And>x. Q x \<Longrightarrow> R x) \<Longrightarrow> yields P m R"
  by (simp add: yields_def)

lemma yieldsD: "yields P m Q \<Longrightarrow> P s \<Longrightarrow> m s = (s', r) \<Longrightarrow> P s' \<and> (\<forall>x. r = Inr x \<longrightarrow> Q x)"
  by (auto simp: yields_def dest: spec [of _ s])

lemma yields_then:
  assumes "yields P m Q" "\<And>x. Q x \<Longrightarrow> yields P (k x) R"
  shows "yields P (then_do m k) R"
  unfolding yields_def
proof (intro allI impI)
  fix s assume "P s"
  obtain s' r where m: "m s = (s', r)" by (cases "m s")
  then have s': "P s'" "\<And>x. r = Inr x \<Longrightarrow> Q x" using yieldsD [OF assms(1) \<open>P s\<close> m] by auto
  then show "P (fst (then_do m k s)) \<and> (\<forall>x. snd (then_do m k s) = Inr x \<longrightarrow> R x)"
    using assms(2) by (cases r) (auto simp: then_do_def m yields_def)
qed

lemma keeps_then [keeping]: "keeps P m \<Longrightarrow> (\<And>x. keeps P (k x)) \<Longrightarrow> keeps P (then_do m k)"
  by (rule yields_then)

lemma keeps_give [keeping]: "keeps P (give x)"
  by (simp add: yields_def give_def)

lemma keeps_fail [keeping]: "keeps P (\<lambda>s. (s, Inl e))"
  by (simp add: yields_def)

lemma keeps_if [keeping]: "keeps P m \<Longrightarrow> keeps P n \<Longrightarrow> keeps P (if b then m else n)"
  by simp

lemma keeps_each [keeping]: "(\<And>x. keeps P (f x)) \<Longrightarrow> keeps P (each_do f xs)"
  by (induction xs) (auto intro: keeping)

lemma keeps_case_option [keeping]:
  "keeps P m \<Longrightarrow> (\<And>x. keeps P (k x)) \<Longrightarrow> keeps P (case z of None \<Rightarrow> m | Some x \<Rightarrow> k x)"
  by (simp split: option.split)

lemma keeps_case_sum [keeping]:
  "(\<And>e. keeps P (m e)) \<Longrightarrow> (\<And>x. keeps P (k x)) \<Longrightarrow> keeps P (case z of Inl e \<Rightarrow> m e | Inr x \<Rightarrow> k x)"
  by (simp split: sum.split)

lemma keeps_case_prod [keeping]: "(\<And>x y. keeps P (k x y)) \<Longrightarrow> keeps P (case z of (x, y) \<Rightarrow> k x y)"
  by (simp split: prod.split)

lemma keeps_let [keeping]: "keeps P (k x) \<Longrightarrow> keeps P (let y = x in k y)"
  by simp

lemma keeps_at: "(\<And>s0. keeps P (m s0)) \<Longrightarrow> keeps P (\<lambda>s. m s s)"
  by (simp add: yields_def)

lemma yields_at: "(\<And>s0. yields P (m s0) Q) \<Longrightarrow> yields P (\<lambda>s. m s s) Q"
  by (simp add: yields_def)

lemma keepsD: "keeps P m \<Longrightarrow> P s \<Longrightarrow> P (fst (m s))"
  by (simp add: yields_def)

lemma keeps_runs:
  assumes "never_fails m" "keeps P m" "P s"
  obtains s' x where "m s = (s', Inr x)" "P s'"
  using never_failsE [OF assms(1)] keepsD [OF assms(2,3)] by (metis fst_conv)

lemma keepsI: "(\<And>s. P s \<Longrightarrow> P (fst (m s))) \<Longrightarrow> keeps P m"
  by (simp add: yields_def)

lemma yields_give: "Q x \<Longrightarrow> yields P (give x) Q"
  by (simp add: yields_def give_def)

lemma keeps_step: "keeps P m \<Longrightarrow> (\<And>x. yields P (k x) R) \<Longrightarrow> yields P (then_do m k) R"
  by (rule yields_then)

end
