(* ===== verification/Rust_Text.thy ===== *)
theory Rust_Text
  imports Prelude
begin

section \<open>Strings and formatting of the standard library\<close>

text \<open>
  A Rust \<open>str\<close> is a UTF-8 byte sequence; here it is a \<open>string\<close>, whose characters are bytes, so
  lengths, indices and slices count what Rust counts. The theory holds the formatting the
  sources use: \<open>{}\<close> on integers, \<open>{:x}\<close>, \<open>{:#x}\<close>, \<open>{:#018x}\<close> and \<open>join\<close>.
\<close>

subsection \<open>Digits\<close>

definition digit_char :: "nat \<Rightarrow> char" where
  "digit_char d = (if d < 10 then char_of (48 + d) else char_of (87 + d))"

text \<open>Most significant digit first, at least one digit, in base \<open>b\<close> (2 to 16).\<close>

fun digits_in :: "nat \<Rightarrow> nat \<Rightarrow> string" where
  "digits_in b n =
     (if b \<le> 1 \<or> n < b then [digit_char n] else digits_in b (n div b) @ [digit_char (n mod b)])"

declare digits_in.simps [simp del]

definition show_nat :: "nat \<Rightarrow> string" where
  "show_nat n = digits_in 10 n"

definition show_int :: "int \<Rightarrow> string" where
  "show_int i = (if i < 0 then CHR ''-'' # show_nat (nat (- i)) else show_nat (nat i))"

definition show_hex :: "nat \<Rightarrow> string" where
  "show_hex n = digits_in 16 n"

definition pad_left :: "nat \<Rightarrow> char \<Rightarrow> string \<Rightarrow> string" where
  "pad_left w c s = replicate (w - length s) c @ s"

text \<open>\<open>{:#x}\<close> and \<open>{:#0wx}\<close>, where the width counts the prefix.\<close>

definition show_hex_alt :: "nat \<Rightarrow> string" where
  "show_hex_alt n = ''0x'' @ show_hex n"

definition show_hex_alt_pad :: "nat \<Rightarrow> nat \<Rightarrow> string" where
  "show_hex_alt_pad w n = ''0x'' @ pad_left (w - 2) CHR ''0'' (show_hex n)"

fun join :: "string \<Rightarrow> string list \<Rightarrow> string" where
  "join sep [] = []"
| "join sep [s] = s"
| "join sep (s # t # ts) = s @ sep @ join sep (t # ts)"

lemma digits_in_nonempty [simp]: "digits_in b n \<noteq> []"
  by (subst digits_in.simps) simp

lemma length_show_nat_pos: "0 < length (show_nat n)"
  by (simp add: show_nat_def)

end
