(* ===== verification/Guest_Memory.thy ===== *)
theory Guest_Memory
  imports Rust_Text
begin

section \<open>Guest physical memory\<close>

text \<open>
  Models \<^verbatim>\<open>crates/princess-bin/src/guestmem.rs\<close>: the error type of a guest-memory read, the
  trait \<open>GuestMemory\<close> as a record of its four operations (a trait object is exactly that), and
  the sparse \<open>GuestRam\<close> that replays recorded captures. Operations that mutate return the new
  memory beside their result, because a failing multi-byte write keeps the bytes it had already
  stored. Plain \<open>+\<close> on \<open>u64\<close> is the wrapping word addition of a release build.

  The locale \<open>guest_source\<close> is the contract the page-table walker and the descriptor decoders
  rely on; it is interpreted on \<open>GuestRam\<close> at the end.
\<close>

subsection \<open>Errors\<close>

datatype memory_error =
    NotInRam u64
  | Short u64 nat nat
  | Source u64 string

fun show_memory_error :: "memory_error \<Rightarrow> string" where
  "show_memory_error (NotInRam address) =
     ''physical address '' @ show_hex_alt (unat address) @ '' is outside guest RAM''"
| "show_memory_error (Short address wanted got) =
     ''wanted '' @ show_nat wanted @ '' bytes at physical '' @ show_hex_alt (unat address) @
     '', only '' @ show_nat got @ '' available''"
| "show_memory_error (Source address message) =
     ''reading physical '' @ show_hex_alt (unat address) @ '' failed: '' @ message"

subsection \<open>Little-endian assembly\<close>

text \<open>The loop \<open>value |= u64::from(byte) << (index * 8)\<close>.\<close>

fun le_loop :: "u64 \<Rightarrow> nat \<Rightarrow> u8 list \<Rightarrow> u64" where
  "le_loop acc i [] = acc"
| "le_loop acc i (b # bs) = le_loop (acc OR push_bit (i * 8) (ucast b)) (Suc i) bs"

definition le_word :: "u8 list \<Rightarrow> u64" where
  "le_word bs = le_loop 0 0 bs"

definition le_bytes :: "u64 \<Rightarrow> u8 list" where
  "le_bytes v = map (\<lambda>i. ucast (drop_bit (i * 8) v)) [0..<8]"

lemma length_le_bytes [simp]: "length (le_bytes v) = 8"
  by (simp add: le_bytes_def)

lemma bit_le_loop [wbits]:
  "bit (le_loop acc i bs) n \<longleftrightarrow>
     bit acc n \<or> (n < 64 \<and> i \<le> n div 8 \<and> n div 8 < i + length bs \<and> bit (bs ! (n div 8 - i)) (n mod 8))"
proof (induction bs arbitrary: acc i)
  case Nil
  then show ?case by auto
next
  case (Cons b bs)
  have shift: "bit (push_bit (i * 8) (ucast b :: u64)) n \<longleftrightarrow> n < 64 \<and> n div 8 = i \<and> bit b (n mod 8)"
  proof -
    have "n - i * 8 = n mod 8" if "n div 8 = i"
      using that by (simp add: minus_mult_div_eq_mod mult.commute flip: that)
    moreover have "n div 8 = i" if "i * 8 \<le> n" "n - i * 8 < 8"
      using that by linarith
    moreover have "i * 8 \<le> n" if "n div 8 = i"
      using that by linarith
    moreover have "k < 8" if "bit b k" for k
      using bit_imp_le_length [OF that] by simp
    ultimately show ?thesis
      by (auto simp: bit_simps)
  qed
  have step: "(b # bs) ! (n div 8 - i) = bs ! (n div 8 - Suc i)" if "Suc i \<le> n div 8"
    using that by (simp add: nth_Cons' Suc_diff_Suc)
  show ?case
    by (cases "n div 8 = i") (auto simp: Cons.IH bit_or_iff shift step nth_Cons' not_less_eq_eq)
qed

lemma bit_le_word [wbits]:
  "bit (le_word bs) n \<longleftrightarrow> n < 64 \<and> n div 8 < length bs \<and> bit (bs ! (n div 8)) (n mod 8)"
  by (simp add: le_word_def bit_le_loop)

lemma le_word_le_bytes [simp]: "le_word (le_bytes v) = v"
  by (rule bit_word_eqI) (auto simp: bit_le_word le_bytes_def bit_simps less_mult_imp_div_less)

lemma le_bytes_le_word: "length bs = 8 \<Longrightarrow> le_bytes (le_word bs) = bs"
proof (rule nth_equalityI)
  fix i assume len: "length bs = 8" and "i < length (le_bytes (le_word bs))"
  then have i: "i < 8" by simp
  have d: "(i * 8 + n) div 8 = i" "(i * 8 + n) mod 8 = n" if "n < 8" for n
    using that by auto
  show "le_bytes (le_word bs) ! i = bs ! i"
    by (rule bit_word_eqI) (use len i d in \<open>auto simp: le_bytes_def bit_simps bit_le_word\<close>)
qed simp

subsection \<open>\<open>GuestRam\<close>\<close>

record guest_ram =
  gr_bytes :: "u64 \<Rightarrow> u8 option"
  gr_size :: u64

definition guest_ram_new :: "u64 \<Rightarrow> guest_ram" where
  "guest_ram_new sz = \<lparr>gr_bytes = (\<lambda>_. None), gr_size = sz\<rparr>"

definition write_byte :: "guest_ram \<Rightarrow> u64 \<Rightarrow> u8 \<Rightarrow> guest_ram \<times> (memory_error + unit)" where
  "write_byte r address b =
     (if gr_size r \<le> address then (r, Inl (NotInRam address))
      else (r\<lparr>gr_bytes := (gr_bytes r)(address \<mapsto> b)\<rparr>, Inr ()))"

fun write_u64_loop :: "guest_ram \<Rightarrow> u64 \<Rightarrow> u64 \<Rightarrow> nat list \<Rightarrow> guest_ram \<times> (memory_error + unit)" where
  "write_u64_loop r address v [] = (r, Inr ())"
| "write_u64_loop r address v (index # rest) =
     (case write_byte r (address + word_of_nat index) (ucast (drop_bit (index * 8) v)) of
        (r', Inl e) \<Rightarrow> (r', Inl e)
      | (r', Inr _) \<Rightarrow> write_u64_loop r' address v rest)"

definition write_u64 :: "guest_ram \<Rightarrow> u64 \<Rightarrow> u64 \<Rightarrow> guest_ram \<times> (memory_error + unit)" where
  "write_u64 r address v = write_u64_loop r address v [0..<8]"

fun write_bytes_loop :: "guest_ram \<Rightarrow> u64 \<Rightarrow> nat \<Rightarrow> u8 list \<Rightarrow> guest_ram \<times> (memory_error + unit)" where
  "write_bytes_loop r address index [] = (r, Inr ())"
| "write_bytes_loop r address index (b # bs) =
     (case write_byte r (address + word_of_nat index) b of
        (r', Inl e) \<Rightarrow> (r', Inl e)
      | (r', Inr _) \<Rightarrow> write_bytes_loop r' address (Suc index) bs)"

definition write_bytes :: "guest_ram \<Rightarrow> u64 \<Rightarrow> u8 list \<Rightarrow> guest_ram \<times> (memory_error + unit)" where
  "write_bytes r address data = write_bytes_loop r address 0 data"

definition byte_at :: "guest_ram \<Rightarrow> u64 \<Rightarrow> u8" where
  "byte_at r a = (case gr_bytes r a of None \<Rightarrow> 0 | Some b \<Rightarrow> b)"

definition read_bytes :: "guest_ram \<Rightarrow> u64 \<Rightarrow> nat \<Rightarrow> memory_error + u8 list" where
  "read_bytes r address len =
     (let end_at = sat_add address (word_of_nat len)
      in if gr_size r < end_at then
           (if gr_size r \<le> address then Inl (NotInRam address)
            else Inl (Short address len (unat (gr_size r - address))))
         else Inr (map (\<lambda>offset. byte_at r (address + word_of_nat offset)) [0..<len]))"

definition read_u64 :: "guest_ram \<Rightarrow> u64 \<Rightarrow> memory_error + u64" where
  "read_u64 r address = and_then (read_bytes r address 8) (\<lambda>bytes. Inr (le_word bytes))"

definition ram_size :: "guest_ram \<Rightarrow> u64 option" where
  "ram_size r = Some (gr_size r)"

subsection \<open>What a write stores and what a read returns\<close>

lemma write_byte_simps [simp]:
  "gr_size (fst (write_byte r a b)) = gr_size r"
  "snd (write_byte r a b) = Inr () \<longleftrightarrow> a < gr_size r"
  by (auto simp: write_byte_def)

lemma write_bytes_loop_size [simp]: "gr_size (fst (write_bytes_loop r a i bs)) = gr_size r"
  by (induction bs arbitrary: r i) (auto simp: write_byte_def split: prod.splits sum.splits)

text \<open>\<open>write_u64\<close> is \<open>write_bytes\<close> of the little-endian bytes, failures included.\<close>

lemma write_u64_loop_bytes:
  "write_u64_loop r a v [i..<i + n] =
     write_bytes_loop r a i (map (\<lambda>k. ucast (drop_bit (k * 8) v)) [i..<i + n])"
proof (induction n arbitrary: r i)
  case 0
  then show ?case by simp
next
  case (Suc n)
  have "[i..<i + Suc n] = i # [Suc i..<Suc i + n]"
    by (simp add: upt_conv_Cons)
  then show ?case
    using Suc.IH [of _ "Suc i"] by (simp del: upt_Suc split: prod.splits sum.splits)
qed

lemma write_u64_as_bytes: "write_u64 r a v = write_bytes r a (le_bytes v)"
  using write_u64_loop_bytes [of r a v 0 8]
  by (simp add: write_u64_def write_bytes_def le_bytes_def del: upt_Suc upt_rec_numeral)

text \<open>A range that fits below the declared size is stored without wrap-around.\<close>

lemma write_bytes_loop_ok:
  "unat a + i + length bs \<le> unat (gr_size r) \<Longrightarrow>
   snd (write_bytes_loop r a i bs) = Inr ()"
proof (induction bs arbitrary: r i)
  case Nil
  then show ?case by simp
next
  case (Cons b bs)
  have "unat (a + word_of_nat i) = unat a + i"
    using Cons.prems unat_u64_less [of "gr_size r"]
    by (simp add: unat_add_of_nat)
  then have "a + word_of_nat i < gr_size r"
    using Cons.prems by (simp add: word_less_nat_alt)
  then show ?case
    using Cons.prems by (simp add: write_byte_def Cons.IH not_less flip: linorder_not_less)
qed

lemma write_bytes_loop_byte:
  assumes "unat a + i + length bs \<le> unat (gr_size r)"
  shows "byte_at (fst (write_bytes_loop r a i bs)) x =
     (if unat a + i \<le> unat x \<and> unat x < unat a + i + length bs
      then bs ! (unat x - (unat a + i)) else byte_at r x)"
  using assms
proof (induction bs arbitrary: r i)
  case Nil
  then show ?case by auto
next
  case (Cons b bs)
  have at: "unat (a + word_of_nat i) = unat a + i"
    using Cons.prems unat_u64_less [of "gr_size r"] by (simp add: unat_add_of_nat)
  then have inside: "a + word_of_nat i < gr_size r"
    using Cons.prems by (simp add: word_less_nat_alt)
  let ?r = "r\<lparr>gr_bytes := (gr_bytes r)(a + word_of_nat i \<mapsto> b)\<rparr>"
  have here: "byte_at ?r x = (if unat x = unat a + i then b else byte_at r x)"
    using at by (auto simp: byte_at_def word_unat_eq_iff)
  have "byte_at (fst (write_bytes_loop r a i (b # bs))) x = byte_at (fst (write_bytes_loop ?r a (Suc i) bs)) x"
    using inside by (simp add: write_byte_def linorder_not_less [symmetric])
  also have "\<dots> = (if unat a + Suc i \<le> unat x \<and> unat x < unat a + Suc i + length bs
      then bs ! (unat x - (unat a + Suc i)) else byte_at ?r x)"
    using Cons.prems by (subst Cons.IH) auto
  also have "\<dots> = (if unat a + i \<le> unat x \<and> unat x < unat a + i + length (b # bs)
      then (b # bs) ! (unat x - (unat a + i)) else byte_at r x)"
    unfolding here by (auto simp: nth_Cons' Suc_diff_le)
  finally show ?case .
qed

text \<open>Conversely a successful write of more than one byte did fit: it cannot have wrapped.\<close>

lemma write_bytes_loop_fits:
  assumes "snd (write_bytes_loop r a i bs) = Inr ()" and "unat a + i < 2 ^ 64" and "bs \<noteq> []"
  shows "unat a + i + length bs \<le> unat (gr_size r)"
  using assms
proof (induction bs arbitrary: r i)
  case Nil
  then show ?case by simp
next
  case (Cons b bs)
  have at: "unat (a + word_of_nat i) = unat a + i"
    using Cons.prems by (simp add: unat_add_of_nat)
  have inside: "a + word_of_nat i < gr_size r"
    using Cons.prems(1) by (auto simp: write_byte_def not_le split: if_splits)
  then have fits: "unat a + i < unat (gr_size r)"
    by (simp add: word_less_nat_alt at)
  show ?case
  proof (cases "bs = []")
    case True
    with fits show ?thesis by simp
  next
    case False
    have "snd (write_bytes_loop (fst (write_byte r (a + word_of_nat i) b)) a (Suc i) bs) = Inr ()"
      using Cons.prems(1) by (auto simp: write_byte_def split: if_splits)
    moreover have "unat a + Suc i < 2 ^ 64"
      using fits unat_u64_less [of "gr_size r"] by simp
    ultimately show ?thesis
      using Cons.IH [of "fst (write_byte r (a + word_of_nat i) b)" "Suc i"] False by simp
  qed
qed

lemma read_bytes_ok:
  assumes "unat a + n \<le> unat (gr_size r)"
  shows "read_bytes r a n = Inr (map (\<lambda>i. byte_at r (a + word_of_nat i)) [0..<n])"
proof -
  have "unat (word_of_nat n :: u64) = n"
    using assms unat_u64_less [of "gr_size r"] by (simp add: unat_of_nat)
  then have "unat (sat_add a (word_of_nat n)) \<le> unat (gr_size r)"
    using assms by (simp add: unat_sat_add)
  then show ?thesis
    by (simp add: read_bytes_def word_less_nat_alt)
qed

lemma read_bytes_length: "read_bytes r a n = Inr bs \<Longrightarrow> length bs = n"
  by (auto simp: read_bytes_def Let_def split: if_splits)

subsection \<open>The trait \<open>GuestMemory\<close>\<close>

record guest_memory =
  gm_read_u64 :: "u64 \<Rightarrow> memory_error + u64"
  gm_read_bytes :: "u64 \<Rightarrow> nat \<Rightarrow> memory_error + u8 list"
  gm_ram_size :: "u64 option"
  gm_is_ram :: "u64 \<Rightarrow> bool"

text \<open>The trait's provided \<open>is_ram\<close>, which \<open>GuestRam\<close> does not override.\<close>

definition default_is_ram :: "u64 option \<Rightarrow> u64 \<Rightarrow> bool" where
  "default_is_ram sz address = (case sz of None \<Rightarrow> False | Some s \<Rightarrow> address < s)"

definition ram_memory :: "guest_ram \<Rightarrow> guest_memory" where
  "ram_memory r =
     \<lparr>gm_read_u64 = read_u64 r, gm_read_bytes = read_bytes r, gm_ram_size = ram_size r,
      gm_is_ram = default_is_ram (ram_size r)\<rparr>"

lemma ram_memory_simps [simp]:
  "gm_read_u64 (ram_memory r) = read_u64 r"
  "gm_read_bytes (ram_memory r) = read_bytes r"
  "gm_ram_size (ram_memory r) = Some (gr_size r)"
  "gm_is_ram (ram_memory r) a \<longleftrightarrow> a < gr_size r"
  by (simp_all add: ram_memory_def ram_size_def default_is_ram_def)

subsection \<open>The contract its clients use\<close>

text \<open>
  What \<^verbatim>\<open>pagetable.rs\<close> and \<^verbatim>\<open>descriptor.rs\<close> assume of any \<open>GuestMemory\<close>: a granted
  \<open>read_bytes\<close> returns exactly the bytes asked for (otherwise \<open>copy_from_slice\<close> panics), and
  \<open>read_u64\<close> is the little-endian reading of the same eight bytes, failing as they do.
\<close>

locale guest_source =
  fixes mem :: guest_memory
  assumes bytes_length: "gm_read_bytes mem a n = Inr bs \<Longrightarrow> length bs = n"
    and u64_bytes: "gm_read_u64 mem a = and_then (gm_read_bytes mem a 8) (\<lambda>bs. Inr (le_word bs))"
begin

lemma read_u64_Inr_iff:
  "gm_read_u64 mem a = Inr v \<longleftrightarrow> gm_read_bytes mem a 8 = Inr (le_bytes v)"
proof -
  have "bs = le_bytes (le_word bs)" if "gm_read_bytes mem a 8 = Inr bs" for bs
    using le_bytes_le_word [OF bytes_length [OF that]] by simp
  then show ?thesis
    by (auto simp: u64_bytes res_simps)
qed

lemma read_u64_Inl_iff:
  "gm_read_u64 mem a = Inl e \<longleftrightarrow> gm_read_bytes mem a 8 = Inl e"
  by (auto simp: u64_bytes res_simps)

end

interpretation gram: guest_source "ram_memory r" for r
  by unfold_locales (auto simp: read_u64_def dest: read_bytes_length)

subsection \<open>Properties\<close>

lemma write_u64_stored:
  assumes "snd (write_u64 r a v) = Inr ()"
  shows "unat a + 8 \<le> unat (gr_size r)"
    and "byte_at (fst (write_u64 r a v)) x =
      (if unat a \<le> unat x \<and> unat x < unat a + 8 then le_bytes v ! (unat x - unat a)
       else byte_at r x)"
    and "gr_size (fst (write_u64 r a v)) = gr_size r"
proof -
  have w: "write_u64 r a v = write_bytes_loop r a 0 (le_bytes v)"
    by (simp add: write_u64_as_bytes write_bytes_def)
  have "le_bytes v \<noteq> []"
    using length_le_bytes [of v] by (metis list.size(3) zero_neq_numeral)
  then show fits: "unat a + 8 \<le> unat (gr_size r)"
    using write_bytes_loop_fits [of r a 0 "le_bytes v"] assms unat_u64_less [of a] by (simp add: w)
  then show "byte_at (fst (write_u64 r a v)) x =
      (if unat a \<le> unat x \<and> unat x < unat a + 8 then le_bytes v ! (unat x - unat a)
       else byte_at r x)"
    using write_bytes_loop_byte [of a 0 "le_bytes v" r x] by (simp add: w)
  show "gr_size (fst (write_u64 r a v)) = gr_size r"
    by (simp add: w)
qed

lemma read_after_write_u64:
  assumes "snd (write_u64 r a v) = Inr ()"
  shows "read_u64 (fst (write_u64 r a v)) a = Inr v"
proof -
  let ?r = "fst (write_u64 r a v)"
  note stored = write_u64_stored [OF assms]
  have "read_bytes ?r a 8 = Inr (map (\<lambda>i. byte_at ?r (a + word_of_nat i)) [0..<8])"
    by (rule read_bytes_ok) (simp add: stored(1,3))
  also have "map (\<lambda>i. byte_at ?r (a + word_of_nat i)) [0..<8] = le_bytes v"
  proof (rule nth_equalityI)
    fix i assume "i < length (map (\<lambda>i. byte_at ?r (a + word_of_nat i)) [0..<8])"
    then have i: "i < 8" by simp
    then have "unat (a + word_of_nat i) = unat a + i"
      using stored(1) unat_u64_less [of "gr_size r"] by (simp add: unat_add_of_nat)
    then show "map (\<lambda>i. byte_at ?r (a + word_of_nat i)) [0..<8] ! i = le_bytes v ! i"
      using i by (simp add: stored(2))
  qed simp
  finally show ?thesis
    by (simp add: read_u64_def)
qed

text \<open>
  Writing a 64-bit value into guest RAM and reading it back returns the value, and every
  byte outside the eight written ones keeps its value: a successful write never wraps around
  the top of the address space and never spills.
\<close>

lemma read_u64_write_u64:
  assumes "snd (write_u64 r a v) = Inr ()"
  shows "read_u64 (fst (write_u64 r a v)) a = Inr v \<and>
    (\<forall>x. unat x < unat a \<or> unat a + 8 \<le> unat x \<longrightarrow>
       byte_at (fst (write_u64 r a v)) x = byte_at r x)"
  using read_after_write_u64 [OF assms] write_u64_stored(2) [OF assms] by auto

theorem read_u64_write_u64_witness:
  "read_u64 (fst (write_u64 (guest_ram_new 4096) 16 0xDEADBEEF)) 16 = Inr 0xDEADBEEF"
proof -
  have "snd (write_u64 (guest_ram_new 4096) 16 0xDEADBEEF) = Inr ()"
    by (simp add: write_u64_as_bytes write_bytes_def write_bytes_loop_ok guest_ram_new_def)
  from read_u64_write_u64 [OF this] show ?thesis by simp
qed

lemma read_bytes_InrD:
  assumes "read_bytes r a n = Inr bs" and "n < 2 ^ 64" and "gr_size r \<noteq> - 1"
  shows "unat a + n \<le> unat (gr_size r)"
    and "bs = map (\<lambda>i. byte_at r (a + word_of_nat i)) [0..<n]"
proof -
  have "unat (gr_size r) \<noteq> 2 ^ 64 - 1"
    using assms(3) unat_minus_one_max [where 'a = 64] by (auto simp: word_unat_eq_iff)
  then have "unat (gr_size r) < 2 ^ 64 - 1"
    using unat_u64_less [of "gr_size r"] by simp
  moreover have "unat (word_of_nat n :: u64) = n"
    using assms(2) by (simp add: unat_of_nat)
  ultimately show "unat a + n \<le> unat (gr_size r)"
    using assms(1)
    by (auto simp: read_bytes_def Let_def word_less_nat_alt unat_sat_add not_less split: if_splits)
  show "bs = map (\<lambda>i. byte_at r (a + word_of_nat i)) [0..<n]"
    using assms(1) by (auto simp: read_bytes_def Let_def split: if_splits)
qed

text \<open>
  A read of guest RAM answers exactly one of three ways, decided by the declared size alone:
  the bytes when the whole range lies inside, \<open>NotInRam\<close> when it starts outside, and \<open>Short\<close>
  with the number of bytes available when it runs off the end.
\<close>

lemma read_bytes_cases:
  assumes "n < 2 ^ 64" and "gr_size r \<noteq> - 1"
  shows "read_bytes r a n =
    (if unat a + n \<le> unat (gr_size r)
     then Inr (map (\<lambda>i. byte_at r (a + word_of_nat i)) [0..<n])
     else if gr_size r \<le> a then Inl (NotInRam a)
     else Inl (Short a n (unat (gr_size r) - unat a)))"
proof -
  have "unat (gr_size r) \<noteq> 2 ^ 64 - 1"
    using assms(2) unat_minus_one_max [where 'a = 64] by (auto simp: word_unat_eq_iff)
  then have size: "unat (gr_size r) < 2 ^ 64 - 1"
    using unat_u64_less [of "gr_size r"] by simp
  have "unat (word_of_nat n :: u64) = n"
    using assms(1) by (simp add: unat_of_nat)
  then have "gr_size r < sat_add a (word_of_nat n) \<longleftrightarrow> unat (gr_size r) < unat a + n"
    using size by (auto simp: word_less_nat_alt unat_sat_add)
  then show ?thesis
    by (auto simp: read_bytes_def Let_def unat_sub_le not_le)
qed

lemma read_bytes_cases_witness:
  "read_bytes (guest_ram_new 16) 12 8 = Inl (Short 12 8 4)"
  using read_bytes_cases [of 8 "guest_ram_new 16" 12] by (simp add: guest_ram_new_def)

text \<open>
  The size \<open>u64::MAX\<close> is excluded above for a reason: there the saturating end of the range
  equals the size, so a range that runs past the last address is granted and wraps to address 0.
\<close>

lemma read_bytes_top_wraps:
  "read_bytes (guest_ram_new (- 1)) (- 1) 2 = Inr [0, 0]"
  by (simp add: read_bytes_def guest_ram_new_def sat_add_def byte_at_def upt_rec)

end
