(* ===== verification/Page_Table.thy ===== *)
theory Page_Table
  imports Guest_Memory
begin

section \<open>Walking the x86-64 page table\<close>

text \<open>
  Models \<^verbatim>\<open>crates/princess-bin/src/pagetable.rs\<close>: the control registers reduced to the bits
  the walk consults, the levels and their metadata, the decoding of an entry, the walk itself with
  its four guards, the partial path behind \<open>walk_or_explain\<close>, and what the UI derives from a
  finished walk. The memory is any \<open>guest_memory\<close>. The specification at the end,
  \<open>spec_translate\<close>, is the architecture's definition over natural numbers, with no masks.
\<close>

subsection \<open>Constants and control registers\<close>

definition ENTRY_ADDRESS_MASK :: u64 where
  "ENTRY_ADDRESS_MASK = 0x000FFFFFFFFFF000"

definition BIT_PS :: u64 where "BIT_PS = push_bit 7 1"

definition BIT_PRESENT :: u64 where "BIT_PRESENT = push_bit 0 1"

definition BIT_NX :: u64 where "BIT_NX = push_bit 63 1"

datatype cr0 = Cr0 (cr0_bits: u64)
datatype cr4 = Cr4 (cr4_bits: u64)
datatype efer = Efer (efer_bits: u64)
datatype cr3 = Cr3 (cr3_bits: u64)

definition paging_enabled :: "cr0 \<Rightarrow> bool" where
  "paging_enabled c = has_bit (cr0_bits c) 31"

definition protection_enabled :: "cr0 \<Rightarrow> bool" where
  "protection_enabled c = has_bit (cr0_bits c) 0"

definition write_protect :: "cr0 \<Rightarrow> bool" where
  "write_protect c = has_bit (cr0_bits c) 16"

definition pae :: "cr4 \<Rightarrow> bool" where "pae c = has_bit (cr4_bits c) 5"

definition pcide :: "cr4 \<Rightarrow> bool" where "pcide c = has_bit (cr4_bits c) 17"

definition la57 :: "cr4 \<Rightarrow> bool" where "la57 c = has_bit (cr4_bits c) 12"

definition smep :: "cr4 \<Rightarrow> bool" where "smep c = has_bit (cr4_bits c) 20"

definition smap :: "cr4 \<Rightarrow> bool" where "smap c = has_bit (cr4_bits c) 21"

definition pke :: "cr4 \<Rightarrow> bool" where "pke c = has_bit (cr4_bits c) 22"

definition sce :: "efer \<Rightarrow> bool" where "sce e = has_bit (efer_bits e) 0"

definition lme :: "efer \<Rightarrow> bool" where "lme e = has_bit (efer_bits e) 8"

definition lma :: "efer \<Rightarrow> bool" where "lma e = has_bit (efer_bits e) 10"

definition nxe :: "efer \<Rightarrow> bool" where "nxe e = has_bit (efer_bits e) 11"

definition table_address :: "cr3 \<Rightarrow> u64" where
  "table_address c = cr3_bits c AND ENTRY_ADDRESS_MASK"

definition pcid :: "cr3 \<Rightarrow> u16" where
  "pcid c = ucast (cr3_bits c AND 0xFFF)"

definition has_low_bits_set :: "cr3 \<Rightarrow> bool" where
  "has_low_bits_set c \<longleftrightarrow> pcid c \<noteq> 0"

subsection \<open>Levels\<close>

datatype level = Pml5 | Pml4 | Pdpt | Pd | Pt

fun depth :: "level \<Rightarrow> nat" where
  "depth Pml5 = 0" | "depth Pml4 = 1" | "depth Pdpt = 2" | "depth Pd = 3" | "depth Pt = 4"

fun level_name :: "level \<Rightarrow> string" where
  "level_name Pml5 = ''PML5''"
| "level_name Pml4 = ''PML4''"
| "level_name Pdpt = ''PDPT''"
| "level_name Pd = ''PD''"
| "level_name Pt = ''PT''"

fun index_bits :: "level \<Rightarrow> nat \<times> nat" where
  "index_bits Pml5 = (56, 48)"
| "index_bits Pml4 = (47, 39)"
| "index_bits Pdpt = (38, 30)"
| "index_bits Pd = (29, 21)"
| "index_bits Pt = (20, 12)"

fun huge_page_allowed :: "level \<Rightarrow> bool" where
  "huge_page_allowed Pdpt = True"
| "huge_page_allowed Pd = True"
| "huge_page_allowed _ = False"

fun huge_page_size :: "level \<Rightarrow> u64 option" where
  "huge_page_size Pdpt = Some (1024 * 1024 * 1024)"
| "huge_page_size Pd = Some (2 * 1024 * 1024)"
| "huge_page_size _ = None"

subsection \<open>Entries\<close>

record page_table_entry =
  pte_raw :: u64
  pte_present :: bool
  pte_writable :: bool
  pte_user :: bool
  pte_pwt :: bool
  pte_pcd :: bool
  pte_accessed :: bool
  pte_dirty :: bool
  pte_page_size :: bool
  pte_global :: bool
  pte_available :: u8
  pte_address_bits :: u64
  pte_reserved :: u16
  pte_protection_key :: u8
  pte_no_execute :: bool

definition decode_entry :: "u64 \<Rightarrow> page_table_entry" where
  "decode_entry raw =
     \<lparr>pte_raw = raw,
      pte_present = (raw AND BIT_PRESENT \<noteq> 0),
      pte_writable = has_bit raw 1,
      pte_user = has_bit raw 2,
      pte_pwt = has_bit raw 3,
      pte_pcd = has_bit raw 4,
      pte_accessed = has_bit raw 5,
      pte_dirty = has_bit raw 6,
      pte_page_size = (raw AND BIT_PS \<noteq> 0),
      pte_global = has_bit raw 8,
      pte_available = ucast (drop_bit 9 raw AND 7),
      pte_address_bits = raw AND ENTRY_ADDRESS_MASK,
      pte_reserved = ucast (drop_bit 52 raw AND 0x7F),
      pte_protection_key = ucast (drop_bit 59 raw AND 0xF),
      pte_no_execute = (raw AND BIT_NX \<noteq> 0)\<rparr>"

definition reserved_bits_set :: "page_table_entry \<Rightarrow> bool" where
  "reserved_bits_set e \<longleftrightarrow> pte_reserved e \<noteq> 0"

definition table_physical_address :: "page_table_entry \<Rightarrow> u64" where
  "table_physical_address e = pte_address_bits e"

definition leaf_physical_address :: "page_table_entry \<Rightarrow> level \<Rightarrow> u64 option" where
  "leaf_physical_address e lv =
     (if \<not> pte_page_size e then None
      else Some (case lv of
          Pdpt \<Rightarrow> pte_raw e AND 0x000FFFFFC0000000
        | Pd \<Rightarrow> pte_raw e AND 0x000FFFFFFFE00000
        | _ \<Rightarrow> table_physical_address e))"

datatype leaf_size = Page4K | Huge2M | Huge1G

fun leaf_bytes :: "leaf_size \<Rightarrow> u64" where
  "leaf_bytes Page4K = 4096"
| "leaf_bytes Huge2M = 2 * 1024 * 1024"
| "leaf_bytes Huge1G = 1024 * 1024 * 1024"

fun offset_bits :: "leaf_size \<Rightarrow> nat" where
  "offset_bits Page4K = 12"
| "offset_bits Huge2M = 21"
| "offset_bits Huge1G = 30"

fun terminating_level :: "leaf_size \<Rightarrow> level" where
  "terminating_level Page4K = Pt"
| "terminating_level Huge2M = Pd"
| "terminating_level Huge1G = Pdpt"

record walk_level =
  wl_level :: level
  wl_index :: u16
  wl_table_address :: u64
  wl_entry_address :: u64
  wl_entry :: page_table_entry

definition bits_consumed :: "walk_level \<Rightarrow> nat" where
  "bits_consumed w = (case index_bits (wl_level w) of (high, _) \<Rightarrow> high + 1 - 12)"

subsection \<open>Outcomes\<close>

datatype walk_error =
    PagingDisabled u64
  | NotLongMode u64
  | NonCanonicalAddress u64 nat
  | TableNotInRam level u64
  | MemoryFailed level memory_error
  | EntryNotPresent level u16 u64
  | Cycle u64 level
  | ReservedPageSizeBit level u64
  | LeafOutOfRange u64

fun show_walk_error :: "walk_error \<Rightarrow> string" where
  "show_walk_error (PagingDisabled cr0) =
     ''cannot walk page tables: CR0.PG=0 (CR0='' @ show_hex_alt_pad 18 (unat cr0) @
     ''); CR3 is not a page-table pointer while paging is off''"
| "show_walk_error (NotLongMode ef) =
     ''cannot walk 4-level page tables: EFER.LMA=0 (EFER='' @ show_hex_alt_pad 18 (unat ef) @
     ''); this is 32-bit PAE or non-PAE paging, which has a different table layout''"
| "show_walk_error (NonCanonicalAddress address bits) =
     ''address '' @ show_hex_alt_pad 18 (unat address) @ '' is not canonical for '' @
     show_nat bits @ ''-bit paging; the CPU would #GP before consulting a page table''"
| "show_walk_error (TableNotInRam lv address) =
     level_name lv @ '' table address '' @ show_hex_alt_pad 18 (unat address) @
     '' is not inside guest RAM''"
| "show_walk_error (MemoryFailed lv source) =
     ''reading the '' @ level_name lv @ '' table failed: '' @ show_memory_error source"
| "show_walk_error (EntryNotPresent lv index raw) =
     level_name lv @ ''['' @ show_nat (unat index) @ ''] is not present (raw='' @
     show_hex_alt_pad 18 (unat raw) @ ''); the mapping stops here''"
| "show_walk_error (Cycle address lv) =
     ''page-table cycle: '' @ level_name lv @ '' table '' @ show_hex_alt_pad 18 (unat address) @
     '' was already visited''"
| "show_walk_error (ReservedPageSizeBit lv raw) =
     level_name lv @ '' entry '' @ show_hex_alt_pad 18 (unat raw) @
     '' has PS=1, which is reserved at this level''"
| "show_walk_error (LeafOutOfRange address) =
     ''resolved leaf address '' @ show_hex_alt_pad 18 (unat address) @ '' is out of range''"

record not_present =
  np_levels :: "walk_level list"
  np_level :: level
  np_index :: u16
  np_entry_address :: u64

record page_table_walk =
  pw_address :: u64
  pw_levels :: "walk_level list"
  pw_leaf_size :: leaf_size
  pw_physical_base :: u64
  pw_page_offset :: u64
  pw_leaf :: page_table_entry
  pw_la57 :: bool

definition effective_user :: "page_table_walk \<Rightarrow> bool" where
  "effective_user w = list_all (\<lambda>l. pte_user (wl_entry l)) (pw_levels w)"

definition effective_writable :: "page_table_walk \<Rightarrow> bool" where
  "effective_writable w = list_all (\<lambda>l. pte_writable (wl_entry l)) (pw_levels w)"

definition effective_no_execute :: "page_table_walk \<Rightarrow> bool" where
  "effective_no_execute w = list_ex (\<lambda>l. pte_no_execute (wl_entry l)) (pw_levels w)"

definition physical_address :: "page_table_walk \<Rightarrow> u64" where
  "physical_address w = pw_physical_base w OR pw_page_offset w"

definition physical_range :: "page_table_walk \<Rightarrow> u64 \<times> u64" where
  "physical_range w = (pw_physical_base w, pw_physical_base w + leaf_bytes (pw_leaf_size w))"

definition virtual_range :: "page_table_walk \<Rightarrow> u64 \<times> u64" where
  "virtual_range w =
     (let base = pw_address w AND NOT (leaf_bytes (pw_leaf_size w) - 1)
      in (base, base + leaf_bytes (pw_leaf_size w)))"

definition path_summary :: "page_table_walk \<Rightarrow> string" where
  "path_summary w =
     join '' -> '' (map (\<lambda>l. level_name (wl_level l) @ ''['' @ show_nat (unat (wl_index l)) @ '']'')
       (pw_levels w))"

definition writable :: "page_table_walk \<Rightarrow> bool" where
  "writable w = effective_writable w"

definition executable :: "page_table_walk \<Rightarrow> bool" where
  "executable w \<longleftrightarrow> \<not> effective_no_execute w"

datatype canonicality_result = Canonical | NonCanonical

text \<open>\<open>((address << (64 - bits)) as i64 >> (64 - bits)) as u64\<close>: an arithmetic right shift.\<close>

definition canonicality :: "u64 \<Rightarrow> nat \<Rightarrow> canonicality_result" where
  "canonicality address bits =
     (if \<not> (1 \<le> bits \<and> bits \<le> 64) then Canonical
      else if 63 \<le> bits - 1 then Canonical
      else if signed_drop_bit (64 - bits) (push_bit (64 - bits) address) = address then Canonical
      else NonCanonical)"

subsection \<open>The walker\<close>

record walker =
  wk_memory :: guest_memory
  wk_cr0 :: cr0
  wk_cr4 :: cr4
  wk_efer :: efer

definition walker_new :: "guest_memory \<Rightarrow> cr0 \<Rightarrow> cr4 \<Rightarrow> efer \<Rightarrow> walk_error + walker" where
  "walker_new mem c0 c4 ef =
     (if \<not> paging_enabled c0 then Inl (PagingDisabled (cr0_bits c0))
      else if \<not> lma ef then Inl (NotLongMode (efer_bits ef))
      else Inr \<lparr>wk_memory = mem, wk_cr0 = c0, wk_cr4 = c4, wk_efer = ef\<rparr>)"

definition levels_to_visit :: "bool \<Rightarrow> level list" where
  "levels_to_visit five = (if five then [Pml5] else []) @ [Pml4, Pdpt, Pd, Pt]"

definition level_index :: "u64 \<Rightarrow> level \<Rightarrow> u16" where
  "level_index address lv =
     (case index_bits lv of (high, low) \<Rightarrow>
        ucast (drop_bit low address AND (push_bit (high - low + 1) 1 - 1)))"

text \<open>
  The first half of a loop iteration, common to \<open>walk\<close> and \<open>partial_path\<close>: the RAM and cycle
  guards, then the entry read at \<open>table + index * 8\<close>.
\<close>

definition visit :: "guest_memory \<Rightarrow> u64 \<Rightarrow> level \<Rightarrow> u64 \<Rightarrow> u64 list \<Rightarrow> walk_error + walk_level" where
  "visit mem address lv table visited =
     (if gm_ram_size mem \<noteq> None \<and> \<not> gm_is_ram mem table then Inl (TableNotInRam lv table)
      else if table \<in> set visited then Inl (Cycle table lv)
      else
        let index = level_index address lv;
            entry_address = table + ucast index * 8
        in case gm_read_u64 mem entry_address of
             Inl source \<Rightarrow> Inl (MemoryFailed lv source)
           | Inr raw \<Rightarrow> Inr \<lparr>wl_level = lv, wl_index = index, wl_table_address = table,
                             wl_entry_address = entry_address, wl_entry = decode_entry raw\<rparr>)"

text \<open>The range check on the resolved address, the same for a huge leaf and a 4 KiB leaf.\<close>

definition check_leaf :: "guest_memory \<Rightarrow> u64 \<Rightarrow> u64 \<Rightarrow> walk_error + unit" where
  "check_leaf mem physical_base page_offset =
     (case checked_add physical_base page_offset of
        None \<Rightarrow> Inl (LeafOutOfRange physical_base)
      | Some physical \<Rightarrow>
          if gm_ram_size mem \<noteq> None \<and> \<not> gm_is_ram mem physical then Inl (LeafOutOfRange physical)
          else Inr ())"

definition huge_leaf ::
  "guest_memory \<Rightarrow> bool \<Rightarrow> u64 \<Rightarrow> walk_level list \<Rightarrow> walk_level \<Rightarrow> walk_error + page_table_walk" where
  "huge_leaf mem five address levels w =
     (let entry = wl_entry w;
          sz = the (huge_page_size (wl_level w));
          size_tag = (if sz = 1024 * 1024 * 1024 then Huge1G else Huge2M);
          physical_base = the (leaf_physical_address entry (wl_level w));
          page_offset = address AND (sz - 1)
      in and_then (check_leaf mem physical_base page_offset) (\<lambda>_.
           Inr \<lparr>pw_address = address, pw_levels = levels, pw_leaf_size = size_tag,
                pw_physical_base = physical_base, pw_page_offset = page_offset, pw_leaf = entry,
                pw_la57 = five\<rparr>))"

definition small_leaf ::
  "guest_memory \<Rightarrow> bool \<Rightarrow> u64 \<Rightarrow> walk_level list \<Rightarrow> walk_error + page_table_walk" where
  "small_leaf mem five address levels =
     (let leaf = wl_entry (last levels);
          physical_base = table_physical_address leaf;
          page_offset = address AND 0xFFF
      in and_then (check_leaf mem physical_base page_offset) (\<lambda>_.
           Inr \<lparr>pw_address = address, pw_levels = levels, pw_leaf_size = Page4K,
                pw_physical_base = physical_base, pw_page_offset = page_offset, pw_leaf = leaf,
                pw_la57 = five\<rparr>))"

fun walk_loop ::
  "guest_memory \<Rightarrow> bool \<Rightarrow> u64 \<Rightarrow> level list \<Rightarrow> u64 \<Rightarrow> u64 list \<Rightarrow> walk_level list \<Rightarrow>
   walk_error + page_table_walk" where
  "walk_loop mem five address [] table visited levels = small_leaf mem five address levels"
| "walk_loop mem five address (lv # rest) table visited levels =
     (case visit mem address lv table visited of
        Inl e \<Rightarrow> Inl e
      | Inr w \<Rightarrow>
          let entry = wl_entry w; levels' = levels @ [w]
          in if pte_page_size entry \<and> \<not> huge_page_allowed lv
             then Inl (ReservedPageSizeBit lv (pte_raw entry))
             else if pte_page_size entry then huge_leaf mem five address levels' w
             else if \<not> pte_present entry then Inl (EntryNotPresent lv (wl_index w) (pte_raw entry))
             else walk_loop mem five address rest (table_physical_address entry)
                    (visited @ [table]) levels')"

definition walk :: "walker \<Rightarrow> cr3 \<Rightarrow> u64 \<Rightarrow> walk_error + page_table_walk" where
  "walk k c3 address =
     (let five = la57 (wk_cr4 k);
          canonical_bits = (if five then 57 else 48)
      in if canonicality address canonical_bits = NonCanonical
         then Inl (NonCanonicalAddress address canonical_bits)
         else walk_loop (wk_memory k) five address (levels_to_visit five) (table_address c3) [] [])"

fun partial_path_loop ::
  "guest_memory \<Rightarrow> u64 \<Rightarrow> level \<Rightarrow> level list \<Rightarrow> u64 \<Rightarrow> u64 list \<Rightarrow> walk_level list \<Rightarrow>
   walk_error + walk_level list" where
  "partial_path_loop mem address stop [] table visited out = Inr out"
| "partial_path_loop mem address stop (lv # rest) table visited out =
     (case visit mem address lv table visited of
        Inl e \<Rightarrow> Inl e
      | Inr w \<Rightarrow>
          if lv = stop then Inr (out @ [w])
          else partial_path_loop mem address stop rest (table_physical_address (wl_entry w))
                 (visited @ [table]) (out @ [w]))"

definition partial_path :: "walker \<Rightarrow> cr3 \<Rightarrow> u64 \<Rightarrow> level \<Rightarrow> walk_error + walk_level list" where
  "partial_path k c3 address stop =
     partial_path_loop (wk_memory k) address stop (levels_to_visit (la57 (wk_cr4 k)))
       (table_address c3) [] []"

definition walk_or_explain ::
  "walker \<Rightarrow> cr3 \<Rightarrow> u64 \<Rightarrow> walk_error + (page_table_walk + not_present)" where
  "walk_or_explain k c3 address =
     (case walk k c3 address of
        Inr w \<Rightarrow> Inr (Inl w)
      | Inl (EntryNotPresent lv index _) \<Rightarrow>
          and_then (partial_path k c3 address lv) (\<lambda>partial.
            let entry_address = (if partial = [] then 0 else wl_entry_address (last partial))
            in Inr (Inr \<lparr>np_levels = butlast partial, np_level = lv, np_index = index,
                         np_entry_address = entry_address\<rparr>))
      | Inl other \<Rightarrow> Inl other)"

subsection \<open>Bit fields as arithmetic\<close>

lemma unat_and_window:
  fixes x :: u64
  assumes "lo \<le> hi" and "hi \<le> 64"
  shows "unat (x AND push_bit lo (mask (hi - lo))) = unat x mod 2 ^ hi div 2 ^ lo * 2 ^ lo"
proof -
  have "x AND push_bit lo (mask (hi - lo)) = push_bit lo (drop_bit lo (take_bit hi x))"
    by (rule bit_word_eqI) (use assms in \<open>auto simp: bit_simps\<close>)
  moreover have "unat x mod 2 ^ hi div 2 ^ lo * 2 ^ lo < 2 ^ 64"
  proof -
    have "unat x mod 2 ^ hi div 2 ^ lo * 2 ^ lo \<le> unat x"
      by (meson div_times_less_eq_dividend le_trans mod_less_eq_dividend)
    then show ?thesis
      using unat_u64_less [of x] by simp
  qed
  ultimately show ?thesis
    using unat_push [of "drop_bit lo (take_bit hi x)" lo] by (simp only: unat_drop unat_take len_bit0 len_num1 len_bit1) simp
qed

lemma entry_mask_window: "ENTRY_ADDRESS_MASK = push_bit 12 (mask (52 - 12))"
  by (simp add: ENTRY_ADDRESS_MASK_def mask_eq_exp_minus_1 push_bit_eq_mult)

lemma unat_entry_mask: "unat (x AND ENTRY_ADDRESS_MASK) = unat x mod 2 ^ 52 div 2 ^ 12 * 2 ^ 12"
  unfolding entry_mask_window by (rule unat_and_window) simp_all

lemma unat_huge_mask_1g:
  "unat (x AND (0x000FFFFFC0000000 :: u64)) = unat x mod 2 ^ 52 div 2 ^ 30 * 2 ^ 30"
proof -
  have "(0x000FFFFFC0000000 :: u64) = push_bit 30 (mask (52 - 30))"
    by (simp add: mask_eq_exp_minus_1 push_bit_eq_mult)
  then show ?thesis
    using unat_and_window [of 30 52 x] by simp
qed

lemma unat_huge_mask_2m:
  "unat (x AND (0x000FFFFFFFE00000 :: u64)) = unat x mod 2 ^ 52 div 2 ^ 21 * 2 ^ 21"
proof -
  have "(0x000FFFFFFFE00000 :: u64) = push_bit 21 (mask (52 - 21))"
    by (simp add: mask_eq_exp_minus_1 push_bit_eq_mult)
  then show ?thesis
    using unat_and_window [of 21 52 x] by simp
qed

lemma unat_level_index:
  "unat (level_index va lv) = unat va div 2 ^ snd (index_bits lv) mod 512"
proof -
  have "level_index va lv = ucast (field va (snd (index_bits lv)) 9)"
    by (cases lv) (simp_all add: level_index_def field_def mask_eq_exp_minus_1 push_bit_eq_mult)
  moreover have "unat (field va (snd (index_bits lv)) 9) < 2 ^ 16"
    by (simp add: unat_field order_less_trans [OF mod_less_divisor])
  ultimately show ?thesis
    by (simp add: unsigned_ucast_eq take_bit_nat_eq_self_iff unat_field)
qed

subsection \<open>The architecture's translation, over natural numbers\<close>

text \<open>
  One level of the manual's definition per element of \<open>shifts\<close> (48, 39, 30, 21, 12): the entry
  at \<open>table + 8 * ((va div 2^s) mod 512)\<close>; bit 0 clear ends the mapping; at shift 12, or with
  bit 7 set at shift 30 or 21, the entry is a leaf whose frame is its bits 51 down to \<open>s\<close>.
\<close>

definition mem_words :: "guest_memory \<Rightarrow> nat \<Rightarrow> nat option" where
  "mem_words mem a = (case gm_read_u64 mem (word_of_nat a) of Inl _ \<Rightarrow> None | Inr v \<Rightarrow> Some (unat v))"

definition frame_at :: "nat \<Rightarrow> nat \<Rightarrow> nat" where
  "frame_at s e = e mod 2 ^ 52 div 2 ^ s * 2 ^ s"

fun spec_translate :: "(nat \<Rightarrow> nat option) \<Rightarrow> nat list \<Rightarrow> nat \<Rightarrow> nat \<Rightarrow> nat option" where
  "spec_translate rd [] table va = None"
| "spec_translate rd (s # shifts) table va =
     (case rd (table + 8 * (va div 2 ^ s mod 512)) of
        None \<Rightarrow> None
      | Some e \<Rightarrow>
          if even e then None
          else if s = 12 then Some (frame_at 12 e + va mod 2 ^ 12)
          else if odd (e div 2 ^ 7) \<and> (s = 30 \<or> s = 21) then Some (frame_at s e + va mod 2 ^ s)
          else spec_translate rd shifts (frame_at 12 e) va)"

definition shift_of :: "level \<Rightarrow> nat" where
  "shift_of lv = snd (index_bits lv)"

definition spec_of_walker :: "walker \<Rightarrow> cr3 \<Rightarrow> u64 \<Rightarrow> nat option" where
  "spec_of_walker k c3 va =
     spec_translate (mem_words (wk_memory k)) (map shift_of (levels_to_visit (la57 (wk_cr4 k))))
       (frame_at 12 (unat (cr3_bits c3))) (unat va)"

lemma frame_at_top:
  assumes s: "s \<le> 52"
  shows "frame_at s e + 2 ^ s \<le> 2 ^ 52"
proof -
  have split: "(2::nat) ^ 52 = 2 ^ s * 2 ^ (52 - s)"
    using s by (simp flip: power_add)
  have "e mod 2 ^ 52 div 2 ^ s < 2 ^ (52 - s)"
    by (simp add: less_mult_imp_div_less mult.commute flip: split)
  then have "(e mod 2 ^ 52 div 2 ^ s + 1) * 2 ^ s \<le> 2 ^ (52 - s) * 2 ^ s"
    by (intro mult_le_mono1) simp
  then show ?thesis
    by (simp only: frame_at_def split mult.commute [of "2 ^ s"] add_mult_distrib mult_1)
qed

lemma frame_at_less: "12 \<le> s \<Longrightarrow> s \<le> 52 \<Longrightarrow> frame_at s e + 2 ^ 12 \<le> 2 ^ 52"
  using power_increasing [of 12 s "2::nat"] frame_at_top [of s e] by simp

lemma decode_entry_simps [simp]:
  "pte_raw (decode_entry raw) = raw"
  "pte_present (decode_entry raw) \<longleftrightarrow> bit raw 0"
  "pte_writable (decode_entry raw) \<longleftrightarrow> bit raw 1"
  "pte_user (decode_entry raw) \<longleftrightarrow> bit raw 2"
  "pte_page_size (decode_entry raw) \<longleftrightarrow> bit raw 7"
  "pte_no_execute (decode_entry raw) \<longleftrightarrow> bit raw 63"
  "table_physical_address (decode_entry raw) = raw AND ENTRY_ADDRESS_MASK"
  by (simp_all only: decode_entry_def BIT_PRESENT_def BIT_PS_def BIT_NX_def has_bit_def [symmetric]
      has_bit_iff table_physical_address_def page_table_entry.simps)

lemma unat_table_physical_address:
  "unat (table_physical_address (decode_entry raw)) = frame_at 12 (unat raw)"
  by (simp add: unat_entry_mask frame_at_def)

lemma visit_InrD:
  assumes "visit mem va lv table visited = Inr w"
  shows "wl_level w = lv" "wl_index w = level_index va lv" "wl_table_address w = table"
    "wl_entry_address w = table + ucast (level_index va lv) * 8"
    "gm_read_u64 mem (wl_entry_address w) = Inr (pte_raw (wl_entry w))"
    "wl_entry w = decode_entry (pte_raw (wl_entry w))"
    "table \<notin> set visited"
  using assms by (auto simp: visit_def Let_def split: if_splits sum.splits)

text \<open>The entry the loop reads is the one the specification reads: no wrap-around.\<close>

lemma unat_entry_address:
  fixes table :: u64
  assumes "unat table + 2 ^ 12 \<le> 2 ^ 52"
  shows "unat (table + ucast (level_index va lv) * 8) = unat table + 8 * (unat va div 2 ^ shift_of lv mod 512)"
proof -
  let ?i = "unat va div 2 ^ shift_of lv mod 512"
  have i: "unat (level_index va lv) = ?i"
    by (simp add: unat_level_index shift_of_def)
  have "?i < 512"
    by simp
  then have "unat (ucast (level_index va lv) * 8 :: u64) = 8 * ?i"
    by (simp add: unat_word_ariths unat_ucast_small i)
  then show ?thesis
    using assms \<open>?i < 512\<close> by (simp add: unat_word_ariths)
qed

lemma mem_words_visit:
  assumes "visit mem va lv table visited = Inr w" and "unat table + 2 ^ 12 \<le> 2 ^ 52"
  shows "mem_words mem (unat table + 8 * (unat va div 2 ^ shift_of lv mod 512)) =
    Some (unat (pte_raw (wl_entry w)))"
proof -
  have "word_of_nat (unat table + 8 * (unat va div 2 ^ shift_of lv mod 512)) = wl_entry_address w"
    using visit_InrD(4) [OF assms(1)] unat_entry_address [OF assms(2), of va lv]
    by (metis word_of_unat)
  then show ?thesis
    using visit_InrD(5) [OF assms(1)] by (simp add: mem_words_def)
qed

lemma check_leaf_InrD: "check_leaf mem b off = Inr () \<Longrightarrow> unat b + unat off < 2 ^ 64"
  by (auto simp: check_leaf_def checked_add_def split: option.splits if_splits)

lemma dvd_frame_at: "2 ^ s dvd frame_at s e"
  by (simp add: frame_at_def)

lemma small_leaf_physical:
  assumes "small_leaf mem five va levels = Inr w"
    and "wl_entry (last levels) = decode_entry raw"
  shows "pw_leaf w = decode_entry raw" "pw_levels w = levels" "pw_leaf_size w = Page4K"
    "unat (pw_physical_base w) = frame_at 12 (unat raw)" "unat (pw_page_offset w) = unat va mod 2 ^ 12"
  using assms unat_and_mask [of va 12]
  by (auto simp: small_leaf_def Let_def res_simps unat_entry_mask frame_at_def mask_eq_exp_minus_1)

lemma huge_leaf_physical:
  assumes "huge_leaf mem five va levels v = Inr w" and "huge_page_allowed (wl_level v)"
    and "wl_entry v = decode_entry raw" and "bit raw 7"
  shows "pw_leaf w = decode_entry raw" "pw_levels w = levels"
    "terminating_level (pw_leaf_size w) = wl_level v"
    "unat (pw_physical_base w) = frame_at (shift_of (wl_level v)) (unat raw)"
    "unat (pw_page_offset w) = unat va mod 2 ^ shift_of (wl_level v)"
  using assms unat_and_mask [of va 30] unat_and_mask [of va 21]
  by (cases "wl_level v"; auto simp: huge_leaf_def Let_def res_simps leaf_physical_address_def
      frame_at_def shift_of_def unat_huge_mask_1g unat_huge_mask_2m mask_eq_exp_minus_1)+

lemma physical_address_sum:
  assumes "unat (pw_physical_base w) = frame_at s e" and "unat (pw_page_offset w) = v mod 2 ^ s"
    and "s \<le> 64"
  shows "unat (physical_address w) = frame_at s e + v mod 2 ^ s"
  using or_base_offset(1) [of s "pw_physical_base w" "pw_page_offset w"] assms dvd_frame_at [of s e]
  by (simp add: physical_address_def)

text \<open>The chains of levels a walk can have left: they end with the page table.\<close>

definition pending :: "level list \<Rightarrow> bool" where
  "pending lvs \<longleftrightarrow> lvs \<noteq> [] \<and> last lvs = Pt \<and> Pt \<notin> set (butlast lvs)"

lemma pending_levels [simp]: "pending (levels_to_visit five)"
  by (simp add: pending_def levels_to_visit_def)

lemma pending_Cons: "pending (lv # rest) \<Longrightarrow> (lv = Pt \<longleftrightarrow> rest = []) \<and> (rest \<noteq> [] \<longrightarrow> pending rest)"
  by (auto simp: pending_def split: if_splits)

lemma shift_of_12 [simp]: "shift_of lv = 12 \<longleftrightarrow> lv = Pt"
  by (cases lv) (simp_all add: shift_of_def)

lemma shift_of_huge: "shift_of lv = 30 \<or> shift_of lv = 21 \<longleftrightarrow> huge_page_allowed lv"
  by (cases lv) (simp_all add: shift_of_def)

lemma walk_loop_refines:
  assumes "walk_loop mem five va lvs table visited levels = Inr w"
    and "pte_present (pw_leaf w)" and "pending lvs" and "unat table + 2 ^ 12 \<le> 2 ^ 52"
  shows "spec_translate (mem_words mem) (map shift_of lvs) (unat table) (unat va) =
    Some (unat (physical_address w))"
  using assms
proof (induction lvs arbitrary: table visited levels)
  case Nil
  then show ?case by (simp add: pending_def)
next
  case (Cons lv rest)
  obtain v where v: "visit mem va lv table visited = Inr v"
    using Cons.prems(1) by (auto split: sum.splits)
  define raw where "raw = pte_raw (wl_entry v)"
  have e: "wl_entry v = decode_entry raw" and lv: "wl_level v = lv"
    using visit_InrD [OF v] by (simp_all add: raw_def)
  have rd: "mem_words mem (unat table + 8 * (unat va div 2 ^ shift_of lv mod 512)) = Some (unat raw)"
    using mem_words_visit [OF v Cons.prems(4)] by (simp add: raw_def)
  have b7: "odd (unat raw div 128) \<longleftrightarrow> bit raw 7"
    using odd_unat_div [of raw 7] by simp
  show ?case
  proof (cases "bit raw 7")
    case True
    then have allowed: "huge_page_allowed lv"
      and leaf: "huge_leaf mem five va (levels @ [v]) v = Inr w"
      using Cons.prems(1) by (auto simp: v e Let_def split: if_splits)
    note h = huge_leaf_physical [OF leaf allowed [folded lv] e True]
    have "unat (physical_address w) = frame_at (shift_of lv) (unat raw) + unat va mod 2 ^ shift_of lv"
      by (rule physical_address_sum) (use h lv allowed in \<open>cases lv; simp add: shift_of_def\<close>)+
    moreover have "bit raw 0"
      using Cons.prems(2) h(1) by simp
    moreover have "lv \<noteq> Pt"
      using allowed by auto
    ultimately show ?thesis
      using True allowed shift_of_huge [of lv] by (auto simp: rd odd_unat b7)
  next
    case False
    then have here: "bit raw 0"
      and next_loop: "walk_loop mem five va rest (raw AND ENTRY_ADDRESS_MASK) (visited @ [table]) (levels @ [v]) = Inr w"
      using Cons.prems(1) by (auto simp: v e Let_def split: if_splits)
    show ?thesis
    proof (cases "rest = []")
      case True
      have leaf: "small_leaf mem five va (levels @ [v]) = Inr w"
        using next_loop True by simp
      have "unat (physical_address w) = frame_at 12 (unat raw) + unat va mod 2 ^ 12"
        by (rule physical_address_sum) (use small_leaf_physical [OF leaf] e in simp_all)
      moreover have "lv = Pt"
        using pending_Cons [OF Cons.prems(3)] True by simp
      ultimately show ?thesis
        using here rd by (simp add: odd_unat)
    next
      case False
      have "unat (raw AND ENTRY_ADDRESS_MASK) = frame_at 12 (unat raw)"
        by (simp add: unat_entry_mask frame_at_def)
      moreover have "frame_at 12 (unat raw) + 2 ^ 12 \<le> 2 ^ 52"
        by (rule frame_at_less) simp_all
      ultimately have "spec_translate (mem_words mem) (map shift_of rest) (frame_at 12 (unat raw)) (unat va) =
          Some (unat (physical_address w))"
        using Cons.IH [OF next_loop Cons.prems(2)] pending_Cons [OF Cons.prems(3)] False by simp
      then show ?thesis
        using here \<open>\<not> bit raw 7\<close> False pending_Cons [OF Cons.prems(3)]
        by (simp add: rd odd_unat b7)
    qed
  qed
qed

text \<open>The other answer that is a fact about the mapping: \<open>EntryNotPresent\<close>.\<close>

lemma walk_loop_not_present:
  assumes "walk_loop mem five va lvs table visited levels = Inl (EntryNotPresent lv' i raw')"
    and "pending lvs" and "unat table + 2 ^ 12 \<le> 2 ^ 52"
  shows "spec_translate (mem_words mem) (map shift_of lvs) (unat table) (unat va) = None"
  using assms
proof (induction lvs arbitrary: table visited levels)
  case Nil
  then show ?case by (simp add: pending_def)
next
  case (Cons lv rest)
  show ?case
  proof (cases "visit mem va lv table visited")
    case (Inl e)
    then show ?thesis
      using Cons.prems(1) by (auto simp: visit_def Let_def split: if_splits sum.splits)
  next
    case (Inr v)
    define raw where "raw = pte_raw (wl_entry v)"
    have e: "wl_entry v = decode_entry raw"
      using visit_InrD [OF Inr] by (simp add: raw_def)
    have rd: "mem_words mem (unat table + 8 * (unat va div 2 ^ shift_of lv mod 512)) = Some (unat raw)"
      using mem_words_visit [OF Inr Cons.prems(3)] by (simp add: raw_def)
    have no_huge: "huge_leaf mem five va (levels @ [v]) v \<noteq> Inl (EntryNotPresent lv' i raw')"
      by (auto simp: huge_leaf_def Let_def res_simps check_leaf_def split: option.splits if_splits)
    have no_small: "small_leaf mem five va (levels @ [v]) \<noteq> Inl (EntryNotPresent lv' i raw')"
      by (auto simp: small_leaf_def Let_def res_simps check_leaf_def split: option.splits if_splits)
    have flat: "\<not> bit raw 7"
      using Cons.prems(1) no_huge by (auto simp: Inr e Let_def split: if_splits)
    show ?thesis
    proof (cases "bit raw 0")
      case False
      then show ?thesis by (simp add: rd odd_unat)
    next
      case True
      then have next_loop: "walk_loop mem five va rest (raw AND ENTRY_ADDRESS_MASK) (visited @ [table])
          (levels @ [v]) = Inl (EntryNotPresent lv' i raw')"
        using Cons.prems(1) flat by (auto simp: Inr e Let_def)
      then have "rest \<noteq> []"
        using no_small by auto
      have "unat (raw AND ENTRY_ADDRESS_MASK) = frame_at 12 (unat raw)"
        by (simp add: unat_entry_mask frame_at_def)
      moreover have "frame_at 12 (unat raw) + 2 ^ 12 \<le> 2 ^ 52"
        by (rule frame_at_less) simp_all
      ultimately have "spec_translate (mem_words mem) (map shift_of rest) (frame_at 12 (unat raw)) (unat va) = None"
        using Cons.IH [OF next_loop] pending_Cons [OF Cons.prems(2)] \<open>rest \<noteq> []\<close> by simp
      moreover have "lv \<noteq> Pt" "odd (unat raw div 128) \<longleftrightarrow> bit raw 7"
        using pending_Cons [OF Cons.prems(2)] \<open>rest \<noteq> []\<close> odd_unat_div [of raw 7] by simp_all
      ultimately show ?thesis
        using True flat by (simp add: rd odd_unat)
    qed
  qed
qed

lemma table_address_start:
  "unat (table_address c3) = frame_at 12 (unat (cr3_bits c3))"
  "unat (table_address c3) + 2 ^ 12 \<le> 2 ^ 52"
  using frame_at_less [of 12 "unat (cr3_bits c3)"]
  by (simp_all add: table_address_def unat_entry_mask frame_at_def)

text \<open>
  The path invariant: consecutive levels from the top, each entry decoded from the word that
  memory holds at the level's own index, each table the frame of the previous entry.
\<close>

fun path_ok :: "guest_memory \<Rightarrow> u64 \<Rightarrow> level list \<Rightarrow> u64 \<Rightarrow> walk_level list \<Rightarrow> bool" where
  "path_ok mem va lvs table [] = True"
| "path_ok mem va [] table (w # ws) = False"
| "path_ok mem va (lv # lvs) table (w # ws) \<longleftrightarrow>
     wl_level w = lv \<and> wl_index w = level_index va lv \<and> wl_table_address w = table \<and>
     wl_entry_address w = table + ucast (level_index va lv) * 8 \<and>
     wl_entry w = decode_entry (pte_raw (wl_entry w)) \<and>
     gm_read_u64 mem (wl_entry_address w) = Inr (pte_raw (wl_entry w)) \<and>
     path_ok mem va lvs (table_physical_address (wl_entry w)) ws"

lemma visit_path_ok:
  "visit mem va lv table visited = Inr w \<Longrightarrow>
   path_ok mem va lvs (table_physical_address (wl_entry w)) ws \<Longrightarrow> path_ok mem va (lv # lvs) table (w # ws)"
  using visit_InrD by fastforce

lemma walk_loop_path:
  assumes "walk_loop mem five va lvs table visited levels = Inr w" and "pending lvs"
  shows "\<exists>ws v. pw_levels w = levels @ ws @ [v] \<and> path_ok mem va lvs table (ws @ [v]) \<and>
    pw_leaf w = wl_entry v \<and> wl_level v = terminating_level (pw_leaf_size w) \<and>
    list_all (\<lambda>l. pte_present (wl_entry l) \<and> \<not> pte_page_size (wl_entry l)) ws \<and>
    distinct (map wl_table_address (ws @ [v])) \<and>
    set (map wl_table_address (ws @ [v])) \<inter> set visited = {}"
  using assms
proof (induction lvs arbitrary: table visited levels)
  case Nil
  then show ?case by (simp add: pending_def)
next
  case (Cons lv rest)
  obtain v where v: "visit mem va lv table visited = Inr v"
    using Cons.prems(1) by (auto split: sum.splits)
  define raw where "raw = pte_raw (wl_entry v)"
  have e: "wl_entry v = decode_entry raw" and lv: "wl_level v = lv"
    and t: "wl_table_address v = table" "table \<notin> set visited"
    using visit_InrD [OF v] by (simp_all add: raw_def)
  show ?case
  proof (cases "bit raw 7")
    case True
    then have allowed: "huge_page_allowed lv"
      and leaf: "huge_leaf mem five va (levels @ [v]) v = Inr w"
      using Cons.prems(1) by (auto simp: v e Let_def split: if_splits)
    note h = huge_leaf_physical [OF leaf allowed [folded lv] e True]
    have "path_ok mem va (lv # rest) table [v]"
      by (rule visit_path_ok [OF v]) simp
    then show ?thesis
      using t h(1-3) e by (intro exI [of _ "[]"] exI [of _ v]) (simp del: path_ok.simps)
  next
    case False
    then have here: "bit raw 0"
      and next_loop: "walk_loop mem five va rest (raw AND ENTRY_ADDRESS_MASK) (visited @ [table]) (levels @ [v]) = Inr w"
      using Cons.prems(1) by (auto simp: v e Let_def split: if_splits)
    show ?thesis
    proof (cases "rest = []")
      case True
      then have "small_leaf mem five va (levels @ [v]) = Inr w"
        using next_loop by simp
      note s = small_leaf_physical [OF this, of raw]
      have "lv = Pt"
        using pending_Cons [OF Cons.prems(2)] True by simp
      moreover have "path_ok mem va (lv # rest) table [v]"
        by (rule visit_path_ok [OF v]) simp
      ultimately show ?thesis
        using t s(1-3) e lv by (intro exI [of _ "[]"] exI [of _ v]) (simp del: path_ok.simps)
    next
      case False
      then have "pending rest"
        using pending_Cons [OF Cons.prems(2)] by simp
      from Cons.IH [OF next_loop this] obtain ws u where
        u: "pw_levels w = (levels @ [v]) @ ws @ [u]"
          "path_ok mem va rest (raw AND ENTRY_ADDRESS_MASK) (ws @ [u])"
          "pw_leaf w = wl_entry u" "wl_level u = terminating_level (pw_leaf_size w)"
          "list_all (\<lambda>l. pte_present (wl_entry l) \<and> \<not> pte_page_size (wl_entry l)) ws"
          "distinct (map wl_table_address (ws @ [u]))"
          "set (map wl_table_address (ws @ [u])) \<inter> set (visited @ [table]) = {}"
        by blast
      have "path_ok mem va (lv # rest) table (v # ws @ [u])"
        using visit_path_ok [OF v, of rest "ws @ [u]"] u(2) e by (simp del: path_ok.simps)
      then show ?thesis
        using u here \<open>\<not> bit raw 7\<close> e t
        by (intro exI [of _ "v # ws"] exI [of _ u]) (auto simp del: path_ok.simps)
    qed
  qed
qed

text \<open>\<open>partial_path\<close> repeats the walk up to the missing entry, so it cannot fail differently.\<close>

lemma walk_loop_stop_in:
  "walk_loop mem five va lvs table visited levels = Inl (EntryNotPresent lv i raw) \<Longrightarrow> lv \<in> set lvs"
proof (induction lvs arbitrary: table visited levels)
  case Nil
  then show ?case
    by (auto simp: small_leaf_def Let_def res_simps check_leaf_def split: option.splits if_splits)
next
  case (Cons l rest)
  then show ?case
    by (auto simp: Let_def visit_def huge_leaf_def res_simps check_leaf_def
        split: sum.splits if_splits option.splits)
qed

lemma partial_path_loop_reaches:
  assumes "walk_loop mem five va lvs table visited levels = Inl (EntryNotPresent lv i raw)"
    and "distinct lvs"
  shows "\<exists>ws v. partial_path_loop mem va lv lvs table visited out = Inr (out @ ws @ [v]) \<and>
    path_ok mem va lvs table (ws @ [v]) \<and> list_all (\<lambda>l. pte_present (wl_entry l)) ws \<and>
    wl_index v = i \<and> pte_raw (wl_entry v) = raw \<and> \<not> bit raw 0"
  using assms
proof (induction lvs arbitrary: table visited levels out)
  case Nil
  then show ?case using walk_loop_stop_in by fastforce
next
  case (Cons l rest)
  obtain v where v: "visit mem va l table visited = Inr v"
    using Cons.prems(1) by (auto simp: visit_def Let_def split: sum.splits if_splits)
  define x where "x = pte_raw (wl_entry v)"
  have e: "wl_entry v = decode_entry x"
    using visit_InrD [OF v] by (simp add: x_def)
  have no_huge: "huge_leaf mem five va (levels @ [v]) v \<noteq> Inl (EntryNotPresent lv i raw)"
    by (auto simp: huge_leaf_def Let_def res_simps check_leaf_def split: option.splits if_splits)
  have path: "path_ok mem va (l # rest) table [v]"
    by (rule visit_path_ok [OF v]) simp
  have flat: "\<not> bit x 7"
    using Cons.prems(1) no_huge by (auto simp: v e Let_def split: if_splits)
  show ?case
  proof (cases "bit x 0")
    case False
    then have "l = lv" "wl_index v = i" "x = raw"
      using Cons.prems(1) flat by (auto simp: v e Let_def)
    then show ?thesis
      using False path e v
      by (intro exI [of _ "[]"] exI [of _ v]) (simp del: path_ok.simps)
  next
    case True
    then have next_loop: "walk_loop mem five va rest (x AND ENTRY_ADDRESS_MASK) (visited @ [table])
        (levels @ [v]) = Inl (EntryNotPresent lv i raw)"
      using Cons.prems(1) flat by (auto simp: v e Let_def)
    then have "l \<noteq> lv"
      using walk_loop_stop_in [OF next_loop] Cons.prems(2) by auto
    obtain ws u where u:
      "partial_path_loop mem va lv rest (x AND ENTRY_ADDRESS_MASK) (visited @ [table]) (out @ [v]) =
         Inr ((out @ [v]) @ ws @ [u])"
      "path_ok mem va rest (x AND ENTRY_ADDRESS_MASK) (ws @ [u])"
      "list_all (\<lambda>l. pte_present (wl_entry l)) ws"
      "wl_index u = i" "pte_raw (wl_entry u) = raw" "\<not> bit raw 0"
      using Cons.IH [OF next_loop, of "out @ [v]"] Cons.prems(2) by auto
    have "path_ok mem va (l # rest) table (v # ws @ [u])"
      using visit_path_ok [OF v, of rest "ws @ [u]"] u(2) e by (simp del: path_ok.simps)
    then show ?thesis
      using u \<open>l \<noteq> lv\<close> v e True
      by (intro exI [of _ "v # ws"] exI [of _ u]) (simp del: path_ok.simps)
  qed
qed

lemma distinct_levels [simp]: "distinct (levels_to_visit five)"
  by (simp add: levels_to_visit_def)

lemma path_ok_append:
  "path_ok mem va lvs table (xs @ ys) \<Longrightarrow> path_ok mem va lvs table xs"
proof (induction xs arbitrary: lvs table)
  case Nil
  then show ?case by simp
next
  case (Cons x xs)
  then show ?case by (cases lvs) auto
qed

lemma path_ok_last_read:
  "path_ok mem va lvs table (ws @ [v]) \<Longrightarrow> gm_read_u64 mem (wl_entry_address v) = Inr (pte_raw (wl_entry v))"
proof (induction ws arbitrary: lvs table)
  case Nil
  then show ?case by (cases lvs) auto
next
  case (Cons x xs)
  then show ?case by (cases lvs) auto
qed

lemma walk_InrD:
  assumes "walk k c3 va = Inr w"
  shows "walk_loop (wk_memory k) (la57 (wk_cr4 k)) va (levels_to_visit (la57 (wk_cr4 k)))
    (table_address c3) [] [] = Inr w"
  using assms by (auto simp: walk_def Let_def split: if_splits)

lemma walk_not_presentD:
  assumes "walk k c3 va = Inl (EntryNotPresent lv i raw)"
  shows "walk_loop (wk_memory k) (la57 (wk_cr4 k)) va (levels_to_visit (la57 (wk_cr4 k)))
    (table_address c3) [] [] = Inl (EntryNotPresent lv i raw)"
  using assms by (auto simp: walk_def Let_def split: if_splits)

subsection \<open>Properties\<close>

text \<open>
  C1. Refinement of the architecture: whenever the walk resolves an address through a present
  leaf, the physical address it reports (page base and offset combined with \<open>|\<close>, the masks and
  shifts of the code on 64-bit words) is the one the architecture's definition gives over
  natural numbers, for 4 KiB, 2 MiB and 1 GiB leaves and for both 4- and 5-level paging.
\<close>

theorem walk_refines_architecture:
  assumes "walk k c3 va = Inr w" and "pte_present (pw_leaf w)"
  shows "spec_of_walker k c3 va = Some (unat (physical_address w))"
  using walk_loop_refines [OF walk_InrD [OF assms(1)] assms(2)] table_address_start [of c3]
  by (simp add: spec_of_walker_def)

text \<open>
  The path a successful walk reports is the hardware's path: consecutive levels starting at
  the top, each entry decoded from the word memory holds at \<open>table + 8 * index\<close>, each next table
  the frame of the previous entry, every entry before the last present and not a large page, the
  last level the one the leaf size terminates at, and no table visited twice.
\<close>

lemma walk_path_is_hardware_path:
  assumes "walk k c3 va = Inr w"
  shows "\<exists>ws v. pw_levels w = ws @ [v] \<and>
    path_ok (wk_memory k) va (levels_to_visit (la57 (wk_cr4 k))) (table_address c3) (ws @ [v]) \<and>
    pw_leaf w = wl_entry v \<and> wl_level v = terminating_level (pw_leaf_size w) \<and>
    list_all (\<lambda>l. pte_present (wl_entry l) \<and> \<not> pte_page_size (wl_entry l)) ws \<and>
    distinct (map wl_table_address (ws @ [v]))"
  using walk_loop_path [OF walk_InrD [OF assms] pending_levels] by auto

text \<open>
  A hole is explained, never turned into another error: when the walk stops at an entry with
  P=0, \<open>walk_or_explain\<close> returns the structured finding for that level and index, the reported
  entry address is where memory holds exactly that non-present word, the path above it is the
  hardware path with every entry present, and the architecture has no translation either.
\<close>

lemma walk_or_explain_hole:
  assumes "walk k c3 va = Inl (EntryNotPresent lv i raw)"
  shows "\<exists>np. walk_or_explain k c3 va = Inr (Inr np) \<and> np_level np = lv \<and> np_index np = i \<and>
    gm_read_u64 (wk_memory k) (np_entry_address np) = Inr raw \<and> \<not> bit raw 0 \<and>
    path_ok (wk_memory k) va (levels_to_visit (la57 (wk_cr4 k))) (table_address c3) (np_levels np) \<and>
    list_all (\<lambda>l. pte_present (wl_entry l)) (np_levels np) \<and>
    spec_of_walker k c3 va = None"
proof -
  note loop = walk_not_presentD [OF assms]
  obtain ws v where p:
    "partial_path k c3 va lv = Inr (ws @ [v])"
    "path_ok (wk_memory k) va (levels_to_visit (la57 (wk_cr4 k))) (table_address c3) (ws @ [v])"
    "list_all (\<lambda>l. pte_present (wl_entry l)) ws" "wl_index v = i" "pte_raw (wl_entry v) = raw"
    "\<not> bit raw 0"
    using partial_path_loop_reaches [OF loop distinct_levels, of "[]"] by (auto simp: partial_path_def)
  have "spec_of_walker k c3 va = None"
    using walk_loop_not_present [OF loop pending_levels] table_address_start [of c3]
    by (simp add: spec_of_walker_def)
  then show ?thesis
    using p assms path_ok_append [OF p(2)] path_ok_last_read [OF p(2)]
    by (simp add: walk_or_explain_def)
qed

lemma shift_pair_is_sign_extension:
  fixes a :: u64
  assumes "1 \<le> n" and "n \<le> 63"
  shows "signed_drop_bit (64 - n) (push_bit (64 - n) a) = signed_take_bit (n - 1) a"
proof (rule bit_word_eqI)
  fix i assume "i < LENGTH(64)"
  then have i: "i < 64" by simp
  have n: "63 - (64 - n) = n - 1" "64 - n + (n - 1) = 63"
    using assms by simp_all
  show "bit (signed_drop_bit (64 - n) (push_bit (64 - n) a)) i \<longleftrightarrow> bit (signed_take_bit (n - 1) a) i"
    using assms i by (cases "i < n - 1"; cases "i = n - 1") (auto simp: bit_simps n min_def)
qed

text \<open>
  \<open>canonicality\<close> decides exactly whether the address, read as a signed 64-bit number, fits
  in the paging width: the shift-left, arithmetic-shift-right comparison is the sign-extension
  test, for every width from 1 to 63 bits.
\<close>

lemma canonicality_is_range:
  assumes "1 \<le> n" and "n \<le> 63"
  shows "canonicality a n = Canonical \<longleftrightarrow> - (2 ^ (n - 1)) \<le> sint a \<and> sint a < 2 ^ (n - 1)"
proof -
  have "signed_take_bit (n - 1) a = a \<longleftrightarrow> sint (signed_take_bit (n - 1) a) = sint a"
    by (metis signed_word_eqI)
  also have "sint (signed_take_bit (n - 1) a) = signed_take_bit (n - 1) (sint a)"
    by (rule bit_eqI) (use assms in \<open>auto simp: bit_simps bit_signed_iff min_def\<close>)
  also have "signed_take_bit (n - 1) (sint a) = sint a \<longleftrightarrow> - (2 ^ (n - 1)) \<le> sint a \<and> sint a < 2 ^ (n - 1)"
    by (simp add: signed_take_bit_int_eq_self_iff)
  finally have eq: "signed_take_bit (n - 1) a = a \<longleftrightarrow> - (2 ^ (n - 1)) \<le> sint a \<and> sint a < 2 ^ (n - 1)" .
  have "\<not> 63 \<le> n - 1"
    using assms by linarith
  then show ?thesis
    using assms eq by (simp add: canonicality_def shift_pair_is_sign_extension)
qed

lemma canonicality_is_range_witness:
  "canonicality 0xFFFF800000000000 48 = Canonical \<and> canonicality 0x0000800000000000 48 = NonCanonical"
proof -
  have "canonicality 0xFFFF800000000000 48 = Canonical"
    using canonicality_is_range [of 48 "0xFFFF800000000000"] by simp
  moreover have "canonicality 0x0000800000000000 48 \<noteq> Canonical"
    using canonicality_is_range [of 48 "0x0000800000000000"] by simp
  ultimately show ?thesis
    by (metis canonicality_result.exhaust)
qed

lemma leaf_bytes_power: "unat (leaf_bytes sz) = 2 ^ offset_bits sz"
  by (cases sz) simp_all

lemma offset_bits_shift: "offset_bits sz = shift_of (terminating_level sz)"
  by (cases sz) (simp_all add: shift_of_def)

lemma align_down:
  fixes a :: u64
  assumes "n \<le> 64"
  shows "unat (a AND NOT (mask n)) = unat a div 2 ^ n * 2 ^ n"
proof -
  have "a AND NOT (mask n) = push_bit n (drop_bit n a)"
    by (rule bit_word_eqI) (auto simp: bit_simps)
  moreover have "unat a div 2 ^ n * 2 ^ n < 2 ^ 64"
    using le_less_trans [OF div_times_less_eq_dividend unat_u64_less [of a]] by simp
  ultimately show ?thesis
    using unat_push [of "drop_bit n a" n] by (simp only: unat_drop len_bit0 len_num1) simp
qed

lemma walk_loop_leaf:
  assumes "walk_loop mem five va lvs table visited levels = Inr w" and "pending lvs"
  shows "\<exists>raw. unat (pw_physical_base w) = frame_at (offset_bits (pw_leaf_size w)) raw \<and>
    unat (pw_page_offset w) = unat va mod 2 ^ offset_bits (pw_leaf_size w) \<and> pw_address w = va"
  using assms
proof (induction lvs arbitrary: table visited levels)
  case Nil
  then show ?case by (simp add: pending_def)
next
  case (Cons lv rest)
  obtain v where v: "visit mem va lv table visited = Inr v"
    using Cons.prems(1) by (auto split: sum.splits)
  define raw where "raw = pte_raw (wl_entry v)"
  have e: "wl_entry v = decode_entry raw" and lv: "wl_level v = lv"
    using visit_InrD [OF v] by (simp_all add: raw_def)
  show ?case
  proof (cases "bit raw 7")
    case True
    then have allowed: "huge_page_allowed lv"
      and leaf: "huge_leaf mem five va (levels @ [v]) v = Inr w"
      using Cons.prems(1) by (auto simp: v e Let_def split: if_splits)
    have "pw_address w = va"
      using leaf by (auto simp: huge_leaf_def Let_def res_simps)
    then show ?thesis
      using huge_leaf_physical [OF leaf allowed [folded lv] e True] by (auto simp: offset_bits_shift)
  next
    case False
    then have next_loop: "walk_loop mem five va rest (raw AND ENTRY_ADDRESS_MASK) (visited @ [table]) (levels @ [v]) = Inr w"
      using Cons.prems(1) by (auto simp: v e Let_def split: if_splits)
    show ?thesis
    proof (cases "rest = []")
      case True
      then have leaf: "small_leaf mem five va (levels @ [v]) = Inr w"
        using next_loop by simp
      have "pw_address w = va"
        using leaf by (auto simp: small_leaf_def Let_def res_simps)
      then show ?thesis
        using small_leaf_physical [OF leaf, of raw] e by auto
    next
      case False
      then show ?thesis
        using Cons.IH [OF next_loop] pending_Cons [OF Cons.prems(2)] by simp
    qed
  qed
qed


subsection \<open>A replayed memory, and what the walk does on it\<close>

text \<open>
  Five tables in 64 KiB of RAM, one byte entry per non-zero byte: \<open>PML4[0]\<close>, \<open>PDPT[0]\<close>,
  \<open>PD[0]\<close> and \<open>PD[1]\<close> (a 2 MiB leaf), \<open>PT[2]\<close>; \<open>PDPT[1]\<close> has \<open>PS\<close> set and \<open>P\<close> clear, and
  \<open>PT[1]\<close> is a present 4 KiB leaf with bit 7 (there the \<open>PAT\<close> bit) set.
\<close>

definition demo_ram :: guest_ram where
  "demo_ram =
     \<lparr>gr_bytes =
        [0x1000 \<mapsto> 0x03, 0x1001 \<mapsto> 0x20,
         0x2000 \<mapsto> 0x03, 0x2001 \<mapsto> 0x30, 0x2008 \<mapsto> 0x80,
         0x3000 \<mapsto> 0x03, 0x3001 \<mapsto> 0x40, 0x3008 \<mapsto> 0xE7, 0x300A \<mapsto> 0x20,
         0x4008 \<mapsto> 0x83, 0x4009 \<mapsto> 0x50, 0x4010 \<mapsto> 0x03, 0x4011 \<mapsto> 0x60],
      gr_size = 0x10000000\<rparr>"

definition demo_walker :: walker where
  "demo_walker = \<lparr>wk_memory = ram_memory demo_ram, wk_cr0 = Cr0 0x80000011, wk_cr4 = Cr4 0x20,
                  wk_efer = Efer 0xD00\<rparr>"

lemma demo_reads:
  "read_u64 demo_ram 0x1000 = Inr 0x2003" "read_u64 demo_ram 0x2000 = Inr 0x3003"
  "read_u64 demo_ram 0x2008 = Inr 0x80" "read_u64 demo_ram 0x3000 = Inr 0x4003"
  "read_u64 demo_ram 0x3008 = Inr 0x2000E7" "read_u64 demo_ram 0x4008 = Inr 0x5083"
  "read_u64 demo_ram 0x4010 = Inr 0x6003" "read_u64 demo_ram 0x3010 = Inr 0"
  "gr_size demo_ram = 0x10000000"
  by (simp_all add: read_u64_def read_bytes_def demo_ram_def sat_add_def upt_rec byte_at_def
      le_word_def Let_def)

lemmas demo_eval = walk_def demo_walker_def la57_def levels_to_visit_def canonicality_def visit_def
  level_index_def demo_reads table_address_def ENTRY_ADDRESS_MASK_def Let_def huge_leaf_def
  small_leaf_def check_leaf_def checked_add_def leaf_physical_address_def

lemma demo_huge_ok:
  "\<exists>w. walk demo_walker (Cr3 0x1000) 0x234567 = Inr w \<and> pte_present (pw_leaf w) \<and>
     pw_leaf_size w = Huge2M \<and> physical_address w = 0x234567"
  by (simp add: demo_eval physical_address_def)

lemma demo_hole: "walk demo_walker (Cr3 0x1000) 0x400000 = Inl (EntryNotPresent Pd 2 0)"
  by (simp add: demo_eval)

theorem walk_refines_architecture_witness:
  "spec_of_walker demo_walker (Cr3 0x1000) 0x234567 = Some 0x234567"
proof -
  obtain w where "walk demo_walker (Cr3 0x1000) 0x234567 = Inr w" "pte_present (pw_leaf w)"
    "physical_address w = 0x234567"
    using demo_huge_ok by blast
  with walk_refines_architecture [of demo_walker "Cr3 0x1000" "0x234567" w] show ?thesis
    by simp
qed

theorem walk_path_is_hardware_path_witness:
  "\<exists>w ws v. walk demo_walker (Cr3 0x1000) 0x234567 = Inr w \<and> pw_levels w = ws @ [v] \<and> wl_level v = Pd"
proof -
  obtain w where w: "walk demo_walker (Cr3 0x1000) 0x234567 = Inr w" "pw_leaf_size w = Huge2M"
    using demo_huge_ok by blast
  from walk_path_is_hardware_path [OF w(1)] w show ?thesis
    by (metis terminating_level.simps(2))
qed

theorem walk_or_explain_hole_witness:
  "\<exists>np. walk_or_explain demo_walker (Cr3 0x1000) 0x400000 = Inr (Inr np) \<and> np_level np = Pd \<and>
     np_index np = 2"
  using walk_or_explain_hole [OF demo_hole] by blast



end
