(* ===== verification/Utf8.thy ===== *)
theory Utf8
  imports Rust_Text
begin

section \<open>UTF-8 as the standard library decodes it\<close>

text \<open>
  \<open>std::str::from_utf8\<close> and \<open>String::from_utf8_lossy\<close> on byte sequences: the table of lead bytes
  and second-byte ranges of the Unicode standard, the length of the valid prefix, and the length
  of the rejected sequence, which is absent when the input ends inside a sequence. The lemmas say
  how validity behaves under concatenation and cutting.
\<close>

definition byte_of :: "char \<Rightarrow> nat" where
  "byte_of c = of_char c"

definition continuation :: "char \<Rightarrow> bool" where
  "continuation c \<longleftrightarrow> 128 \<le> byte_of c \<and> byte_of c < 192"

text \<open>What stands at the front of a non-empty byte sequence.\<close>

datatype utf8_front = Complete nat | Incomplete | Invalid nat

definition lead_width :: "nat \<Rightarrow> nat" where
  "lead_width b =
     (if b < 128 then 1
      else if 194 \<le> b \<and> b < 224 then 2
      else if 224 \<le> b \<and> b < 240 then 3
      else if 240 \<le> b \<and> b < 245 then 4
      else 0)"

text \<open>The second byte, which excludes overlong forms, surrogates and code points past U+10FFFF.\<close>

definition second_ok :: "nat \<Rightarrow> nat \<Rightarrow> bool" where
  "second_ok b s \<longleftrightarrow>
     (if b = 224 then 160 \<le> s \<and> s < 192
      else if b = 237 then 128 \<le> s \<and> s < 160
      else if b = 240 then 144 \<le> s \<and> s < 192
      else if b = 244 then 128 \<le> s \<and> s < 144
      else 128 \<le> s \<and> s < 192)"

fun front :: "string \<Rightarrow> utf8_front" where
  "front [] = Incomplete"
| "front (a # rest) =
     (let w = lead_width (byte_of a)
      in if w = 1 then Complete 1
         else if w = 0 then Invalid 1
         else case rest of
           [] \<Rightarrow> Incomplete
         | b # rest2 \<Rightarrow>
             if \<not> second_ok (byte_of a) (byte_of b) then Invalid 1
             else if w = 2 then Complete 2
             else case rest2 of
               [] \<Rightarrow> Incomplete
             | c # rest3 \<Rightarrow>
                 if \<not> continuation c then Invalid 2
                 else if w = 3 then Complete 3
                 else case rest3 of
                   [] \<Rightarrow> Incomplete
                 | d # _ \<Rightarrow> if continuation d then Complete 4 else Invalid 3)"

lemma front_Complete_bounds:
  "front s = Complete w \<Longrightarrow> 1 \<le> w \<and> w \<le> 4 \<and> w \<le> length s"
  by (cases s rule: front.cases) (auto simp: Let_def split: if_splits list.splits)

lemma front_Invalid_bounds:
  "front s = Invalid n \<Longrightarrow> 1 \<le> n \<and> n \<le> 3 \<and> n \<le> length s"
  by (cases s rule: front.cases) (auto simp: Let_def split: if_splits list.splits)

lemma front_Incomplete_short: "front s = Incomplete \<Longrightarrow> length s \<le> 3"
  by (cases s rule: front.cases) (auto simp: Let_def split: if_splits list.splits)

lemma front_append:
  "front s = Complete w \<Longrightarrow> front (s @ t) = Complete w"
  "front s = Invalid n \<Longrightarrow> front (s @ t) = Invalid n"
  by (cases s rule: front.cases; auto simp: Let_def split: if_splits list.splits)+

lemma front_take:
  assumes "front s = Complete w"
  shows "front (take w s) = Complete w"
proof -
  have "w = 1 \<or> w = 2 \<or> w = 3 \<or> w = 4"
    using front_Complete_bounds [OF assms] by linarith
  then show ?thesis
    using assms
    by (elim disjE; cases s rule: front.cases)
      (auto simp: Let_def numeral_eq_Suc split: if_splits list.splits)
qed

lemma front_tail_not_ascii:
  "front s = Complete w \<Longrightarrow> 0 < i \<Longrightarrow> i < w \<Longrightarrow> 128 \<le> byte_of (s ! i)"
  by (cases s rule: front.cases)
    (auto simp: Let_def nth_Cons' second_ok_def continuation_def split: if_splits list.splits)

text \<open>\<open>from_utf8\<close>: \<open>Ok\<close>, or \<open>valid_up_to\<close> and \<open>error_len\<close>.\<close>

function from_utf8_at :: "nat \<Rightarrow> string \<Rightarrow> (nat \<times> nat option) + unit" where
  "from_utf8_at k s =
     (if s = [] then Inr ()
      else case front s of
        Complete w \<Rightarrow> from_utf8_at (k + w) (drop w s)
      | Incomplete \<Rightarrow> Inl (k, None)
      | Invalid n \<Rightarrow> Inl (k, Some n))"
  by pat_completeness auto
termination
  by (relation "measure (\<lambda>(k, s). length s)") (auto dest: front_Complete_bounds)

declare from_utf8_at.simps [simp del]

definition from_utf8 :: "string \<Rightarrow> (nat \<times> nat option) + unit" where
  "from_utf8 s = from_utf8_at 0 s"

definition replacement :: string where
  "replacement = [CHR 0xEF, CHR 0xBF, CHR 0xBD]"

function from_utf8_lossy :: "string \<Rightarrow> string" where
  "from_utf8_lossy s =
     (if s = [] then []
      else case front s of
        Complete w \<Rightarrow> take w s @ from_utf8_lossy (drop w s)
      | Incomplete \<Rightarrow> replacement
      | Invalid n \<Rightarrow> replacement @ from_utf8_lossy (drop n s))"
  by pat_completeness auto
termination
  by (relation "measure length") (auto dest: front_Complete_bounds front_Invalid_bounds)

declare from_utf8_lossy.simps [simp del]

definition valid_utf8 :: "string \<Rightarrow> bool" where
  "valid_utf8 s \<longleftrightarrow> from_utf8 s = Inr ()"

subsection \<open>Validity\<close>

lemma from_utf8_at_shift:
  "from_utf8_at k s = (case from_utf8_at 0 s of Inl (v, e) \<Rightarrow> Inl (k + v, e) | Inr u \<Rightarrow> Inr u)"
proof (induction "length s" arbitrary: k s rule: less_induct)
  case less
  show ?case
  proof (cases "s = []")
    case True
    then show ?thesis by (simp add: from_utf8_at.simps)
  next
    case False
    show ?thesis
    proof (cases "front s")
      case (Complete w)
      then have "length (drop w s) < length s"
        using front_Complete_bounds [OF Complete] False by simp
      then have "from_utf8_at j (drop w s) = (case from_utf8_at 0 (drop w s) of Inl (v, e) \<Rightarrow> Inl (j + v, e) | Inr u \<Rightarrow> Inr u)" for j
        by (rule less)
      from this [of "k + w"] this [of w] show ?thesis
        using Complete False by (subst (1 2) from_utf8_at.simps) (auto split: sum.splits)
    qed (use False in \<open>subst (1 2) from_utf8_at.simps; simp\<close>)+
  qed
qed

lemma from_utf8_at_ok: "from_utf8_at (k + w) s = Inr () \<longleftrightarrow> from_utf8_at 0 s = Inr ()"
  by (subst from_utf8_at_shift) (auto split: sum.splits)

lemma valid_utf8_Nil [simp]: "valid_utf8 []"
  by (simp add: valid_utf8_def from_utf8_def from_utf8_at.simps)

lemma valid_utf8_front:
  "s \<noteq> [] \<Longrightarrow> valid_utf8 s \<longleftrightarrow> (\<exists>w. front s = Complete w \<and> valid_utf8 (drop w s))"
  unfolding valid_utf8_def from_utf8_def
  by (cases "front s") (simp_all add: from_utf8_at.simps [of 0 s] from_utf8_at_ok [of 0 w "drop w s" for w, simplified])

lemma valid_utf8_induct [consumes 1, case_names Nil Step]:
  assumes "valid_utf8 s" and "P []"
    and "\<And>s w. s \<noteq> [] \<Longrightarrow> front s = Complete w \<Longrightarrow> valid_utf8 (drop w s) \<Longrightarrow> P (drop w s) \<Longrightarrow> P s"
  shows "P s"
  using assms(1)
proof (induction "length s" arbitrary: s rule: less_induct)
  case less
  show ?case
  proof (cases "s = []")
    case True
    then show ?thesis using assms(2) by simp
  next
    case False
    then obtain w where w: "front s = Complete w" "valid_utf8 (drop w s)"
      using less.prems valid_utf8_front by blast
    then have "length (drop w s) < length s"
      using front_Complete_bounds [OF w(1)] False by simp
    then show ?thesis
      using assms(3) [OF False w] less.hyps w(2) by blast
  qed
qed

lemma valid_utf8_append: "valid_utf8 s \<Longrightarrow> valid_utf8 (s @ t) \<longleftrightarrow> valid_utf8 t"
proof (induction rule: valid_utf8_induct)
  case Nil
  then show ?case by simp
next
  case (Step s w)
  then have "w \<le> length s"
    using front_Complete_bounds by blast
  with Step show ?case
    by (simp add: valid_utf8_front front_append)
qed

lemma from_utf8_lossy_valid: "valid_utf8 s \<Longrightarrow> from_utf8_lossy s = s"
  by (induction rule: valid_utf8_induct) (simp_all add: from_utf8_lossy.simps)

text \<open>The prefix \<open>valid_up_to\<close> reports is valid, and what follows it is what \<open>error_len\<close> says.\<close>

lemma from_utf8_Inl:
  assumes "from_utf8 s = Inl (v, e)"
  shows "v < length s \<and> valid_utf8 (take v s) \<and>
    front (drop v s) = (case e of None \<Rightarrow> Incomplete | Some n \<Rightarrow> Invalid n)"
  using assms
proof (induction "length s" arbitrary: s v rule: less_induct)
  case less
  have ne: "s \<noteq> []"
    using less.prems by (auto simp: from_utf8_def from_utf8_at.simps)
  show ?case
  proof (cases "front s")
    case (Complete w)
    note w = front_Complete_bounds [OF Complete]
    have "from_utf8_at w (drop w s) = Inl (v, e)"
      using less.prems ne Complete by (simp add: from_utf8_def from_utf8_at.simps [of 0 s])
    then obtain v' where v': "from_utf8 (drop w s) = Inl (v', e)" "v = w + v'"
      by (subst (asm) from_utf8_at_shift) (auto simp: from_utf8_def split: sum.splits)
    have IH: "v' < length (drop w s) \<and> valid_utf8 (take v' (drop w s)) \<and>
        front (drop v' (drop w s)) = (case e of None \<Rightarrow> Incomplete | Some n \<Rightarrow> Invalid n)"
      by (rule less.hyps [OF _ v'(1)]) (use w ne in simp)
    have "valid_utf8 (take w s)"
    proof -
      have "front (take w s) = Complete w"
        using Complete by (rule front_take)
      then show ?thesis
        using w ne by (subst valid_utf8_front) auto
    qed
    then have "valid_utf8 (take (w + v') s)"
      using IH by (simp add: valid_utf8_append take_add)
    then show ?thesis
      using IH v'(2) by (auto simp: add.commute)
  qed (use less.prems ne in \<open>auto simp: from_utf8_def from_utf8_at.simps [of 0 s]\<close>)
qed

text \<open>A prefix of valid text can end inside a sequence but holds no invalid one.\<close>

lemma valid_prefix_not_invalid:
  assumes "valid_utf8 (s @ t)" and "from_utf8 s = Inl (v, e)"
  shows "e = None"
proof (rule ccontr)
  assume "e \<noteq> None"
  then obtain n where n: "front (drop v s) = Invalid n" "v < length s" "valid_utf8 (take v s)"
    using from_utf8_Inl [OF assms(2)] by auto
  have "valid_utf8 (take v s @ drop v s @ t)"
    using assms(1) by (simp flip: append_assoc)
  then have "valid_utf8 (drop v s @ t)"
    using n(3) valid_utf8_append by blast
  moreover have "front (drop v s @ t) = Invalid n"
    using n(1) by (rule front_append)
  ultimately show False
    using n(2) by (auto simp: valid_utf8_front)
qed

text \<open>Cutting valid text in front of an ASCII byte leaves valid text.\<close>

lemma valid_utf8_before_ascii:
  assumes "valid_utf8 s" and "s = p @ c # q" and "byte_of c < 128"
  shows "valid_utf8 p"
  using assms(1,2)
proof (induction arbitrary: p rule: valid_utf8_induct)
  case Nil
  then show ?case by simp
next
  case (Step s w)
  show ?case
  proof (cases "w \<le> length p")
    case True
    then have d: "drop w s = drop w p @ c # q"
      using Step.prems by simp
    have "front p = Complete w \<or> p = []"
    proof (cases "p = []")
      case False
      have "front (take w s) = Complete w"
        using Step.hyps(2) by (rule front_take)
      moreover have "take w s = take w p"
        using True Step.prems by simp
      ultimately have "front (take w p) = Complete w"
        by simp
      then show ?thesis
        using front_append(1) [of "take w p" w "drop w p"] by simp
    qed simp
    then show ?thesis
      using Step.IH [OF d] by (cases "p = []") (auto simp: valid_utf8_front)
  next
    case False
    show ?thesis
    proof (cases "p = []")
      case False
      then have "128 \<le> byte_of (s ! length p)"
        using front_tail_not_ascii [OF Step.hyps(2), of "length p"] \<open>\<not> w \<le> length p\<close> by simp
      then show ?thesis
        using Step.prems assms(3) by simp
    qed simp
  qed
qed

end
