(* ===== verification/Rust_Str.thy ===== *)
theory Rust_Str
  imports Utf8
begin

section \<open>String operations of the standard library\<close>

text \<open>
  The \<open>str\<close> methods the parsers use, on byte sequences: trimming by Unicode \<open>White_Space\<close>,
  splitting, prefixes, ASCII case, and the parsing of unsigned integers. A byte sequence that is
  valid UTF-8 is cut only at code point boundaries by these, because the separators are complete
  code points.
\<close>

subsection \<open>White space\<close>

definition ascii_space :: "char \<Rightarrow> bool" where
  "ascii_space c \<longleftrightarrow> byte_of c = 32 \<or> 9 \<le> byte_of c \<and> byte_of c \<le> 13"

text \<open>The encodings of the code points with the property \<open>White_Space\<close> outside ASCII.\<close>

definition wide_spaces :: "string list" where
  "wide_spaces =
     [[CHR 0xC2, CHR 0x85], [CHR 0xC2, CHR 0xA0], [CHR 0xE1, CHR 0x9A, CHR 0x80],
      [CHR 0xE2, CHR 0x80, CHR 0x80], [CHR 0xE2, CHR 0x80, CHR 0x81], [CHR 0xE2, CHR 0x80, CHR 0x82],
      [CHR 0xE2, CHR 0x80, CHR 0x83], [CHR 0xE2, CHR 0x80, CHR 0x84], [CHR 0xE2, CHR 0x80, CHR 0x85],
      [CHR 0xE2, CHR 0x80, CHR 0x86], [CHR 0xE2, CHR 0x80, CHR 0x87], [CHR 0xE2, CHR 0x80, CHR 0x88],
      [CHR 0xE2, CHR 0x80, CHR 0x89], [CHR 0xE2, CHR 0x80, CHR 0x8A], [CHR 0xE2, CHR 0x80, CHR 0xA8],
      [CHR 0xE2, CHR 0x80, CHR 0xA9], [CHR 0xE2, CHR 0x80, CHR 0xAF], [CHR 0xE2, CHR 0x81, CHR 0x9F],
      [CHR 0xE3, CHR 0x80, CHR 0x80]]"

fun starts_with :: "string \<Rightarrow> string \<Rightarrow> bool" where
  "starts_with [] s = True"
| "starts_with (p # ps) [] = False"
| "starts_with (p # ps) (c # s) = (p = c \<and> starts_with ps s)"

lemma starts_with_iff: "starts_with p s \<longleftrightarrow> (\<exists>t. s = p @ t)"
  by (induction p s rule: starts_with.induct) auto

text \<open>The number of bytes of white space at the front: 0 when there is none.\<close>

definition space_width :: "string \<Rightarrow> nat" where
  "space_width s =
     (case s of
        [] \<Rightarrow> 0
      | c # _ \<Rightarrow>
          if ascii_space c then 1
          else case find (\<lambda>w. starts_with w s) wide_spaces of None \<Rightarrow> 0 | Some w \<Rightarrow> length w)"

definition space_width_end :: "string \<Rightarrow> nat" where
  "space_width_end s =
     (case rev s of
        [] \<Rightarrow> 0
      | c # _ \<Rightarrow>
          if ascii_space c then 1
          else case find (\<lambda>w. starts_with (rev w) (rev s)) wide_spaces of None \<Rightarrow> 0 | Some w \<Rightarrow> length w)"

function str_trim_start :: "string \<Rightarrow> string" where
  "str_trim_start s =
     (let n = space_width s in if n = 0 \<or> s = [] then s else str_trim_start (drop n s))"
  by pat_completeness auto
termination
  by (relation "measure length") auto

function str_trim_end :: "string \<Rightarrow> string" where
  "str_trim_end s =
     (let n = space_width_end s in if n = 0 \<or> s = [] then s else str_trim_end (take (length s - n) s))"
  by pat_completeness auto
termination
  by (relation "measure length") auto

declare str_trim_start.simps [simp del] str_trim_end.simps [simp del]

definition str_trim :: "string \<Rightarrow> string" where
  "str_trim s = str_trim_end (str_trim_start s)"

text \<open>Text that starts and ends with a printable ASCII character is not trimmed.\<close>

definition ascii_graphic :: "char \<Rightarrow> bool" where
  "ascii_graphic c \<longleftrightarrow> 33 \<le> byte_of c \<and> byte_of c \<le> 126"

lemma wide_space_bytes: "w \<in> set wide_spaces \<Longrightarrow> c \<in> set w \<Longrightarrow> 128 \<le> byte_of c"
  by (auto simp: wide_spaces_def byte_of_def)

lemma wide_space_nonempty: "w \<in> set wide_spaces \<Longrightarrow> w \<noteq> []"
  by (auto simp: wide_spaces_def)

lemma graphic_no_wide:
  assumes "ascii_graphic c"
  shows "find (\<lambda>w. starts_with w (c # s)) wide_spaces = None"
    and "find (\<lambda>w. starts_with (rev w) (c # s)) wide_spaces = None"
proof -
  have "\<not> starts_with w (c # s) \<and> \<not> starts_with (rev w) (c # s)" if w: "w \<in> set wide_spaces" for w
  proof -
    have "c \<notin> set w"
      using wide_space_bytes [OF w, of c] assms by (auto simp: ascii_graphic_def)
    moreover obtain d ds where "w = d # ds"
      using wide_space_nonempty [OF w] by (cases w) auto
    moreover obtain e es where "rev w = e # es"
      using wide_space_nonempty [OF w] by (cases "rev w") auto
    then have "e \<in> set w"
      by (metis list.set_intros(1) set_rev)
    ultimately show ?thesis
      using \<open>rev w = e # es\<close> by auto
  qed
  then show "find (\<lambda>w. starts_with w (c # s)) wide_spaces = None"
    and "find (\<lambda>w. starts_with (rev w) (c # s)) wide_spaces = None"
    by (simp_all add: find_None_iff)
qed

lemma graphic_not_space: "ascii_graphic c \<Longrightarrow> \<not> ascii_space c"
  by (auto simp: ascii_graphic_def ascii_space_def)

lemma str_trim_start_graphic: "ascii_graphic c \<Longrightarrow> str_trim_start (c # s) = c # s"
  by (subst str_trim_start.simps) (simp add: space_width_def graphic_no_wide graphic_not_space)

lemma str_trim_start_space: "ascii_space c \<Longrightarrow> str_trim_start (c # s) = str_trim_start s"
  by (subst str_trim_start.simps) (simp add: space_width_def)

lemma str_trim_end_graphic: "ascii_graphic c \<Longrightarrow> str_trim_end (s @ [c]) = s @ [c]"
  by (subst str_trim_end.simps) (simp add: space_width_end_def graphic_no_wide graphic_not_space)

lemma str_trim_end_space: "ascii_space c \<Longrightarrow> str_trim_end (s @ [c]) = str_trim_end s"
  by (subst str_trim_end.simps) (simp add: space_width_end_def)

lemma str_trim_graphic:
  assumes "s \<noteq> []" and "ascii_graphic (hd s)" and "ascii_graphic (last s)"
  shows "str_trim_start s = s" and "str_trim_end s = s" and "str_trim s = s"
proof -
  show 1: "str_trim_start s = s"
    using assms str_trim_start_graphic [of "hd s" "tl s"] by simp
  show 2: "str_trim_end s = s"
    using assms str_trim_end_graphic [of "last s" "butlast s"] by simp
  show "str_trim s = s"
    by (simp add: str_trim_def 1 2)
qed

subsection \<open>Splitting\<close>

fun split_once :: "char \<Rightarrow> string \<Rightarrow> (string \<times> string) option" where
  "split_once c [] = None"
| "split_once c (x # xs) =
     (if x = c then Some ([], xs)
      else case split_once c xs of None \<Rightarrow> None | Some (a, b) \<Rightarrow> Some (x # a, b))"

fun split_char :: "char \<Rightarrow> string \<Rightarrow> string list" where
  "split_char c [] = [[]]"
| "split_char c (x # xs) =
     (if x = c then [] # split_char c xs
      else case split_char c xs of [] \<Rightarrow> [[x]] | p # ps \<Rightarrow> (x # p) # ps)"

text \<open>\<open>split("\r\n")\<close>.\<close>

fun split_crlf :: "string \<Rightarrow> string list" where
  "split_crlf [] = [[]]"
| "split_crlf [x] = [[x]]"
| "split_crlf (x # y # xs) =
     (if x = CHR 0x0D \<and> y = CHR 0x0A then [] # split_crlf xs
      else case split_crlf (y # xs) of [] \<Rightarrow> [[x]] | p # ps \<Rightarrow> (x # p) # ps)"

lemma split_once_append: "c \<notin> set a \<Longrightarrow> split_once c (a @ c # b) = Some (a, b)"
  by (induction a) auto

lemma split_once_Some: "split_once c s = Some (a, b) \<Longrightarrow> s = a @ c # b \<and> c \<notin> set a"
  by (induction s arbitrary: a) (auto split: if_splits option.splits)

lemma split_once_None: "split_once c s = None \<longleftrightarrow> c \<notin> set s"
  by (induction s) (auto split: option.splits)

lemma split_char_none: "c \<notin> set s \<Longrightarrow> split_char c s = [s]"
  by (induction s) auto

lemma split_char_append: "c \<notin> set a \<Longrightarrow> split_char c (a @ c # b) = a # split_char c b"
  by (induction a) auto

lemma split_crlf_none: "CHR 0x0A \<notin> set s \<Longrightarrow> split_crlf s = [s]"
  by (induction s rule: split_crlf.induct) auto

definition strip_prefix :: "string \<Rightarrow> string \<Rightarrow> string option" where
  "strip_prefix p s = (if starts_with p s then Some (drop (length p) s) else None)"

definition ends_with :: "string \<Rightarrow> string \<Rightarrow> bool" where
  "ends_with p s = starts_with (rev p) (rev s)"

definition strip_suffix :: "string \<Rightarrow> string \<Rightarrow> string option" where
  "strip_suffix p s = (if ends_with p s then Some (take (length s - length p) s) else None)"

fun str_contains :: "string \<Rightarrow> string \<Rightarrow> bool" where
  "str_contains p [] = (p = [])"
| "str_contains p (c # s) = (starts_with p (c # s) \<or> str_contains p s)"

lemma str_contains_iff: "str_contains p s \<longleftrightarrow> (\<exists>a b. s = a @ p @ b)"
proof (induction s)
  case Nil
  then show ?case by auto
next
  case (Cons c s)
  have "(\<exists>a b. c # s = a @ p @ b) \<longleftrightarrow> (\<exists>b. c # s = p @ b) \<or> (\<exists>a b. s = a @ p @ b)"
    by (auto simp: Cons_eq_append_conv)
  then show ?case
    using Cons by (simp add: starts_with_iff)
qed

definition strip_cr :: "string \<Rightarrow> string" where
  "strip_cr s = (case strip_suffix [CHR 0x0D] s of None \<Rightarrow> s | Some t \<Rightarrow> t)"

text \<open>\<open>str::split_once\<close> with a string as the separator: at its first occurrence.\<close>

fun split_once_str :: "string \<Rightarrow> string \<Rightarrow> (string \<times> string) option" where
  "split_once_str p [] = (if p = [] then Some ([], []) else None)"
| "split_once_str p (c # s) =
     (if starts_with p (c # s) then Some ([], drop (length p) (c # s))
      else map_option (\<lambda>(a, b). (c # a, b)) (split_once_str p s))"

lemma split_once_str_first:
  assumes "\<forall>t < length a. \<not> starts_with p (drop t (a @ p @ b))"
  shows "split_once_str p (a @ p @ b) = Some (a, b)"
  using assms
proof (induction a)
  case Nil
  show ?case
  proof (cases "p @ b")
    case (Cons d t)
    moreover have "starts_with p (p @ b)" "drop (length p) (p @ b) = b"
      by (auto simp: starts_with_iff)
    ultimately show ?thesis by simp
  qed simp
next
  case (Cons c a)
  have "\<not> starts_with p (c # a @ p @ b)"
    using Cons.prems by (metis append_Cons drop0 length_Cons zero_less_Suc)
  moreover have "split_once_str p (a @ p @ b) = Some (a, b)"
    using Cons.prems by (intro Cons.IH) (metis Suc_less_eq append_Cons drop_Suc_Cons length_Cons)
  ultimately show ?case by simp
qed

lemma split_once_str_None: "split_once_str p s = None \<longleftrightarrow> \<not> str_contains p s"
  by (induction s) auto

subsection \<open>ASCII case and numbers\<close>

definition ascii_lower :: "char \<Rightarrow> char" where
  "ascii_lower c = (if 65 \<le> byte_of c \<and> byte_of c \<le> 90 then char_of (byte_of c + 32) else c)"

definition eq_ignore_ascii_case :: "string \<Rightarrow> string \<Rightarrow> bool" where
  "eq_ignore_ascii_case a b \<longleftrightarrow> map ascii_lower a = map ascii_lower b"

lemma eq_ignore_ascii_case_refl [simp]: "eq_ignore_ascii_case a a"
  by (simp add: eq_ignore_ascii_case_def)

text \<open>\<open>char::to_digit(radix)\<close>.\<close>

definition to_digit :: "nat \<Rightarrow> char \<Rightarrow> nat option" where
  "to_digit radix c =
     (let b = byte_of c;
          d = (if 48 \<le> b \<and> b \<le> 57 then Some (b - 48)
               else if 97 \<le> b \<and> b \<le> 122 then Some (b - 87)
               else if 65 \<le> b \<and> b \<le> 90 then Some (b - 55)
               else None)
      in case d of None \<Rightarrow> None | Some v \<Rightarrow> if v < radix then Some v else None)"

fun digits_value :: "nat \<Rightarrow> nat \<Rightarrow> nat \<Rightarrow> string \<Rightarrow> nat option" where
  "digits_value radix bound acc [] = Some acc"
| "digits_value radix bound acc (c # cs) =
     (case to_digit radix c of
        None \<Rightarrow> None
      | Some d \<Rightarrow>
          if acc * radix + d < bound then digits_value radix bound (acc * radix + d) cs else None)"

text \<open>\<open>from_str_radix\<close> of an unsigned type with \<open>bound\<close> values: an optional plus sign, at least
  one digit, no overflow.\<close>

definition parse_unsigned :: "nat \<Rightarrow> nat \<Rightarrow> string \<Rightarrow> nat option" where
  "parse_unsigned radix bound s =
     (case s of
        [] \<Rightarrow> None
      | c # cs \<Rightarrow>
          if c = CHR ''+'' then (if cs = [] then None else digits_value radix bound 0 cs)
          else digits_value radix bound 0 s)"

definition parse_u64 :: "string \<Rightarrow> nat option" where
  "parse_u64 s = parse_unsigned 10 (2 ^ 64) s"

definition parse_u32 :: "string \<Rightarrow> u32 option" where
  "parse_u32 s = map_option word_of_nat (parse_unsigned 10 (2 ^ 32) s)"

definition radix16_u64 :: "string \<Rightarrow> nat option" where
  "radix16_u64 s = parse_unsigned 16 (2 ^ 64) s"

subsection \<open>Printing and parsing numbers\<close>

lemma byte_of_char_of: "n < 256 \<Longrightarrow> byte_of (char_of n) = n"
  by (simp add: byte_of_def)

lemma to_digit_digit_char: "d < radix \<Longrightarrow> radix \<le> 16 \<Longrightarrow> to_digit radix (digit_char d) = Some d"
  by (auto simp: to_digit_def digit_char_def byte_of_char_of)

lemma digit_char_graphic: "d < 16 \<Longrightarrow> ascii_graphic (digit_char d)"
  by (auto simp: ascii_graphic_def digit_char_def byte_of_char_of)

lemma digit_char_neq:
  assumes "d < 16" and "byte_of c < 48 \<or> byte_of c = 58"
  shows "digit_char d \<noteq> c"
  using assms by (auto simp: digit_char_def byte_of_char_of)

lemma set_digits_in: "2 \<le> b \<Longrightarrow> c \<in> set (digits_in b n) \<Longrightarrow> \<exists>d < b. c = digit_char d"
proof (induction b n rule: digits_in.induct)
  case (1 b n)
  have "\<exists>d < b. digit_char (n mod b) = digit_char d"
    using "1.prems"(1) by (intro exI [of _ "n mod b"]) simp
  then show ?case
    using 1 by (subst (asm) (2) digits_in.simps) (auto split: if_splits)
qed

lemma digits_value_append:
  "digits_value r bound acc (s @ t) =
     (case digits_value r bound acc s of None \<Rightarrow> None | Some v \<Rightarrow> digits_value r bound v t)"
  by (induction s arbitrary: acc) (auto split: option.splits)

lemma digits_value_digits_in:
  assumes "2 \<le> r" and "r \<le> 16" and "n < bound"
  shows "digits_value r bound 0 (digits_in r n) = Some n"
  using assms
proof (induction r n rule: digits_in.induct)
  case (1 r n)
  show ?case
  proof (cases "n < r")
    case True
    then show ?thesis
      using 1 by (simp add: digits_in.simps to_digit_digit_char)
  next
    case False
    have "n div r < bound"
      using "1.prems"(3) by (meson div_le_dividend le_less_trans)
    then have "digits_value r bound 0 (digits_in r (n div r)) = Some (n div r)"
      using 1 False by simp
    then show ?thesis
      using False "1.prems" by (subst digits_in.simps) (simp add: digits_value_append to_digit_digit_char)
  qed
qed

text \<open>A number printed in a base is read back, and printing yields only digits.\<close>

lemma parse_digits_in:
  assumes "2 \<le> r" and "r \<le> 16" and "n < bound"
  shows "parse_unsigned r bound (digits_in r n) = Some n"
proof -
  have "hd (digits_in r n) \<in> set (digits_in r n)"
    by (rule hd_in_set) simp
  then obtain d where "d < r" "hd (digits_in r n) = digit_char d"
    using set_digits_in [OF assms(1)] by blast
  then have "hd (digits_in r n) \<noteq> CHR ''+''"
    using digit_char_neq [of d "CHR ''+''"] assms(2) by (simp add: byte_of_def)
  then show ?thesis
    using digits_value_digits_in [OF assms]
    by (cases "digits_in r n") (simp_all add: parse_unsigned_def)
qed

lemma parse_show_nat: "n < 2 ^ 64 \<Longrightarrow> parse_u64 (show_nat n) = Some n"
  by (simp add: parse_u64_def show_nat_def parse_digits_in)

lemma parse_show_hex: "n < 2 ^ 64 \<Longrightarrow> radix16_u64 (show_hex n) = Some n"
  by (simp add: radix16_u64_def show_hex_def parse_digits_in)

lemma show_nat_chars: "c \<in> set (show_nat n) \<Longrightarrow> \<exists>d < 10. c = digit_char d"
  using set_digits_in [of 10 c n] by (simp add: show_nat_def)

lemma show_hex_chars: "c \<in> set (show_hex n) \<Longrightarrow> \<exists>d < 16. c = digit_char d"
  using set_digits_in [of 16 c n] by (simp add: show_hex_def)

lemma show_nat_graphic: "ascii_graphic (hd (show_nat n))" "ascii_graphic (last (show_nat n))" "show_nat n \<noteq> []"
proof -
  show ne: "show_nat n \<noteq> []"
    by (simp add: show_nat_def)
  have "\<forall>c \<in> set (show_nat n). ascii_graphic c"
    using show_nat_chars digit_char_graphic by fastforce
  with ne show "ascii_graphic (hd (show_nat n))" "ascii_graphic (last (show_nat n))"
    by simp_all
qed

lemma show_nat_no:
  assumes "byte_of c < 48 \<or> byte_of c = 58"
  shows "c \<notin> set (show_nat n)"
proof
  assume "c \<in> set (show_nat n)"
  then obtain d where "d < 10" "c = digit_char d"
    using show_nat_chars by blast
  with assms digit_char_neq [of d c] show False by simp
qed

lemma valid_utf8_ascii: "\<forall>c \<in> set s. byte_of c < 128 \<Longrightarrow> valid_utf8 s"
  by (induction s) (simp_all add: valid_utf8_front lead_width_def)

lemma show_nat_ascii: "c \<in> set (show_nat n) \<Longrightarrow> byte_of c < 128"
proof -
  assume "c \<in> set (show_nat n)"
  then obtain d where "d < 10" "c = digit_char d"
    using show_nat_chars by blast
  then show ?thesis
    by (simp add: digit_char_def byte_of_char_of)
qed

lemma length_digits_in: "2 \<le> b \<Longrightarrow> n < b ^ k \<Longrightarrow> 0 < k \<Longrightarrow> length (digits_in b n) \<le> k"
proof (induction b n arbitrary: k rule: digits_in.induct)
  case (1 b n)
  show ?case
  proof (cases "n < b")
    case True
    then show ?thesis
      using 1 by (subst digits_in.simps) simp
  next
    case False
    obtain j where j: "k = Suc j"
      using "1.prems"(3) by (cases k) auto
    have "0 < j"
      using False "1.prems"(2) j by (cases j) auto
    moreover have "n div b < b ^ j"
      using "1.prems"(2) j by (simp add: less_mult_imp_div_less mult.commute)
    ultimately show ?thesis
      using 1 False j by (subst digits_in.simps) simp
  qed
qed

subsection \<open>Lines and fields\<close>

text \<open>\<open>split_inclusive\<close>: every piece keeps its separator.\<close>

fun split_inclusive :: "char \<Rightarrow> string \<Rightarrow> string list" where
  "split_inclusive c [] = []"
| "split_inclusive c (x # xs) =
     (if x = c then [x] # split_inclusive c xs
      else case split_inclusive c xs of [] \<Rightarrow> [[x]] | p # ps \<Rightarrow> (x # p) # ps)"

lemma concat_split_inclusive [simp]: "concat (split_inclusive c s) = s"
  by (induction s) (auto split: list.splits)

lemma split_inclusive_append: "c \<notin> set a \<Longrightarrow> split_inclusive c (a @ c # b) = (a @ [c]) # split_inclusive c b"
  by (induction a) auto

text \<open>\<open>str::lines\<close>: each piece loses its line feed, and the carriage return before it.\<close>

definition line_of_piece :: "string \<Rightarrow> string" where
  "line_of_piece p =
     (case strip_suffix [CHR 0x0A] p of
        None \<Rightarrow> p
      | Some l \<Rightarrow> strip_cr l)"

definition str_lines :: "string \<Rightarrow> string list" where
  "str_lines s = map line_of_piece (split_inclusive CHR 0x0A s)"

definition trim_end_matches :: "(char \<Rightarrow> bool) \<Rightarrow> string \<Rightarrow> string" where
  "trim_end_matches P s = rev (dropWhile P (rev s))"

definition trim_start_matches :: "(char \<Rightarrow> bool) \<Rightarrow> string \<Rightarrow> string" where
  "trim_start_matches P s = dropWhile P s"

definition trim_matches :: "(char \<Rightarrow> bool) \<Rightarrow> string \<Rightarrow> string" where
  "trim_matches P s = trim_end_matches P (trim_start_matches P s)"

text \<open>\<open>split_whitespace\<close>: the maximal pieces free of white space.\<close>

fun take_field :: "string \<Rightarrow> string \<times> string" where
  "take_field [] = ([], [])"
| "take_field (c # s) =
     (if space_width (c # s) \<noteq> 0 then ([], c # s) else case take_field s of (f, rest) \<Rightarrow> (c # f, rest))"

lemma take_field_length: "length (fst (take_field s)) + length (snd (take_field s)) = length s"
  by (induction s) (auto split: prod.splits)

lemma str_trim_start_length: "length (str_trim_start s) \<le> length s"
proof (induction s rule: str_trim_start.induct)
  case (1 s)
  show ?case
    using 1 by (subst str_trim_start.simps) (auto simp: Let_def)
qed

lemma str_trim_start_space_width: "space_width (str_trim_start s) = 0"
proof (induction s rule: str_trim_start.induct)
  case (1 s)
  have "space_width [] = 0"
    by (simp add: space_width_def)
  with 1 show ?case
    by (subst str_trim_start.simps) (auto simp: Let_def)
qed

lemma take_field_nonempty: "t \<noteq> [] \<Longrightarrow> space_width t = 0 \<Longrightarrow> fst (take_field t) \<noteq> []"
  by (cases t) (auto split: prod.splits)

function split_whitespace :: "string \<Rightarrow> string list" where
  "split_whitespace s =
     (let t = str_trim_start s
      in if t = [] then [] else case take_field t of (f, rest) \<Rightarrow> f # split_whitespace rest)"
  by pat_completeness auto
termination
proof (relation "measure length")
  fix s t :: string and f rest
  assume "t = str_trim_start s" "t \<noteq> []" "(f, rest) = take_field t"
  moreover from this have "f \<noteq> []"
    using take_field_nonempty [of t] str_trim_start_space_width [of s] by (metis fst_conv)
  ultimately show "(rest, s) \<in> measure length"
    using take_field_length [of t] str_trim_start_length [of s] by (cases f) (auto dest: sym)
qed simp

declare split_whitespace.simps [simp del]

text \<open>Printable ASCII pieces separated by single spaces.\<close>

lemma take_field_graphic:
  "\<forall>c \<in> set f. ascii_graphic c \<Longrightarrow> take_field (f @ CHR '' '' # s) = (f, CHR '' '' # s)"
  "\<forall>c \<in> set f. ascii_graphic c \<Longrightarrow> take_field f = (f, [])"
proof -
  have w: "space_width (c # t) = 0" if "ascii_graphic c" for c t
    using that by (simp add: space_width_def graphic_no_wide graphic_not_space)
  have "space_width (CHR '' '' # s) = 1"
    by (simp add: space_width_def ascii_space_def byte_of_def)
  then show "\<forall>c \<in> set f. ascii_graphic c \<Longrightarrow> take_field (f @ CHR '' '' # s) = (f, CHR '' '' # s)"
    by (induction f) (simp_all add: w)
  show "\<forall>c \<in> set f. ascii_graphic c \<Longrightarrow> take_field f = (f, [])"
    by (induction f) (simp_all add: w)
qed

definition field_ok :: "string \<Rightarrow> bool" where
  "field_ok f \<longleftrightarrow> f \<noteq> [] \<and> (\<forall>c \<in> set f. ascii_graphic c)"

lemma field_ok_trim: "field_ok f \<Longrightarrow> str_trim_start (f @ s) = f @ s"
  by (cases f) (auto simp: field_ok_def str_trim_start_graphic)

lemma split_whitespace_Cons:
  assumes "field_ok f"
  shows "split_whitespace (f @ CHR '' '' # s) = f # split_whitespace s"
proof -
  have space: "str_trim_start (CHR '' '' # s) = str_trim_start s"
    by (rule str_trim_start_space) (simp add: ascii_space_def byte_of_def)
  have "split_whitespace (CHR '' '' # s) = split_whitespace s"
    by (subst (1 2) split_whitespace.simps) (simp only: space)
  then show ?thesis
    using assms take_field_graphic(1) [of f s] field_ok_trim [OF assms, of "CHR '' '' # s"]
    by (subst split_whitespace.simps) (simp add: field_ok_def)
qed

lemma split_whitespace_one:
  assumes "field_ok f"
  shows "split_whitespace f = [f]"
proof -
  have "split_whitespace [] = []"
    by (simp add: split_whitespace.simps str_trim_start.simps)
  then show ?thesis
    using assms take_field_graphic(2) [of f] field_ok_trim [OF assms, of "[]"]
    by (subst split_whitespace.simps) (simp add: field_ok_def)
qed

subsection \<open>\<open>{:?}\<close> of a string\<close>

text \<open>Code points outside ASCII are shown as they are, which is what \<open>Debug\<close> does with printable
  ones.\<close>

definition debug_char :: "char \<Rightarrow> string" where
  "debug_char c =
     (if byte_of c = 34 then [CHR 0x5C, CHR 0x22]
      else if byte_of c = 92 then [CHR 0x5C, CHR 0x5C]
      else if byte_of c = 10 then [CHR 0x5C, CHR ''n'']
      else if byte_of c = 13 then [CHR 0x5C, CHR ''r'']
      else if byte_of c = 9 then [CHR 0x5C, CHR ''t'']
      else if byte_of c = 0 then [CHR 0x5C, CHR ''0'']
      else if byte_of c < 32 \<or> byte_of c = 127
        then CHR 0x5C # ''u{'' @ show_hex (byte_of c) @ ''}''
      else [c])"

definition debug_str :: "string \<Rightarrow> string" where
  "debug_str s = CHR 0x22 # concat (map debug_char s) @ [CHR 0x22]"

subsection \<open>Slices and pieces\<close>

text \<open>\<open>is_char_boundary\<close>, and the first \<open>n\<close> characters.\<close>

definition char_boundary :: "string \<Rightarrow> nat \<Rightarrow> bool" where
  "char_boundary s i \<longleftrightarrow>
     i = 0 \<or> i = length s \<or> i < length s \<and> \<not> (128 \<le> byte_of (s ! i) \<and> byte_of (s ! i) < 192)"

fun take_chars :: "nat \<Rightarrow> string \<Rightarrow> string" where
  "take_chars 0 s = []"
| "take_chars (Suc n) [] = []"
| "take_chars (Suc n) (c # s) = c # takeWhile continuation s @ take_chars n (dropWhile continuation s)"

text \<open>\<open>trim_start_matches\<close> with a string: every leading occurrence goes.\<close>

function strip_all :: "string \<Rightarrow> string \<Rightarrow> string" where
  "strip_all p s = (if p \<noteq> [] \<and> starts_with p s then strip_all p (drop (length p) s) else s)"
  by pat_completeness auto
termination
  by (relation "measure (\<lambda>(p, s). length s)") (auto simp: starts_with_iff)

declare strip_all.simps [simp del]

text \<open>\<open>find\<close> of a string, and of a character.\<close>

definition str_find :: "string \<Rightarrow> string \<Rightarrow> nat option" where
  "str_find p s = map_option (\<lambda>(a, b). length a) (split_once_str p s)"

definition replace_char :: "char \<Rightarrow> string \<Rightarrow> string \<Rightarrow> string" where
  "replace_char c r s = concat (map (\<lambda>x. if x = c then r else [x]) s)"

text \<open>\<open>splitn(2, char::is_whitespace)\<close>.\<close>

definition split_at_space :: "string \<Rightarrow> string \<times> string option" where
  "split_at_space s =
     (case take_field s of (f, rest) \<Rightarrow> (f, if rest = [] then None else Some (drop (space_width rest) rest)))"

text \<open>\<open>u8::is_ascii_whitespace\<close>, without the vertical tab.\<close>

definition u8_space :: "char \<Rightarrow> bool" where
  "u8_space c \<longleftrightarrow> byte_of c \<in> {32, 9, 10, 12, 13}"

definition is_digit :: "char \<Rightarrow> bool" where
  "is_digit c \<longleftrightarrow> 48 \<le> byte_of c \<and> byte_of c \<le> 57"

definition is_hex_digit :: "char \<Rightarrow> bool" where
  "is_hex_digit c \<longleftrightarrow> to_digit 16 c \<noteq> None"

definition ascii_upper :: "char \<Rightarrow> char" where
  "ascii_upper c = (if 97 \<le> byte_of c \<and> byte_of c \<le> 122 then char_of (byte_of c - 32) else c)"

definition is_alnum :: "char \<Rightarrow> bool" where
  "is_alnum c \<longleftrightarrow> is_digit c \<or> 65 \<le> byte_of c \<and> byte_of c \<le> 90 \<or> 97 \<le> byte_of c \<and> byte_of c \<le> 122"

definition debug_str_option :: "string option \<Rightarrow> string" where
  "debug_str_option x = (case x of None \<Rightarrow> ''None'' | Some s \<Rightarrow> ''Some('' @ debug_str s @ '')'')"

definition show_flag :: "bool \<Rightarrow> string" where
  "show_flag b = (if b then ''true'' else ''false'')"

end
