(* ===== verification/Monitor.thy ===== *)
theory Monitor
  imports Rust_Str
begin

section \<open>Parsing the QEMU monitor\<close>

text \<open>
  Models \<^verbatim>\<open>crates/princess-bin/src/monitor.rs\<close>: the parsers of \<open>info mem\<close>, \<open>info tlb\<close>,
  \<open>info cpus\<close> and \<open>info registers\<close>, with their error values, and the page-size inference over
  \<open>info tlb\<close> rows. The register map is a partial function, as only lookups and inserts occur. The
  segment parser slices a line at byte 2 without a check, so it can panic: that outcome is a value
  here. The QMP replies are parsed by \<open>serde_json\<close>, which is an argument of their parsers.
\<close>

subsection \<open>Reports\<close>

record parse_error =
  er_context :: string
  er_line :: nat
  er_byte_offset :: nat
  er_text :: string
  er_reason :: string

definition show_parse_error :: "parse_error \<Rightarrow> string" where
  "show_parse_error e =
     er_context e @ '' parse error at line '' @ show_nat (er_line e) @ '' (byte '' @
     show_nat (er_byte_offset e) @ ''): '' @ er_reason e @ [CHR '' '', CHR 0xE2, CHR 0x80, CHR 0x94, CHR '' ''] @
     debug_str (er_text e)"

record info_mem_range =
  im_start :: u64
  im_end :: u64
  im_size :: u64
  im_user :: bool
  im_readable :: bool
  im_writable :: bool

definition size_agrees_with_bounds :: "info_mem_range \<Rightarrow> bool" where
  "size_agrees_with_bounds r \<longleftrightarrow> sat_sub (im_end r) (im_start r) = im_size r"

datatype tlb_granularity = Tlb4K | Tlb2M | Tlb1G

fun granularity_bytes :: "tlb_granularity \<Rightarrow> u64" where
  "granularity_bytes Tlb4K = 4096"
| "granularity_bytes Tlb2M = 2 * 1024 * 1024"
| "granularity_bytes Tlb1G = 1024 * 1024 * 1024"

record tlb_flags =
  tf_nx :: bool
  tf_global :: bool
  tf_ps :: bool
  tf_dirty :: bool
  tf_accessed :: bool
  tf_pcd :: bool
  tf_pwt :: bool
  tf_user :: bool
  tf_writable :: bool

record info_tlb_entry =
  it_virtual_address :: u64
  it_physical_address :: u64
  it_flags :: tlb_flags

definition entry_granularity :: "info_tlb_entry \<Rightarrow> tlb_granularity" where
  "entry_granularity e = (if tf_ps (it_flags e) then Tlb2M else Tlb4K)"

text \<open>The loop of \<open>resolve_granularities\<close>, with the entries after the current one at hand.\<close>

fun resolve_granularities :: "info_tlb_entry list \<Rightarrow> tlb_granularity list" where
  "resolve_granularities [] = []"
| "resolve_granularities (e # rest) =
     (if \<not> tf_ps (it_flags e) then Tlb4K
      else
        (case map_option (\<lambda>n. it_virtual_address n - it_virtual_address e)
                (find (\<lambda>n. it_virtual_address e < it_virtual_address n) rest) of
           Some stride \<Rightarrow> if granularity_bytes Tlb1G \<le> stride then Tlb1G else Tlb2M
         | None \<Rightarrow> Tlb2M)) # resolve_granularities rest"

record cpu_info =
  ci_index :: nat
  ci_thread_id :: nat
  ci_current :: bool

record segment_register =
  sr_name :: string
  sr_selector :: u16
  sr_base :: u64
  sr_limit :: u32
  sr_access :: u32
  sr_dpl :: nat
  sr_type_name :: string
  sr_permissions :: "string option"

record registers_report =
  rg_cpu :: "nat option"
  rg_registers :: "string \<Rightarrow> string option"
  rg_rflags :: "string option"
  rg_flags_text :: "string option"
  rg_cpl :: "nat option"
  rg_segments :: "segment_register list"
  rg_gdt_base :: "u64 option"
  rg_gdt_limit :: "u32 option"
  rg_idt_base :: "u64 option"
  rg_idt_limit :: "u32 option"
  rg_halted :: "bool option"

definition empty_report :: registers_report where
  "empty_report =
     \<lparr>rg_cpu = None, rg_registers = (\<lambda>_. None), rg_rflags = None, rg_flags_text = None,
      rg_cpl = None, rg_segments = [], rg_gdt_base = None, rg_gdt_limit = None, rg_idt_base = None,
      rg_idt_limit = None, rg_halted = None\<rparr>"

definition gdt_entry_count :: "registers_report \<Rightarrow> nat option" where
  "gdt_entry_count r = map_option (\<lambda>limit. (unat limit + 1) div 8) (rg_gdt_limit r)"

definition idt_entry_count :: "registers_report \<Rightarrow> nat option" where
  "idt_entry_count r = map_option (\<lambda>limit. (unat limit + 1) div 16) (rg_idt_limit r)"

definition report_register :: "registers_report \<Rightarrow> string \<Rightarrow> string option" where
  "report_register r name = rg_registers r name"

text \<open>The messages of \<open>ParseIntError\<close>.\<close>

definition int_error :: "nat \<Rightarrow> string \<Rightarrow> string" where
  "int_error radix s =
     (if s = [] then ''cannot parse integer from empty string''
      else
        let ds = (if hd s = CHR ''+'' then tl s else s)
        in if ds = [] \<or> (\<exists>c \<in> set ds. to_digit radix c = None) then ''invalid digit found in string''
           else ''number too large to fit in target type'')"

definition register_u64 :: "registers_report \<Rightarrow> string \<Rightarrow> string + u64" where
  "register_u64 r name =
     (case rg_registers r name of
        None \<Rightarrow> Inl (''register '' @ name @ '' is not present in this report'')
      | Some txt \<Rightarrow>
          (case radix16_u64 txt of
             None \<Rightarrow> Inl (''register '' @ name @ '' value '' @ debug_str txt @ '' is not hexadecimal: '' @
                       int_error 16 txt)
           | Some v \<Rightarrow> Inr (word_of_nat v)))"

subsection \<open>Lines and numbers\<close>

text \<open>Line number, byte offset and the line without its line end.\<close>

fun number_lines :: "nat \<Rightarrow> nat \<Rightarrow> string list \<Rightarrow> (nat \<times> nat \<times> string) list" where
  "number_lines index offset [] = []"
| "number_lines index offset (line # rest) =
     (index + 1, offset, trim_end_matches (\<lambda>c. c = CHR 0x0A \<or> c = CHR 0x0D) line) #
     number_lines (index + 1) (offset + length line) rest"

definition lines_with_offsets :: "string \<Rightarrow> (nat \<times> nat \<times> string) list" where
  "lines_with_offsets txt = number_lines 0 0 (split_inclusive CHR 0x0A txt)"

definition is_hexdigit :: "char \<Rightarrow> bool" where
  "is_hexdigit c \<longleftrightarrow> to_digit 16 c \<noteq> None"

definition is_hex :: "string \<Rightarrow> bool" where
  "is_hex s \<longleftrightarrow> s \<noteq> [] \<and> list_all is_hexdigit s"

definition parse_hex_u64 :: "string \<Rightarrow> u64 option" where
  "parse_hex_u64 s = (if is_hex s then map_option word_of_nat (parse_unsigned 16 (2 ^ 64) s) else None)"

definition parse_hex_u32 :: "string \<Rightarrow> u32 option" where
  "parse_hex_u32 s = (if is_hex s then map_option word_of_nat (parse_unsigned 16 (2 ^ 32) s) else None)"

definition fail_at :: "string \<Rightarrow> nat \<Rightarrow> nat \<Rightarrow> string \<Rightarrow> string \<Rightarrow> parse_error + 'a" where
  "fail_at ctxt line_no byte_offset txt reason =
     Inl \<lparr>er_context = ctxt, er_line = line_no, er_byte_offset = byte_offset, er_text = txt,
          er_reason = reason\<rparr>"

subsection \<open>\<open>info mem\<close>\<close>

definition parse_mem_line :: "nat \<Rightarrow> nat \<Rightarrow> string \<Rightarrow> parse_error + info_mem_range" where
  "parse_mem_line line_no byte_offset line =
     (let err = fail_at ''info mem'' line_no byte_offset line;
          fields = split_whitespace line
      in if \<not> list_all (\<lambda>c. byte_of c < 128) line then err ''line contains non-ASCII bytes''
         else if 3 < length fields then err ''expected exactly 3 whitespace-separated fields''
         else case split_once CHR ''-'' (case fields of [] \<Rightarrow> '''' | f # _ \<Rightarrow> f) of
           None \<Rightarrow> err ''first field is not a <start>-<end> range''
         | Some (start_text, end_text) \<Rightarrow>
             (case (parse_hex_u64 start_text, parse_hex_u64 end_text) of
                (Some start, Some stop) \<Rightarrow>
                  (case (if 1 < length fields then parse_hex_u64 (fields ! 1) else None) of
                     None \<Rightarrow> err ''size field is missing or not hexadecimal''
                   | Some sz \<Rightarrow>
                       if length fields < 3 then err ''permission field is missing''
                       else
                         let flags = fields ! 2
                         in if length flags \<noteq> 3
                            then err (''permission field '' @ debug_str flags @ '' must be exactly 3 characters'')
                            else Inr \<lparr>im_start = start, im_end = stop, im_size = sz,
                                      im_user = (flags ! 0 = CHR ''u''),
                                      im_readable = (flags ! 1 = CHR ''r''),
                                      im_writable = (flags ! 2 = CHR ''w'')\<rparr>)
              | _ \<Rightarrow> err (''range bounds '' @ debug_str start_text @ ''-'' @ debug_str end_text @
                          '' are not hexadecimal'')))"

fun mem_loop :: "(nat \<times> nat \<times> string) list \<Rightarrow> info_mem_range list \<Rightarrow> parse_error + info_mem_range list" where
  "mem_loop [] out = Inr out"
| "mem_loop ((line_no, byte_offset, raw) # rest) out =
     (let line = str_trim raw
      in if line = [] then mem_loop rest out
         else if line = ''PG disabled'' then Inr []
         else and_then (parse_mem_line line_no byte_offset line) (\<lambda>r. mem_loop rest (out @ [r])))"

definition parse_info_mem :: "string \<Rightarrow> parse_error + info_mem_range list" where
  "parse_info_mem txt = mem_loop (lines_with_offsets txt) []"

subsection \<open>\<open>info tlb\<close>\<close>

text \<open>Column by column, a letter or a dash.\<close>

fun decode_columns :: "string \<Rightarrow> string \<Rightarrow> bool list option" where
  "decode_columns [] _ = Some []"
| "decode_columns (letter # letters) [] = None"
| "decode_columns (letter # letters) (c # cs) =
     (if c = letter then map_option (Cons True) (decode_columns letters cs)
      else if c = CHR ''-'' then map_option (Cons False) (decode_columns letters cs)
      else None)"

definition decode_tlb_flags :: "string \<Rightarrow> tlb_flags option" where
  "decode_tlb_flags txt =
     (if length txt \<noteq> 9 then None
      else map_option (\<lambda>set.
        \<lparr>tf_nx = set ! 0, tf_global = set ! 1, tf_ps = set ! 2, tf_dirty = set ! 3,
         tf_accessed = set ! 4, tf_pcd = set ! 5, tf_pwt = set ! 6, tf_user = set ! 7,
         tf_writable = set ! 8\<rparr>) (decode_columns ''XGPDACTUW'' txt))"

definition parse_tlb_line :: "nat \<Rightarrow> nat \<Rightarrow> string \<Rightarrow> parse_error + info_tlb_entry" where
  "parse_tlb_line line_no byte_offset line =
     (let err = fail_at ''info tlb'' line_no byte_offset line;
          fields = split_whitespace (str_trim line)
      in if length fields < 2 then err ''expected `<vaddr>: <paddr> <flags>`''
         else if length fields < 3 then err ''flag field is missing''
         else if 3 < length fields then err ''unexpected trailing fields''
         else case strip_suffix '':'' (fields ! 0) of
           None \<Rightarrow> err (debug_str (fields ! 0) @ '' is not a `<vaddr>:` field'')
         | Some virtual_text \<Rightarrow>
             (case (parse_hex_u64 virtual_text, parse_hex_u64 (fields ! 1)) of
                (Some va, Some pa) \<Rightarrow>
                  (case decode_tlb_flags (fields ! 2) of
                     None \<Rightarrow> err (''flag field '' @ debug_str (fields ! 2) @
                       '' must be 9 characters drawn from `X G P D A C T U W` positionally with `-` for clear'')
                   | Some flags \<Rightarrow>
                       Inr \<lparr>it_virtual_address = va, it_physical_address = pa, it_flags = flags\<rparr>)
              | _ \<Rightarrow> err ''address fields must be hexadecimal''))"

fun tlb_loop :: "(nat \<times> nat \<times> string) list \<Rightarrow> info_tlb_entry list \<Rightarrow> parse_error + info_tlb_entry list" where
  "tlb_loop [] out = Inr out"
| "tlb_loop ((line_no, byte_offset, line) # rest) out =
     (if str_trim line = [] then tlb_loop rest out
      else and_then (parse_tlb_line line_no byte_offset line) (\<lambda>e. tlb_loop rest (out @ [e])))"

definition parse_info_tlb :: "string \<Rightarrow> parse_error + info_tlb_entry list" where
  "parse_info_tlb txt = tlb_loop (lines_with_offsets txt) []"

subsection \<open>\<open>info cpus\<close>\<close>

definition parse_cpu_line :: "nat \<Rightarrow> nat \<Rightarrow> string \<Rightarrow> parse_error + cpu_info" where
  "parse_cpu_line line_no byte_offset trimmed =
     (let err = fail_at ''info cpus'' line_no byte_offset trimmed;
          current = starts_with ''*'' trimmed
      in case strip_prefix ''CPU #'' (str_trim (trim_start_matches (\<lambda>c. c = CHR ''*'') trimmed)) of
           None \<Rightarrow> err ''expected `<*| > CPU #N: thread_id=M`''
         | Some rest \<Rightarrow>
             (case split_once CHR '':'' rest of
                None \<Rightarrow> err ''missing `:` after the CPU index''
              | Some (index_text, tail) \<Rightarrow>
                  (case parse_unsigned 10 (2 ^ 32) (str_trim index_text) of
                     None \<Rightarrow> err (''CPU index '' @ debug_str index_text @ '' is not a decimal integer'')
                   | Some index \<Rightarrow>
                       (case strip_prefix ''thread_id='' (str_trim tail) of
                          None \<Rightarrow> err ''expected `thread_id=<decimal>`''
                        | Some thread_text \<Rightarrow>
                            (case parse_u64 (str_trim thread_text) of
                               None \<Rightarrow> err (''thread id '' @ debug_str thread_text @ '' is not a decimal integer'')
                             | Some thread_id \<Rightarrow>
                                 Inr \<lparr>ci_index = index, ci_thread_id = thread_id, ci_current = current\<rparr>)))))"

fun cpus_loop :: "(nat \<times> nat \<times> string) list \<Rightarrow> cpu_info list \<Rightarrow> parse_error + cpu_info list" where
  "cpus_loop [] out = Inr out"
| "cpus_loop ((line_no, byte_offset, line) # rest) out =
     (if str_trim line = [] then cpus_loop rest out
      else and_then (parse_cpu_line line_no byte_offset (str_trim line)) (\<lambda>c. cpus_loop rest (out @ [c])))"

definition parse_info_cpus :: "string \<Rightarrow> parse_error + cpu_info list" where
  "parse_info_cpus txt = cpus_loop (lines_with_offsets txt) []"

subsection \<open>\<open>info registers\<close>\<close>

datatype monitor_failure = MonitorPanic | MonitorError parse_error

definition parse_limit_pair :: "string \<Rightarrow> (u64 \<times> u32) option" where
  "parse_limit_pair txt =
     (case split_whitespace txt of
        [a, b] \<Rightarrow>
          (case (parse_hex_u64 a, parse_hex_u32 b) of
             (Some base, Some limit) \<Rightarrow> Some (base, limit)
           | _ \<Rightarrow> None)
      | _ \<Rightarrow> None)"

text \<open>\<open>str::split_at(2)\<close>: a panic when byte 2 is past the end or inside a code point.\<close>

definition split_at_2 :: "string \<Rightarrow> (string \<times> string) option" where
  "split_at_2 s =
     (if length s < 2 \<or> (2 < length s \<and> continuation (s ! 2)) then None
      else Some (take 2 s, drop 2 s))"

definition ascii_uppercase :: "char \<Rightarrow> bool" where
  "ascii_uppercase c \<longleftrightarrow> 65 \<le> byte_of c \<and> byte_of c \<le> 90"

definition ascii_alphanumeric :: "char \<Rightarrow> bool" where
  "ascii_alphanumeric c \<longleftrightarrow>
     48 \<le> byte_of c \<and> byte_of c \<le> 57 \<or> 65 \<le> byte_of c \<and> byte_of c \<le> 90 \<or>
     97 \<le> byte_of c \<and> byte_of c \<le> 122"

definition bracketed :: "string \<Rightarrow> bool" where
  "bracketed f \<longleftrightarrow> starts_with ''['' f \<and> ends_with '']'' f"

definition unbracket :: "string \<Rightarrow> string" where
  "unbracket f = trim_matches (\<lambda>c. c = CHR ''['' \<or> c = CHR '']'') f"

text \<open>The loop over the fields from \<open>DPL=\<close> onwards.\<close>

fun segment_tail ::
  "string list \<Rightarrow> nat \<Rightarrow> string \<Rightarrow> string option \<Rightarrow> (nat \<times> string \<times> string option) option" where
  "segment_tail [] dpl type_name permissions = Some (dpl, type_name, permissions)"
| "segment_tail (f # rest) dpl type_name permissions =
     (case strip_prefix ''DPL='' f of
        Some v \<Rightarrow>
          segment_tail rest (case parse_unsigned 10 256 v of None \<Rightarrow> 0 | Some d \<Rightarrow> d) type_name permissions
      | None \<Rightarrow>
          if bracketed f then segment_tail rest dpl type_name (Some (unbracket f))
          else if CHR ''='' \<notin> set f
            then (if type_name = [] then segment_tail rest dpl f permissions else None)
          else segment_tail rest dpl type_name permissions)"

definition segment_fields :: "string \<Rightarrow> string \<Rightarrow> segment_register option" where
  "segment_fields name rest0 =
     (let rest = (case strip_prefix ''='' (str_trim_start rest0) of None \<Rightarrow> rest0 | Some r \<Rightarrow> r);
          fields = split_whitespace rest
      in if length fields < 3 then None
         else
           (case (parse_hex_u32 (fields ! 0), parse_hex_u64 (fields ! 1), parse_hex_u32 (fields ! 2),
                  if 3 < length fields then parse_hex_u32 (fields ! 3) else None) of
              (Some selector, Some base, Some limit, Some access) \<Rightarrow>
                (case segment_tail (drop 4 fields) 0 [] None of
                   None \<Rightarrow> None
                 | Some (dpl, type_name, permissions) \<Rightarrow>
                     Some \<lparr>sr_name = name, sr_selector = ucast selector, sr_base = base, sr_limit = limit,
                           sr_access = access, sr_dpl = dpl, sr_type_name = type_name,
                           sr_permissions = permissions\<rparr>)
            | _ \<Rightarrow> None))"

text \<open>\<open>Inl\<close> is the panic of \<open>split_at\<close>.\<close>

definition parse_segment_line :: "string \<Rightarrow> unit + segment_register option" where
  "parse_segment_line line =
     (case strip_prefix ''LDT='' line of
        Some rest \<Rightarrow> Inr (segment_fields ''LDT'' rest)
      | None \<Rightarrow>
     (case strip_prefix ''TR '' line of
        Some rest \<Rightarrow> Inr (segment_fields ''TR'' rest)
      | None \<Rightarrow>
     (case strip_prefix ''TR='' line of
        Some rest \<Rightarrow> Inr (segment_fields ''TR'' rest)
      | None \<Rightarrow>
     (case split_at_2 line of
        None \<Rightarrow> Inl ()
      | Some (name, rest) \<Rightarrow>
          if \<not> list_all ascii_uppercase name then Inr None
          else case strip_prefix ''='' (str_trim_start rest) of
            None \<Rightarrow> Inr None
          | Some r \<Rightarrow> Inr (segment_fields name r)))))"

fun register_pairs :: "string list \<Rightarrow> (string \<times> string) list option" where
  "register_pairs [] = Some []"
| "register_pairs (token # rest) =
     (case split_once CHR ''='' token of
        Some (name, v) \<Rightarrow>
          if name = [] \<or> \<not> list_all ascii_alphanumeric name \<or> \<not> is_hex v then None
          else map_option (Cons (name, v)) (register_pairs rest)
      | None \<Rightarrow>
          if token = [] \<or> \<not> list_all ascii_alphanumeric token then None
          else case rest of
            [] \<Rightarrow> None
          | next_token # rest2 \<Rightarrow>
              (case strip_prefix ''='' next_token of
                 None \<Rightarrow> None
               | Some v \<Rightarrow>
                   if v = [] then
                     (case rest2 of
                        [] \<Rightarrow> None
                      | v2 # rest3 \<Rightarrow>
                          if is_hex v2 then map_option (Cons (token, v2)) (register_pairs rest3) else None)
                   else if is_hex v then map_option (Cons (token, v)) (register_pairs rest2)
                   else None))"

definition parse_register_pairs :: "string \<Rightarrow> (string \<times> string) list option" where
  "parse_register_pairs line = register_pairs (split_whitespace line)"

definition insert_register :: "string \<Rightarrow> string \<Rightarrow> registers_report \<Rightarrow> registers_report" where
  "insert_register name v r = r\<lparr>rg_registers := (rg_registers r)(name \<mapsto> v)\<rparr>"

definition rip_field :: "string \<Rightarrow> registers_report \<Rightarrow> registers_report" where
  "rip_field f r =
     (case strip_prefix ''RIP='' f of
        Some v \<Rightarrow> insert_register ''RIP'' v r
      | None \<Rightarrow>
     (case strip_prefix ''RFL='' f of
        Some v \<Rightarrow> r\<lparr>rg_rflags := Some v\<rparr>
      | None \<Rightarrow>
     (case strip_prefix ''CPL='' f of
        Some v \<Rightarrow> r\<lparr>rg_cpl := parse_unsigned 10 256 v\<rparr>
      | None \<Rightarrow>
     (case strip_prefix ''HLT='' f of
        Some v \<Rightarrow> r\<lparr>rg_halted := Some (v = ''1'')\<rparr>
      | None \<Rightarrow>
          if bracketed f then r\<lparr>rg_flags_text := Some (unbracket f)\<rparr> else r))))"

definition ignorable :: "string \<Rightarrow> bool" where
  "ignorable trimmed \<longleftrightarrow>
     starts_with ''FCW='' trimmed \<or> starts_with ''FPR'' trimmed \<or> starts_with ''XMM'' trimmed \<or>
     starts_with ''YMM'' trimmed \<or> starts_with ''ZMM'' trimmed \<or> starts_with ''ST'' trimmed \<or>
     starts_with ''MM'' trimmed"

text \<open>One non-blank line: the report updated, or the failure.\<close>

definition register_line ::
  "nat \<Rightarrow> nat \<Rightarrow> string \<Rightarrow> registers_report \<Rightarrow> monitor_failure + registers_report" where
  "register_line line_no byte_offset trimmed r =
     (let err = (\<lambda>reason. map_err MonitorError (fail_at ''info registers'' line_no byte_offset trimmed reason))
      in case strip_prefix ''CPU#'' trimmed of
        Some rest \<Rightarrow>
          (case parse_unsigned 10 (2 ^ 32) (str_trim rest) of
             None \<Rightarrow> err (''CPU header '' @ debug_str trimmed @ '' does not end in a decimal number'')
           | Some cpu \<Rightarrow> Inr (r\<lparr>rg_cpu := Some cpu\<rparr>))
      | None \<Rightarrow>
     (case strip_prefix ''GDT='' trimmed of
        Some rest \<Rightarrow>
          (case parse_limit_pair rest of
             None \<Rightarrow> err ''expected `GDT=<hex base> <hex limit>`''
           | Some (base, limit) \<Rightarrow> Inr (r\<lparr>rg_gdt_base := Some base, rg_gdt_limit := Some limit\<rparr>))
      | None \<Rightarrow>
     (case strip_prefix ''IDT='' trimmed of
        Some rest \<Rightarrow>
          (case parse_limit_pair rest of
             None \<Rightarrow> err ''expected `IDT=<hex base> <hex limit>`''
           | Some (base, limit) \<Rightarrow> Inr (r\<lparr>rg_idt_base := Some base, rg_idt_limit := Some limit\<rparr>))
      | None \<Rightarrow>
     (case parse_segment_line trimmed of
        Inl _ \<Rightarrow> Inl MonitorPanic
      | Inr (Some seg) \<Rightarrow> Inr (r\<lparr>rg_segments := rg_segments r @ [seg]\<rparr>)
      | Inr None \<Rightarrow>
          if starts_with ''RIP='' trimmed then Inr (fold rip_field (split_whitespace trimmed) r)
          else
            (case parse_register_pairs trimmed of
               Some (p # ps) \<Rightarrow> Inr (fold (\<lambda>(name, v). insert_register name v) (p # ps) r)
             | _ \<Rightarrow>
                 if ignorable trimmed then Inr r
                 else err ''line matches no known `info registers` shape'')))))"

fun registers_loop ::
  "(nat \<times> nat \<times> string) list \<Rightarrow> registers_report \<Rightarrow> monitor_failure + registers_report" where
  "registers_loop [] r = Inr r"
| "registers_loop ((line_no, byte_offset, line) # rest) r =
     (let trimmed = str_trim line
      in if trimmed = [] then registers_loop rest r
         else and_then (register_line line_no byte_offset trimmed r) (registers_loop rest))"

definition parse_info_registers :: "string \<Rightarrow> monitor_failure + registers_report" where
  "parse_info_registers txt = registers_loop (lines_with_offsets txt) empty_report"

subsection \<open>Snapshots and QMP values\<close>

record monitor_snapshot =
  ms_registers :: "registers_report option"
  ms_mem :: "info_mem_range list"
  ms_tlb :: "info_tlb_entry list"
  ms_cpus :: "cpu_info list"
  ms_tlb_granularities :: "tlb_granularity list"

record qmp_version =
  qv_major :: nat
  qv_minor :: nat
  qv_micro :: nat
  qv_package :: "string option"

definition version_string :: "qmp_version \<Rightarrow> string" where
  "version_string v = show_nat (qv_major v) @ ''.'' @ show_nat (qv_minor v) @ ''.'' @ show_nat (qv_micro v)"

record qmp_status =
  qs_status :: string
  qs_running :: "bool option"
  qs_singlestep :: "bool option"

record qmp_cpu_fast =
  qc_thread_id :: "64 word"
  qc_cpu_index :: "64 word"
  qc_target :: "string option"
  qc_qom_path :: "string option"

record qmp_memory_summary =
  qm_base_memory :: u64
  qm_plugged_memory :: "u64 option"

definition memory_total :: "qmp_memory_summary \<Rightarrow> u64" where
  "memory_total m = sat_add (qm_base_memory m) (case qm_plugged_memory m of None \<Rightarrow> 0 | Some p \<Rightarrow> p)"

definition contains_physical :: "qmp_memory_summary \<Rightarrow> u64 \<Rightarrow> bool" where
  "contains_physical m a \<longleftrightarrow> a < memory_total m"


text \<open>
  The JSON reader is \<open>serde_json::from_str\<close>, an argument: the value of the documented shape, or
  the message of its error. \<open>chars_prefix\<close> is \<open>chars().take(n)\<close>.
\<close>

fun chars_prefix :: "nat \<Rightarrow> string \<Rightarrow> string" where
  "chars_prefix n [] = []"
| "chars_prefix n (c # s) =
     (if continuation c then c # chars_prefix n s
      else if n = 0 then [] else c # chars_prefix (n - 1) s)"

definition qmp_error :: "string \<Rightarrow> string \<Rightarrow> string \<Rightarrow> parse_error" where
  "qmp_error ctxt json err =
     \<lparr>er_context = ctxt, er_line = 0, er_byte_offset = 0, er_text = chars_prefix 120 json, er_reason = err\<rparr>"

definition parse_qmp_version ::
  "(string \<Rightarrow> string + (nat \<times> nat \<times> nat) \<times> string option) \<Rightarrow> string \<Rightarrow> parse_error + qmp_version" where
  "parse_qmp_version from_str json =
     and_then (map_err (qmp_error ''qmp query-version'' json) (from_str json))
       (\<lambda>((major, minor, micro), package).
         Inr \<lparr>qv_major = major, qv_minor = minor, qv_micro = micro, qv_package = package\<rparr>)"

definition parse_qmp_status :: "(string \<Rightarrow> string + qmp_status) \<Rightarrow> string \<Rightarrow> parse_error + qmp_status" where
  "parse_qmp_status from_str json = map_err (qmp_error ''qmp query-status'' json) (from_str json)"

definition parse_qmp_cpus_fast ::
  "(string \<Rightarrow> string + qmp_cpu_fast list) \<Rightarrow> string \<Rightarrow> parse_error + qmp_cpu_fast list" where
  "parse_qmp_cpus_fast from_str json = map_err (qmp_error ''qmp query-cpus-fast'' json) (from_str json)"

definition parse_qmp_memory_summary ::
  "(string \<Rightarrow> string + qmp_memory_summary) \<Rightarrow> string \<Rightarrow> parse_error + qmp_memory_summary" where
  "parse_qmp_memory_summary from_str json =
     map_err (qmp_error ''qmp query-memory-size-summary'' json) (from_str json)"

subsection \<open>Text as QEMU prints it\<close>

definition hex16 :: "u64 \<Rightarrow> string" where
  "hex16 w = pad_left 16 CHR ''0'' (show_hex (unat w))"

lemma byte_of_digit_char: "d < 16 \<Longrightarrow> byte_of (digit_char d) = (if d < 10 then 48 + d else 87 + d)"
  by (simp add: digit_char_def byte_of_char_of)

lemma zero_digit: "digit_char 0 = CHR ''0''"
proof -
  have "byte_of (digit_char 0) = byte_of CHR ''0''"
    by (simp add: byte_of_digit_char byte_of_def [of "CHR ''0''"])
  then show ?thesis by (simp only: byte_of_def of_char_eq_iff)
qed

lemma hex_char_graphic:
  assumes "d < 16"
  shows "ascii_graphic (digit_char d) \<and> is_hexdigit (digit_char d) \<and>
    digit_char d \<noteq> CHR 0x0A \<and> digit_char d \<noteq> CHR ''-'' \<and> digit_char d \<noteq> CHR '':'' \<and> digit_char d \<noteq> CHR ''=''"
proof -
  have neq: "digit_char d \<noteq> c" if "byte_of c < 48 \<or> byte_of c = 58 \<or> byte_of c = 61" for c
    using that byte_of_digit_char [OF assms] by (auto split: if_splits)
  have "digit_char d \<noteq> CHR 0x0A" "digit_char d \<noteq> CHR ''-''" "digit_char d \<noteq> CHR '':''" "digit_char d \<noteq> CHR ''=''"
    by (rule neq, simp add: byte_of_def)+
  moreover have "is_hexdigit (digit_char d)"
    using assms to_digit_digit_char [of d 16] by (simp add: is_hexdigit_def)
  ultimately show ?thesis
    using digit_char_graphic [OF assms] by blast
qed

lemma hex16_digits: "c \<in> set (hex16 w) \<Longrightarrow> \<exists>d < 16. c = digit_char d"
proof -
  assume "c \<in> set (hex16 w)"
  then consider "c = CHR ''0''" | "c \<in> set (show_hex (unat w))"
    by (auto simp: hex16_def pad_left_def split: if_splits)
  then show ?thesis
  proof cases
    case 1
    then show ?thesis by (intro exI [of _ 0]) (simp add: zero_digit)
  next
    case 2
    then show ?thesis by (rule show_hex_chars)
  qed
qed

lemma hex16_chars: "c \<in> set (hex16 w) \<Longrightarrow> ascii_graphic c \<and> is_hexdigit c \<and> c \<noteq> CHR 0x0A \<and> c \<noteq> CHR ''-'' \<and> c \<noteq> CHR '':'' \<and> c \<noteq> CHR ''=''"
  by (drule hex16_digits) (elim exE conjE, simp add: hex_char_graphic)

lemma hex16_nonempty [simp]: "hex16 w \<noteq> []"
  by (simp add: hex16_def pad_left_def show_hex_def)

lemma hex16_field: "field_ok (hex16 w)"
  using hex16_chars by (auto simp: field_ok_def)

lemma digits_value_zeros: "0 < bound \<Longrightarrow> 2 \<le> r \<Longrightarrow> r \<le> 16 \<Longrightarrow>
    digits_value r bound 0 (replicate n CHR ''0'' @ s) = digits_value r bound 0 s"
proof (induction n)
  case (Suc n)
  have "to_digit r (CHR ''0'') = Some 0"
    using to_digit_digit_char [of 0 r] Suc.prems by (simp add: zero_digit)
  with Suc show ?case by simp
qed simp

lemma radix16_hex16: "radix16_u64 (hex16 w) = Some (unat w)"
proof -
  have "digits_value 16 (2 ^ 64) 0 (show_hex (unat w)) = Some (unat w)"
    using digits_value_digits_in [of 16 "unat w" "2 ^ 64"] unat_u64_less [of w] by (simp add: show_hex_def)
  then have "digits_value 16 (2 ^ 64) 0 (hex16 w) = Some (unat w)"
    by (simp add: hex16_def pad_left_def digits_value_zeros)
  moreover have "hd (hex16 w) \<noteq> CHR ''+''"
  proof -
    obtain d where "d < 16" "hd (hex16 w) = digit_char d"
      using hex16_digits [OF hd_in_set [OF hex16_nonempty]] by blast
    then show ?thesis
      using digit_char_neq [of d "CHR ''+''"] by (simp add: byte_of_def)
  qed
  ultimately show ?thesis
    by (cases "hex16 w") (auto simp: radix16_u64_def parse_unsigned_def)
qed

lemma parse_hex16 [simp]: "parse_hex_u64 (hex16 w) = Some w"
proof -
  have "is_hex (hex16 w)"
    using hex16_chars by (auto simp: is_hex_def list_all_iff)
  then show ?thesis
    using radix16_hex16 [of w] by (simp add: parse_hex_u64_def radix16_u64_def)
qed

text \<open>A line of printable text: no line end inside, nothing to trim.\<close>

definition clean_line :: "string \<Rightarrow> bool" where
  "clean_line l \<longleftrightarrow> l \<noteq> [] \<and> ascii_graphic (hd l) \<and> ascii_graphic (last l) \<and> CHR 0x0A \<notin> set l"

definition unlines :: "string list \<Rightarrow> string" where
  "unlines ls = concat (map (\<lambda>l. l @ [CHR 0x0A]) ls)"

lemma split_unlines:
  "list_all (\<lambda>l. CHR 0x0A \<notin> set l) ls \<Longrightarrow> split_inclusive CHR 0x0A (unlines ls) = map (\<lambda>l. l @ [CHR 0x0A]) ls"
  by (induction ls) (simp_all add: unlines_def split_inclusive_append)

lemma clean_line_trim:
  assumes "clean_line l"
  shows "trim_end_matches (\<lambda>c. c = CHR 0x0A \<or> c = CHR 0x0D) (l @ [CHR 0x0A]) = l" and "str_trim l = l"
proof -
  have "last l \<noteq> CHR 0x0A \<and> last l \<noteq> CHR 0x0D"
    using assms by (auto simp: clean_line_def ascii_graphic_def byte_of_def)
  then show "trim_end_matches (\<lambda>c. c = CHR 0x0A \<or> c = CHR 0x0D) (l @ [CHR 0x0A]) = l"
    using assms by (cases l rule: rev_cases) (simp_all add: trim_end_matches_def clean_line_def)
  show "str_trim l = l"
    using assms str_trim_graphic(3) by (simp add: clean_line_def)
qed

lemma number_unlines:
  assumes "list_all clean_line ls"
  shows "map (\<lambda>(i, off, l). l) (lines_with_offsets (unlines ls)) = ls"
proof -
  have "map (\<lambda>(i, off, l). l) (number_lines i off (map (\<lambda>l. l @ [CHR 0x0A]) ls)) = ls" for i off
    using assms by (induction ls arbitrary: i off) (auto simp: clean_line_trim)
  moreover have "list_all (\<lambda>l. CHR 0x0A \<notin> set l) ls"
    using assms by (auto simp: list_all_iff clean_line_def)
  ultimately show ?thesis
    by (simp add: lines_with_offsets_def split_unlines)
qed

fun flag_char :: "char \<Rightarrow> bool \<Rightarrow> char" where
  "flag_char c b = (if b then c else CHR ''-'')"

definition encode_tlb_flags :: "tlb_flags \<Rightarrow> string" where
  "encode_tlb_flags f =
     [flag_char CHR ''X'' (tf_nx f), flag_char CHR ''G'' (tf_global f), flag_char CHR ''P'' (tf_ps f),
      flag_char CHR ''D'' (tf_dirty f), flag_char CHR ''A'' (tf_accessed f), flag_char CHR ''C'' (tf_pcd f),
      flag_char CHR ''T'' (tf_pwt f), flag_char CHR ''U'' (tf_user f), flag_char CHR ''W'' (tf_writable f)]"

lemma decode_encode_flags [simp]: "decode_tlb_flags (encode_tlb_flags f) = Some f"
  by (cases f) (simp add: decode_tlb_flags_def encode_tlb_flags_def)

definition tlb_line :: "info_tlb_entry \<Rightarrow> string" where
  "tlb_line e = hex16 (it_virtual_address e) @ '': '' @ hex16 (it_physical_address e) @ '' '' @ encode_tlb_flags (it_flags e)"

lemma flags_field: "field_ok (encode_tlb_flags f)" "CHR 0x0A \<notin> set (encode_tlb_flags f)"
  by (simp_all add: field_ok_def encode_tlb_flags_def ascii_graphic_def byte_of_def)

lemma strip_suffix_append [simp]: "strip_suffix p (s @ p) = Some s"
  by (simp add: strip_suffix_def ends_with_def starts_with_iff)

lemma tlb_line_clean: "clean_line (tlb_line e)"
proof -
  have "field_ok (hex16 (it_virtual_address e))" "field_ok (encode_tlb_flags (it_flags e))"
    by (simp_all add: hex16_field flags_field)
  then have "ascii_graphic (hd (hex16 (it_virtual_address e)))" "ascii_graphic (last (encode_tlb_flags (it_flags e)))"
    "encode_tlb_flags (it_flags e) \<noteq> []"
    by (simp_all add: field_ok_def)
  then show ?thesis
    using hex16_chars [of "CHR 0x0A"] flags_field(2) by (auto simp: clean_line_def tlb_line_def)
qed

lemma parse_tlb_line_print: "parse_tlb_line i off (tlb_line e) = Inr e"
proof -
  let ?v = "hex16 (it_virtual_address e)" and ?p = "hex16 (it_physical_address e)" and ?f = "encode_tlb_flags (it_flags e)"
  have "field_ok (?v @ '':'')"
    using hex16_field [of "it_virtual_address e"] by (auto simp: field_ok_def ascii_graphic_def byte_of_def)
  then have "split_whitespace ((?v @ '':'') @ CHR '' '' # ?p @ CHR '' '' # ?f) = [?v @ '':'', ?p, ?f]"
    using split_whitespace_Cons split_whitespace_one hex16_field flags_field by metis
  then have "split_whitespace (str_trim (tlb_line e)) = [?v @ '':'', ?p, ?f]"
    using clean_line_trim(2) [OF tlb_line_clean] by (simp add: tlb_line_def)
  then show ?thesis
    by (simp add: parse_tlb_line_def Let_def)
qed

lemma tlb_loop_print:
  assumes "list_all clean_line ls" "map (\<lambda>(i, off, l). l) rows = ls" "ls = map tlb_line es"
  shows "tlb_loop rows out = Inr (out @ es)"
  using assms
proof (induction rows arbitrary: ls es out)
  case (Cons r rows)
  obtain i off where r: "r = (i, off, hd ls)"
    using Cons.prems(2) by (cases r) auto
  obtain e es' where e: "es = e # es'" "ls = tlb_line e # map tlb_line es'"
    using Cons.prems by (cases es) auto
  have "str_trim (tlb_line e) = tlb_line e" "tlb_line e \<noteq> []"
    using clean_line_trim(2) [OF tlb_line_clean] tlb_line_clean by (simp_all add: clean_line_def)
  moreover have "tlb_loop rows (out @ [e]) = Inr ((out @ [e]) @ es')"
    using Cons.prems e by (intro Cons.IH [of "map tlb_line es'"]) auto
  ultimately show ?case
    by (simp add: r e parse_tlb_line_print)
qed simp

lemma tlb_listing_roundtrip: "parse_info_tlb (unlines (map tlb_line es)) = Inr es"
proof -
  have clean: "list_all clean_line (map tlb_line es)"
    by (simp add: list_all_iff tlb_line_clean)
  show ?thesis
    using tlb_loop_print [OF clean number_unlines [OF clean] refl, of "[]"] by (simp add: parse_info_tlb_def)
qed

text \<open>A row of \<open>info mem\<close>.\<close>

definition encode_permissions :: "info_mem_range \<Rightarrow> string" where
  "encode_permissions r =
     [flag_char CHR ''u'' (im_user r), flag_char CHR ''r'' (im_readable r), flag_char CHR ''w'' (im_writable r)]"

definition mem_line :: "info_mem_range \<Rightarrow> string" where
  "mem_line r =
     (hex16 (im_start r) @ CHR ''-'' # hex16 (im_end r)) @ CHR '' '' # hex16 (im_size r) @ CHR '' '' #
     encode_permissions r"

lemma permissions_field: "field_ok (encode_permissions r)"
  by (simp add: field_ok_def encode_permissions_def ascii_graphic_def byte_of_def)

lemma field_clean:
  assumes "field_ok f" "field_ok g" "CHR 0x0A \<notin> set m"
  shows "clean_line (f @ m @ g)"
proof -
  have "CHR 0x0A \<notin> set f" "CHR 0x0A \<notin> set g"
    using assms by (auto simp: field_ok_def ascii_graphic_def byte_of_def)
  with assms show ?thesis by (auto simp: clean_line_def field_ok_def)
qed

lemma mem_line_clean: "clean_line (mem_line r)"
proof -
  have "clean_line (hex16 (im_start r) @
      (CHR ''-'' # hex16 (im_end r) @ CHR '' '' # hex16 (im_size r) @ '' '') @ encode_permissions r)"
    using hex16_chars [of "CHR 0x0A"] by (intro field_clean hex16_field permissions_field) auto
  then show ?thesis by (simp add: mem_line_def)
qed

lemma parse_mem_line_print: "parse_mem_line i off (mem_line r) = Inr r"
proof -
  define s t z p where terms: "s = hex16 (im_start r)" "t = hex16 (im_end r)" "z = hex16 (im_size r)"
    "p = encode_permissions r"
  have f: "field_ok s" "field_ok t" "field_ok z" "field_ok p"
    by (simp_all add: terms hex16_field permissions_field)
  have range: "field_ok (s @ CHR ''-'' # t)"
    using f by (auto simp: field_ok_def ascii_graphic_def byte_of_def)
  have "CHR ''-'' \<notin> set s"
    using hex16_chars [of "CHR ''-''"] by (auto simp: terms)
  then have dash: "split_once CHR ''-'' (s @ CHR ''-'' # t) = Some (s, t)"
    by (rule split_once_append)
  have l: "mem_line r = (s @ CHR ''-'' # t) @ CHR '' '' # z @ CHR '' '' # p"
    by (simp add: mem_line_def terms)
  have "list_all (\<lambda>c. byte_of c < 128) (mem_line r)"
    using f by (auto simp: l list_all_iff field_ok_def ascii_graphic_def byte_of_def [of "CHR '' ''"]
        byte_of_def [of "CHR ''-''"])
  moreover have "split_whitespace (mem_line r) = [s @ CHR ''-'' # t, z, p]"
    unfolding l using split_whitespace_Cons [OF range] split_whitespace_Cons [OF f(3)] split_whitespace_one [OF f(4)]
    by simp
  moreover have "parse_hex_u64 s = Some (im_start r)" "parse_hex_u64 t = Some (im_end r)"
    "parse_hex_u64 z = Some (im_size r)"
    by (simp_all add: terms)
  ultimately show ?thesis
    by (simp add: parse_mem_line_def Let_def dash terms(4) encode_permissions_def)
qed

lemma mem_loop_print:
  assumes "list_all clean_line ls" "map (\<lambda>(i, off, l). l) rows = ls" "ls = map mem_line rs"
  shows "mem_loop rows out = Inr (out @ rs)"
  using assms
proof (induction rows arbitrary: ls rs out)
  case (Cons r rows)
  obtain i off where r: "r = (i, off, hd ls)"
    using Cons.prems(2) by (cases r) auto
  obtain e rs' where e: "rs = e # rs'" "ls = mem_line e # map mem_line rs'"
    using Cons.prems by (cases rs) auto
  have "str_trim (mem_line e) = mem_line e" "mem_line e \<noteq> []"
    using clean_line_trim(2) [OF mem_line_clean] mem_line_clean by (simp_all add: clean_line_def)
  moreover have "mem_line e \<noteq> ''PG disabled''"
  proof
    assume "mem_line e = ''PG disabled''"
    moreover have "hd (mem_line e) \<in> set (hex16 (im_start e))"
      by (simp add: mem_line_def)
    ultimately have "is_hexdigit CHR ''P''"
      using hex16_chars by fastforce
    then show False
      by (simp add: is_hexdigit_def to_digit_def byte_of_def)
  qed
  moreover have "mem_loop rows (out @ [e]) = Inr ((out @ [e]) @ rs')"
    using Cons.prems e by (intro Cons.IH [of "map mem_line rs'"]) auto
  ultimately show ?case
    by (simp add: r e parse_mem_line_print Let_def)
qed simp

lemma mem_listing_roundtrip: "parse_info_mem (unlines (map mem_line rs)) = Inr rs"
proof -
  have clean: "list_all clean_line (map mem_line rs)"
    by (simp add: list_all_iff mem_line_clean)
  show ?thesis
    using mem_loop_print [OF clean number_unlines [OF clean] refl, of "[]"] by (simp add: parse_info_mem_def)
qed

text \<open>
  C12. The listing parsers recover every listing in the form QEMU prints: \<open>info tlb\<close> rows (two
  addresses of sixteen hexadecimal digits and the nine flag columns) and \<open>info mem\<close> rows
  (\<open>start-end size permissions\<close>) are read back exactly and in order.
\<close>

theorem monitor_listings_roundtrip:
  "parse_info_tlb (unlines (map tlb_line es)) = Inr es \<and> parse_info_mem (unlines (map mem_line rs)) = Inr rs"
  using tlb_listing_roundtrip mem_listing_roundtrip by blast

subsection \<open>Where a parse error points\<close>

text \<open>Row \<open>(n, off, l)\<close> is line \<open>n\<close> of the text, starting at byte \<open>off\<close>.\<close>

definition line_at :: "string \<Rightarrow> nat \<Rightarrow> nat \<Rightarrow> string \<Rightarrow> bool" where
  "line_at txt n off l \<longleftrightarrow>
     (\<exists>pre raw post. txt = pre @ raw @ post \<and> length pre = off \<and>
        n = length (filter (\<lambda>c. c = CHR 0x0A) pre) + 1 \<and> (pre = [] \<or> last pre = CHR 0x0A) \<and>
        CHR 0x0A \<notin> set (butlast raw) \<and>
        l = trim_end_matches (\<lambda>c. c = CHR 0x0A \<or> c = CHR 0x0D) raw)"

lemma split_inclusive_none: "c \<notin> set s \<Longrightarrow> s \<noteq> [] \<Longrightarrow> split_inclusive c s = [s]"
proof (induction s)
  case (Cons x s)
  then show ?case by (cases s) auto
qed simp

lemma number_lines_at:
  assumes "pre = [] \<or> last pre = CHR 0x0A" "k = length (filter (\<lambda>c. c = CHR 0x0A) pre)"
    "(n, off, l) \<in> set (number_lines k (length pre) (split_inclusive CHR 0x0A s))"
  shows "line_at (pre @ s) n off l"
  using assms
proof (induction "length s" arbitrary: s pre k rule: less_induct)
  case less
  let ?nl = "CHR 0x0A"
  show ?case
  proof (cases "?nl \<in> set s")
    case False
    then have "s \<noteq> []" "split_inclusive ?nl s = [s]"
      using less.prems(3) split_inclusive_none by (cases "s = []"; force)+
    with less.prems have "(n, off, l) = (k + 1, length pre, trim_end_matches (\<lambda>c. c = ?nl \<or> c = CHR 0x0D) s)"
      by simp
    moreover have "?nl \<notin> set (butlast s)"
      using False by (blast dest: in_set_butlastD)
    ultimately show ?thesis
      unfolding line_at_def using less.prems(1,2)
      by (intro exI [of _ pre] exI [of _ s] exI [of _ "[]"]) simp
  next
    case True
    then obtain a b where s: "s = a @ ?nl # b" "?nl \<notin> set a"
      by (auto dest: split_list_first)
    have rows: "number_lines k (length pre) (split_inclusive ?nl s) =
        (k + 1, length pre, trim_end_matches (\<lambda>c. c = ?nl \<or> c = CHR 0x0D) (a @ [?nl])) #
        number_lines (k + 1) (length (pre @ a @ [?nl])) (split_inclusive ?nl b)"
      using s by (simp add: split_inclusive_append)
    then consider "(n, off, l) = (k + 1, length pre, trim_end_matches (\<lambda>c. c = ?nl \<or> c = CHR 0x0D) (a @ [?nl]))"
      | "(n, off, l) \<in> set (number_lines (k + 1) (length (pre @ a @ [?nl])) (split_inclusive ?nl b))"
      using less.prems(3) by auto
    then show ?thesis
    proof cases
      case 1
      then show ?thesis
        unfolding line_at_def using less.prems(1,2) s
        by (intro exI [of _ pre] exI [of _ "a @ [?nl]"] exI [of _ b]) simp
    next
      case 2
      have "filter (\<lambda>c. c = ?nl) a = []"
        using s(2) by (auto simp: filter_empty_conv)
      then have "line_at ((pre @ a @ [?nl]) @ b) n off l"
        using s less.prems(2) by (intro less.hyps [OF _ _ _ 2]) auto
      then show ?thesis by (simp add: s)
    qed
  qed
qed

lemma lines_with_offsets_at: "(n, off, l) \<in> set (lines_with_offsets txt) \<Longrightarrow> line_at txt n off l"
  using number_lines_at [of "[]" 0 n off l "txt"] by (simp add: lines_with_offsets_def)

lemma fail_at_Inl: "fail_at ctxt n off t reason = Inl e \<Longrightarrow>
    er_context e = ctxt \<and> er_line e = n \<and> er_byte_offset e = off \<and> er_text e = t"
  by (auto simp: fail_at_def)

lemma fail_at_not_Inr [simp]: "fail_at ctxt n off t reason \<noteq> Inr x"
  by (simp add: fail_at_def)

lemma parse_mem_line_err: "parse_mem_line n off l = Inl e \<Longrightarrow>
    er_context e = ''info mem'' \<and> er_line e = n \<and> er_byte_offset e = off \<and> er_text e = l"
  unfolding parse_mem_line_def Let_def by (auto split: if_splits option.splits prod.splits dest: fail_at_Inl)

lemma parse_tlb_line_err: "parse_tlb_line n off l = Inl e \<Longrightarrow>
    er_context e = ''info tlb'' \<and> er_line e = n \<and> er_byte_offset e = off \<and> er_text e = l"
  unfolding parse_tlb_line_def Let_def by (auto split: if_splits option.splits prod.splits dest: fail_at_Inl)

lemma parse_cpu_line_err: "parse_cpu_line n off l = Inl e \<Longrightarrow>
    er_context e = ''info cpus'' \<and> er_line e = n \<and> er_byte_offset e = off \<and> er_text e = l"
  unfolding parse_cpu_line_def Let_def by (auto split: if_splits option.splits prod.splits dest: fail_at_Inl)

lemma register_line_err: "register_line n off l r = Inl (MonitorError e) \<Longrightarrow>
    er_context e = ''info registers'' \<and> er_line e = n \<and> er_byte_offset e = off \<and> er_text e = l"
  unfolding register_line_def Let_def fail_at_def map_err_def
  by (auto split: if_splits option.splits prod.splits sum.splits list.splits)


definition error_at :: "string \<Rightarrow> nat \<Rightarrow> nat \<Rightarrow> string \<Rightarrow> parse_error \<Rightarrow> bool" where
  "error_at ctxt n off t e \<longleftrightarrow> er_context e = ctxt \<and> er_line e = n \<and> er_byte_offset e = off \<and> er_text e = t"

lemma line_errors:
  "parse_mem_line n off l = Inl e \<Longrightarrow> error_at ''info mem'' n off l e"
  "parse_tlb_line n off l = Inl e \<Longrightarrow> error_at ''info tlb'' n off l e"
  "parse_cpu_line n off l = Inl e \<Longrightarrow> error_at ''info cpus'' n off l e"
  "register_line n off l r = Inl (MonitorError e) \<Longrightarrow> error_at ''info registers'' n off l e"
  using parse_mem_line_err parse_tlb_line_err parse_cpu_line_err register_line_err
  by (simp_all add: error_at_def)

lemma mem_loop_error:
  "mem_loop rows out = Inl e \<Longrightarrow> \<exists>(n, off, l) \<in> set rows. error_at ''info mem'' n off (str_trim l) e"
proof (induction rows arbitrary: out)
  case (Cons row rows)
  obtain n off l where row: "row = (n, off, l)" by (cases row)
  show ?case
  proof (cases "parse_mem_line n off (str_trim l)")
    case (Inl e')
    then show ?thesis
      using Cons line_errors(1) [of n off "str_trim l"] by (auto simp: row Let_def split: if_splits)
  next
    case (Inr r)
    then show ?thesis
      using Cons.prems Cons.IH by (auto simp: row Let_def split: if_splits)
  qed
qed simp

lemma tlb_loop_error:
  "tlb_loop rows out = Inl e \<Longrightarrow> \<exists>(n, off, l) \<in> set rows. error_at ''info tlb'' n off l e"
proof (induction rows arbitrary: out)
  case (Cons row rows)
  obtain n off l where row: "row = (n, off, l)" by (cases row)
  show ?case
    using Cons line_errors(2) [of n off l]
    by (cases "parse_tlb_line n off l") (auto simp: row split: if_splits)
qed simp

lemma cpus_loop_error:
  "cpus_loop rows out = Inl e \<Longrightarrow> \<exists>(n, off, l) \<in> set rows. error_at ''info cpus'' n off (str_trim l) e"
proof (induction rows arbitrary: out)
  case (Cons row rows)
  obtain n off l where row: "row = (n, off, l)" by (cases row)
  show ?case
    using Cons line_errors(3) [of n off "str_trim l"]
    by (cases "parse_cpu_line n off (str_trim l)") (auto simp: row split: if_splits)
qed simp

lemma registers_loop_error:
  "registers_loop rows r = Inl (MonitorError e) \<Longrightarrow>
     \<exists>(n, off, l) \<in> set rows. error_at ''info registers'' n off (str_trim l) e"
proof (induction rows arbitrary: r)
  case (Cons row rows)
  obtain n off l where row: "row = (n, off, l)" by (cases row)
  show ?case
    using Cons line_errors(4) [of n off "str_trim l" r]
    by (cases "register_line n off (str_trim l) r") (auto simp: row Let_def split: if_splits)
qed simp

text \<open>
  A parse error of the four monitor parsers points at the line it is about: the reported
  number is one more than the line ends before it, the byte offset is where that line starts, and
  the quoted text is that line, as it is for \<open>info tlb\<close> and trimmed for the others.
\<close>

lemma monitor_errors_point_at_line:
  "(parse_info_mem txt = Inl e \<longrightarrow>
      (\<exists>l. line_at txt (er_line e) (er_byte_offset e) l \<and> er_text e = str_trim l)) \<and>
   (parse_info_tlb txt = Inl e \<longrightarrow> line_at txt (er_line e) (er_byte_offset e) (er_text e)) \<and>
   (parse_info_cpus txt = Inl e \<longrightarrow>
      (\<exists>l. line_at txt (er_line e) (er_byte_offset e) l \<and> er_text e = str_trim l)) \<and>
   (parse_info_registers txt = Inl (MonitorError e) \<longrightarrow>
      (\<exists>l. line_at txt (er_line e) (er_byte_offset e) l \<and> er_text e = str_trim l))"
proof (intro conjI impI)
  assume "parse_info_mem txt = Inl e"
  then show "\<exists>l. line_at txt (er_line e) (er_byte_offset e) l \<and> er_text e = str_trim l"
    using mem_loop_error [of "lines_with_offsets txt" "[]" e] lines_with_offsets_at
    by (fastforce simp: parse_info_mem_def error_at_def)
next
  assume "parse_info_tlb txt = Inl e"
  then show "line_at txt (er_line e) (er_byte_offset e) (er_text e)"
    using tlb_loop_error [of "lines_with_offsets txt" "[]" e] lines_with_offsets_at
    by (fastforce simp: parse_info_tlb_def error_at_def)
next
  assume "parse_info_cpus txt = Inl e"
  then show "\<exists>l. line_at txt (er_line e) (er_byte_offset e) l \<and> er_text e = str_trim l"
    using cpus_loop_error [of "lines_with_offsets txt" "[]" e] lines_with_offsets_at
    by (fastforce simp: parse_info_cpus_def error_at_def)
next
  assume "parse_info_registers txt = Inl (MonitorError e)"
  then show "\<exists>l. line_at txt (er_line e) (er_byte_offset e) l \<and> er_text e = str_trim l"
    using registers_loop_error [of "lines_with_offsets txt" empty_report e] lines_with_offsets_at
    by (fastforce simp: parse_info_registers_def error_at_def)
qed


theorem monitor_errors_point_at_line_witness:
  "\<exists>e. parse_info_tlb ''zz'' = Inl e \<and> line_at ''zz'' (er_line e) (er_byte_offset e) (er_text e)"
proof -
  define e where "e = \<lparr>er_context = ''info tlb'', er_line = 1, er_byte_offset = 0, er_text = ''zz'',
    er_reason = ''expected `<vaddr>: <paddr> <flags>`''\<rparr>"
  have "ascii_graphic CHR ''z''"
    by (simp add: ascii_graphic_def byte_of_def)
  then have "str_trim ''zz'' = ''zz''" "field_ok ''zz''"
    using str_trim_graphic(3) [of "''zz''"] by (simp_all add: field_ok_def)
  then have "parse_info_tlb ''zz'' = Inl e"
    using split_whitespace_one [of "''zz''"]
    by (simp add: parse_info_tlb_def lines_with_offsets_def trim_end_matches_def parse_tlb_line_def
        fail_at_def Let_def e_def)
  then show ?thesis
    using monitor_errors_point_at_line [of "''zz''" e] by blast
qed

subsection \<open>Page sizes from \<open>info tlb\<close>\<close>

lemma unat_of_nat_self: "word_of_nat (unat w) = (w :: u64)"
  by simp

text \<open>A gap-free listing: every entry starts where the page before it ended.\<close>

fun contiguous :: "info_tlb_entry list \<Rightarrow> tlb_granularity list \<Rightarrow> bool" where
  "contiguous [] gs \<longleftrightarrow> gs = []"
| "contiguous (e # rest) [] \<longleftrightarrow> False"
| "contiguous (e # rest) (g # gs) \<longleftrightarrow>
     (tf_ps (it_flags e) \<longleftrightarrow> g \<noteq> Tlb4K) \<and>
     (case rest of [] \<Rightarrow> True
      | n # _ \<Rightarrow> unat (it_virtual_address n) = unat (it_virtual_address e) + unat (granularity_bytes g)) \<and>
     contiguous rest gs"

text \<open>
  C13. On a listing without holes the step inference of \<open>resolve_granularities\<close> is right for every
  entry but the last: 4 KiB, 2 MiB and 1 GiB pages are told apart, and the last large page is
  reported as 2 MiB. With a hole after it a 2 MiB page is reported as 1 GiB exactly when the next
  listed page starts 1 GiB or more higher.
\<close>

theorem granularities_of_listing:
  "(contiguous es gs \<longrightarrow> butlast (resolve_granularities es) = butlast gs) \<and>
   (tf_ps (it_flags e) \<and> it_virtual_address e < it_virtual_address n \<longrightarrow>
      hd (resolve_granularities (e # n # rest)) =
        (if 2 ^ 30 \<le> unat (it_virtual_address n) - unat (it_virtual_address e) then Tlb1G else Tlb2M))"
proof (intro conjI impI)
  show "butlast (resolve_granularities es) = butlast gs" if "contiguous es gs"
    using that
  proof (induction es gs rule: contiguous.induct)
    case (3 e rest g gs)
    show ?case
    proof (cases rest)
      case Nil
      with 3 show ?thesis by simp
    next
      case (Cons n rest')
      have "unat (it_virtual_address n) = unat (it_virtual_address e) + unat (granularity_bytes g)"
        using 3 Cons by simp
      then have step: "it_virtual_address n - it_virtual_address e = granularity_bytes g"
        by (metis add_diff_cancel_left' of_nat_add unat_of_nat_self)
      have lt: "it_virtual_address e < it_virtual_address n"
        using \<open>unat (it_virtual_address n) = _\<close> by (cases g) (simp_all add: word_less_nat_alt)
      have "gs \<noteq> []"
        using 3 Cons by (cases gs) auto
      moreover have "resolve_granularities rest \<noteq> []"
        by (simp add: Cons)
      ultimately show ?thesis
        using 3 Cons lt step by (cases g) simp_all
    qed
  qed simp_all
next
  assume *: "tf_ps (it_flags e) \<and> it_virtual_address e < it_virtual_address n"
  then have "unat (it_virtual_address n - it_virtual_address e) = unat (it_virtual_address n) - unat (it_virtual_address e)"
    by (intro unat_sub less_imp_le) (rule conjunct2)
  then have "granularity_bytes Tlb1G \<le> it_virtual_address n - it_virtual_address e \<longleftrightarrow>
      2 ^ 30 \<le> unat (it_virtual_address n) - unat (it_virtual_address e)"
    by (simp add: word_le_nat_alt)
  with * show "hd (resolve_granularities (e # n # rest)) =
        (if 2 ^ 30 \<le> unat (it_virtual_address n) - unat (it_virtual_address e) then Tlb1G else Tlb2M)"
    by simp
qed

definition demo_entry :: "u64 \<Rightarrow> bool \<Rightarrow> info_tlb_entry" where
  "demo_entry va ps = \<lparr>it_virtual_address = va, it_physical_address = 0,
     it_flags = \<lparr>tf_nx = False, tf_global = False, tf_ps = ps, tf_dirty = False, tf_accessed = False,
       tf_pcd = False, tf_pwt = False, tf_user = False, tf_writable = True\<rparr>\<rparr>"

theorem granularities_of_listing_witness:
  "butlast (resolve_granularities [demo_entry 0 True, demo_entry 0x40000000 True, demo_entry 0x40200000 False]) =
     [Tlb1G, Tlb2M] \<and>
   hd (resolve_granularities [demo_entry 0 True, demo_entry 0x80000000 True]) = Tlb1G"
  using granularities_of_listing
    [where es = "[demo_entry 0 True, demo_entry 0x40000000 True, demo_entry 0x40200000 False]"
      and gs = "[Tlb1G, Tlb2M, Tlb4K]" and e = "demo_entry 0 True" and n = "demo_entry 0x80000000 True"
      and rest = "[]"]
  by (simp add: demo_entry_def)


subsection \<open>The panic of the segment parser\<close>

lemma register_line_panic: "register_line n off l r = Inl MonitorPanic \<Longrightarrow> split_at_2 l = None"
  unfolding register_line_def parse_segment_line_def Let_def fail_at_def map_err_def
  by (auto split: if_splits option.splits prod.splits sum.splits list.splits)

lemma registers_loop_panic:
  "registers_loop rows r = Inl MonitorPanic \<Longrightarrow>
     \<exists>(n, off, l) \<in> set rows. str_trim l \<noteq> [] \<and> split_at_2 (str_trim l) = None"
proof (induction rows arbitrary: r)
  case (Cons row rows)
  obtain n off l where row: "row = (n, off, l)" by (cases row)
  show ?case
    using Cons register_line_panic [of n off "str_trim l" r]
    by (cases "register_line n off (str_trim l) r") (auto simp: row Let_def split: if_splits)
qed simp

lemma short_line_no_prefix: "length s \<le> 1 \<Longrightarrow> 1 < length p \<Longrightarrow> strip_prefix p s = None"
  using starts_with_iff [of p s] by (auto simp: strip_prefix_def)

text \<open>
  \<open>parse_info_registers\<close> panics only where the slice at byte 2 of some trimmed line does not
  exist, and it does panic on text that is one printable character: the function has an error
  value for unknown lines, but such a line does not reach it.
\<close>

lemma registers_panic:
  "(parse_info_registers txt = Inl MonitorPanic \<longrightarrow>
      (\<exists>(n, off, l) \<in> set (lines_with_offsets txt). str_trim l \<noteq> [] \<and> split_at_2 (str_trim l) = None)) \<and>
   (ascii_graphic c \<longrightarrow> parse_info_registers [c] = Inl MonitorPanic)"
proof (intro conjI impI)
  show "\<exists>(n, off, l) \<in> set (lines_with_offsets txt). str_trim l \<noteq> [] \<and> split_at_2 (str_trim l) = None"
    if "parse_info_registers txt = Inl MonitorPanic"
    using that registers_loop_panic by (simp add: parse_info_registers_def)
  assume c: "ascii_graphic c"
  then have "str_trim [c] = [c]"
    using str_trim_graphic(3) [of "[c]"] by simp
  moreover have "trim_end_matches (\<lambda>c. c = CHR 0x0A \<or> c = CHR 0x0D) [c] = [c]"
    using c by (auto simp: trim_end_matches_def ascii_graphic_def byte_of_def)
  moreover have "split_inclusive CHR 0x0A [c] = [[c]]"
    by simp
  moreover have "register_line 1 0 [c] r = Inl MonitorPanic" for r
    by (simp add: register_line_def parse_segment_line_def split_at_2_def short_line_no_prefix)
  ultimately show "parse_info_registers [c] = Inl MonitorPanic"
    by (simp only: parse_info_registers_def lines_with_offsets_def number_lines.simps registers_loop.simps Let_def)
      simp
qed

theorem registers_panic_witness: "parse_info_registers ''x'' = Inl MonitorPanic"
  using registers_panic [of "''x''" "CHR ''x''"] by (simp add: ascii_graphic_def byte_of_def)

end
