(* ===== verification/Core_Error.thy ===== *)
theory Core_Error
  imports Rust_Text
begin

section \<open>The error model\<close>

text \<open>
  Models \<^verbatim>\<open>crates/princess-core/src/error.rs\<close>: the closed set of error codes with their wire
  strings, the error value every fallible entry point returns, the mapping of I/O error kinds, and
  the reply that crosses the IPC boundary. The \<open>ok\<close> flag of a reply is a field of both variants, as
  in the source, so that a reply built outside the constructors can disagree with its variant.
\<close>

subsection \<open>Codes\<close>

datatype error_code =
    ToolchainMissing | BuildFailed | QemuFailed | Timeout | NotFound | InvalidConfig
  | SandboxDenied | Cancelled | AiUnavailable | Internal

fun code_str :: "error_code \<Rightarrow> string" where
  "code_str ToolchainMissing = ''E_TOOLCHAIN_MISSING''"
| "code_str BuildFailed = ''E_BUILD_FAILED''"
| "code_str QemuFailed = ''E_QEMU_FAILED''"
| "code_str Timeout = ''E_TIMEOUT''"
| "code_str NotFound = ''E_NOT_FOUND''"
| "code_str InvalidConfig = ''E_INVALID_CONFIG''"
| "code_str SandboxDenied = ''E_SANDBOX_DENIED''"
| "code_str Cancelled = ''E_CANCELLED''"
| "code_str AiUnavailable = ''E_AI_UNAVAILABLE''"
| "code_str Internal = ''E_INTERNAL''"

definition all_codes :: "error_code list" where
  "all_codes =
     [ToolchainMissing, BuildFailed, QemuFailed, Timeout, NotFound, InvalidConfig, SandboxDenied,
      Cancelled, AiUnavailable, Internal]"

subsection \<open>Errors\<close>

record princess_error =
  pe_code :: error_code
  pe_message :: string
  pe_detail :: "string option"

definition new_error :: "error_code \<Rightarrow> string \<Rightarrow> princess_error" where
  "new_error code message = \<lparr>pe_code = code, pe_message = message, pe_detail = None\<rparr>"

definition with_detail :: "princess_error \<Rightarrow> string \<Rightarrow> princess_error" where
  "with_detail e detail = (if detail \<noteq> [] then e\<lparr>pe_detail := Some detail\<rparr> else e)"

definition internal_error :: "string \<Rightarrow> princess_error" where
  "internal_error message = new_error Internal message"

definition not_found_error :: "string \<Rightarrow> princess_error" where
  "not_found_error message = new_error NotFound message"

definition invalid_config_error :: "string \<Rightarrow> princess_error" where
  "invalid_config_error message = new_error InvalidConfig message"

definition cancelled_error :: "string \<Rightarrow> princess_error" where
  "cancelled_error op_id = new_error Cancelled (''operation '' @ op_id @ '' was cancelled'')"

definition show_error :: "princess_error \<Rightarrow> string" where
  "show_error e =
     code_str (pe_code e) @ '': '' @ pe_message e @
     (case pe_detail e of None \<Rightarrow> '''' | Some detail \<Rightarrow> '' ('' @ detail @ '')'')"

text \<open>The kinds of \<open>std::io::Error\<close> the conversion distinguishes.\<close>

datatype io_error_kind = IoNotFound | IoPermissionDenied | IoOther

definition error_of_io :: "io_error_kind \<Rightarrow> string \<Rightarrow> princess_error" where
  "error_of_io kind err =
     (let code = (case kind of IoNotFound \<Rightarrow> NotFound | IoPermissionDenied \<Rightarrow> SandboxDenied
                  | IoOther \<Rightarrow> Internal)
      in new_error code (''io error: '' @ err))"

definition error_of_json :: "string \<Rightarrow> princess_error" where
  "error_of_json err = internal_error (''json error: '' @ err)"

subsection \<open>Replies\<close>

datatype 'a ipc_response = IpcOk bool 'a | IpcErr bool princess_error

definition ipc_ok :: "'a \<Rightarrow> 'a ipc_response" where
  "ipc_ok data = IpcOk True data"

definition ipc_err :: "princess_error \<Rightarrow> 'a ipc_response" where
  "ipc_err e = IpcErr False e"

definition ipc_from_result :: "princess_error + 'a \<Rightarrow> 'a ipc_response" where
  "ipc_from_result r = (case r of Inr data \<Rightarrow> ipc_ok data | Inl e \<Rightarrow> ipc_err e)"

fun ipc_is_ok :: "'a ipc_response \<Rightarrow> bool" where
  "ipc_is_ok (IpcOk b _) = b"
| "ipc_is_ok (IpcErr b _) = b"

fun ipc_error :: "'a ipc_response \<Rightarrow> princess_error option" where
  "ipc_error (IpcOk _ _) = None"
| "ipc_error (IpcErr _ e) = Some e"

subsection \<open>Facts\<close>

text \<open>The closed set is closed: \<open>ALL\<close> lists every code once, and wire strings identify codes.\<close>

lemma all_codes_complete: "set all_codes = UNIV" and "distinct all_codes" and "length all_codes = 10"
proof -
  have "c \<in> set all_codes" for c
    by (cases c) (simp_all add: all_codes_def)
  then show "set all_codes = UNIV" by blast
qed (simp_all add: all_codes_def)

lemma code_str_inject [simp]: "code_str a = code_str b \<longleftrightarrow> a = b"
  by (cases a; cases b) simp_all

text \<open>No failure is swallowed on its way through the IPC boundary, and no success invented.\<close>

lemma ipc_from_result_faithful:
  "ipc_error (ipc_from_result r) = Some e \<longleftrightarrow> r = Inl e"
  "ipc_is_ok (ipc_from_result r) \<longleftrightarrow> (\<exists>x. r = Inr x)"
  by (cases r; simp add: ipc_from_result_def ipc_ok_def ipc_err_def)+

end
