(* ===== verification/Register_Walk.thy ===== *)
theory Register_Walk imports Page_Table Monitor Core_Error begin

section \<open>A page walk from the monitor's registers\<close>

text \<open>
  Models \<open>walk_from_registers\<close> of \<^verbatim>\<open>crates/princess-bin/src/pagetable.rs\<close>, where the monitor
  parser and the page-table walker meet, and proves the composition: from the text of
  \<open>info registers\<close> to the translation the processor makes.
\<close>

definition read_register :: "registers_report \<Rightarrow> string \<Rightarrow> princess_error + u64" where
  "read_register registers name =
     map_err (\<lambda>reason. with_detail (internal_error (''cannot walk page tables: '' @ reason)) reason)
       (register_u64 registers name)"

definition read_efer :: "registers_report \<Rightarrow> princess_error + u64" where
  "read_efer registers =
     map_err (\<lambda>_. with_detail (internal_error
         ''cannot walk page tables: EFER is not reported, so long mode cannot be confirmed'')
         ''`info registers` did not produce an EFER line'')
       (register_u64 registers ''EFER'')"

definition walk_from_registers ::
  "guest_memory \<Rightarrow> registers_report \<Rightarrow> u64 \<Rightarrow> princess_error + (walk_error + page_table_walk)" where
  "walk_from_registers mem registers address =
     and_then (read_register registers ''CR0'') (\<lambda>c0.
     and_then (read_register registers ''CR3'') (\<lambda>c3.
     and_then (read_register registers ''CR4'') (\<lambda>c4.
     and_then (read_efer registers) (\<lambda>ef.
       case walker_new mem (Cr0 c0) (Cr4 c4) (Efer ef) of
         Inr k \<Rightarrow> Inr (walk k (Cr3 c3) address)
       | Inl err \<Rightarrow> Inl (with_detail (internal_error
           (''cannot walk page tables from CR3='' @ show_hex_alt (unat c3) @ '': '' @ show_walk_error err))
           (show_walk_error err))))))"

subsection \<open>Register rows as QEMU prints them\<close>

definition row_name :: "string \<Rightarrow> bool" where
  "row_name n \<longleftrightarrow> 3 \<le> length n \<and> list_all ascii_alphanumeric n \<and> n \<notin> {''GDT'', ''IDT'', ''LDT'', ''RIP''}"

definition register_field :: "string \<times> u64 \<Rightarrow> string" where
  "register_field p = fst p @ CHR ''='' # hex16 (snd p)"

fun register_row :: "(string \<times> u64) list \<Rightarrow> string" where
  "register_row [] = []"
| "register_row [p] = register_field p"
| "register_row (p # q # ps) = register_field p @ CHR '' '' # register_row (q # ps)"

lemma alphanumeric_facts:
  "ascii_alphanumeric c \<Longrightarrow> ascii_graphic c \<and> c \<noteq> CHR ''='' \<and> c \<noteq> CHR ''#'' \<and> c \<noteq> CHR '' ''"
  by (auto simp: ascii_alphanumeric_def ascii_graphic_def byte_of_def)

lemma register_field_ok: "row_name (fst p) \<Longrightarrow> field_ok (register_field p)"
  using hex16_field [of "snd p"] alphanumeric_facts
  by (auto simp: field_ok_def register_field_def row_name_def list_all_iff ascii_graphic_def [of "CHR ''=''"] byte_of_def)

lemma register_row_words:
  "ps \<noteq> [] \<Longrightarrow> \<forall>p \<in> set ps. row_name (fst p) \<Longrightarrow>
     split_whitespace (register_row ps) = map register_field ps"
  by (induction ps rule: register_row.induct)
    (simp_all add: split_whitespace_one split_whitespace_Cons register_field_ok)

lemma register_row_clean:
  "ps \<noteq> [] \<Longrightarrow> \<forall>p \<in> set ps. row_name (fst p) \<Longrightarrow> clean_line (register_row ps)"
proof (induction ps rule: register_row.induct)
  case (2 p)
  then have "field_ok (register_field p)"
    by (simp add: register_field_ok)
  then show ?case
    by (auto simp: clean_line_def field_ok_def ascii_graphic_def [of "CHR 0x0A"] byte_of_def [of "CHR 0x0A"])
next
  case (3 p q ps)
  then have "field_ok (register_field p)"
    by (simp add: register_field_ok)
  with 3 show ?case
    by (auto simp: clean_line_def field_ok_def ascii_graphic_def [of "CHR 0x0A"] byte_of_def [of "CHR 0x0A"])
qed simp

lemma hex16_is_hex: "is_hex (hex16 w)"
  using hex16_chars by (auto simp: is_hex_def list_all_iff)

lemma register_pairs_row:
  "\<forall>p \<in> set ps. row_name (fst p) \<Longrightarrow>
     register_pairs (map register_field ps) = Some (map (\<lambda>(n, w). (n, hex16 w)) ps)"
proof (induction ps)
  case (Cons p ps)
  have "CHR ''='' \<notin> set (fst p)"
    using Cons.prems alphanumeric_facts by (auto simp: row_name_def list_all_iff)
  then have "split_once CHR ''='' (register_field p) = Some (fst p, hex16 (snd p))"
    by (simp add: register_field_def split_once_append)
  moreover have "fst p \<noteq> []" "list_all ascii_alphanumeric (fst p)"
    using Cons.prems by (auto simp: row_name_def)
  ultimately show ?case
    using Cons by (simp add: hex16_is_hex split: prod.splits)
qed simp


lemma strip_prefix_None: "starts_with p s = False \<Longrightarrow> strip_prefix p s = None"
  by (simp add: strip_prefix_def)

text \<open>A row is none of the lines with a shape of their own.\<close>

lemma row_head:
  assumes "row_name (fst p)"
  obtains a b c n where "fst p = a # b # c # n" "ascii_alphanumeric a" "ascii_alphanumeric b" "ascii_alphanumeric c"
proof -
  have "3 \<le> length (fst p)" "list_all ascii_alphanumeric (fst p)"
    using assms by (simp_all add: row_name_def)
  then show ?thesis
    by (cases "fst p" rule: list.exhaust; cases "tl (fst p)" rule: list.exhaust;
        cases "tl (tl (fst p))" rule: list.exhaust) (auto intro: that)
qed

lemma row_first:
  "ps \<noteq> [] \<Longrightarrow> \<exists>rest. register_row ps = fst (hd ps) @ CHR ''='' # rest"
  by (induction ps rule: register_row.induct) (auto simp: register_field_def)

lemma name_then_equals:
  assumes "CHR ''='' \<notin> set n" "CHR ''='' \<notin> set m"
  shows "starts_with (m @ ''='') (n @ CHR ''='' # s) \<longleftrightarrow> n = m"
proof
  assume "starts_with (m @ ''='') (n @ CHR ''='' # s)"
  then obtain t where "n @ CHR ''='' # s = m @ CHR ''='' # t"
    by (auto simp: starts_with_iff)
  then have "split_once CHR ''='' (n @ CHR ''='' # s) = Some (m, t)"
    using assms split_once_append by metis
  then show "n = m"
    using split_once_append [OF assms(1), of s] by simp
qed (simp add: starts_with_iff)

lemma row_not_segment:
  assumes "ps \<noteq> []" "\<forall>p \<in> set ps. row_name (fst p)"
  shows "parse_segment_line (register_row ps) = Inr None"
proof -
  obtain rest where row: "register_row ps = fst (hd ps) @ CHR ''='' # rest"
    using row_first assms by blast
  have name: "row_name (fst (hd ps))"
    using assms by simp
  have "CHR ''='' \<notin> set (fst (hd ps))"
    using name alphanumeric_facts by (auto simp: row_name_def list_all_iff)
  then have "\<not> starts_with ''LDT='' (register_row ps)" "\<not> starts_with ''TR='' (register_row ps)"
    using name name_then_equals [of "fst (hd ps)" "''LDT''" rest] name_then_equals [of "fst (hd ps)" "''TR''" rest]
    by (auto simp: row row_name_def)
  moreover obtain a b c n where abc: "fst (hd ps) = a # b # c # n" "ascii_alphanumeric a"
    "ascii_alphanumeric b" "ascii_alphanumeric c"
    using row_head [OF name] by blast
  moreover have "\<not> starts_with ''TR '' (register_row ps)"
    using abc alphanumeric_facts [of c] by (auto simp: row starts_with_iff)
  moreover have "split_at_2 (register_row ps) = Some ([a, b], c # n @ CHR ''='' # rest)"
    using alphanumeric_facts [OF abc(4)] by (simp add: split_at_2_def row abc continuation_def ascii_graphic_def)
  moreover have "strip_prefix ''='' (str_trim_start (c # n @ CHR ''='' # rest)) = None"
    using alphanumeric_facts [OF abc(4)] by (auto simp: str_trim_start_graphic strip_prefix_def)
  ultimately show ?thesis
    by (simp add: parse_segment_line_def strip_prefix_None)
qed

lemma register_line_row:
  assumes "ps \<noteq> []" "\<forall>p \<in> set ps. row_name (fst p)"
  shows "register_line n off (register_row ps) r = Inr (fold (\<lambda>(name, w). insert_register name (hex16 w)) ps r)"
proof -
  obtain rest where row: "register_row ps = fst (hd ps) @ CHR ''='' # rest"
    using row_first assms by blast
  have name: "row_name (fst (hd ps))"
    using assms by simp
  have noeq: "CHR ''='' \<notin> set (fst (hd ps))"
    using name alphanumeric_facts by (auto simp: row_name_def list_all_iff)
  have shapes: "\<not> starts_with ''GDT='' (register_row ps)" "\<not> starts_with ''IDT='' (register_row ps)"
    "\<not> starts_with ''RIP='' (register_row ps)"
    unfolding row
    using name_then_equals [OF noeq, of "''GDT''" rest] name_then_equals [OF noeq, of "''IDT''" rest]
      name_then_equals [OF noeq, of "''RIP''" rest] name [unfolded row_name_def]
    by simp_all
  have cpu: "\<not> starts_with ''CPU#'' (register_row ps)"
  proof
    assume "starts_with ''CPU#'' (register_row ps)"
    then obtain t where "fst (hd ps) @ CHR ''='' # rest = ''CPU#'' @ t"
      unfolding starts_with_iff row by blast
    moreover obtain a b c m where abc: "fst (hd ps) = a # b # c # m"
      by (rule row_head [OF name])
    ultimately have "m @ CHR ''='' # rest = CHR ''#'' # t"
      by (simp only: append_Cons append_Nil list.inject)
    then have "hd (m @ CHR ''='' # rest) = CHR ''#''"
      by (simp only: list.sel)
    moreover have "hd (m @ CHR ''='' # rest) \<noteq> CHR ''#''"
      using name alphanumeric_facts by (cases m) (auto simp: row_name_def abc)
    ultimately show False by blast
  qed
  have pairs: "parse_register_pairs (register_row ps) = Some (map (\<lambda>(n, w). (n, hex16 w)) ps)"
    using register_pairs_row register_row_words assms by (simp add: parse_register_pairs_def)
  have "fold (\<lambda>(name, v). insert_register name v) (map (\<lambda>(n, w). (n, hex16 w)) ps) r =
      fold (\<lambda>(name, w). insert_register name (hex16 w)) ps r"
    by (simp add: fold_map comp_def case_prod_beta')
  moreover obtain q qs where "map (\<lambda>(n, w). (n, hex16 w)) ps = q # qs"
    using assms(1) by (cases ps) auto
  ultimately have "register_line n off (register_row ps) r = Inr (fold (\<lambda>(name, v). insert_register name v) (q # qs) r)"
    unfolding register_line_def Let_def
    using shapes cpu pairs row_not_segment [OF assms] by (simp only: strip_prefix_None option.case sum.case list.case if_False)
  with \<open>map _ ps = q # qs\<close> \<open>fold _ (map _ ps) r = _\<close> show ?thesis
    by simp
qed


lemma registers_loop_rows:
  assumes "\<forall>ps \<in> set rows. ps \<noteq> [] \<and> (\<forall>p \<in> set ps. row_name (fst p))"
    "map (\<lambda>(i, off, l). l) lines = map register_row rows"
  shows "registers_loop lines r = Inr (fold (\<lambda>(name, w). insert_register name (hex16 w)) (concat rows) r)"
  using assms
proof (induction rows arbitrary: lines r)
  case (Cons ps rows)
  then obtain i off rest where lines: "lines = (i, off, register_row ps) # rest"
      "map (\<lambda>(i, off, l). l) rest = map register_row rows"
    by auto
  have "clean_line (register_row ps)"
    using Cons.prems register_row_clean by simp
  then have "str_trim (register_row ps) = register_row ps" "register_row ps \<noteq> []"
    using clean_line_trim(2) by (auto simp: clean_line_def)
  with Cons lines show ?case
    by (simp add: register_line_row)
qed simp

text \<open>The report of such a dump: every register at its last value.\<close>

lemma inserted_registers:
  "rg_registers (fold (\<lambda>(name, w). insert_register name (hex16 w)) ps r) name =
     (case map_of (rev ps) name of None \<Rightarrow> rg_registers r name | Some w \<Rightarrow> Some (hex16 w))"
  by (induction ps arbitrary: r) (auto simp: insert_register_def map_add_def split: option.splits)

lemma registers_of_rows:
  assumes "\<forall>ps \<in> set rows. ps \<noteq> [] \<and> (\<forall>p \<in> set ps. row_name (fst p))"
  shows "\<exists>rep. parse_info_registers (unlines (map register_row rows)) = Inr rep \<and>
    (\<forall>name w. map_of (rev (concat rows)) name = Some w \<longrightarrow> register_u64 rep name = Inr w)"
proof -
  have "list_all clean_line (map register_row rows)"
    using assms register_row_clean by (auto simp: list_all_iff)
  from number_unlines [OF this] have
    "parse_info_registers (unlines (map register_row rows)) =
      Inr (fold (\<lambda>(name, w). insert_register name (hex16 w)) (concat rows) empty_report)"
    using registers_loop_rows [OF assms] by (simp add: parse_info_registers_def)
  then show ?thesis
    by (auto simp: register_u64_def inserted_registers radix16_hex16)
qed

lemma walk_from_values:
  assumes "register_u64 rep ''CR0'' = Inr c0" "register_u64 rep ''CR3'' = Inr c3"
    "register_u64 rep ''CR4'' = Inr c4" "register_u64 rep ''EFER'' = Inr ef"
    "paging_enabled (Cr0 c0)" "lma (Efer ef)"
  shows "walk_from_registers mem rep va =
    Inr (walk \<lparr>wk_memory = mem, wk_cr0 = Cr0 c0, wk_cr4 = Cr4 c4, wk_efer = Efer ef\<rparr> (Cr3 c3) va)"
  using assms by (simp add: walk_from_registers_def read_register_def read_efer_def walker_new_def)



end
