(* ===== verification/Descriptor.thy ===== *)
theory Descriptor
  imports Guest_Memory Rust_Text
begin

section \<open>GDT, IDT and TSS decoding\<close>

text \<open>
  Models \<^verbatim>\<open>crates/princess-bin/src/descriptor.rs\<close>: the decoding of 8-byte segment
  descriptors, of 16-byte system descriptors, of the 64-bit TSS and of IDT gates, the loops that
  read whole tables out of guest memory, and the queries on the tables read. The memory is any
  \<open>guest_memory\<close>; table offsets are natural numbers inside the loops (they stay below
  \<open>2^33\<close>, as the limit has 32 bits) and are truncated to \<open>u16\<close> where the source says
  \<open>as u16\<close>. The architecture's encodings at the end of each part are the specification.
\<close>

subsection \<open>Constants and errors\<close>

definition DESCRIPTOR_SIZE :: nat where "DESCRIPTOR_SIZE = 8"

definition SYSTEM_DESCRIPTOR_SIZE :: nat where "SYSTEM_DESCRIPTOR_SIZE = 16"

definition GATE_SIZE :: nat where "GATE_SIZE = 16"

definition BIT_S :: u64 where "BIT_S = push_bit 44 1"

definition BIT_P :: u64 where "BIT_P = push_bit 47 1"

definition BIT_L :: u64 where "BIT_L = push_bit 53 1"

definition BIT_DB :: u64 where "BIT_DB = push_bit 54 1"

definition BIT_G :: u64 where "BIT_G = push_bit 55 1"

definition BIT_A :: u64 where "BIT_A = push_bit 40 1"

datatype descriptor_error =
    DescriptorMemory memory_error
  | OutOfRange u64 u64
  | InvalidTssType u8
  | InvalidGateType u8

fun show_descriptor_error :: "descriptor_error \<Rightarrow> string" where
  "show_descriptor_error (DescriptorMemory source) = show_memory_error source"
| "show_descriptor_error (OutOfRange index count) =
     ''IDT entry '' @ show_nat (unat index) @ '' is past the table's '' @ show_nat (unat count) @
     '' entries (limit+1)/16''"
| "show_descriptor_error (InvalidTssType t) =
     ''TSS descriptor type '' @ show_nat (unat t) @
     '' is invalid; long mode allows only 9 (available) and 11 (busy)''"
| "show_descriptor_error (InvalidGateType t) =
     ''IDT gate type '' @ show_nat (unat t) @ '' is not an interrupt/trap gate''"

subsection \<open>Segment descriptors\<close>

datatype code_data_kind = Code | Data

record segment_descriptor =
  sd_offset :: u16
  sd_raw :: u64
  sd_base :: u32
  sd_limit :: u32
  sd_accessed :: bool
  sd_readable_writable :: bool
  sd_direction_or_conforming :: bool
  sd_kind :: code_data_kind
  sd_dpl :: u8
  sd_present :: bool
  sd_available :: bool
  sd_long_mode :: bool
  sd_default_size_32 :: bool
  sd_granularity_4k :: bool

text \<open>The six fields both decoders cut out of the first slot.\<close>

definition raw_base :: "u64 \<Rightarrow> u32" where
  "raw_base raw =
     (let base_low = ucast (drop_bit 16 raw AND 0xFFFF) :: u32;
          base_mid = ucast (drop_bit 32 raw AND 0xFF) :: u32;
          base_high = ucast (drop_bit 56 raw AND 0xFF) :: u32
      in push_bit 24 base_high OR push_bit 16 base_mid OR base_low)"

definition raw_limit_field :: "u64 \<Rightarrow> u32" where
  "raw_limit_field raw =
     (let limit_low = ucast (raw AND 0xFFFF) :: u32;
          limit_high = ucast (drop_bit 48 raw AND 0xF) :: u32
      in push_bit 16 limit_high OR limit_low)"

definition raw_access :: "u64 \<Rightarrow> u8" where
  "raw_access raw = ucast (drop_bit 40 raw AND 0xFF)"

definition scaled_limit :: "bool \<Rightarrow> u32 \<Rightarrow> u32" where
  "scaled_limit granularity_4k limit_field =
     (if granularity_4k then push_bit 12 limit_field OR 0xFFF else limit_field)"

definition decode_segment :: "u16 \<Rightarrow> u64 \<Rightarrow> segment_descriptor" where
  "decode_segment offset raw =
     (let access = raw_access raw; granularity_4k = (raw AND BIT_G \<noteq> 0)
      in \<lparr>sd_offset = offset,
          sd_raw = raw,
          sd_base = raw_base raw,
          sd_limit = scaled_limit granularity_4k (raw_limit_field raw),
          sd_accessed = (access AND 0x01 \<noteq> 0),
          sd_readable_writable = (access AND 0x02 \<noteq> 0),
          sd_direction_or_conforming = (access AND 0x04 \<noteq> 0),
          sd_kind = (if access AND 0x08 \<noteq> 0 then Code else Data),
          sd_dpl = drop_bit 5 access AND 3,
          sd_present = (access AND 0x80 \<noteq> 0),
          sd_available = has_bit raw 52,
          sd_long_mode = (raw AND BIT_L \<noteq> 0),
          sd_default_size_32 = (raw AND BIT_DB \<noteq> 0),
          sd_granularity_4k = granularity_4k\<rparr>)"

definition segment_label :: "segment_descriptor \<Rightarrow> string" where
  "segment_label d =
     (case (sd_kind d, sd_long_mode d, sd_default_size_32 d) of
        (Code, True, _) \<Rightarrow> ''CODE64''
      | (Code, False, True) \<Rightarrow> ''CODE32''
      | (Code, False, False) \<Rightarrow> ''CODE16''
      | (Data, _, True) \<Rightarrow> ''DATA32''
      | (Data, _, False) \<Rightarrow> ''DATA16'')"

definition segment_is_null :: "segment_descriptor \<Rightarrow> bool" where
  "segment_is_null d \<longleftrightarrow> sd_raw d = 0"

definition long_mode_bit_is_consistent :: "segment_descriptor \<Rightarrow> bool" where
  "long_mode_bit_is_consistent d \<longleftrightarrow> \<not> (sd_long_mode d \<and> sd_default_size_32 d)"

subsection \<open>System descriptors\<close>

datatype system_type =
    Tss16Available | Ldt | Tss16Busy | CallGate16 | TaskGate | InterruptGate16 | TrapGate16
  | Tss64Available | Tss64Busy | CallGate64 | InterruptGate64 | TrapGate64
  | SystemReserved u8

definition system_type_from_bits :: "u8 \<Rightarrow> system_type" where
  "system_type_from_bits bits =
     (let t = bits AND 0xF
      in if t = 0x1 then Tss16Available
         else if t = 0x2 then Ldt
         else if t = 0x3 then Tss16Busy
         else if t = 0x4 then CallGate16
         else if t = 0x5 then TaskGate
         else if t = 0x6 then InterruptGate16
         else if t = 0x7 then TrapGate16
         else if t = 0x9 then Tss64Available
         else if t = 0xB then Tss64Busy
         else if t = 0xC then CallGate64
         else if t = 0xE then InterruptGate64
         else if t = 0xF then TrapGate64
         else SystemReserved t)"

fun is_16_bytes :: "system_type \<Rightarrow> bool" where
  "is_16_bytes Tss64Available = True"
| "is_16_bytes Tss64Busy = True"
| "is_16_bytes Ldt = True"
| "is_16_bytes CallGate64 = True"
| "is_16_bytes _ = False"

fun system_type_label :: "system_type \<Rightarrow> string" where
  "system_type_label Tss16Available = ''TSS16-avl''"
| "system_type_label Ldt = ''LDT''"
| "system_type_label Tss16Busy = ''TSS16-busy''"
| "system_type_label CallGate16 = ''CALLGATE16''"
| "system_type_label TaskGate = ''TASKGATE''"
| "system_type_label InterruptGate16 = ''INTGATE16''"
| "system_type_label TrapGate16 = ''TRAPGATE16''"
| "system_type_label Tss64Available = ''TSS64-avl''"
| "system_type_label Tss64Busy = ''TSS64-busy''"
| "system_type_label CallGate64 = ''CALLGATE64''"
| "system_type_label InterruptGate64 = ''INTGATE64''"
| "system_type_label TrapGate64 = ''TRAPGATE64''"
| "system_type_label (SystemReserved _) = ''RESERVED''"

record system_descriptor =
  sy_offset :: u16
  sy_kind :: system_type
  sy_base :: u64
  sy_limit :: u32
  sy_dpl :: u8
  sy_present :: bool
  sy_available :: bool
  sy_granularity_4k :: bool
  sy_raw_low :: u64
  sy_raw_high :: "u64 option"

definition decode_system :: "u16 \<Rightarrow> u64 \<Rightarrow> u64 option \<Rightarrow> system_descriptor" where
  "decode_system offset raw_low raw_high =
     (let access = raw_access raw_low;
          granularity_4k = (raw_low AND BIT_G \<noteq> 0);
          base0 = ucast (raw_base raw_low) :: u64;
          base = (case raw_high of
                    None \<Rightarrow> base0
                  | Some high \<Rightarrow>
                      base0 OR push_bit 32 (ucast (ucast (drop_bit 32 high AND 0xFFFFFFFF) :: u32)))
      in \<lparr>sy_offset = offset,
          sy_kind = system_type_from_bits (access AND 0xF),
          sy_base = base,
          sy_limit = scaled_limit granularity_4k (raw_limit_field raw_low),
          sy_dpl = drop_bit 5 access AND 3,
          sy_present = (access AND 0x80 \<noteq> 0),
          sy_available = has_bit raw_low 52,
          sy_granularity_4k = granularity_4k,
          sy_raw_low = raw_low,
          sy_raw_high = raw_high\<rparr>)"

definition is_busy :: "system_descriptor \<Rightarrow> bool" where
  "is_busy d = (case sy_kind d of Tss16Busy \<Rightarrow> True | Tss64Busy \<Rightarrow> True | _ \<Rightarrow> False)"

definition system_slot_count :: "system_descriptor \<Rightarrow> u16" where
  "system_slot_count d = (if is_16_bytes (sy_kind d) then 2 else 1)"

subsection \<open>The GDT\<close>

datatype gdt_entry =
    NullEntry u16
  | SegmentEntry segment_descriptor
  | SystemEntry system_descriptor
  | HighHalf u16 u64 u16

fun entry_offset :: "gdt_entry \<Rightarrow> u16" where
  "entry_offset (NullEntry offset) = offset"
| "entry_offset (HighHalf offset _ _) = offset"
| "entry_offset (SegmentEntry d) = sd_offset d"
| "entry_offset (SystemEntry d) = sy_offset d"

definition entry_selector :: "gdt_entry \<Rightarrow> u16" where
  "entry_selector e = entry_offset e"

record gdt =
  gdt_base :: u64
  gdt_limit :: u32
  gdt_entries :: "gdt_entry list"

definition gdt_slot_count :: "gdt \<Rightarrow> nat" where
  "gdt_slot_count g = (unat (gdt_limit g) + 1) div 8"

definition entry_for_selector :: "gdt \<Rightarrow> u16 \<Rightarrow> gdt_entry option" where
  "entry_for_selector g selector =
     (let offset = selector AND NOT 7
      in find (\<lambda>e. entry_offset e = offset) (gdt_entries g))"

text \<open>The \<open>while index < slot_count\<close> loop of \<open>Gdt::read\<close>.\<close>

function gdt_loop ::
  "guest_memory \<Rightarrow> u64 \<Rightarrow> nat \<Rightarrow> nat \<Rightarrow> gdt_entry list \<Rightarrow> descriptor_error + gdt_entry list" where
  "gdt_loop mem base count index entries =
     (if \<not> index < count then Inr entries
      else
        let offset = index * 8; address = base + word_of_nat offset
        in and_then (map_err DescriptorMemory (gm_read_u64 mem address)) (\<lambda>raw.
             if index = 0 \<and> raw = 0 then
               gdt_loop mem base count (index + 1) (entries @ [NullEntry (word_of_nat offset)])
             else if raw AND BIT_S \<noteq> 0 then
               gdt_loop mem base count (index + 1)
                 (entries @ [SegmentEntry (decode_segment (word_of_nat offset) raw)])
             else
               let descriptor_type = system_type_from_bits (ucast (drop_bit 40 raw AND 0xF))
               in if is_16_bytes descriptor_type \<and> index + 1 < count then
                    and_then (map_err DescriptorMemory (gm_read_u64 mem (address + 8))) (\<lambda>high.
                      gdt_loop mem base count (index + 2)
                        (entries @
                          [SystemEntry (decode_system (word_of_nat offset) raw (Some high)),
                           HighHalf (word_of_nat (offset + 8)) high (word_of_nat offset)]))
                  else
                    gdt_loop mem base count (index + 1)
                      (entries @ [SystemEntry (decode_system (word_of_nat offset) raw None)])))"
  by pat_completeness auto
termination
  by (relation "measure (\<lambda>(mem, base, count, index, entries). count - index)") auto

declare gdt_loop.simps [simp del]

definition gdt_read :: "guest_memory \<Rightarrow> u64 \<Rightarrow> u32 \<Rightarrow> descriptor_error + gdt" where
  "gdt_read mem base limit =
     and_then (gdt_loop mem base ((unat limit + 1) div 8) 0 []) (\<lambda>entries.
       Inr \<lparr>gdt_base = base, gdt_limit = limit, gdt_entries = entries\<rparr>)"

fun is_tss_type :: "system_type \<Rightarrow> bool" where
  "is_tss_type Tss64Available = True"
| "is_tss_type Tss64Busy = True"
| "is_tss_type Tss16Available = True"
| "is_tss_type Tss16Busy = True"
| "is_tss_type _ = False"

fun entry_tss :: "gdt_entry \<Rightarrow> system_descriptor option" where
  "entry_tss (SystemEntry d) = (if is_tss_type (sy_kind d) then Some d else None)"
| "entry_tss _ = None"

definition gdt_tss :: "gdt \<Rightarrow> system_descriptor option" where
  "gdt_tss g = find_map entry_tss (gdt_entries g)"

subsection \<open>The 64-bit TSS\<close>

record tss64 =
  tss_base :: u64
  tss_rsp0 :: u64
  tss_rsp1 :: u64
  tss_rsp2 :: u64
  tss_ist :: "u64 list"
  tss_io_map_base :: u16
  tss_has_io_bitmap :: bool

definition u16_le :: "u8 \<Rightarrow> u8 \<Rightarrow> u16" where
  "u16_le lo hi = ucast lo OR push_bit 8 (ucast hi)"

text \<open>The closure \<open>read_u64\<close> over the 104 bytes.\<close>

definition tss_field :: "u8 list \<Rightarrow> nat \<Rightarrow> u64" where
  "tss_field raw offset = le_word (map (\<lambda>index. raw ! (offset + index)) [0..<8])"

definition tss64_read :: "guest_memory \<Rightarrow> u64 \<Rightarrow> u32 \<Rightarrow> descriptor_error + tss64" where
  "tss64_read mem base limit =
     and_then (map_err DescriptorMemory (gm_read_bytes mem base 0x68)) (\<lambda>raw.
       let io_map_base = u16_le (raw ! 0x66) (raw ! 0x67)
       in Inr \<lparr>tss_base = base,
               tss_rsp0 = tss_field raw 0x04,
               tss_rsp1 = tss_field raw 0x0C,
               tss_rsp2 = tss_field raw 0x14,
               tss_ist = map (\<lambda>index. tss_field raw (0x24 + index * 8)) [0..<7],
               tss_io_map_base = io_map_base,
               tss_has_io_bitmap = (ucast io_map_base \<le> limit)\<rparr>)"

subsection \<open>The IDT\<close>

datatype gate_kind = InterruptKind | TrapKind | TaskKind

record idt_gate =
  ig_vector :: u8
  ig_offset :: u16
  ig_raw :: "u8 list"
  ig_present :: bool
  ig_dpl :: u8
  ig_kind :: gate_kind
  ig_selector :: u16
  ig_ist :: u8
  ig_handler :: u64

definition is_uninstalled :: "idt_gate \<Rightarrow> bool" where
  "is_uninstalled g \<longleftrightarrow> ig_raw g = replicate 16 0"

record idt =
  idt_base :: u64
  idt_limit :: u32
  idt_gates :: "idt_gate list"

definition idt_gate_count :: "idt \<Rightarrow> nat" where
  "idt_gate_count t = (unat (idt_limit t) + 1) div 16"

definition gate_kind_of :: "u8 \<Rightarrow> bool \<Rightarrow> descriptor_error + gate_kind" where
  "gate_kind_of descriptor_type is_placeholder =
     (if descriptor_type = 0xE then Inr InterruptKind
      else if descriptor_type = 0xF then Inr TrapKind
      else if descriptor_type = 0x5 then Inr TaskKind
      else if is_placeholder then Inr InterruptKind
      else Inl (InvalidGateType descriptor_type))"

definition gate_handler :: "u64 \<Rightarrow> u64 \<Rightarrow> u64" where
  "gate_handler raw_low raw_high =
     (let offset_low = raw_low AND 0xFFFF;
          offset_mid = drop_bit 48 raw_low AND 0xFFFF;
          offset_high = raw_high AND 0xFFFFFFFF
      in offset_low OR push_bit 16 offset_mid OR push_bit 32 offset_high)"

text \<open>\<open>u8::try_from(index).unwrap_or(u8::MAX)\<close>.\<close>

definition vector_number :: "nat \<Rightarrow> u8" where
  "vector_number index = (if index < 256 then word_of_nat index else - 1)"

text \<open>One iteration of the loop of \<open>Idt::read\<close>, from the sixteen bytes.\<close>

definition decode_gate :: "nat \<Rightarrow> u8 list \<Rightarrow> descriptor_error + idt_gate" where
  "decode_gate index raw =
     (let raw_low = le_word (take 8 raw);
          raw_high = le_word (drop 8 raw);
          type_attr = raw ! 5
      in and_then (gate_kind_of (type_attr AND 0x0F) (raw = replicate 16 0)) (\<lambda>kind.
           Inr \<lparr>ig_vector = vector_number index,
                ig_offset = word_of_nat (index * GATE_SIZE),
                ig_raw = raw,
                ig_present = (type_attr AND 0x80 \<noteq> 0),
                ig_dpl = drop_bit 5 type_attr AND 3,
                ig_kind = kind,
                ig_selector = u16_le (raw ! 2) (raw ! 3),
                ig_ist = raw ! 4 AND 7,
                ig_handler = gate_handler raw_low raw_high\<rparr>))"

definition read_gate :: "guest_memory \<Rightarrow> u64 \<Rightarrow> nat \<Rightarrow> descriptor_error + idt_gate" where
  "read_gate mem base index =
     and_then (map_err DescriptorMemory
         (gm_read_bytes mem (base + word_of_nat (index * GATE_SIZE)) GATE_SIZE))
       (decode_gate index)"

definition idt_read :: "guest_memory \<Rightarrow> u64 \<Rightarrow> u32 \<Rightarrow> descriptor_error + idt" where
  "idt_read mem base limit =
     (let count = (unat limit + 1) div GATE_SIZE
      in and_then (map_res (read_gate mem base) [0..<count]) (\<lambda>gates.
           Inr \<lparr>idt_base = base, idt_limit = limit, idt_gates = gates\<rparr>))"

definition idt_gate_for :: "idt \<Rightarrow> u8 \<Rightarrow> idt_gate option" where
  "idt_gate_for t vector = find (\<lambda>g. ig_vector g = vector) (idt_gates t)"

definition user_accessible_vectors :: "idt \<Rightarrow> u8 list" where
  "user_accessible_vectors t =
     map ig_vector (filter (\<lambda>g. ig_present g \<and> ig_dpl g = 3) (idt_gates t))"

definition installed_vectors :: "idt \<Rightarrow> u8 list" where
  "installed_vectors t =
     map ig_vector (filter (\<lambda>g. ig_present g \<and> \<not> is_uninstalled g) (idt_gates t))"

subsection \<open>All tables at once, and selectors in words\<close>

definition read_tables ::
  "guest_memory \<Rightarrow> u64 \<Rightarrow> u32 \<Rightarrow> u64 \<Rightarrow> u32 \<Rightarrow> descriptor_error + (gdt \<times> idt \<times> tss64 option)" where
  "read_tables mem gdt_base0 gdt_limit0 idt_base0 idt_limit0 =
     and_then (gdt_read mem gdt_base0 gdt_limit0) (\<lambda>g.
     and_then (idt_read mem idt_base0 idt_limit0) (\<lambda>t.
       Inr (g, t,
         case gdt_tss g of
           None \<Rightarrow> None
         | Some d \<Rightarrow> ok (tss64_read mem (sy_base d) (sy_limit d)))))"

definition describe_selector :: "gdt \<Rightarrow> u16 \<Rightarrow> string option" where
  "describe_selector g selector =
     (let hex = show_hex_alt_pad 6 (unat selector);
          rest = (\<lambda>label dpl base limit present.
            '': '' @ label @ '' DPL='' @ show_nat dpl @ '' base='' @ show_hex_alt base @
            '' limit='' @ show_hex_alt limit @ (if present then '''' else '' NOT PRESENT''))
      in map_option (\<lambda>e. case e of
           NullEntry _ \<Rightarrow> hex @ '': null descriptor''
         | HighHalf _ _ low_half \<Rightarrow>
             hex @ '': high half of the 16-byte descriptor at '' @
             show_hex_alt_pad 6 (unat low_half) @ '' (not independently addressable)''
         | SegmentEntry d \<Rightarrow>
             hex @ rest (segment_label d) (unat (sd_dpl d)) (unat (sd_base d)) (unat (sd_limit d))
               (sd_present d)
         | SystemEntry d \<Rightarrow>
             hex @ rest (system_type_label (sy_kind d)) (unat (sy_dpl d)) (unat (sy_base d))
               (unat (sy_limit d)) (sy_present d))
         (entry_for_selector g selector))"

subsection \<open>The fields of a slot, bit by bit\<close>

lemma bit_raw_base [wbits]:
  "bit (raw_base raw) i \<longleftrightarrow> (if i < 24 then bit raw (16 + i) else i < 32 \<and> bit raw (32 + i))"
  unfolding raw_base_def Let_def mask_numerals
  by (cases "i < 16"; cases "i < 24"; cases "i < 32") (auto simp: bit_simps)

lemma bit_raw_limit_field [wbits]:
  "bit (raw_limit_field raw) i \<longleftrightarrow> (if i < 16 then bit raw i else i < 20 \<and> bit raw (32 + i))"
  unfolding raw_limit_field_def Let_def mask_numerals
  by (cases "i < 16"; cases "i < 20") (auto simp: bit_simps)

lemma bit_raw_access [wbits]:
  "bit (raw_access raw) i \<longleftrightarrow> i < 8 \<and> bit raw (40 + i)"
  unfolding raw_access_def Let_def mask_numerals
  by (auto simp: bit_simps)

lemma and_bit_neq_0:
  "w AND 1 \<noteq> 0 \<longleftrightarrow> bit w 0" "w AND 2 \<noteq> 0 \<longleftrightarrow> bit w 1"  "w AND 4 \<noteq> 0 \<longleftrightarrow> bit w 2" 
  "w AND 8 \<noteq> 0 \<longleftrightarrow> bit w 3"  "w AND 128 \<noteq> 0 \<longleftrightarrow> bit w 7" for w :: u8
  using has_bit_iff [of w 0] has_bit_iff [of w 1] has_bit_iff [of w 2] has_bit_iff [of w 3]
    has_bit_iff [of w 7]
  by (simp_all add: has_bit_def del: has_bit_iff)

lemma flag_tests [simp]:
  "raw AND BIT_S = 0 \<longleftrightarrow> \<not> bit raw 44" "raw AND BIT_G = 0 \<longleftrightarrow> \<not> bit raw 55"
  "raw AND BIT_L = 0 \<longleftrightarrow> \<not> bit raw 53" "raw AND BIT_DB = 0 \<longleftrightarrow> \<not> bit raw 54"
  unfolding BIT_S_def BIT_G_def BIT_L_def BIT_DB_def using and_flag_neq_0 by blast+

text \<open>The architecture's layout of a segment descriptor, as an encoder.\<close>

definition encode_segment :: "u32 \<Rightarrow> u32 \<Rightarrow> u8 \<Rightarrow> u8 \<Rightarrow> u64" where
  "encode_segment base limit access flags =
     ucast (take_bit 16 limit) OR push_bit 16 (ucast (take_bit 24 base)) OR push_bit 40 (ucast access) OR
     push_bit 48 (take_bit 4 (ucast (drop_bit 16 limit))) OR push_bit 52 (take_bit 4 (ucast flags)) OR
     push_bit 56 (ucast (drop_bit 24 base))"

lemma bit_encode_segment [wbits]:
  "bit (encode_segment base limit access flags) i \<longleftrightarrow>
     (if i < 16 then bit limit i
      else if i < 40 then bit base (i - 16)
      else if i < 48 then bit access (i - 40)
      else if i < 52 then bit limit (i - 32)
      else if i < 56 then bit flags (i - 52)
      else i < 64 \<and> bit base (i - 32))"
  unfolding encode_segment_def
  by (cases "i < 16"; cases "i < 40"; cases "i < 48"; cases "i < 52"; cases "i < 56")
     (auto simp: bit_simps dest: bit_imp_le_length)

lemma raw_base_encode [simp]: "raw_base (encode_segment base limit access flags) = base"
  by (rule bit_word_eqI) (auto simp: wbits)

lemma raw_limit_encode [simp]:
  "raw_limit_field (encode_segment base limit access flags) = take_bit 20 limit"
  by (rule bit_word_eqI) (auto simp: wbits bit_simps)

lemma raw_access_encode [simp]: "raw_access (encode_segment base limit access flags) = access"
  by (rule bit_word_eqI) (auto simp: wbits bit_simps dest: bit_imp_le_length)

lemma unat_scaled_limit:
  assumes "unat l < 2 ^ 20"
  shows "unat (scaled_limit g l) = (if g then (unat l + 1) * 4096 - 1 else unat l)"
proof -
  have "push_bit 12 l AND 0xFFF = 0"
    unfolding mask_numerals by (rule bit_word_eqI) (auto simp: bit_simps)
  then have "push_bit 12 l OR 0xFFF = push_bit 12 l + 0xFFF"
    by (simp add: disjunctive_add_eq_or)
  moreover have "unat (push_bit 12 l) = unat l * 4096"
    using unat_push [of l 12] assms by simp
  ultimately show ?thesis
    using assms by (simp add: scaled_limit_def unat_word_ariths)
qed

subsection \<open>The slots of a table read\<close>

text \<open>
  What the slot at index \<open>i\<close> of a decoded GDT must be, given the memory: each kind of entry is the
  decoding of the word at \<open>base + 8 i\<close>, a 16-byte descriptor keeps its second slot exactly when the
  table has room for it, and a high half follows the descriptor it completes, never anything else.
\<close>

definition slot_ok :: "guest_memory \<Rightarrow> u64 \<Rightarrow> nat \<Rightarrow> gdt_entry list \<Rightarrow> nat \<Rightarrow> bool" where
  "slot_ok mem base count entries i \<longleftrightarrow>
     (let offset = word_of_nat (i * 8);
          slot_word = gm_read_u64 mem (base + word_of_nat (i * 8));
          is_high = (0 < i \<and> (\<exists>d. entries ! (i - 1) = SystemEntry d \<and> sy_raw_high d \<noteq> None))
      in case entries ! i of
           NullEntry off \<Rightarrow> i = 0 \<and> off = offset \<and> slot_word = Inr 0
         | SegmentEntry d \<Rightarrow>
             \<not> is_high \<and> slot_word = Inr (sd_raw d) \<and> bit (sd_raw d) 44 \<and>
             d = decode_segment offset (sd_raw d)
         | SystemEntry d \<Rightarrow>
             \<not> is_high \<and> slot_word = Inr (sy_raw_low d) \<and> \<not> bit (sy_raw_low d) 44 \<and>
             d = decode_system offset (sy_raw_low d) (sy_raw_high d) \<and>
             (sy_raw_high d \<noteq> None \<longleftrightarrow> is_16_bytes (sy_kind d) \<and> i + 1 < count)
         | HighHalf off raw low \<Rightarrow>
             is_high \<and> slot_word = Inr raw \<and> off = offset \<and> low = word_of_nat ((i - 1) * 8) \<and>
             (\<exists>d. entries ! (i - 1) = SystemEntry d \<and> sy_raw_high d = Some raw))"

lemma slot_ok_append [simp]:
  "i < length es \<Longrightarrow> slot_ok mem base count (es @ fs) i = slot_ok mem base count es i"
proof -
  assume "i < length es"
  then have "(es @ fs) ! i = es ! i" "(es @ fs) ! (i - 1) = es ! (i - 1)"
    by (simp_all add: nth_append less_imp_diff_less)
  then show ?thesis
    by (simp only: slot_ok_def)
qed

lemma sy_raw_decode [simp]:
  "sy_raw_low (decode_system off lo hi) = lo" "sy_raw_high (decode_system off lo hi) = hi"
  "sy_offset (decode_system off lo hi) = off" "sd_offset (decode_segment off lo) = off" "sd_raw (decode_segment off lo) = lo"
  by (simp_all add: decode_system_def decode_segment_def Let_def)

lemma sy_kind_decode:
  "sy_kind (decode_system off lo hi) = system_type_from_bits (ucast (drop_bit 40 lo AND 0xF))"
proof -
  have "raw_access lo AND 0xF = ucast (drop_bit 40 lo AND 0xF)"
    unfolding raw_access_def mask_numerals
    by (rule bit_word_eqI) (auto simp: bit_simps)
  then show ?thesis by (simp add: decode_system_def Let_def)
qed

text \<open>No entry yet waits for its high half: the loop pushes both halves together.\<close>

definition complete :: "gdt_entry list \<Rightarrow> bool" where
  "complete es \<longleftrightarrow> es = [] \<or> (\<forall>d. last es = SystemEntry d \<longrightarrow> sy_raw_high d = None)"

lemma complete_prev: "complete es \<Longrightarrow> \<not> (0 < length es \<and> (\<exists>d. (es @ fs) ! (length es - 1) = SystemEntry d \<and> sy_raw_high d \<noteq> None))"
  by (auto simp: complete_def last_conv_nth nth_append)

lemma gdt_loop_slots:
  assumes "gdt_loop mem base count index entries = Inr es" and "length entries = index" and "index \<le> count"
    and "\<forall>i < index. slot_ok mem base count entries i" and "complete entries"
  shows "length es = count \<and> (\<forall>i < count. slot_ok mem base count es i)"
  using assms
proof (induction "count - index" arbitrary: index entries rule: less_induct)
  case less
  show ?case
  proof (cases "index < count")
    case False
    then show ?thesis using less.prems by (simp add: gdt_loop.simps)
  next
    case True
    obtain raw where raw: "gm_read_u64 mem (base + word_of_nat (index * 8)) = Inr raw"
      using less.prems(1) True by (subst (asm) gdt_loop.simps) (auto simp: Let_def res_simps)
    note prev = complete_prev [OF less.prems(5), unfolded less.prems(2)]
    have nth: "(entries @ [x]) ! index = x" "(entries @ [x, y]) ! index = x" "(entries @ [x, y]) ! Suc index = y" for x y
      using less.prems(2) by (simp_all add: nth_append)
    have one: ?thesis if loop: "gdt_loop mem base count (index + 1) (entries @ [e]) = Inr es"
      and e: "slot_ok mem base count (entries @ [e]) index" "complete (entries @ [e])" for e
    proof -
      have "\<forall>i < index + 1. slot_ok mem base count (entries @ [e]) i"
        using less.prems(2,4) e(1) by (auto simp: less_Suc_eq)
      then show ?thesis
        using less.hyps [of "index + 1" "entries @ [e]"] loop e(2) True less.prems(2) by simp
    qed
    let ?off = "word_of_nat (index * 8) :: u16"
    let ?long = "is_16_bytes (system_type_from_bits (ucast (drop_bit 40 raw AND 0xF)))"
    consider (null) "index = 0" "raw = 0" | (seg) "\<not> (index = 0 \<and> raw = 0)" "bit raw 44" 
      | (short) "\<not> (index = 0 \<and> raw = 0)" "\<not> bit raw 44" "\<not> (?long \<and> index + 1 < count)"
      | (long) "\<not> (index = 0 \<and> raw = 0)" "\<not> bit raw 44" "?long \<and> index + 1 < count"
      by blast
    then show ?thesis
    proof cases
      case null
      have "gdt_loop mem base count (index + 1) (entries @ [NullEntry ?off]) = Inr es"
        using less.prems(1) True raw null by (subst (asm) gdt_loop.simps) simp
      then show ?thesis
        by (rule one) (use raw null less.prems(2) in \<open>simp_all add: slot_ok_def nth complete_def\<close>)
    next
      case seg
      have "gdt_loop mem base count (index + 1) (entries @ [SegmentEntry (decode_segment ?off raw)]) = Inr es"
        using less.prems(1) True raw seg by (subst (asm) gdt_loop.simps) (simp add: Let_def if_not_P [OF seg(1)])
      then show ?thesis
        by (rule one) (use raw seg prev in \<open>simp_all add: slot_ok_def nth complete_def\<close>)
    next
      case short
      have "gdt_loop mem base count (index + 1) (entries @ [SystemEntry (decode_system ?off raw None)]) = Inr es"
        using less.prems(1) True raw short by (subst (asm) gdt_loop.simps) (auto simp: Let_def if_not_P [OF short(1)] split: if_splits)
      then show ?thesis
        by (rule one) (use raw short prev in \<open>simp_all add: slot_ok_def nth complete_def sy_kind_decode\<close>)
    next
      case long
      obtain high where high: "gm_read_u64 mem (base + word_of_nat (index * 8) + 8) = Inr high" and
        loop: "gdt_loop mem base count (index + 2) (entries @ [SystemEntry (decode_system ?off raw (Some high)), HighHalf (word_of_nat (index * 8 + 8)) high ?off]) = Inr es"
        using less.prems(1) True raw long by (subst (asm) gdt_loop.simps) (auto simp: Let_def res_simps if_not_P [OF long(1)])
      let ?es = "entries @ [SystemEntry (decode_system ?off raw (Some high)), HighHalf (word_of_nat (index * 8 + 8)) high ?off]"
      have "base + word_of_nat (Suc index * 8) = base + word_of_nat (index * 8) + 8"
        by (simp add: algebra_simps)
      then have ok: "slot_ok mem base count ?es index" "slot_ok mem base count ?es (Suc index)" "complete ?es"
        using raw high long prev by (simp_all add: slot_ok_def nth complete_def sy_kind_decode algebra_simps)
      have "\<forall>i < index + 2. slot_ok mem base count ?es i"
        using less.prems(2,4) ok(1,2) by (auto simp: less_Suc_eq)
      then show ?thesis
        using less.hyps [of "index + 2" ?es] loop ok(3) long less.prems(2) True by (simp add: diff_less_mono2)
    qed
  qed
qed
lemma gdt_read_slots:
  assumes "gdt_read mem base limit = Inr g"
  shows "length (gdt_entries g) = gdt_slot_count g" and "gdt_limit g = limit"
    and "i < gdt_slot_count g \<Longrightarrow> slot_ok mem base (gdt_slot_count g) (gdt_entries g) i"
  using assms gdt_loop_slots [of mem base "(unat limit + 1) div 8" 0 "[]"]
  by (auto simp: gdt_read_def res_simps gdt_slot_count_def complete_def)

lemma slot_ok_offset: "slot_ok mem base count es i \<Longrightarrow> entry_offset (es ! i) = word_of_nat (i * 8)"
proof (cases "es ! i")
  case (SystemEntry d)
  assume "slot_ok mem base count es i"
  then have "d = decode_system (word_of_nat (i * 8)) (sy_raw_low d) (sy_raw_high d)"
    by (simp only: slot_ok_def Let_def SystemEntry gdt_entry.case)
  then have "sy_offset d = word_of_nat (i * 8)"
    by (metis sy_raw_decode(3))
  then show ?thesis by (simp add: SystemEntry)
next
  case (SegmentEntry d)
  assume "slot_ok mem base count es i"
  then have "d = decode_segment (word_of_nat (i * 8)) (sd_raw d)"
    by (simp only: slot_ok_def Let_def SegmentEntry gdt_entry.case)
  then have "sd_offset d = word_of_nat (i * 8)"
    by (metis sy_raw_decode(4))
  then show ?thesis by (simp add: SegmentEntry)
qed (simp_all add: slot_ok_def Let_def)

lemma unat_align_8: "unat (s AND - 8) = unat s div 8 * 8" for s :: u16
proof -
  have "s AND - 8 = s AND NOT 7"
    by simp
  also have "\<dots> = push_bit 3 (drop_bit 3 s)"
    unfolding mask_numerals by (rule bit_word_eqI) (auto simp: bit_simps)
  finally have "s AND - 8 = push_bit 3 (drop_bit 3 s)" .
  moreover have "unat s div 8 * 8 < 2 ^ 16"
    using le_less_trans [OF div_times_less_eq_dividend unat_less_exp [of s]] by simp
  ultimately show ?thesis
    using unat_push [of "drop_bit 3 s" 3] by (simp add: unat_drop)
qed

text \<open>
  A selector names the slot at selector/8, whatever its RPL and table-indicator bits are, and names
  nothing when that slot is past the limit: the linear search by offset is direct indexing for every
  table an architectural 16-bit limit allows.
\<close>

lemma selector_names_slot:
  assumes "gdt_read mem base limit = Inr g" and "limit \<le> 0xFFFF"
  shows "entry_for_selector g selector =
    (if unat selector div 8 < gdt_slot_count g then Some (gdt_entries g ! (unat selector div 8)) else None)"
proof -
  note slots = gdt_read_slots [OF assms(1)]
  let ?k = "unat selector div 8" and ?P = "\<lambda>e. entry_offset e = selector AND NOT 7"
  have "unat limit \<le> 65535"
    using assms(2) by (simp add: word_le_nat_alt)
  then have count: "gdt_slot_count g \<le> 8192"
    by (simp add: gdt_slot_count_def slots(2))
  have at: "?P (gdt_entries g ! i) \<longleftrightarrow> i = ?k" if "i < gdt_slot_count g" for i
  proof -
    have "unat (word_of_nat (i * 8) :: u16) = i * 8"
      using that count by (subst unat_of_nat) simp
    then show ?thesis
      using slot_ok_offset [OF slots(3) [OF that]] by (auto simp: word_unat_eq_iff unat_align_8)
  qed
  show ?thesis
  proof (cases "?k < gdt_slot_count g")
    case True
    then show ?thesis
      using find_nth_unique [of ?k "gdt_entries g" ?P] at by (simp add: entry_for_selector_def slots(1))
  next
    case False
    then have "find ?P (gdt_entries g) = None"
      using at slots(1) by (auto simp: find_None_iff in_set_conv_nth)
    with False show ?thesis by (simp add: entry_for_selector_def)
  qed
qed

text \<open>
  Decoding inverts the architecture's encoding of a segment descriptor: for every base, 20-bit
  limit, access byte and flag nibble, each decoded field is the encoded one, and the limit reported
  is the byte limit the processor uses, scaled by 4 KiB (and filled with ones) when G is set.
\<close>

lemma decode_segment_encode:
  assumes "limit < 0x100000"
  shows "decode_segment off (encode_segment base limit access flags) =
    \<lparr>sd_offset = off, sd_raw = encode_segment base limit access flags, sd_base = base,
     sd_limit = scaled_limit (bit flags 3) limit,
     sd_accessed = bit access 0, sd_readable_writable = bit access 1,
     sd_direction_or_conforming = bit access 2,
     sd_kind = (if bit access 3 then Code else Data), sd_dpl = drop_bit 5 access AND 3,
     sd_present = bit access 7, sd_available = bit flags 0, sd_long_mode = bit flags 1,
     sd_default_size_32 = bit flags 2, sd_granularity_4k = bit flags 3\<rparr> \<and>
    unat (scaled_limit (bit flags 3) limit) =
      (if bit flags 3 then (unat limit + 1) * 4096 - 1 else unat limit)"
proof -
  have small: "unat limit < 2 ^ 20"
    using assms by (simp add: word_less_nat_alt)
  then have "take_bit 20 limit = limit"
    by (simp add: word_unat_eq_iff unat_take)
  then show ?thesis
    by (simp add: decode_segment_def Let_def wbits and_bit_neq_0 unat_scaled_limit [OF small])
qed

lemma unat_system_base:
  "unat (sy_base (decode_system off lo None)) = unat (raw_base lo)"
  "unat (sy_base (decode_system off lo (Some hi))) = unat (raw_base lo) + 2 ^ 32 * (unat hi div 2 ^ 32)"
proof -
  show "unat (sy_base (decode_system off lo None)) = unat (raw_base lo)"
    by (simp add: decode_system_def Let_def unat_ucast_small order.strict_trans [OF unat_less_exp])
  have "drop_bit 32 hi AND 0xFFFFFFFF = drop_bit 32 hi"
    unfolding mask_numerals by (rule bit_word_eqI) (auto simp: bit_simps dest: bit_imp_le_length)
  then have hi: "push_bit 32 (ucast (ucast (drop_bit 32 hi AND 0xFFFFFFFF) :: u32)) = push_bit 32 (drop_bit 32 hi)"
    by (auto intro!: bit_word_eqI simp: bit_simps)
  have "unat (drop_bit 32 hi) * 2 ^ 32 < 2 ^ 64"
    using le_less_trans [OF div_times_less_eq_dividend unat_u64_less [of hi]] by (simp add: unat_drop)
  then have "unat (push_bit 32 (drop_bit 32 hi)) = unat hi div 2 ^ 32 * 2 ^ 32"
    using unat_push [of "drop_bit 32 hi" 32] by (simp add: unat_drop)
  moreover have "unat (ucast (raw_base lo) :: u64) = unat (raw_base lo)"
    by (simp add: unat_ucast_small order.strict_trans [OF unat_less_exp])
  moreover have "unat (raw_base lo) < 2 ^ 32"
    using unat_less_exp [of "raw_base lo"] by simp
  ultimately show "unat (sy_base (decode_system off lo (Some hi))) = unat (raw_base lo) + 2 ^ 32 * (unat hi div 2 ^ 32)"
    using or_base_offset(1) [of 32 "push_bit 32 (drop_bit 32 hi)" "ucast (raw_base lo)"]
    by (simp add: decode_system_def Let_def hi or.commute [of "ucast (raw_base lo)"])
qed

text \<open>The architecture's 16-byte descriptor: base 31:0 as in a segment descriptor, base 63:32 in
  the low half of the second slot.\<close>

definition encode_system_low :: "u64 \<Rightarrow> u32 \<Rightarrow> u8 \<Rightarrow> u8 \<Rightarrow> u64" where
  "encode_system_low base limit access flags = encode_segment (ucast base) limit access flags"

definition encode_system_high :: "u64 \<Rightarrow> u64" where
  "encode_system_high base = drop_bit 32 base"

text \<open>
  The base of a 16-byte descriptor loses its upper half: the decoder takes base 63:32 from bits
  63:32 of the second slot, where the architecture keeps reserved zeros, instead of bits 31:0. For
  every architecturally encoded descriptor the base decoded is the true base modulo 2^32, so a TSS
  in the higher half of the address space is reported at the wrong address.
\<close>

lemma system_base_high_half:
  "unat (sy_base (decode_system off (encode_system_low base limit access flags)
      (Some (encode_system_high base)))) = unat base mod 2 ^ 32"
proof -
  have "unat base div 2 ^ 32 < 2 ^ 32"
    using unat_u64_less [of base] by (simp add: less_mult_imp_div_less)
  then show ?thesis
    by (simp add: unat_system_base encode_system_low_def encode_system_high_def unat_drop
        unsigned_ucast_eq take_bit_eq_mod)
qed

subsection \<open>Gates\<close>

definition encode_gate :: "u64 \<Rightarrow> u16 \<Rightarrow> u8 \<Rightarrow> u8 \<Rightarrow> u8 list" where
  "encode_gate handler selector ist type_attr =
     le_bytes (take_bit 16 handler OR push_bit 16 (ucast selector) OR push_bit 32 (ucast (take_bit 3 ist)) OR
       push_bit 40 (ucast type_attr) OR push_bit 48 (take_bit 16 (drop_bit 16 handler))) @
     le_bytes (drop_bit 32 handler)"

lemma nth_le_bytes: "i < 8 \<Longrightarrow> le_bytes v ! i = ucast (drop_bit (i * 8) v)"
  by (simp add: le_bytes_def)

lemma bit_u16_le [wbits]: "bit (u16_le lo hi) i \<longleftrightarrow> (if i < 8 then bit lo i else i < 16 \<and> bit hi (i - 8))"
  by (auto simp: u16_le_def bit_simps dest: bit_imp_le_length)

lemma encode_gate_fields:
  "le_word (take 8 (encode_gate h s t a)) = take_bit 16 h OR push_bit 16 (ucast s) OR
     push_bit 32 (ucast (take_bit 3 t)) OR push_bit 40 (ucast a) OR push_bit 48 (take_bit 16 (drop_bit 16 h))"
  "le_word (drop 8 (encode_gate h s t a)) = drop_bit 32 h"
  by (simp_all add: encode_gate_def)

lemma encode_gate_type: "encode_gate h s t a ! 5 = a"
  by (rule bit_word_eqI) (auto simp: encode_gate_def nth_append nth_le_bytes bit_simps dest: bit_imp_le_length)

lemma encode_gate_ist: "encode_gate h s t a ! 4 AND 7 = take_bit 3 t"
  unfolding mask_numerals
  by (rule bit_word_eqI) (auto simp: encode_gate_def nth_append nth_le_bytes bit_simps dest: bit_imp_le_length)

lemma encode_gate_selector: "u16_le (encode_gate h s t a ! 2) (encode_gate h s t a ! 3) = s"
  by (rule bit_word_eqI) (auto simp: encode_gate_def nth_append nth_le_bytes bit_simps wbits)

lemma gate_handler_encode:
  "gate_handler (le_word (take 8 (encode_gate h s t a))) (le_word (drop 8 (encode_gate h s t a))) = h"
  unfolding gate_handler_def Let_def encode_gate_fields mask_numerals
proof (rule bit_word_eqI, goal_cases)
  case (1 i)
  then show ?case
    by (cases "i < 16"; cases "i < 32") (auto simp: bit_simps dest: bit_imp_le_length)
qed


text \<open>
  Decoding inverts the architecture's encoding of an interrupt or trap gate: the 64-bit handler
  split over three fields, the selector, the IST index, the type, DPL and present bit come back.
\<close>

lemma decode_gate_encode:
  assumes "a AND 0xF = 0xE \<or> a AND 0xF = 0xF" and "i < 256"
  shows "decode_gate i (encode_gate handler selector ist a) =
    Inr \<lparr>ig_vector = word_of_nat i, ig_offset = word_of_nat (i * 16),
         ig_raw = encode_gate handler selector ist a,
         ig_present = bit a 7, ig_dpl = drop_bit 5 a AND 3,
         ig_kind = (if a AND 0xF = 0xE then InterruptKind else TrapKind),
         ig_selector = selector, ig_ist = take_bit 3 ist, ig_handler = handler\<rparr>"
  using assms
  by (auto simp: decode_gate_def Let_def gate_kind_of_def encode_gate_type encode_gate_ist encode_gate_selector
      gate_handler_encode vector_number_def GATE_SIZE_def and_bit_neq_0)

lemma idt_read_gates:
  assumes "idt_read mem base limit = Inr t"
  shows "length (idt_gates t) = idt_gate_count t" and "idt_limit t = limit"
    and "i < idt_gate_count t \<Longrightarrow> read_gate mem base i = Inr (idt_gates t ! i)"
  using assms by (auto simp: idt_read_def res_simps Let_def map_res_Inr_iff idt_gate_count_def GATE_SIZE_def)

lemma read_gate_vector: "read_gate mem base i = Inr g \<Longrightarrow> ig_vector g = vector_number i"
  by (auto simp: read_gate_def decode_gate_def res_simps Let_def)

text \<open>
  Looking up a vector in a decoded IDT gives the gate decoded from the sixteen bytes at
  base + 16 * vector, and nothing when the limit does not reach it, for every 32-bit limit: vectors
  beyond 255 are all numbered 255 but never shadow the gate of vector 255.
\<close>

lemma idt_gate_for_vector:
  assumes "idt_read mem base limit = Inr t"
  shows "idt_gate_for t vector =
      (if unat vector < idt_gate_count t then Some (idt_gates t ! unat vector) else None) \<and>
    (unat vector < idt_gate_count t \<longrightarrow>
      (\<exists>raw. gm_read_bytes mem (base + ucast vector * 16) 16 = Inr raw \<and>
        decode_gate (unat vector) raw = Inr (idt_gates t ! unat vector)))"
proof -
  note gates = idt_read_gates [OF assms]
  have v: "unat vector < 256"
    using unat_less_exp [of vector] by simp
  have at: "ig_vector (idt_gates t ! i) = vector_number i" if "i < idt_gate_count t" for i
    by (rule read_gate_vector [OF gates(3) [OF that]])
  have other: "vector_number j \<noteq> vector" if "j < unat vector" for j
    using that v by (auto simp: vector_number_def unat_of_nat word_unat_eq_iff)
  have here: "vector_number (unat vector) = vector"
    using v by (simp add: vector_number_def)
  have none: "vector_number j \<noteq> vector" if "j < idt_gate_count t" "idt_gate_count t \<le> unat vector" for j
    using other [of j] that by simp
  have lookup: "idt_gate_for t vector = (if unat vector < idt_gate_count t then Some (idt_gates t ! unat vector) else None)"
  proof (cases "unat vector < idt_gate_count t")
    case True
    then show ?thesis
      using find_nth_unique [of "unat vector" "idt_gates t" "\<lambda>g. ig_vector g = vector"] at other here gates(1)
      by (simp add: idt_gate_for_def)
  next
    case False
    then have "\<forall>i < idt_gate_count t. ig_vector (idt_gates t ! i) \<noteq> vector"
      using at none by simp
    then have "find (\<lambda>g. ig_vector g = vector) (idt_gates t) = None"
      using gates(1) by (auto simp: find_None_iff in_set_conv_nth)
    with False show ?thesis by (simp add: idt_gate_for_def)
  qed
  have "base + word_of_nat (unat vector * 16) = base + ucast vector * 16"
    by simp
  then show ?thesis
    using lookup gates(3) [of "unat vector"] by (auto simp: read_gate_def GATE_SIZE_def res_simps)
qed

subsection \<open>Reading the TSS\<close>

lemma tss_field_read:
  assumes "read_bytes r base 0x68 = Inr raw" and "gr_size r \<noteq> - 1" and "k + 8 \<le> 0x68"
  shows "read_u64 r (base + word_of_nat k) = Inr (tss_field raw k)"
proof -
  have fits: "unat base + 0x68 \<le> unat (gr_size r)"
    and raw: "raw = map (\<lambda>i. byte_at r (base + word_of_nat i)) [0..<0x68]"
    using read_bytes_InrD [OF assms(1) _ assms(2)] by simp_all
  have "unat (base + word_of_nat k) = unat base + k"
    using fits assms(3) unat_u64_less [of "gr_size r"] by (simp add: unat_add_of_nat)
  then have "read_bytes r (base + word_of_nat k) 8 = Inr (map (\<lambda>i. byte_at r (base + word_of_nat k + word_of_nat i)) [0..<8])"
    using fits assms(3) by (intro read_bytes_ok) simp
  moreover have "map (\<lambda>i. byte_at r (base + word_of_nat k + word_of_nat i)) [0..<8] = map (\<lambda>i. raw ! (k + i)) [0..<8]"
    using assms(3) by (auto simp: raw add.assoc simp del: upt_rec_numeral)
  ultimately show ?thesis
    by (simp add: read_u64_def tss_field_def del: upt_rec_numeral)
qed

text \<open>
  The TSS decoder reads what eight-byte and two-byte reads of guest RAM at the architectural
  offsets would: RSP0 to RSP2 at 4, 12 and 20, the seven IST pointers from 36 on, and the I/O map base
  at 102; and it reports a bitmap exactly when that base is within the limit.
\<close>

lemma tss64_read_fields:
  assumes "tss64_read (ram_memory r) base limit = Inr t" and "gr_size r \<noteq> - 1"
  shows "read_u64 r (base + 0x04) = Inr (tss_rsp0 t) \<and> read_u64 r (base + 0x0C) = Inr (tss_rsp1 t) \<and>
    read_u64 r (base + 0x14) = Inr (tss_rsp2 t) \<and> length (tss_ist t) = 7 \<and>
    (\<forall>i < 7. read_u64 r (base + (0x24 + word_of_nat i * 8)) = Inr (tss_ist t ! i)) \<and>
    read_bytes r (base + 0x66) 2 = Inr [ucast (tss_io_map_base t), ucast (drop_bit 8 (tss_io_map_base t))] \<and>
    (tss_has_io_bitmap t \<longleftrightarrow> unat (tss_io_map_base t) \<le> unat limit)"
proof -
  obtain raw where raw: "read_bytes r base 0x68 = Inr raw"
    using assms(1) by (auto simp: tss64_read_def res_simps)
  have t: "tss_rsp0 t = tss_field raw 4" "tss_rsp1 t = tss_field raw 0x0C" "tss_rsp2 t = tss_field raw 0x14"
    "tss_ist t = map (\<lambda>index. tss_field raw (0x24 + index * 8)) [0..<7]"
    "tss_io_map_base t = u16_le (raw ! 0x66) (raw ! 0x67)"
    "tss_has_io_bitmap t \<longleftrightarrow> ucast (tss_io_map_base t) \<le> limit"
    using assms(1) raw by (auto simp: tss64_read_def Let_def simp del: upt_rec_numeral)
  note f = tss_field_read [OF raw assms(2)]
  have fits: "unat base + 0x68 \<le> unat (gr_size r)"
    and bytes: "raw = map (\<lambda>i. byte_at r (base + word_of_nat i)) [0..<0x68]"
    using read_bytes_InrD [OF raw _ assms(2)] by simp_all
  have "unat (base + 0x66) = unat base + 0x66"
    using fits unat_u64_less [of "gr_size r"] unat_add_of_nat [of base "0x66"] by simp
  then have "read_bytes r (base + 0x66) 2 = Inr [raw ! 0x66, raw ! 0x67]"
    using fits read_bytes_ok [of "base + 0x66" 2 r]
    by (simp add: bytes upt_rec [of _ 2] add.commute del: upt_rec_numeral)
  moreover have "raw ! 0x66 = ucast (tss_io_map_base t)" "raw ! 0x67 = ucast (drop_bit 8 (tss_io_map_base t))"
    unfolding t(5) by (rule bit_word_eqI; simp add: bit_simps wbits)+
  moreover have "tss_has_io_bitmap t \<longleftrightarrow> unat (tss_io_map_base t) \<le> unat limit"
    unfolding t(6) by (simp add: word_le_nat_alt unat_ucast_small order.strict_trans [OF unat_less_exp])
  moreover have "read_u64 r (base + (0x24 + word_of_nat i * 8)) = Inr (tss_ist t ! i)" if "i < 7" for i
    using f [of "0x24 + i * 8"] that by (simp add: t(4) del: upt_rec_numeral)
  moreover have "length (tss_ist t) = 7"
    by (simp add: t(4))
  ultimately show ?thesis
    using f [of 4] f [of "0x0C"] f [of "0x14"] t(1-3) by simp
qed

lemma tss64_read_fields_witness:
  "\<exists>t. tss64_read (ram_memory (fst (write_u64 (guest_ram_new 0x1000) 0x104 0xFFFF800000001000))) 0x100 0x67 = Inr t \<and>
     tss_rsp0 t = 0xFFFF800000001000"
proof -
  let ?r = "fst (write_u64 (guest_ram_new 0x1000) 0x104 0xFFFF800000001000)"
  have sz: "gr_size ?r = 0x1000" by (simp add: write_u64_as_bytes write_bytes_def guest_ram_new_def)
  then obtain t where t: "tss64_read (ram_memory ?r) 0x100 0x67 = Inr t"
    using read_bytes_ok [of "0x100" "0x68" ?r] by (auto simp: tss64_read_def Let_def simp del: upt_rec_numeral)
  have "snd (write_u64 (guest_ram_new 0x1000) 0x104 0xFFFF800000001000) = Inr ()"
    by (simp add: write_u64_as_bytes write_bytes_def write_bytes_loop_ok guest_ram_new_def)
  then have "read_u64 ?r 0x104 = Inr 0xFFFF800000001000"
    by (rule read_after_write_u64)
  with tss64_read_fields [OF t] t sz show ?thesis by auto
qed

definition table_demo_ram :: guest_ram where
  "table_demo_ram =
     \<lparr>gr_bytes =
        [0x808 \<mapsto> 0xFF, 0x809 \<mapsto> 0xFF, 0x80D \<mapsto> 0x9A, 0x80E \<mapsto> 0xAF,
         0x810 \<mapsto> 0x67, 0x813 \<mapsto> 0x50, 0x814 \<mapsto> 0x10, 0x815 \<mapsto> 0x89,
         0x1010 \<mapsto> 0x40, 0x1012 \<mapsto> 8, 0x1014 \<mapsto> 1, 0x1015 \<mapsto> 0x8E],
      gr_size = 0x10000\<rparr>"

lemma gdt_demo_reads:
  "read_u64 table_demo_ram 0x800 = Inr 0" "read_u64 table_demo_ram 0x808 = Inr 0xAF9A000000FFFF"
  "read_u64 table_demo_ram 0x810 = Inr 0x891050000067" "read_u64 table_demo_ram 0x818 = Inr 0"
  by (simp_all add: read_u64_def read_bytes_def table_demo_ram_def sat_add_def upt_rec byte_at_def
      le_word_def Let_def)

lemma gdt_demo_ok:
  "gdt_read (ram_memory table_demo_ram) 0x800 31 = Inr
     \<lparr>gdt_base = 0x800, gdt_limit = 31, gdt_entries =
       [NullEntry 0, SegmentEntry (decode_segment 8 0xAF9A000000FFFF),
        SystemEntry (decode_system 16 0x891050000067 (Some 0)), HighHalf 24 0 16]\<rparr>"
proof -
  let ?m = "ram_memory table_demo_ram"
  have 3: "gdt_loop ?m 0x800 4 4 es = Inr es" for es
    by (simp add: gdt_loop.simps)
  have 2: "gdt_loop ?m 0x800 4 2 es = Inr (es @ [SystemEntry (decode_system 16 0x891050000067 (Some 0)), HighHalf 24 0 16])" for es
    by (subst gdt_loop.simps) (simp add: gdt_demo_reads 3 BIT_S_def system_type_from_bits_def)
  have 1: "gdt_loop ?m 0x800 4 1 es = Inr (es @ [SegmentEntry (decode_segment 8 0xAF9A000000FFFF),
      SystemEntry (decode_system 16 0x891050000067 (Some 0)), HighHalf 24 0 16])" for es
    by (subst gdt_loop.simps) (simp add: gdt_demo_reads 2 BIT_S_def numeral_2_eq_2 [symmetric])
  show ?thesis
    by (subst gdt_read_def, subst gdt_loop.simps) (simp add: gdt_demo_reads 1 [unfolded One_nat_def])
qed

text \<open>
  A decoded GDT is a faithful picture of the table in memory: it has exactly (limit+1)/8 slots,
  slot i names offset 8i, every slot is the decoding of its own memory word, and an entry is a high
  half exactly when the previous one is a system descriptor that took two slots.
\<close>

lemma gdt_read_table:
  assumes "gdt_read mem base limit = Inr g"
  shows "length (gdt_entries g) = (unat limit + 1) div 8 \<and>
    (\<forall>i < length (gdt_entries g). entry_offset (gdt_entries g ! i) = word_of_nat (i * 8) \<and>
       slot_ok mem base (length (gdt_entries g)) (gdt_entries g) i)"
  using gdt_read_slots(1,2) [OF assms] gdt_read_slots(3) [OF assms, THEN slot_ok_offset]
    gdt_read_slots(3) [OF assms]
  by (simp add: gdt_slot_count_def)

subsection \<open>The descriptors as a whole\<close>

text \<open>
  Decoding inverts the architecture's encoding of segment descriptors and of interrupt and trap
  gates: base, access and flags come back field by field and the limit as the byte limit the
  processor uses, scaled by 4 KiB when G is set; the 64-bit handler split over three fields,
  selector, IST index, type, DPL and present bit come back too.
\<close>

lemma descriptor_codecs:
  assumes "limit < 0x100000" "a AND 0xF = 0xE \<or> a AND 0xF = 0xF" "i < 256"
  shows "decode_segment off (encode_segment base limit access flags) =
      \<lparr>sd_offset = off, sd_raw = encode_segment base limit access flags, sd_base = base,
       sd_limit = scaled_limit (bit flags 3) limit,
       sd_accessed = bit access 0, sd_readable_writable = bit access 1,
       sd_direction_or_conforming = bit access 2,
       sd_kind = (if bit access 3 then Code else Data), sd_dpl = drop_bit 5 access AND 3,
       sd_present = bit access 7, sd_available = bit flags 0, sd_long_mode = bit flags 1,
       sd_default_size_32 = bit flags 2, sd_granularity_4k = bit flags 3\<rparr> \<and>
    unat (scaled_limit (bit flags 3) limit) =
      (if bit flags 3 then (unat limit + 1) * 4096 - 1 else unat limit) \<and>
    decode_gate i (encode_gate handler selector ist a) =
      Inr \<lparr>ig_vector = word_of_nat i, ig_offset = word_of_nat (i * 16),
           ig_raw = encode_gate handler selector ist a,
           ig_present = bit a 7, ig_dpl = drop_bit 5 a AND 3,
           ig_kind = (if a AND 0xF = 0xE then InterruptKind else TrapKind),
           ig_selector = selector, ig_ist = take_bit 3 ist, ig_handler = handler\<rparr>"
  using decode_segment_encode [OF assms(1)] decode_gate_encode [OF assms(2,3)] by simp

theorem descriptor_codecs_witness:
  "sd_limit (decode_segment 8 (encode_segment 0 0xFFFFF 0x9A 0xA)) = 0xFFFFFFFF \<and>
   (\<exists>g. decode_gate 14 (encode_gate 0xFFFFFFFF80101234 8 2 0x8E) = Inr g \<and> ig_handler g = 0xFFFFFFFF80101234)"
  using descriptor_codecs [of "0xFFFFF" "0x8E" 14 8 0 "0x9A" "0xA" "0xFFFFFFFF80101234" 8 2]
  by (simp add: scaled_limit_def)

text \<open>
  C4. The decoded tables are the ones in memory. A GDT has exactly (limit+1)/8 slots, each the
  decoding of its own memory word, a high half exactly after a system descriptor that took two
  slots; a selector names the slot at selector/8, whatever its RPL and table-indicator bits, and
  nothing past the limit. An interrupt vector names the gate decoded from the sixteen bytes at
  base + 16 * vector, and nothing past the limit, although all gates past 255 are numbered 255.
\<close>

theorem tables_name_their_slots:
  assumes "gdt_read mem base limit = Inr g" "limit \<le> 0xFFFF" "idt_read mem ibase ilimit = Inr t"
  shows "length (gdt_entries g) = (unat limit + 1) div 8 \<and>
    (\<forall>i < length (gdt_entries g). entry_offset (gdt_entries g ! i) = word_of_nat (i * 8) \<and>
       slot_ok mem base (length (gdt_entries g)) (gdt_entries g) i) \<and>
    entry_for_selector g selector =
      (if unat selector div 8 < gdt_slot_count g then Some (gdt_entries g ! (unat selector div 8)) else None) \<and>
    idt_gate_for t vector =
      (if unat vector < idt_gate_count t then Some (idt_gates t ! unat vector) else None) \<and>
    (unat vector < idt_gate_count t \<longrightarrow>
      (\<exists>raw. gm_read_bytes mem (ibase + ucast vector * 16) 16 = Inr raw \<and>
        decode_gate (unat vector) raw = Inr (idt_gates t ! unat vector)))"
  using gdt_read_table [OF assms(1)] selector_names_slot [OF assms(1,2)] idt_gate_for_vector [OF assms(3)]
  by blast

lemma replicate_16: "replicate 16 x = [x, x, x, x, x, x, x, x, x, x, x, x, x, x, x, x]"
  by (simp add: numeral_eq_Suc)

lemma idt_demo_ok: "\<exists>t. idt_read (ram_memory table_demo_ram) 0x1000 31 = Inr t"
  by (simp add: idt_read_def read_gate_def read_bytes_def table_demo_ram_def sat_add_def upt_rec byte_at_def
     decode_gate_def gate_kind_of_def Let_def GATE_SIZE_def replicate_16)

theorem tables_name_their_slots_witness:
  "\<exists>g t gate. gdt_read (ram_memory table_demo_ram) 0x800 31 = Inr g \<and> length (gdt_entries g) = 4 \<and>
     entry_for_selector g 0x1B = Some (HighHalf 24 0 16) \<and>
     idt_read (ram_memory table_demo_ram) 0x1000 31 = Inr t \<and> idt_gate_for t 1 = Some gate \<and> idt_gate_for t 2 = None"
proof -
  obtain t where t: "idt_read (ram_memory table_demo_ram) 0x1000 31 = Inr t"
    using idt_demo_ok by blast
  then have "idt_gate_count t = 2"
    using idt_read_gates(2) [OF t] by (simp add: idt_gate_count_def)
  then show ?thesis
    using tables_name_their_slots [OF gdt_demo_ok _ t, of "0x1B" 1] gdt_demo_ok t
      tables_name_their_slots [OF gdt_demo_ok _ t, of "0x1B" 2]
    by (simp add: gdt_slot_count_def)
qed

end
