(* ===== verification/Hex_Reader.thy ===== *)
theory Hex_Reader
  imports Core_Error
begin

section \<open>The windowed hex reader\<close>

text \<open>
  Models \<^verbatim>\<open>crates/princess-bin/src/hex.rs\<close>: a file read through a bounded most-recently-used
  cache of fixed-size windows. The file is the operating system's: \<open>pread\<close> and \<open>stat\<close> are
  parameters of the operations that call them, so the file may be different at every call. Sizes
  and offsets are natural numbers below \<open>2^64\<close>; the saturating operations of the source are
  written out, and no other operation on them can overflow. Operations return the new reader with
  their result, because a failing read keeps the windows it has loaded.
\<close>

subsection \<open>State\<close>

definition DEFAULT_WINDOW_SIZE :: nat where "DEFAULT_WINDOW_SIZE = 4096"

definition DEFAULT_WINDOW_CAPACITY :: nat where "DEFAULT_WINDOW_CAPACITY = 256"

record hex_window_options =
  wo_window_size :: nat
  wo_capacity :: nat

definition default_options :: hex_window_options where
  "default_options = \<lparr>wo_window_size = DEFAULT_WINDOW_SIZE, wo_capacity = DEFAULT_WINDOW_CAPACITY\<rparr>"

definition options_byte_bound :: "hex_window_options \<Rightarrow> nat" where
  "options_byte_bound o1 = max (wo_window_size o1) 1 * max (wo_capacity o1) 1"

record image_stats =
  is_syscalls :: nat
  is_hits :: nat
  is_misses :: nat
  is_resident_windows :: nat
  is_resident_bytes :: nat
  is_bytes_served :: nat
  is_bytes_read :: nat
  is_short_reads :: nat

definition zero_stats :: image_stats where
  "zero_stats =
     \<lparr>is_syscalls = 0, is_hits = 0, is_misses = 0, is_resident_windows = 0, is_resident_bytes = 0,
      is_bytes_served = 0, is_bytes_read = 0, is_short_reads = 0\<rparr>"

record hex_line =
  hl_offset :: nat
  hl_bytes :: "u8 list"
  hl_hex :: string
  hl_ascii :: string
  hl_at_eof :: bool

record hex_reader =
  hr_path :: string
  hr_len :: nat
  hr_options :: hex_window_options
  hr_cache :: "(nat \<times> u8 list) list"
  hr_stats :: image_stats

text \<open>\<open>File::open\<close> and \<open>metadata\<close> answer with an error message or with the length.\<close>

definition reader_with_options ::
  "(string \<Rightarrow> string + unit) \<Rightarrow> (string \<Rightarrow> string + nat) \<Rightarrow> string \<Rightarrow> hex_window_options \<Rightarrow>
   princess_error + hex_reader" where
  "reader_with_options open_file stat path opts =
     (case open_file path of
        Inl err \<Rightarrow> Inl (with_detail (not_found_error (''cannot open '' @ path @ '': '' @ err)) err)
      | Inr _ \<Rightarrow>
          (case stat path of
             Inl err \<Rightarrow> Inl (with_detail (not_found_error (''cannot stat '' @ path @ '': '' @ err)) err)
           | Inr len \<Rightarrow>
               Inr \<lparr>hr_path = path, hr_len = len,
                    hr_options = \<lparr>wo_window_size = max (wo_window_size opts) 1,
                                  wo_capacity = max (wo_capacity opts) 1\<rparr>,
                    hr_cache = [], hr_stats = zero_stats\<rparr>))"

definition reader_open ::
  "(string \<Rightarrow> string + unit) \<Rightarrow> (string \<Rightarrow> string + nat) \<Rightarrow> string \<Rightarrow> princess_error + hex_reader" where
  "reader_open open_file stat path = reader_with_options open_file stat path default_options"

definition reader_is_empty :: "hex_reader \<Rightarrow> bool" where
  "reader_is_empty r \<longleftrightarrow> hr_len r = 0"

definition refresh_len :: "string + nat \<Rightarrow> hex_reader \<Rightarrow> hex_reader \<times> (princess_error + nat)" where
  "refresh_len stat r =
     (case stat of
        Inl err \<Rightarrow>
          (r, Inl (with_detail (not_found_error (''cannot restat '' @ hr_path r @ '': '' @ err)) err))
      | Inr len \<Rightarrow> (r\<lparr>hr_len := len\<rparr>, Inr len))"

definition reader_stats :: "hex_reader \<Rightarrow> image_stats" where
  "reader_stats r =
     (hr_stats r)\<lparr>is_resident_windows := length (hr_cache r),
                  is_resident_bytes := length (hr_cache r) * wo_window_size (hr_options r)\<rparr>"

definition reader_byte_bound :: "hex_reader \<Rightarrow> nat" where
  "reader_byte_bound r = options_byte_bound (hr_options r)"

definition clear_cache :: "hex_reader \<Rightarrow> hex_reader" where
  "clear_cache r = r\<lparr>hr_cache := []\<rparr>"

definition update_stats :: "(image_stats \<Rightarrow> image_stats) \<Rightarrow> hex_reader \<Rightarrow> hex_reader" where
  "update_stats f r = r\<lparr>hr_stats := f (hr_stats r)\<rparr>"

subsection \<open>Windows\<close>

text \<open>\<open>while cache.len() > capacity { cache.pop_back() }\<close>.\<close>

function evict :: "nat \<Rightarrow> 'a list \<Rightarrow> 'a list" where
  "evict capacity cache = (if capacity < length cache then evict capacity (butlast cache) else cache)"
  by pat_completeness auto
termination
  by (relation "measure (\<lambda>(capacity, cache). length cache)") auto

declare evict.simps [simp del]

lemma evict_take: "evict n xs = take n xs"
proof (induction n xs rule: evict.induct)
  case (1 n xs)
  show ?case
    by (cases "n < length xs"; subst evict.simps) (simp_all add: 1 take_butlast)
qed

type_synonym pread = "nat \<Rightarrow> nat \<Rightarrow> string + u8 list"

definition U64_MAX :: nat where "U64_MAX = 2 ^ 64 - 1"

definition window :: "pread \<Rightarrow> hex_reader \<Rightarrow> nat \<Rightarrow> hex_reader \<times> (princess_error + u8 list)" where
  "window pread r window_index =
     (case List.extract (\<lambda>e. fst e = window_index) (hr_cache r) of
        Some (before, entry, after) \<Rightarrow>
          (update_stats (\<lambda>s. s\<lparr>is_hits := is_hits s + 1\<rparr>) (r\<lparr>hr_cache := entry # before @ after\<rparr>),
           Inr (snd entry))
      | None \<Rightarrow>
          (let r1 = update_stats (\<lambda>s. s\<lparr>is_misses := is_misses s + 1\<rparr>) r;
               wanted = wo_window_size (hr_options r);
               offset = min (window_index * wanted) U64_MAX
           in case pread offset wanted of
                Inl err \<Rightarrow>
                  (r1, Inl (with_detail (internal_error
                     (''pread('' @ show_hex_alt offset @ '', '' @ show_nat wanted @ '') on '' @
                      hr_path r @ '' failed: '' @ err)) err))
              | Inr buffer \<Rightarrow>
                  (update_stats (\<lambda>s. s\<lparr>is_syscalls := is_syscalls s + 1,
                                       is_bytes_read := is_bytes_read s + length buffer\<rparr>)
                     (r1\<lparr>hr_cache := evict (wo_capacity (hr_options r))
                                         ((window_index, buffer) # hr_cache r)\<rparr>),
                   Inr buffer)))"

subsection \<open>Ranges\<close>

function read_range_loop ::
  "pread \<Rightarrow> hex_reader \<Rightarrow> nat \<Rightarrow> nat \<Rightarrow> u8 list \<Rightarrow> hex_reader \<times> (princess_error + u8 list)" where
  "read_range_loop pread r position end_at out =
     (if \<not> position < end_at then (r, Inr out)
      else
        let window_size = wo_window_size (hr_options r); window_index = position div window_size
        in case window pread r window_index of
             (r', Inl e) \<Rightarrow> (r', Inl e)
           | (r', Inr w) \<Rightarrow>
               let within = position - window_index * window_size;
                   available = length w - within
               in if available = 0
                  then (update_stats (\<lambda>s. s\<lparr>is_short_reads := is_short_reads s + 1\<rparr>) r', Inr out)
                  else
                    let n = min available (end_at - position)
                    in read_range_loop pread r' (position + n) end_at (out @ take n (drop within w)))"
  by pat_completeness auto
termination
  by (relation "measure (\<lambda>(pread, r, position, end_at, out). end_at - position)") auto

declare read_range_loop.simps [simp del]

definition read_range :: "pread \<Rightarrow> hex_reader \<Rightarrow> nat \<Rightarrow> nat \<Rightarrow> hex_reader \<times> (princess_error + u8 list)" where
  "read_range pread r offset len =
     (case read_range_loop pread r offset (min (offset + len) U64_MAX) [] of
        (r', Inl e) \<Rightarrow> (r', Inl e)
      | (r', Inr out) \<Rightarrow>
          (update_stats (\<lambda>s. s\<lparr>is_bytes_served := is_bytes_served s + length out,
                               is_short_reads := is_short_reads s + (if length out < len then 1 else 0)\<rparr>) r',
           Inr out))"

definition read_exact_at :: "pread \<Rightarrow> hex_reader \<Rightarrow> nat \<Rightarrow> nat \<Rightarrow> hex_reader \<times> (princess_error + u8 list)" where
  "read_exact_at pread r offset len =
     (case read_range pread r offset len of
        (r', Inl e) \<Rightarrow> (r', Inl e)
      | (r', Inr bytes) \<Rightarrow>
          if length bytes \<noteq> len then
            (r', Inl (with_detail (not_found_error
               (hr_path r' @ '': wanted '' @ show_nat len @ '' bytes at offset '' @ show_hex_alt offset @
                '', only '' @ show_nat (length bytes) @ '' were available''))
               (''the image is '' @ show_nat (hr_len r') @
                '' bytes long; this is a short read, not corrupt data'')))
          else (r', Inr bytes))"

subsection \<open>Rows\<close>

text \<open>\<open>{:02x} \<close> of a byte and its character in the gutter.\<close>

definition hex_cell :: "u8 option \<Rightarrow> string" where
  "hex_cell b = (case b of
     Some byte \<Rightarrow> pad_left 2 CHR ''0'' (show_hex (unat byte)) @ '' ''
   | None \<Rightarrow> ''?? '')"

definition ascii_cell :: "u8 option \<Rightarrow> char" where
  "ascii_cell b = (case b of
     Some byte \<Rightarrow> if 33 \<le> unat byte \<and> unat byte \<le> 126 \<or> byte = 32 then char_of (unat byte) else CHR ''.''
   | None \<Rightarrow> CHR '' '')"

definition bytes_get :: "u8 list \<Rightarrow> nat \<Rightarrow> u8 option" where
  "bytes_get bytes i = (if i < length bytes then Some (bytes ! i) else None)"

definition trim_end :: "string \<Rightarrow> string" where
  "trim_end s = rev (dropWhile (\<lambda>c. c = CHR '' '') (rev s))"

definition render_line :: "nat \<Rightarrow> u8 list \<Rightarrow> bool \<Rightarrow> hex_line" where
  "render_line offset bytes at_eof =
     \<lparr>hl_offset = offset,
      hl_bytes = bytes,
      hl_hex = trim_end (concat (map (\<lambda>i. hex_cell (bytes_get bytes i)) [0..<16])),
      hl_ascii = map (\<lambda>i. ascii_cell (bytes_get bytes i)) [0..<16],
      hl_at_eof = at_eof\<rparr>"

text \<open>The \<open>for index in 0..row_count\<close> loop, by the rows left.\<close>

fun read_lines_loop ::
  "pread \<Rightarrow> hex_reader \<Rightarrow> nat \<Rightarrow> nat \<Rightarrow> nat \<Rightarrow> hex_line list \<Rightarrow> hex_reader \<times> (princess_error + hex_line list)" where
  "read_lines_loop pread r first_row index 0 lines = (r, Inr lines)"
| "read_lines_loop pread r first_row index (Suc n) lines =
     (let row = min (first_row + index) U64_MAX; offset = min (row * 16) U64_MAX
      in if hr_len r \<le> offset then (r, Inr lines)
         else case read_range pread r offset (min (hr_len r - offset) 16) of
                (r', Inl e) \<Rightarrow> (r', Inl e)
              | (r', Inr bytes) \<Rightarrow>
                  read_lines_loop pread r' first_row (Suc index) n
                    (lines @ [render_line offset bytes (length bytes < 16)]))"

definition read_lines :: "pread \<Rightarrow> hex_reader \<Rightarrow> nat \<Rightarrow> nat \<Rightarrow> hex_reader \<times> (princess_error + hex_line list)" where
  "read_lines pread r first_row row_count = read_lines_loop pread r first_row 0 row_count []"

subsection \<open>The cache invariant\<close>

text \<open>What \<open>File::read_at\<close> promises of any file: at most the bytes asked for.\<close>

locale file_source =
  fixes pread :: pread
  assumes at_most: "pread off n = Inr bs \<Longrightarrow> length bs \<le> n"

definition cache_inv :: "hex_reader \<Rightarrow> bool" where
  "cache_inv r \<longleftrightarrow>
     1 \<le> wo_window_size (hr_options r) \<and> 1 \<le> wo_capacity (hr_options r) \<and>
     length (hr_cache r) \<le> wo_capacity (hr_options r) \<and> distinct (map fst (hr_cache r)) \<and>
     (\<forall>e \<in> set (hr_cache r). length (snd e) \<le> wo_window_size (hr_options r))"

lemma update_stats_simps [simp]:
  "hr_cache (update_stats f r) = hr_cache r" "hr_options (update_stats f r) = hr_options r"
  "hr_len (update_stats f r) = hr_len r" "hr_path (update_stats f r) = hr_path r"
  "cache_inv (update_stats f r) = cache_inv r"
  by (simp_all add: update_stats_def cache_inv_def)

lemma cache_inv_len [simp]: "cache_inv (r\<lparr>hr_len := n\<rparr>) = cache_inv r"
  by (simp add: cache_inv_def)

lemma window_cases [case_names hit load fail]:
  obtains before w after where "hr_cache r = before @ (i, w) # after"
      "hr_cache (fst (window p r i)) = (i, w) # before @ after" "snd (window p r i) = Inr w"
    | buffer where "i \<notin> fst ` set (hr_cache r)"
      "p (min (i * wo_window_size (hr_options r)) U64_MAX) (wo_window_size (hr_options r)) = Inr buffer"
      "hr_cache (fst (window p r i)) = take (wo_capacity (hr_options r)) ((i, buffer) # hr_cache r)"
      "snd (window p r i) = Inr buffer"
    | e err where "p (min (i * wo_window_size (hr_options r)) U64_MAX) (wo_window_size (hr_options r)) = Inl err"
      "hr_cache (fst (window p r i)) = hr_cache r" "snd (window p r i) = Inl e"
proof (cases "List.extract (\<lambda>e. fst e = i) (hr_cache r)")
  case None
  then have "i \<notin> fst ` set (hr_cache r)"
    by (auto simp: extract_None_iff)
  with None that(2,3) show ?thesis
    by (cases "p (min (i * wo_window_size (hr_options r)) U64_MAX) (wo_window_size (hr_options r))")
      (auto simp: window_def Let_def evict_take)
next
  case (Some t)
  then obtain before w after where t: "t = (before, (i, w), after)" "hr_cache r = before @ (i, w) # after"
    by (cases t) (auto simp: extract_Some_iff)
  with Some show ?thesis
    by (intro that(1)) (simp_all add: window_def)
qed

lemma window_frame [simp]:
  "hr_options (fst (window p r i)) = hr_options r" "hr_len (fst (window p r i)) = hr_len r"
  "hr_path (fst (window p r i)) = hr_path r"
  by (simp_all add: window_def Let_def split: option.splits sum.splits)

lemma distinct_map_take: "distinct (map f xs) \<Longrightarrow> distinct (map f (take n xs))"
  by (metis distinct_take take_map)

text \<open>Every operation on the cache goes through \<open>window\<close>: what \<open>window\<close> keeps, a range read keeps.\<close>

lemma read_range_loop_keeps:
  assumes "\<And>r i. P r \<Longrightarrow> P (fst (window p r i))" and "\<And>r f. P (update_stats f r) = P r" and "P r"
  shows "P (fst (read_range_loop p r position end_at out))"
  using assms(3)
proof (induction "end_at - position" arbitrary: r position out rule: less_induct)
  case less
  obtain r' v where w: "window p r (position div wo_window_size (hr_options r)) = (r', v)"
    by (cases "window p r (position div wo_window_size (hr_options r))")
  have P: "P r'"
    using assms(1) [OF less.prems, of "position div wo_window_size (hr_options r)"] w by simp
  show ?case
    by (subst read_range_loop.simps) (auto simp: w P less.prems assms(2) Let_def intro!: less.hyps split: sum.splits)
qed

lemma read_range_keeps:
  assumes "\<And>r i. P r \<Longrightarrow> P (fst (window p r i))" and "\<And>r f. P (update_stats f r) = P r" and "P r"
  shows "P (fst (read_range p r offset len))"
  using read_range_loop_keeps [of P p r offset "min (offset + len) U64_MAX" "[]"] assms
  by (auto simp: read_range_def split: prod.splits sum.splits)

lemma read_exact_at_keeps:
  assumes "\<And>r i. P r \<Longrightarrow> P (fst (window p r i))" and "\<And>r f. P (update_stats f r) = P r" and "P r"
  shows "P (fst (read_exact_at p r offset len))"
  using read_range_keeps [of P p r offset len] assms
  by (auto simp: read_exact_at_def split: prod.splits sum.splits)

lemma read_lines_loop_keeps:
  assumes "\<And>r i. P r \<Longrightarrow> P (fst (window p r i))" and "\<And>r f. P (update_stats f r) = P r" and "P r"
  shows "P (fst (read_lines_loop p r first_row index n lines))"
  using assms(3)
proof (induction n arbitrary: r index lines)
  case 0
  then show ?case by simp
next
  case (Suc n)
  have "P (fst (read_range p r off len))" for off len
    using read_range_keeps [of P] assms(1,2) Suc.prems by blast
  with Suc show ?case
    by (auto simp: Let_def split: prod.splits sum.splits) (metis fst_conv)+
qed

context file_source
begin

lemma window_inv:
  assumes "cache_inv r"
  shows "cache_inv (fst (window pread r i))"
  using window_cases [of r i pread]
proof cases
  case (hit before w after)
  with assms show ?thesis
    by (auto simp: cache_inv_def)
next
  case (load buffer)
  have "distinct (map fst (take (wo_capacity (hr_options r)) ((i, buffer) # hr_cache r)))"
    by (rule distinct_map_take) (use assms load in \<open>auto simp: cache_inv_def\<close>)
  moreover have "\<forall>e \<in> set (take (wo_capacity (hr_options r)) ((i, buffer) # hr_cache r)).
      length (snd e) \<le> wo_window_size (hr_options r)"
    using assms at_most [OF load(2)] set_take_subset [of "wo_capacity (hr_options r)" "(i, buffer) # hr_cache r"]
    by (auto simp: cache_inv_def)
  ultimately show ?thesis
    using load(3) assms by (simp add: cache_inv_def)
next
  case fail
  with assms show ?thesis
    by (simp add: cache_inv_def)
qed

lemma operations_inv:
  assumes "cache_inv r"
  shows "cache_inv (fst (read_range pread r off len))"
    and "cache_inv (fst (read_exact_at pread r off len))"
    and "cache_inv (fst (read_lines pread r first_row count))"
  using read_range_keeps [of cache_inv pread r] read_exact_at_keeps [of cache_inv pread r]
    read_lines_loop_keeps [of cache_inv pread r] window_inv assms
  by (simp_all add: read_lines_def)

end

definition bounded_pread :: "pread \<Rightarrow> bool" where
  "bounded_pread p \<longleftrightarrow> (\<forall>off n bs. p off n = Inr bs \<longrightarrow> length bs \<le> n)"

text \<open>What a caller can do to a reader, on a file that may differ at every step.\<close>

inductive reader_step :: "hex_reader \<Rightarrow> hex_reader \<Rightarrow> bool" where
  step_range: "bounded_pread p \<Longrightarrow> reader_step r (fst (read_range p r off len))"
| step_exact: "bounded_pread p \<Longrightarrow> reader_step r (fst (read_exact_at p r off len))"
| step_lines: "bounded_pread p \<Longrightarrow> reader_step r (fst (read_lines p r first_row count))"
| step_refresh: "reader_step r (fst (refresh_len st r))"
| step_clear: "reader_step r (clear_cache r)"

lemma reader_step_inv:
  assumes "reader_step r r'" and "cache_inv r"
  shows "cache_inv r' \<and> hr_options r' = hr_options r"
proof -
  have opt: "hr_options (fst (read_range p r off len)) = hr_options r"
    "hr_options (fst (read_exact_at p r off len)) = hr_options r"
    "hr_options (fst (read_lines p r first_row count)) = hr_options r" for p off len first_row count
    using read_range_keeps [of "\<lambda>q. hr_options q = hr_options r" p r]
      read_exact_at_keeps [of "\<lambda>q. hr_options q = hr_options r" p r]
      read_lines_loop_keeps [of "\<lambda>q. hr_options q = hr_options r" p r]
    by (simp_all add: read_lines_def)
  have inv: "file_source p" if "bounded_pread p" for p
    using that by unfold_locales (simp add: bounded_pread_def)
  show ?thesis
    using assms
  proof cases
    case (step_refresh st)
    then show ?thesis using assms(2) by (cases st) (simp_all add: refresh_len_def)
  next
    case step_clear
    then show ?thesis using assms(2) by (simp add: clear_cache_def cache_inv_def)
  qed (use file_source.operations_inv [OF inv] assms(2) opt in auto)
qed

lemma reader_new_inv:
  "reader_with_options open_file stat path opts = Inr r \<Longrightarrow> cache_inv r \<and> options_byte_bound opts = reader_byte_bound r"
  by (auto simp: reader_with_options_def cache_inv_def reader_byte_bound_def options_byte_bound_def split: sum.splits)

lemma resident_le:
  assumes "cache_inv r"
  shows "sum_list (map (\<lambda>e. length (snd e)) (hr_cache r)) \<le> is_resident_bytes (reader_stats r)"
    and "is_resident_bytes (reader_stats r) \<le> reader_byte_bound r"
proof -
  have "sum_list (map (\<lambda>e. length (snd e)) (hr_cache r)) \<le> sum_list (map (\<lambda>_. wo_window_size (hr_options r)) (hr_cache r))"
    by (rule sum_list_mono) (use assms in \<open>simp add: cache_inv_def\<close>)
  then show "sum_list (map (\<lambda>e. length (snd e)) (hr_cache r)) \<le> is_resident_bytes (reader_stats r)"
    by (simp add: reader_stats_def sum_list_triv)
  show "is_resident_bytes (reader_stats r) \<le> reader_byte_bound r"
    using assms by (auto simp: reader_stats_def reader_byte_bound_def options_byte_bound_def cache_inv_def mult.commute intro: mult_le_mono)
qed

text \<open>
  The memory bound is a bound: whatever is done to a reader, on a file that grows, shrinks or
  fails between calls, the bytes its cache holds never exceed the statistic \<open>resident_bytes\<close>,
  and that statistic never exceeds the bound the configuration implies.
\<close>

lemma reader_memory_bounded:
  assumes "reader_with_options open_file stat path opts = Inr r0" and "reader_step\<^sup>*\<^sup>* r0 r"
  shows "sum_list (map (\<lambda>e. length (snd e)) (hr_cache r)) \<le> is_resident_bytes (reader_stats r) \<and>
    is_resident_bytes (reader_stats r) \<le> options_byte_bound opts"
proof -
  have "cache_inv r \<and> hr_options r = hr_options r0"
    using assms(2)
  proof (induction rule: rtranclp_induct)
    case base
    then show ?case using reader_new_inv [OF assms(1)] by simp
  next
    case (step q r)
    then show ?case using reader_step_inv by fastforce
  qed
  then show ?thesis
    using resident_le [of r] reader_new_inv [OF assms(1)] by (simp add: reader_byte_bound_def)
qed

theorem reader_memory_bounded_witness:
  "\<exists>r0. reader_open (\<lambda>_. Inr ()) (\<lambda>_. Inr 100000) ''disk.img'' = Inr r0 \<and>
     is_resident_bytes (reader_stats (fst (read_range (\<lambda>off n. Inr (replicate n 7)) r0 0 100000))) \<le> 1048576"
proof -
  let ?p = "\<lambda>off n. Inr (replicate n 7)"
  obtain r0 where r0: "reader_with_options (\<lambda>_. Inr ()) (\<lambda>_. Inr 100000) ''disk.img'' default_options = Inr r0"
    by (simp add: reader_with_options_def)
  have "reader_step r0 (fst (read_range ?p r0 0 100000))"
    by (rule step_range) (auto simp: bounded_pread_def)
  then have "reader_step\<^sup>*\<^sup>* r0 (fst (read_range ?p r0 0 100000))"
    by (rule r_into_rtranclp)
  from reader_memory_bounded [OF r0 this] r0 show ?thesis
    by (auto simp: reader_open_def options_byte_bound_def default_options_def DEFAULT_WINDOW_SIZE_def DEFAULT_WINDOW_CAPACITY_def)
qed

subsection \<open>Reading a file that does not change\<close>

definition file_pread :: "u8 list \<Rightarrow> pread" where
  "file_pread contents off n = Inr (take n (drop off contents))"

locale image_source =
  fixes pread :: pread and contents :: "u8 list"
  assumes whole: "pread off n = Inr (take n (drop off contents))"

sublocale image_source \<subseteq> file_source pread
  by unfold_locales (auto simp: whole)

definition coherent :: "u8 list \<Rightarrow> hex_reader \<Rightarrow> bool" where
  "coherent f r \<longleftrightarrow>
     (\<forall>(i, w) \<in> set (hr_cache r).
        w = take (wo_window_size (hr_options r)) (drop (i * wo_window_size (hr_options r)) f))"

lemma coherent_update [simp]: "coherent f (update_stats g r) = coherent f r"
  by (simp add: coherent_def)

context image_source
begin

abbreviation image_window :: "hex_reader \<Rightarrow> nat \<Rightarrow> u8 list" where
  "image_window r i \<equiv> take (wo_window_size (hr_options r)) (drop (i * wo_window_size (hr_options r)) contents)"

lemma window_image:
  assumes small: "length contents \<le> U64_MAX" and "coherent contents r"
  shows "snd (window pread r i) = Inr (image_window r i) \<and> coherent contents (fst (window pread r i))"
  using window_cases [of r i pread]
proof cases
  case (hit before w after)
  with assms(2) show ?thesis
    by (auto simp: coherent_def)
next
  case (load buffer)
  have "drop (min n U64_MAX) contents = drop n contents" for n
    using small by (cases "n \<le> U64_MAX") (simp_all add: min_def)
  then have "buffer = image_window r i"
    using load(2) by (simp add: whole)
  moreover have "set (take n ((i, buffer) # hr_cache r)) \<subseteq> insert (i, buffer) (set (hr_cache r))" for n
    using set_take_subset [of n "(i, buffer) # hr_cache r"] by simp
  ultimately show ?thesis
    using load(3,4) assms(2) by (fastforce simp: coherent_def)
next
  case fail
  then show ?thesis by (simp add: whole)
qed

lemma drop_window:
  fixes p ws :: nat
  assumes "0 < ws"
  shows "drop (p - p div ws * ws) (take ws (drop (p div ws * ws) xs)) = take (ws - p mod ws) (drop p xs)"
proof -
  have "p - p div ws * ws = p mod ws" "p div ws * ws + p mod ws = p"
    by (simp_all add: minus_div_mult_eq_mod)
  then show ?thesis
    by (simp add: drop_take add.commute)
qed

lemma read_range_loop_image:
  assumes small: "length contents \<le> U64_MAX" and "coherent contents r" and "1 \<le> wo_window_size (hr_options r)"
  shows "snd (read_range_loop pread r position end_at out) = Inr (out @ take (end_at - position) (drop position contents))"
  using assms(2-)
proof (induction "end_at - position" arbitrary: r position out rule: less_induct)
  case less
  let ?ws = "wo_window_size (hr_options r)"
  let ?i = "position div ?ws"
  define within where "within = position - ?i * ?ws"
  define v where "v = image_window r ?i"
  obtain r' where w: "window pread r ?i = (r', Inr v)" and r': "coherent contents r'" "hr_options r' = hr_options r"
    unfolding v_def using window_image [OF small less.prems(1), of ?i] window_frame(1) [of pread r ?i] by (metis prod.collapse)
  have win: "drop within v = take (?ws - position mod ?ws) (drop position contents)"
    unfolding v_def within_def by (rule drop_window) (use less.prems(2) in simp)
  define m where "m = ?ws - position mod ?ws"
  have m: "0 < m"
    using less.prems(2) by (simp add: m_def)
  have avail: "length v - within = min m (length contents - position)"
    using arg_cong [OF win, of length] by (simp add: m_def min.commute)
  show ?case
  proof (cases "position < end_at")
    case False
    then show ?thesis by (subst read_range_loop.simps) simp
  next
    case True
    show ?thesis
    proof (cases "length contents \<le> position")
      case True
      then have "length v \<le> within"
        using avail by simp
      with True w \<open>position < end_at\<close> show ?thesis
        by (subst read_range_loop.simps) (simp add: Let_def within_def [symmetric])
    next
      case False
      define n where "n = min (length v - within) (end_at - position)"
      have n: "0 < n" "n \<le> end_at - position" "n \<le> m"
        using m False True by (simp_all add: n_def avail)
      have some: "\<not> length v \<le> within"
        using m False avail by linarith
      have "snd (read_range_loop pread r position end_at out) =
          snd (read_range_loop pread r' (position + n) end_at (out @ take n (take m (drop position contents))))"
        using w \<open>position < end_at\<close> some
        by (subst read_range_loop.simps) (simp add: Let_def within_def [symmetric] n_def [symmetric] win [folded m_def])
      also have "\<dots> = Inr (out @ take n (drop position contents) @ take (end_at - (position + n)) (drop (position + n) contents))"
        using less.hyps [of "position + n" r' "out @ take n (take m (drop position contents))"] n True r' less.prems(2)
        by (simp add: min_absorb1)
      also have "take n (drop position contents) @ take (end_at - (position + n)) (drop (position + n) contents) =
          take (end_at - position) (drop position contents)"
      proof -
        have "n + (end_at - (position + n)) = end_at - position"
          using n(2) by simp
        then show ?thesis
          using take_add [of n "end_at - (position + n)" "drop position contents"] by (simp add: add.commute)
      qed
      finally show ?thesis .
    qed
  qed
qed

lemma read_range_image:
  assumes small: "length contents \<le> U64_MAX" and "coherent contents r" and "1 \<le> wo_window_size (hr_options r)"
  shows "snd (read_range pread r off len) = Inr (take len (drop off contents)) \<and>
    coherent contents (fst (read_range pread r off len))"
proof -
  have "coherent contents (fst (read_range pread r off len))"
    by (rule read_range_keeps) (use assms(2) window_image [OF small] in auto)
  moreover have "take (min (off + len) U64_MAX - off) (drop off contents) = take len (drop off contents)"
    using small by (auto simp: min_def)
  ultimately show ?thesis
    using read_range_loop_image [OF assms, of off "min (off + len) U64_MAX" "[]"]
    by (auto simp: read_range_def split: prod.splits sum.splits)
qed

lemma read_lines_loop_image:
  assumes small: "length contents \<le> U64_MAX" and "coherent contents r" and "1 \<le> wo_window_size (hr_options r)" and "hr_len r = length contents"
  shows "snd (read_lines_loop pread r first index n lines) = Inr (lines @
    map (\<lambda>i. render_line (16 * (first + i)) (take 16 (drop (16 * (first + i)) contents))
          (length contents < 16 * (first + i) + 16))
      [index..<min (index + n) ((length contents + 15) div 16 - first)])"
  using assms(2-)
proof (induction n arbitrary: r index lines)
  case 0
  then show ?case by simp
next
  case (Suc n)
  let ?off = "16 * (first + index)"
  let ?rows = "(length contents + 15) div 16 - first"
  define off where "off = min (min (first + index) U64_MAX * 16) U64_MAX"
  show ?case
  proof (cases "length contents \<le> ?off")
    case True
    then have "length contents \<le> off"
      using small by (auto simp: off_def min_def U64_MAX_def)
    moreover have "?rows \<le> index"
      using True by simp
    ultimately show ?thesis
      using Suc.prems(3) by (simp add: off_def Let_def)
  next
    case False
    then have off: "off = ?off"
      using small by (simp add: off_def min_def)
    let ?len = "min (length contents - off) 16"
    obtain r' where rr: "read_range pread r off ?len = (r', Inr (take ?len (drop off contents)))" and r': "coherent contents r'"
      using read_range_image [OF small Suc.prems(1,2), of off ?len] by (metis prod.collapse)
    have "hr_options r' = hr_options r \<and> hr_len r' = hr_len r"
      using read_range_keeps [of "\<lambda>q. hr_options q = hr_options r \<and> hr_len q = hr_len r" pread r off ?len] rr by simp
    moreover have "take ?len (drop off contents) = take 16 (drop off contents)"
      by (simp add: min_def)
    moreover have "length (take 16 (drop off contents)) < 16 \<longleftrightarrow> length contents < off + 16"
      by auto
    moreover have "[index..<min (index + Suc n) ?rows] = index # [Suc index..<min (Suc index + n) ?rows]"
      using False by (subst upt_conv_Cons) auto
    moreover have "\<not> length contents \<le> off"
      using False off by simp
    then have "read_lines_loop pread r first index (Suc n) lines = read_lines_loop pread r' first (Suc index) n
        (lines @ [render_line off (take ?len (drop off contents)) (length (take ?len (drop off contents)) < 16)])"
      using rr Suc.prems(3)
      by (simp only: read_lines_loop.simps Let_def off_def [symmetric] if_False prod.case sum.case)
    ultimately show ?thesis
      using Suc.IH [of r' "Suc index"] r' Suc.prems(2,3) off by simp
  qed
qed

end

interpretation image: image_source "file_pread contents" contents for contents
  by unfold_locales (simp add: file_pread_def)

definition fresh_reader :: "u8 list \<Rightarrow> hex_window_options \<Rightarrow> hex_reader \<Rightarrow> bool" where
  "fresh_reader contents opts r \<longleftrightarrow>
     (\<exists>path. reader_with_options (\<lambda>_. Inr ()) (\<lambda>_. Inr (length contents)) path opts = Inr r)"

inductive image_step :: "u8 list \<Rightarrow> hex_reader \<Rightarrow> hex_reader \<Rightarrow> bool" for contents where
  "image_step contents r (fst (read_range (file_pread contents) r off len))"
| "image_step contents r (fst (read_exact_at (file_pread contents) r off len))"
| "image_step contents r (fst (read_lines (file_pread contents) r first_row count))"
| "image_step contents r (clear_cache r)"

lemma fresh_reader_ex: "\<exists>r0. fresh_reader contents opts r0"
  by (simp add: fresh_reader_def reader_with_options_def) metis

lemma image_reachable:
  assumes "(image_step contents)\<^sup>*\<^sup>* r0 r" and "fresh_reader contents opts r0" and "length contents \<le> U64_MAX"
  shows "coherent contents r \<and> 1 \<le> wo_window_size (hr_options r) \<and> hr_len r = length contents"
  using assms(1)
proof (induction rule: rtranclp_induct)
  case base
  then show ?case
    using assms(2) by (auto simp: fresh_reader_def reader_with_options_def coherent_def)
next
  case (step q r)
  let ?P = "\<lambda>q. coherent contents q \<and> 1 \<le> wo_window_size (hr_options q) \<and> hr_len q = length contents"
  have keeps: "?P (fst (window (file_pread contents) q i))" if "?P q" for q i
    using image.window_image [OF assms(3)] that by simp
  show ?case
    using step.hyps(2) step.IH keeps
      read_range_keeps [of ?P "file_pread contents" q] read_exact_at_keeps [of ?P "file_pread contents" q]
      read_lines_loop_keeps [of ?P "file_pread contents" q]
    by (cases rule: image_step.cases) (auto simp: read_lines_def clear_cache_def coherent_def)
qed

text \<open>
  C5. The cache is invisible: on a file that does not change, after any sequence of reads and
  cache clearances a range read returns exactly the bytes of the file at that range, short only
  where the file ends, whatever windows are cached and whatever the cache geometry.
\<close>

theorem read_range_is_file_range:
  assumes "fresh_reader contents opts r0" and "(image_step contents)\<^sup>*\<^sup>* r0 r" and "length contents \<le> U64_MAX"
  shows "snd (read_range (file_pread contents) r off len) = Inr (take len (drop off contents)) \<and>
    ((\<exists>e. snd (read_exact_at (file_pread contents) r off len) = Inl e) \<longleftrightarrow> 0 < len \<and> length contents < off + len)"
proof -
  note reach = image_reachable [OF assms(2,1,3)]
  have range: "snd (read_range (file_pread contents) r off len) = Inr (take len (drop off contents))"
    using image.read_range_image [OF assms(3)] reach by blast
  have "length (take len (drop off contents)) \<noteq> len \<longleftrightarrow> 0 < len \<and> length contents < off + len"
    by auto
  with range show ?thesis
    by (auto simp: read_exact_at_def split: prod.splits sum.splits if_splits)
qed

theorem read_range_is_file_range_witness:
  "\<exists>r0. fresh_reader [1, 2, 3, 4, 5] \<lparr>wo_window_size = 2, wo_capacity = 1\<rparr> r0 \<and>
     snd (read_range (file_pread [1, 2, 3, 4, 5]) (fst (read_range (file_pread [1, 2, 3, 4, 5]) r0 0 5)) 1 3) = Inr [2, 3, 4]"
proof -
  let ?f = "[1, 2, 3, 4, 5] :: u8 list" and ?o = "\<lparr>wo_window_size = 2, wo_capacity = 1\<rparr>"
  obtain r0 where r0: "fresh_reader ?f ?o r0"
    using fresh_reader_ex by blast
  have "(image_step ?f)\<^sup>*\<^sup>* r0 (fst (read_range (file_pread ?f) r0 0 5))"
    by (rule r_into_rtranclp, rule image_step.intros(1))
  from read_range_is_file_range [OF r0 this, of 1 3] have "snd (read_range (file_pread ?f)
      (fst (read_range (file_pread ?f) r0 0 5)) 1 3) = Inr (take 3 (drop 1 ?f))"
    by (simp add: U64_MAX_def)
  moreover have "take 3 (drop 1 ?f) = [2, 3, 4]"
    by (simp add: numeral_eq_Suc)
  ultimately show ?thesis
    using r0 by auto
qed

text \<open>
  The rows a view asks for are the file's rows: row \<open>n\<close> renders the bytes from \<open>16 n\<close> on, the
  answer stops after the last row the file has, and a row is marked as the end of the file exactly
  when the file ends before the row is full.
\<close>

lemma read_lines_are_file_rows:
  assumes "fresh_reader contents opts r0" and "(image_step contents)\<^sup>*\<^sup>* r0 r" and "length contents \<le> U64_MAX"
  shows "snd (read_lines (file_pread contents) r first n) =
    Inr (map (\<lambda>i. render_line (16 * (first + i)) (take 16 (drop (16 * (first + i)) contents))
               (length contents < 16 * (first + i) + 16))
          [0..<min n ((length contents + 15) div 16 - first)])"
  using image.read_lines_loop_image [OF assms(3), of r first 0 n "[]"] image_reachable [OF assms(2,1,3)]
  by (simp add: read_lines_def)

theorem read_lines_are_file_rows_witness:
  "\<exists>r0 l. fresh_reader (replicate 20 65) default_options r0 \<and>
     snd (read_lines (file_pread (replicate 20 65)) r0 1 9) = Inr [l] \<and> hl_bytes l = [65, 65, 65, 65] \<and> hl_at_eof l"
proof -
  let ?f = "replicate 20 65 :: u8 list"
  obtain r0 where r0: "fresh_reader ?f default_options r0"
    using fresh_reader_ex by blast
  have rows: "[0..<min 9 ((length ?f + 15) div 16 - 1)] = [0]" and l: "length ?f \<le> U64_MAX"
    by (simp_all add: U64_MAX_def upt_rec)
  have four: "drop 16 ?f = replicate 4 65"
    by (simp add: numeral_eq_Suc)
  have "snd (read_lines (file_pread ?f) r0 1 9) = Inr [render_line 16 (replicate 4 65) True]"
    using read_lines_are_file_rows [OF r0 rtranclp.rtrancl_refl l, of 1 9] unfolding rows by (simp add: four)
  then show ?thesis
    using r0 by (auto simp: render_line_def numeral_eq_Suc)
qed

lemma cached_window:
  assumes "hr_cache r = [(0, w)]"
  shows "snd (window p r 0) = Inr w" and "hr_cache (fst (window p r 0)) = [(0, w)]"
  using assms by (simp_all add: window_def extract_Cons_code)

lemma cached_loop:
  assumes "hr_cache r = [(0, w)]" and "length w < wo_window_size (hr_options r)" and "position \<le> length w"
  shows "snd (read_range_loop p r position end_at out) = Inr (out @ take (end_at - position) (drop position w)) \<and>
    hr_cache (fst (read_range_loop p r position end_at out)) = [(0, w)]"
  using assms
proof (induction "end_at - position" arbitrary: r position out rule: less_induct)
  case less
  obtain r' where w: "window p r 0 = (r', Inr w)" and r': "hr_cache r' = [(0, w)]" "hr_options r' = hr_options r"
    using cached_window [OF less.prems(1), of p] window_frame(1) [of p r 0] by (metis prod.collapse)
  have zero: "position div wo_window_size (hr_options r) = 0"
    using less.prems(2,3) by simp
  consider "\<not> position < end_at" | "position < end_at" "position = length w" | "position < end_at" "position < length w"
    using less.prems(3) by linarith
  then show ?case
  proof cases
    case 3
    define n where "n = min (length w - position) (end_at - position)"
    have n: "0 < n" "n \<le> end_at - position" "position + n \<le> length w"
      using 3 by (simp_all add: n_def)
    have loop: "read_range_loop p r position end_at out = read_range_loop p r' (position + n) end_at (out @ take n (drop position w))"
      using 3 w zero by (subst read_range_loop.simps) (simp add: Let_def n_def)
    have "take n (drop position w) @ take (end_at - (position + n)) (drop (position + n) w) = take (end_at - position) (drop position w)"
    proof -
      have "n + (end_at - (position + n)) = end_at - position"
        using n(2) by simp
      then show ?thesis
        using take_add [of n "end_at - (position + n)" "drop position w"] by (simp add: add.commute)
    qed
    then show ?thesis
      using less.hyps [of "position + n" r' "out @ take n (drop position w)"] n 3 r' less.prems(2)
      by (simp add: loop)
  qed (use less.prems w zero r' in \<open>subst read_range_loop.simps; subst read_range_loop.simps; simp add: Let_def\<close>)+
qed

lemma cached_range:
  assumes "hr_cache r = [(0, w)]" and "length w < wo_window_size (hr_options r)" and "len \<le> U64_MAX"
  shows "snd (read_range p r 0 len) = Inr (take len w)" and "hr_cache (fst (read_range p r 0 len)) = [(0, w)]"
  using cached_loop [OF assms(1,2), of 0 p "min len U64_MAX" "[]"] assms(3)
  by (auto simp: read_range_def split: prod.splits sum.splits)

text \<open>
  A cached window outlives the file it was read from. When a short file whose only window is
  cached grows, \<open>refresh_len\<close> reports the new length, but a range read still answers with the
  bytes of the cached window whatever the file now holds, and its row is marked as the end of the
  file: the claim that a kept window stays valid unless the file shrank past it does not hold.
\<close>

lemma grown_file_reads_stale:
  assumes "hr_cache r = [(0, old)]" and "length old < 16" and "16 \<le> wo_window_size (hr_options r)"
    and "16 \<le> len" and "len \<le> U64_MAX" and "grown = fst (refresh_len (Inr len) r)"
  shows "hr_len grown = len \<and> snd (read_range p grown 0 len) = Inr old \<and>
    snd (read_lines p grown 0 1) = Inr [render_line 0 old True]"
proof -
  have g: "hr_cache grown = [(0, old)]" "hr_options grown = hr_options r" "hr_len grown = len"
    using assms(1,6) by (simp_all add: refresh_len_def)
  have range: "snd (read_range p grown 0 n) = Inr (take n old)" if "n \<le> U64_MAX" for n
    using cached_range(1) [OF g(1) _ that] assms(2,3) g(2) by simp
  have "snd (read_range p grown 0 len) = Inr old"
    using range [OF assms(5)] assms(2,4) by simp
  moreover have "snd (read_range p grown 0 (min len 16)) = Inr old"
    using range [of "min len 16"] assms(2,4,5) by (simp add: min_def)
  ultimately show ?thesis
    using g(3) assms(2,4) by (auto simp: read_lines_def Let_def split: prod.splits sum.splits)
qed

lemma grown_file_reads_stale_witness:
  "\<exists>r0. fresh_reader [1, 2, 3] default_options r0 \<and>
     snd (read_range (file_pread (replicate 20 9)) (fst (refresh_len (Inr 20) (fst (read_range (file_pread [1, 2, 3]) r0 0 3)))) 0 20)
       = Inr [1, 2, 3]"
proof -
  obtain r0 where r0: "fresh_reader [1, 2, 3] default_options r0"
    using fresh_reader_ex by blast
  then have init: "hr_cache r0 = []" "hr_options r0 = default_options"
    by (auto simp: fresh_reader_def reader_with_options_def default_options_def DEFAULT_WINDOW_SIZE_def DEFAULT_WINDOW_CAPACITY_def)
  let ?r1 = "fst (read_range (file_pread [1, 2, 3]) r0 0 3)"
  have "hr_cache ?r1 = [(0, [1, 2, 3])] \<and> hr_options ?r1 = default_options"
    by (simp add: read_range_def read_range_loop.simps window_def extract_Cons_code extract_Nil_code file_pread_def init default_options_def
      DEFAULT_WINDOW_SIZE_def DEFAULT_WINDOW_CAPACITY_def U64_MAX_def evict_take update_stats_def)
  with grown_file_reads_stale [of ?r1 "[1, 2, 3]" 20 _ "file_pread (replicate 20 9)"] r0 show ?thesis
    by (auto simp: default_options_def DEFAULT_WINDOW_SIZE_def U64_MAX_def)
qed

end
