(* ===== verification/Core_Types.thy ===== *)
theory Core_Types
  imports Rust_Str Core_Error
begin

section \<open>Shared value types\<close>

text \<open>
  Models \<^verbatim>\<open>crates/princess-core/src/types.rs\<close> and the value types and shared rules of
  \<^verbatim>\<open>crates/princess-core/src/traits.rs\<close>: the wire enumerations with their strings, the records the
  events carry, the artifact classification by file name, the exit attribution rule and the
  cancellation token, whose atomic flag is a boolean here; and the hashing helpers of
  \<^verbatim>\<open>hash.rs\<close>. A path is its byte string.
\<close>

subsection \<open>Paths\<close>

text \<open>\<open>Path::file_name\<close> on Unix: the last component, unless it is \<open>..\<close>; \<open>.\<close> and empty components
  after the first one do not count.\<close>

definition path_components :: "string \<Rightarrow> string list" where
  "path_components p =
     (let ps = split_char CHR ''/'' p
      in (if hd ps = ''.'' then [''.''] else []) @ filter (\<lambda>c. c \<noteq> [] \<and> c \<noteq> ''.'') ps)"

definition path_file_name :: "string \<Rightarrow> string option" where
  "path_file_name p =
     (let cs = path_components p
      in if cs = [] \<or> last cs = ''..'' \<or> last cs = ''.'' then None else Some (last cs))"

text \<open>Cut at the last occurrence.\<close>

definition rsplit_once :: "char \<Rightarrow> string \<Rightarrow> (string \<times> string) option" where
  "rsplit_once c s = map_option (\<lambda>(a, b). (rev b, rev a)) (split_once c (rev s))"

definition path_extension :: "string \<Rightarrow> string option" where
  "path_extension p =
     (case path_file_name p of
        None \<Rightarrow> None
      | Some name \<Rightarrow>
          (case rsplit_once CHR ''.'' name of
             None \<Rightarrow> None
           | Some (stem, ext) \<Rightarrow> if stem = [] then None else Some ext))"

subsection \<open>Wire enumerations\<close>

datatype log_stream = StreamBuild | SerialCom1 | QemuMonitor | GdbConsole | StreamIde

fun log_stream_str :: "log_stream \<Rightarrow> string" where
  "log_stream_str StreamBuild = ''build''"
| "log_stream_str SerialCom1 = ''serial.com1''"
| "log_stream_str QemuMonitor = ''qemu.monitor''"
| "log_stream_str GdbConsole = ''gdb.console''"
| "log_stream_str StreamIde = ''ide''"

datatype text_encoding = EncUtf8 | EncUtf8Lossy

fun encoding_str :: "text_encoding \<Rightarrow> string" where
  "encoding_str EncUtf8 = ''utf8''"
| "encoding_str EncUtf8Lossy = ''utf8-lossy''"

datatype diagnostic_severity = SevError | SevWarning | SevNote

datatype diagnostic_source = SrcClang | SrcGcc | SrcLd | SrcNasm

fun diagnostic_source_str :: "diagnostic_source \<Rightarrow> string" where
  "diagnostic_source_str SrcClang = ''clang''"
| "diagnostic_source_str SrcGcc = ''gcc''"
| "diagnostic_source_str SrcLd = ''ld''"
| "diagnostic_source_str SrcNasm = ''nasm''"

datatype build_status = BuildOk | BuildFailedStatus | BuildCancelled

fun build_status_str :: "build_status \<Rightarrow> string" where
  "build_status_str BuildOk = ''ok''"
| "build_status_str BuildFailedStatus = ''failed''"
| "build_status_str BuildCancelled = ''cancelled''"

datatype exit_reason = GuestShutdown | TripleFault | ExitTimeout | Killed

fun exit_reason_str :: "exit_reason \<Rightarrow> string" where
  "exit_reason_str GuestShutdown = ''guest-shutdown''"
| "exit_reason_str TripleFault = ''triple-fault''"
| "exit_reason_str ExitTimeout = ''timeout''"
| "exit_reason_str Killed = ''killed''"

datatype artifact_kind = ArtElf | ArtIso | ArtImage | ArtObject | ArtArchive | ArtOther

definition artifact_kind_from_path :: "string \<Rightarrow> artifact_kind" where
  "artifact_kind_from_path p =
     (case map_option (map ascii_lower) (path_extension p) of
        None \<Rightarrow> ArtOther
      | Some e \<Rightarrow>
          if e = ''elf'' then ArtElf
          else if e = ''iso'' then ArtIso
          else if e = ''img'' \<or> e = ''bin'' then ArtImage
          else if e = ''o'' \<or> e = ''obj'' then ArtObject
          else if e = ''a'' then ArtArchive
          else ArtOther)"

subsection \<open>Records on the wire\<close>

record artifact =
  af_path :: string
  af_kind :: artifact_kind
  af_size :: u64
  af_sha256 :: string

record source_location =
  sl_file :: string
  sl_line :: u32
  sl_column :: "u32 option"

record symbolicated_location =
  sy_symbol :: string
  sy_file :: string
  sy_line :: u32

type_synonym register_file = "string \<Rightarrow> string option"

datatype stub_mode = StubLaunch | StubAttach

record gdb_stub =
  gs_host :: string
  gs_port :: u16
  gs_mode :: stub_mode

definition stub_endpoint :: "gdb_stub \<Rightarrow> string" where
  "stub_endpoint s = gs_host s @ '':'' @ show_nat (unat (gs_port s))"

record serial_capture =
  sc_device :: string
  sc_tee_to_file :: "string option"

definition serial_capture_default :: serial_capture where
  "serial_capture_default = \<lparr>sc_device = ''com1'', sc_tee_to_file = None\<rparr>"

record tool_info =
  ti_name :: string
  ti_path :: "string option"
  ti_version :: "string option"
  ti_available :: bool
  ti_required :: bool

record toolchain_report =
  tr_tools :: "tool_info list"
  tr_ok :: bool

definition find_tool :: "toolchain_report \<Rightarrow> string \<Rightarrow> tool_info option" where
  "find_tool r name = find (\<lambda>t. ti_name t = name) (tr_tools r)"

definition missing_required :: "toolchain_report \<Rightarrow> tool_info list" where
  "missing_required r = filter (\<lambda>t. ti_required t \<and> \<not> ti_available t) (tr_tools r)"

record stack_frame =
  sf_id :: u64
  sf_name :: string
  sf_source :: "source_location option"
  sf_instruction_pointer :: string

record scope =
  so_name :: string
  so_variables_reference :: int
  so_expensive :: bool

record variable_info =
  vi_name :: string
  vi_value :: string
  vi_type_name :: "string option"
  vi_variables_reference :: int

record breakpoint_spec =
  bp_id :: string
  bp_file :: "string option"
  bp_line :: "u32 option"
  bp_address :: "string option"
  bp_condition :: "string option"
  bp_verified :: bool
  bp_location :: "source_location option"

record section_info =
  se_name :: string
  se_address :: u64
  se_size :: u64
  se_flags :: string

record symbol_info =
  si_name :: string
  si_address :: u64
  si_size :: u64
  si_kind :: string

record disassembled_instruction =
  di_address :: string
  di_bytes :: string
  di_text :: string
  di_symbol :: "string option"
  di_source :: "source_location option"

record ai_usage =
  au_prompt_tokens :: u64
  au_completion_tokens :: u64
  au_total_tokens :: u64

record chat_message =
  cm_role :: string
  cm_content :: string

subsection \<open>Cancellation\<close>

datatype cancel_token = CancelToken (ct_flag: bool)

definition token_cancel :: "cancel_token \<Rightarrow> cancel_token" where
  "token_cancel t = CancelToken True"

definition is_cancelled :: "cancel_token \<Rightarrow> bool" where
  "is_cancelled t = ct_flag t"

definition token_check :: "cancel_token \<Rightarrow> string \<Rightarrow> princess_error + unit" where
  "token_check t op_id = (if is_cancelled t then Inl (cancelled_error op_id) else Inr ())"

subsection \<open>Why a run ended\<close>

datatype boot_medium = MediumIso string | MediumKernel string | MediumDisk string

fun medium_path :: "boot_medium \<Rightarrow> string" where
  "medium_path (MediumIso p) = p"
| "medium_path (MediumKernel p) = p"
| "medium_path (MediumDisk p) = p"

record exit_facts =
  ef_exit_code :: "int option"
  ef_signal :: "int option"
  ef_timed_out :: bool
  ef_cancelled :: bool
  ef_guest_powered_off :: bool
  ef_triple_fault :: bool

definition classify_exit :: "exit_facts \<Rightarrow> exit_reason" where
  "classify_exit f =
     (if ef_cancelled f then Killed
      else if ef_timed_out f then ExitTimeout
      else if ef_triple_fault f then TripleFault
      else if ef_guest_powered_off f then GuestShutdown
      else case ef_exit_code f of
        Some code \<Rightarrow> if code = 0 then GuestShutdown else Killed
      | None \<Rightarrow> Killed)"

record debug_capabilities =
  dc_conditional_breakpoints :: bool
  dc_disassemble_request :: bool
  dc_read_memory :: bool
  dc_write_memory :: bool
  dc_restart :: bool
  dc_terminate :: bool
  dc_set_variable :: bool

definition debug_capabilities_default :: debug_capabilities where
  "debug_capabilities_default =
     \<lparr>dc_conditional_breakpoints = True, dc_disassemble_request = True, dc_read_memory = True,
      dc_write_memory = True, dc_restart = True, dc_terminate = True, dc_set_variable = False\<rparr>"

record binary_facts =
  bf_path :: string
  bf_format :: string
  bf_entry_point :: u64
  bf_build_id :: "string option"

subsection \<open>Hashes\<close>

text \<open>
  Models \<^verbatim>\<open>crates/princess-core/src/hash.rs\<close>. SHA-256 is a third-party function: the argument
  \<open>digest\<close>, of everything fed to the hasher. A file is what opening it gives: an error, or the
  results of the successive reads, where an empty block is the end.
\<close>

definition hex_digit :: "u8 \<Rightarrow> char" where
  "hex_digit n = ''0123456789abcdef'' ! unat n"

definition to_hex :: "u8 list \<Rightarrow> string" where
  "to_hex bytes = concat (map (\<lambda>b. [hex_digit (drop_bit 4 b), hex_digit (b AND 0x0f)]) bytes)"

definition sha256_hex :: "(string \<Rightarrow> u8 list) \<Rightarrow> string \<Rightarrow> string" where
  "sha256_hex digest bytes = to_hex (digest bytes)"

fun hash_blocks :: "string \<Rightarrow> (string + string) list \<Rightarrow> string \<Rightarrow> princess_error + string" where
  "hash_blocks path [] fed = Inr fed"
| "hash_blocks path (Inl err # rest) fed =
     Inl (internal_error (''cannot read '' @ path @ '' for hashing: '' @ err))"
| "hash_blocks path (Inr block # rest) fed =
     (if block = [] then Inr fed else hash_blocks path rest (fed @ block))"

definition sha256_file ::
  "(string \<Rightarrow> u8 list) \<Rightarrow> string \<Rightarrow> string + (string + string) list \<Rightarrow> princess_error + string" where
  "sha256_file digest path opened =
     (case opened of
        Inl err \<Rightarrow> Inl (not_found_error (''cannot open '' @ path @ '' for hashing: '' @ err))
      | Inr reads \<Rightarrow> and_then (hash_blocks path reads []) (\<lambda>fed. Inr (to_hex (digest fed))))"

definition file_size_and_hash ::
  "(string \<Rightarrow> u8 list) \<Rightarrow> string \<Rightarrow> string + u64 \<Rightarrow> string + (string + string) list \<Rightarrow>
   princess_error + (u64 \<times> string)" where
  "file_size_and_hash digest path stat opened =
     (case stat of
        Inl err \<Rightarrow> Inl (not_found_error (''cannot stat '' @ path @ '': '' @ err))
      | Inr sz \<Rightarrow> and_then (sha256_file digest path opened) (\<lambda>h. Inr (sz, h)))"

subsection \<open>Facts\<close>

lemma log_stream_str_inject [simp]: "log_stream_str a = log_stream_str b \<longleftrightarrow> a = b"
  by (cases a; cases b) simp_all

lemma encoding_str_inject [simp]: "encoding_str a = encoding_str b \<longleftrightarrow> a = b"
  by (cases a; cases b) simp_all

lemma exit_reason_str_inject [simp]: "exit_reason_str a = exit_reason_str b \<longleftrightarrow> a = b"
  by (cases a; cases b) simp_all

text \<open>Hashing a file in blocks is hashing its bytes.\<close>

lemma hash_blocks_concat:
  "\<forall>b \<in> set blocks. b \<noteq> [] \<Longrightarrow> hash_blocks path (map Inr blocks @ [Inr []]) fed = Inr (fed @ concat blocks)"
  by (induction blocks arbitrary: fed) auto

lemma sha256_file_is_hash_of_bytes:
  "\<forall>b \<in> set blocks. b \<noteq> [] \<Longrightarrow>
     sha256_file digest path (Inr (map Inr blocks @ [Inr []])) = Inr (sha256_hex digest (concat blocks))"
  by (simp add: sha256_file_def hash_blocks_concat sha256_hex_def)

lemma length_to_hex: "length (to_hex bytes) = 2 * length bytes"
  by (induction bytes) (simp_all add: to_hex_def)

end
