(* ===== verification/Event_Stream.thy ===== *)
theory Event_Stream
  imports Core_Types Monitor
begin

section \<open>The event stream\<close>

text \<open>
  Models \<^verbatim>\<open>crates/princess-core/src/event.rs\<close>: the fourteen event kinds and their payloads, the
  envelope, the recorder that numbers and writes events, and the checks and the reader of a
  recorded stream. JSON encoding and decoding is \<open>serde_json\<close>: the encoder of an event, the
  decoder of a line and the decoders of the payload types are arguments, as are the writer's
  \<open>write_all\<close> and \<open>flush\<close>. Times are numbers; \<open>seq\<close> is a 64-bit word, with the wrap-around of a
  release build. The printed lines of the recorder are lines in the sense of theory Monitor.
\<close>

subsection \<open>Kinds\<close>

datatype event_kind =
    KLogAppend | KBuildStarted | KBuildDiagnostic | KBuildFinished | KRunStarted | KRunFault
  | KRunExited | KDebugStopped | KDebugBreakpointChanged | KDebugOutput | KSymbolsIndexed
  | KArtifactChanged | KAiChunk | KAiFinished

fun kind_str :: "event_kind \<Rightarrow> string" where
  "kind_str KLogAppend = ''log.append''"
| "kind_str KBuildStarted = ''build.started''"
| "kind_str KBuildDiagnostic = ''build.diagnostic''"
| "kind_str KBuildFinished = ''build.finished''"
| "kind_str KRunStarted = ''run.started''"
| "kind_str KRunFault = ''run.fault''"
| "kind_str KRunExited = ''run.exited''"
| "kind_str KDebugStopped = ''debug.stopped''"
| "kind_str KDebugBreakpointChanged = ''debug.breakpoint.changed''"
| "kind_str KDebugOutput = ''debug.output''"
| "kind_str KSymbolsIndexed = ''symbols.indexed''"
| "kind_str KArtifactChanged = ''artifact.changed''"
| "kind_str KAiChunk = ''ai.chunk''"
| "kind_str KAiFinished = ''ai.finished''"

definition all_kinds :: "event_kind list" where
  "all_kinds =
     [KLogAppend, KBuildStarted, KBuildDiagnostic, KBuildFinished, KRunStarted, KRunFault,
      KRunExited, KDebugStopped, KDebugBreakpointChanged, KDebugOutput, KSymbolsIndexed,
      KArtifactChanged, KAiChunk, KAiFinished]"

definition kind_from_str_opt :: "string \<Rightarrow> event_kind option" where
  "kind_from_str_opt txt = find (\<lambda>k. kind_str k = txt) all_kinds"

subsection \<open>Payloads\<close>

record log_append =
  la_stream :: log_stream
  la_chunk :: string
  la_encoding :: text_encoding

record build_started =
  bs_backend :: string
  bs_toolchain_id :: string
  bs_argv :: "string list"
  bs_cwd :: string

record build_diagnostic =
  bd_severity :: diagnostic_severity
  bd_file :: "string option"
  bd_line :: "u32 option"
  bd_col :: "u32 option"
  bd_message :: string
  bd_source :: diagnostic_source

record build_finished =
  bn_status :: build_status
  bn_exit_code :: "int option"
  bn_duration_ms :: u64
  bn_artifacts :: "artifact list"

record run_started =
  rs_qemu_argv :: "string list"
  rs_gdb_stub :: "string option"

record run_fault =
  rf_vector :: string
  rf_rip :: u64
  rf_rip_text :: string
  rf_error_code :: u64
  rf_regs :: register_file
  rf_symbolicated :: "symbolicated_location option"

record run_exited =
  rx_exit_code :: "int option"
  rx_reason :: exit_reason
  rx_uptime_ms :: u64

datatype stop_reason = StopBreakpoint | StopStep | StopSignal | StopEntry

record debug_stopped =
  ds_reason :: stop_reason
  ds_thread_id :: int
  ds_frame :: stack_frame
  ds_regs :: register_file

record breakpoint_changed =
  bc_id :: string
  bc_verified :: bool
  bc_location :: "source_location option"

datatype output_category = OutConsole | OutStdout | OutStderr

record debug_output =
  do_category :: output_category
  do_text :: string

record symbols_indexed =
  sx_artifact :: string
  sx_build_id :: "string option"
  sx_symbol_count :: u64

record artifact_changed =
  ac_path :: string
  ac_kind :: artifact_kind

record ai_chunk =
  ai_request_id :: string
  ai_text :: string

record ai_finished =
  an_request_id :: string
  an_usage :: ai_usage

datatype event_body =
    LogAppend log_append | BuildStarted build_started | BuildDiagnostic build_diagnostic
  | BuildFinished build_finished | RunStarted run_started | RunFault run_fault
  | RunExited run_exited | DebugStopped debug_stopped | DebugBreakpointChanged breakpoint_changed
  | DebugOutput debug_output | SymbolsIndexed symbols_indexed | ArtifactChanged artifact_changed
  | AiChunk ai_chunk | AiFinished ai_finished

fun body_kind :: "event_body \<Rightarrow> event_kind" where
  "body_kind (LogAppend _) = KLogAppend"
| "body_kind (BuildStarted _) = KBuildStarted"
| "body_kind (BuildDiagnostic _) = KBuildDiagnostic"
| "body_kind (BuildFinished _) = KBuildFinished"
| "body_kind (RunStarted _) = KRunStarted"
| "body_kind (RunFault _) = KRunFault"
| "body_kind (RunExited _) = KRunExited"
| "body_kind (DebugStopped _) = KDebugStopped"
| "body_kind (DebugBreakpointChanged _) = KDebugBreakpointChanged"
| "body_kind (DebugOutput _) = KDebugOutput"
| "body_kind (SymbolsIndexed _) = KSymbolsIndexed"
| "body_kind (ArtifactChanged _) = KArtifactChanged"
| "body_kind (AiChunk _) = KAiChunk"
| "body_kind (AiFinished _) = KAiFinished"

text \<open>\<open>serde_json::from_value\<close> at the fourteen payload types, from a JSON value of type \<open>'v\<close>.\<close>

record 'v payload_decoders =
  pd_log_append :: "'v \<Rightarrow> string + log_append"
  pd_build_started :: "'v \<Rightarrow> string + build_started"
  pd_build_diagnostic :: "'v \<Rightarrow> string + build_diagnostic"
  pd_build_finished :: "'v \<Rightarrow> string + build_finished"
  pd_run_started :: "'v \<Rightarrow> string + run_started"
  pd_run_fault :: "'v \<Rightarrow> string + run_fault"
  pd_run_exited :: "'v \<Rightarrow> string + run_exited"
  pd_debug_stopped :: "'v \<Rightarrow> string + debug_stopped"
  pd_breakpoint_changed :: "'v \<Rightarrow> string + breakpoint_changed"
  pd_debug_output :: "'v \<Rightarrow> string + debug_output"
  pd_symbols_indexed :: "'v \<Rightarrow> string + symbols_indexed"
  pd_artifact_changed :: "'v \<Rightarrow> string + artifact_changed"
  pd_ai_chunk :: "'v \<Rightarrow> string + ai_chunk"
  pd_ai_finished :: "'v \<Rightarrow> string + ai_finished"

definition payload_err :: "event_kind \<Rightarrow> string \<Rightarrow> princess_error" where
  "payload_err k err = new_error Internal (''malformed '' @ kind_str k @ '' payload: '' @ err)"

definition decode_as :: "event_kind \<Rightarrow> ('a \<Rightarrow> event_body) \<Rightarrow> string + 'a \<Rightarrow> princess_error + event_body" where
  "decode_as k wrap res = (case res of Inl err \<Rightarrow> Inl (payload_err k err) | Inr p \<Rightarrow> Inr (wrap p))"

definition decode_payload :: "'v payload_decoders \<Rightarrow> event_kind \<Rightarrow> 'v \<Rightarrow> princess_error + event_body" where
  "decode_payload d k v =
     (case k of
        KLogAppend \<Rightarrow> decode_as k LogAppend (pd_log_append d v)
      | KBuildStarted \<Rightarrow> decode_as k BuildStarted (pd_build_started d v)
      | KBuildDiagnostic \<Rightarrow> decode_as k BuildDiagnostic (pd_build_diagnostic d v)
      | KBuildFinished \<Rightarrow> decode_as k BuildFinished (pd_build_finished d v)
      | KRunStarted \<Rightarrow> decode_as k RunStarted (pd_run_started d v)
      | KRunFault \<Rightarrow> decode_as k RunFault (pd_run_fault d v)
      | KRunExited \<Rightarrow> decode_as k RunExited (pd_run_exited d v)
      | KDebugStopped \<Rightarrow> decode_as k DebugStopped (pd_debug_stopped d v)
      | KDebugBreakpointChanged \<Rightarrow> decode_as k DebugBreakpointChanged (pd_breakpoint_changed d v)
      | KDebugOutput \<Rightarrow> decode_as k DebugOutput (pd_debug_output d v)
      | KSymbolsIndexed \<Rightarrow> decode_as k SymbolsIndexed (pd_symbols_indexed d v)
      | KArtifactChanged \<Rightarrow> decode_as k ArtifactChanged (pd_artifact_changed d v)
      | KAiChunk \<Rightarrow> decode_as k AiChunk (pd_ai_chunk d v)
      | KAiFinished \<Rightarrow> decode_as k AiFinished (pd_ai_finished d v))"


subsection \<open>The envelope\<close>

definition EVENT_MODEL_VERSION :: u32 where "EVENT_MODEL_VERSION = 1"

record event =
  ev_v :: u32
  ev_seq :: u64
  ev_ts :: int
  ev_op_id :: "string option"
  ev_body :: event_body

definition event_new :: "u64 \<Rightarrow> int \<Rightarrow> string option \<Rightarrow> event_body \<Rightarrow> event" where
  "event_new seq ts op_id body =
     \<lparr>ev_v = EVENT_MODEL_VERSION, ev_seq = seq, ev_ts = ts, ev_op_id = op_id, ev_body = body\<rparr>"

definition event_kind_of :: "event \<Rightarrow> event_kind" where
  "event_kind_of e = body_kind (ev_body e)"

definition event_validate :: "event \<Rightarrow> princess_error + unit" where
  "event_validate e =
     (if ev_v e \<noteq> EVENT_MODEL_VERSION
      then Inl (new_error Internal (''event model version '' @ show_nat (unat (ev_v e)) @
             '' is not supported by this engine (expected '' @ show_nat (unat EVENT_MODEL_VERSION) @ '')''))
      else if ev_seq e = 0 then Inl (internal_error ''event seq must start at 1'')
      else Inr ())"

text \<open>The entries of the JSON object, in the order they are written.\<close>

datatype entry =
    EntryNumber nat | EntryTime int | EntryOptional "string option" | EntryString string
  | EntryPayload event_body

definition event_entries :: "event \<Rightarrow> (string \<times> entry) list" where
  "event_entries e =
     [(''v'', EntryNumber (unat (ev_v e))), (''seq'', EntryNumber (unat (ev_seq e))),
      (''ts'', EntryTime (ev_ts e)), (''opId'', EntryOptional (ev_op_id e)),
      (''kind'', EntryString (kind_str (body_kind (ev_body e)))), (''payload'', EntryPayload (ev_body e))]"

text \<open>What is decoded before the kind is known.\<close>

record 'v event_wire =
  ew_v :: u32
  ew_seq :: u64
  ew_ts :: int
  ew_op_id :: "string option"
  ew_kind :: event_kind
  ew_payload :: 'v

definition event_of_wire :: "'v payload_decoders \<Rightarrow> 'v event_wire \<Rightarrow> princess_error + event" where
  "event_of_wire d w =
     and_then (decode_payload d (ew_kind w) (ew_payload w)) (\<lambda>body.
       Inr \<lparr>ev_v = ew_v w, ev_seq = ew_seq w, ev_ts = ew_ts w, ev_op_id = ew_op_id w, ev_body = body\<rparr>)"

text \<open>
  Deserialising an event: \<open>from_json\<close> reads the envelope, and \<open>custom\<close> turns the payload error into
  an error of the JSON library.
\<close>

definition event_from_str ::
  "(string \<Rightarrow> string + 'v event_wire) \<Rightarrow> (princess_error \<Rightarrow> string) \<Rightarrow> 'v payload_decoders \<Rightarrow> string \<Rightarrow> string + event"
where
  "event_from_str from_json custom d line =
     and_then (from_json line) (\<lambda>w. map_err custom (event_of_wire d w))"

text \<open>The encoder of the JSON library: the text of an object, or its error.\<close>

type_synonym json_encoder = "(string \<times> entry) list \<Rightarrow> string + string"

definition event_to_ndjson :: "json_encoder \<Rightarrow> event \<Rightarrow> princess_error + string" where
  "event_to_ndjson to_string e =
     (case to_string (event_entries e) of
        Inl err \<Rightarrow> Inl (error_of_json err)
      | Inr txt \<Rightarrow> Inr (txt @ [CHR 0x0A]))"

subsection \<open>The recorder\<close>

record 'w writer =
  wr_write_all :: "'w \<Rightarrow> string \<Rightarrow> 'w \<times> (string + unit)"
  wr_flush :: "'w \<Rightarrow> 'w \<times> (string + unit)"

record 'w recorder =
  rc_out :: 'w
  rc_next_seq :: u64
  rc_op_id :: "string option"

definition recorder_new :: "'w \<Rightarrow> 'w recorder" where
  "recorder_new out = \<lparr>rc_out = out, rc_next_seq = 1, rc_op_id = None\<rparr>"

definition with_op_id :: "'w recorder \<Rightarrow> string \<Rightarrow> 'w recorder" where
  "with_op_id r op_id = r\<lparr>rc_op_id := Some op_id\<rparr>"

definition set_op_id :: "'w recorder \<Rightarrow> string option \<Rightarrow> 'w recorder" where
  "set_op_id r op_id = r\<lparr>rc_op_id := op_id\<rparr>"

text \<open>The bytes are written, then flushed; a failure of either is one error.\<close>

definition recorder_write ::
  "json_encoder \<Rightarrow> 'w writer \<Rightarrow> 'w recorder \<Rightarrow> event \<Rightarrow> 'w recorder \<times> (princess_error + unit)" where
  "recorder_write to_string io r e =
     (let failed = (\<lambda>err. Inl (internal_error (''cannot write event stream: '' @ err)))
      in case event_to_ndjson to_string e of
        Inl err \<Rightarrow> (r, Inl err)
      | Inr line \<Rightarrow>
          (case wr_write_all io (rc_out r) line of
             (out, Inl err) \<Rightarrow> (r\<lparr>rc_out := out\<rparr>, failed err)
           | (out, Inr _) \<Rightarrow>
               (case wr_flush io out of
                  (out', Inl err) \<Rightarrow> (r\<lparr>rc_out := out'\<rparr>, failed err)
                | (out', Inr _) \<Rightarrow> (r\<lparr>rc_out := out'\<rparr>, Inr ()))))"

definition emit_at ::
  "json_encoder \<Rightarrow> 'w writer \<Rightarrow> 'w recorder \<Rightarrow> int \<Rightarrow> event_body \<Rightarrow> 'w recorder \<times> (princess_error + event)" where
  "emit_at to_string io r ts body =
     (let event = event_new (rc_next_seq r) ts (rc_op_id r) body
      in case event_validate event of
           Inl err \<Rightarrow> (r, Inl err)
         | Inr _ \<Rightarrow>
             (case recorder_write to_string io (r\<lparr>rc_next_seq := rc_next_seq r + 1\<rparr>) event of
                (r', Inl err) \<Rightarrow> (r', Inl err)
              | (r', Inr _) \<Rightarrow> (r', Inr event)))"

definition recorder_record ::
  "json_encoder \<Rightarrow> 'w writer \<Rightarrow> 'w recorder \<Rightarrow> event \<Rightarrow> 'w recorder \<times> (princess_error + unit)" where
  "recorder_record to_string io r e =
     (case event_validate e of
        Inl err \<Rightarrow> (r, Inl err)
      | Inr _ \<Rightarrow>
          recorder_write to_string io
            (if rc_next_seq r \<le> ev_seq e then r\<lparr>rc_next_seq := ev_seq e + 1\<rparr> else r) e)"

definition recorder_log ::
  "json_encoder \<Rightarrow> 'w writer \<Rightarrow> 'w recorder \<Rightarrow> int \<Rightarrow> log_stream \<Rightarrow> string \<Rightarrow>
   'w recorder \<times> (princess_error + event)" where
  "recorder_log to_string io r now stream chunk =
     emit_at to_string io r now (LogAppend \<lparr>la_stream = stream, la_chunk = chunk, la_encoding = EncUtf8\<rparr>)"

definition ensure_newline :: "string \<Rightarrow> string" where
  "ensure_newline txt = (if ends_with [CHR 0x0A] txt then txt else txt @ [CHR 0x0A])"

definition recorder_note ::
  "json_encoder \<Rightarrow> 'w writer \<Rightarrow> 'w recorder \<Rightarrow> int \<Rightarrow> string \<Rightarrow> 'w recorder \<times> (princess_error + event)" where
  "recorder_note to_string io r now txt = recorder_log to_string io r now StreamIde (ensure_newline txt)"

subsection \<open>Recorded streams\<close>

fun validate_from :: "u64 option \<Rightarrow> event list \<Rightarrow> princess_error + unit" where
  "validate_from seen [] = Inr ()"
| "validate_from seen (e # es) =
     and_then (event_validate e) (\<lambda>_.
       case seen of
         None \<Rightarrow> validate_from (Some (ev_seq e)) es
       | Some previous \<Rightarrow>
           if ev_seq e \<le> previous
           then Inl (new_error Internal (''event seq is not monotonic: '' @ show_nat (unat previous) @
                  '' then '' @ show_nat (unat (ev_seq e)) @ '' (kind '' @ kind_str (event_kind_of e) @ '')''))
           else validate_from (Some (ev_seq e)) es)"

definition validate_stream :: "event list \<Rightarrow> princess_error + unit" where
  "validate_stream es = validate_from None es"

text \<open>\<open>from_str\<close> reads the envelope; its failure and that of the payload are one error.\<close>

fun ndjson_loop ::
  "(string \<Rightarrow> string + event) \<Rightarrow> nat \<Rightarrow> string list \<Rightarrow> event list \<Rightarrow> princess_error + event list" where
  "ndjson_loop from_str i [] events = Inr events"
| "ndjson_loop from_str i (raw # rest) events =
     (let line = str_trim raw
      in if line = [] then ndjson_loop from_str (i + 1) rest events
         else case from_str line of
           Inl err \<Rightarrow>
             Inl (with_detail (new_error Internal
               (''line '' @ show_nat (i + 1) @ '' is not a valid PrincessIDE event: '' @ err)) line)
         | Inr e \<Rightarrow> ndjson_loop from_str (i + 1) rest (events @ [e]))"

definition parse_ndjson :: "(string \<Rightarrow> string + event) \<Rightarrow> string \<Rightarrow> princess_error + event list" where
  "parse_ndjson from_str txt = ndjson_loop from_str 0 (str_lines txt) []"

text \<open>\<open>{:04x}\<close> of the low sixteen bits; \<open>subsec\<close>, \<open>secs\<close> and \<open>pid\<close> come from the system.\<close>

definition new_op_id :: "u32 \<Rightarrow> u64 \<Rightarrow> u32 \<Rightarrow> string" where
  "new_op_id subsec secs pid =
     (let nanos = (ucast subsec :: u64) XOR secs
      in ''op-'' @ pad_left 4 CHR ''0'' (show_hex (unat ((nanos XOR push_bit 8 (ucast pid)) AND 0xffff))))"


subsection \<open>Facts: kinds and payloads\<close>

lemma kind_str_inject [simp]: "kind_str a = kind_str b \<longleftrightarrow> a = b"
  by (cases a; cases b) simp_all

lemma all_kinds_complete: "k \<in> set all_kinds"
  by (cases k) (simp_all add: all_kinds_def)

text \<open>
  C15. The kind and the payload of an event cannot disagree: a payload decoded for a kind is a body
  of that kind, whatever the JSON value, and a failure is an internal error; and the wire
  strings name the kinds one to one, which is what \<open>from_str_opt\<close> reads back.
\<close>

theorem kinds_and_payloads_agree:
  "(decode_payload d k v = Inr body \<longrightarrow> body_kind body = k) \<and>
   (decode_payload d k v = Inl err \<longrightarrow> pe_code err = Internal) \<and>
   (kind_from_str_opt txt = Some k' \<longleftrightarrow> kind_str k' = txt)"
proof (intro conjI)
  show "decode_payload d k v = Inr body \<longrightarrow> body_kind body = k"
    by (cases k) (auto simp: decode_payload_def decode_as_def split: sum.splits)
  show "decode_payload d k v = Inl err \<longrightarrow> pe_code err = Internal"
    by (cases k) (auto simp: decode_payload_def decode_as_def payload_err_def new_error_def split: sum.splits)
  show "kind_from_str_opt txt = Some k' \<longleftrightarrow> kind_str k' = txt"
  proof
    assume "kind_str k' = txt"
    then show "kind_from_str_opt txt = Some k'"
      using all_kinds_complete [of k'] kind_str_inject [of _ k']
      by (cases "find (\<lambda>k. kind_str k = txt) all_kinds")
        (auto simp: kind_from_str_opt_def find_None_iff find_Some_iff)
  qed (auto simp: kind_from_str_opt_def find_Some_iff)
qed

definition demo_decoders :: "string payload_decoders" where
  "demo_decoders =
     \<lparr>pd_log_append = (\<lambda>s. Inr \<lparr>la_stream = StreamIde, la_chunk = s, la_encoding = EncUtf8\<rparr>),
      pd_build_started = Inl, pd_build_diagnostic = Inl, pd_build_finished = Inl, pd_run_started = Inl,
      pd_run_fault = Inl, pd_run_exited = Inl, pd_debug_stopped = Inl, pd_breakpoint_changed = Inl,
      pd_debug_output = Inl, pd_symbols_indexed = Inl, pd_artifact_changed = Inl, pd_ai_chunk = Inl,
      pd_ai_finished = Inl\<rparr>"

lemma demo_decoded:
  "decode_payload demo_decoders KLogAppend s =
     Inr (LogAppend \<lparr>la_stream = StreamIde, la_chunk = s, la_encoding = EncUtf8\<rparr>)"
  by (simp add: decode_payload_def demo_decoders_def decode_as_def)

theorem kinds_and_payloads_agree_witness:
  "kind_from_str_opt ''run.fault'' = Some KRunFault \<and>
   body_kind (LogAppend \<lparr>la_stream = StreamIde, la_chunk = ''hi'', la_encoding = EncUtf8\<rparr>) = KLogAppend"
  using kinds_and_payloads_agree [of demo_decoders KLogAppend "''hi''" _ _ "''run.fault''" KRunFault] demo_decoded
  by auto

subsection \<open>Facts: recorded streams\<close>

text \<open>
  What a recorder has written: any sequence of operations, each with the events whose writing
  succeeded. A replayed event is in order when it comes after everything written before.
\<close>

inductive recorded :: "json_encoder \<Rightarrow> 'w writer \<Rightarrow> 'w \<Rightarrow> 'w recorder \<Rightarrow> event list \<Rightarrow> bool"
  for to_string io out where
  rec_new: "recorded to_string io out (recorder_new out) []"
| rec_op: "recorded to_string io out r es \<Longrightarrow> recorded to_string io out (set_op_id r op_id) es"
| rec_emit: "recorded to_string io out r es \<Longrightarrow> emit_at to_string io r ts body = (r', Inr e) \<Longrightarrow>
     recorded to_string io out r' (es @ [e])"
| rec_emit_failed: "recorded to_string io out r es \<Longrightarrow> emit_at to_string io r ts body = (r', Inl err) \<Longrightarrow>
     recorded to_string io out r' es"
| rec_replay: "recorded to_string io out r es \<Longrightarrow> \<forall>x \<in> set es. ev_seq x < ev_seq e \<Longrightarrow>
     recorder_record to_string io r e = (r', Inr ()) \<Longrightarrow> recorded to_string io out r' (es @ [e])"
| rec_replay_failed: "recorded to_string io out r es \<Longrightarrow> \<forall>x \<in> set es. ev_seq x < ev_seq e \<Longrightarrow>
     recorder_record to_string io r e = (r', Inl err) \<Longrightarrow> recorded to_string io out r' es"

inductive_cases recorded_NilE: "recorded to_string io out r []"

lemma recorder_write_fields [simp]:
  "recorder_write to_string io r e = (r', res) \<Longrightarrow> rc_next_seq r' = rc_next_seq r \<and> rc_op_id r' = rc_op_id r"
  by (auto simp: recorder_write_def Let_def split: sum.splits prod.splits)

lemma event_new_fields [simp]:
  "ev_v (event_new q ts p b) = EVENT_MODEL_VERSION" "ev_seq (event_new q ts p b) = q"
  by (simp_all add: event_new_def)

text \<open>\<open>seq\<close> 0 is what the counter wraps to: from there nothing more is emitted.\<close>

lemma emit_at_seq:
  assumes "emit_at to_string io r ts body = (r', res)"
  shows "res = Inr e \<Longrightarrow> ev_seq e = rc_next_seq r \<and> event_validate e = Inr () \<and> rc_next_seq r \<noteq> 0 \<and>
      rc_next_seq r' = rc_next_seq r + 1"
    and "rc_next_seq r' = rc_next_seq r + 1 \<and> rc_next_seq r \<noteq> 0 \<or> rc_next_seq r' = rc_next_seq r"
  using assms
  by (auto simp: emit_at_def Let_def event_validate_def split: if_splits sum.splits prod.splits
      dest!: recorder_write_fields)

lemma record_seq:
  assumes "recorder_record to_string io r e = (r', res)"
  shows "res = Inr () \<Longrightarrow> event_validate e = Inr ()"
    and "rc_next_seq r' = rc_next_seq r \<or> rc_next_seq r' = ev_seq e + 1"
    and "res = Inr () \<Longrightarrow> rc_next_seq r' = (if rc_next_seq r \<le> ev_seq e then ev_seq e + 1 else rc_next_seq r)"
  using assms
  by (auto simp: recorder_record_def event_validate_def split: if_splits sum.splits dest!: recorder_write_fields)

lemma word_plus_one: "a + 1 = 0 \<or> a < a + 1" for a :: u64
proof (cases "1 + a = 0")
  case False
  then show ?thesis
    using unatSuc [of a] by (simp add: word_less_nat_alt add.commute [of 1])
qed (simp add: add.commute)

lemma validate_from_iff:
  "validate_from seen es = Inr () \<longleftrightarrow>
     (\<forall>e \<in> set es. event_validate e = Inr ()) \<and> sorted_wrt (<) (map ev_seq es) \<and>
     (\<forall>q. seen = Some q \<longrightarrow> (\<forall>e \<in> set es. q < ev_seq e))"
proof (induction es arbitrary: seen)
  case (Cons e es)
  show ?case
    by (cases "event_validate e"; cases seen)
      (auto simp: Cons.IH not_le intro: less_trans)
qed simp

lemma recorded_invariant:
  assumes "recorded to_string io out r es"
  shows "validate_stream es = Inr () \<and> (rc_next_seq r = 0 \<or> (\<forall>x \<in> set es. ev_seq x < rc_next_seq r))"
  using assms
proof (induction rule: recorded.induct)
  case rec_new
  then show ?case by (simp add: validate_stream_def recorder_new_def)
next
  case (rec_op r es op_id)
  then show ?case by (simp add: set_op_id_def)
next
  case (rec_emit r es ts body r' e)
  then have "ev_seq e = rc_next_seq r" "event_validate e = Inr ()" "rc_next_seq r \<noteq> 0"
      "rc_next_seq r' = rc_next_seq r + 1" "\<forall>x \<in> set es. ev_seq x < rc_next_seq r"
    using emit_at_seq(1) [OF rec_emit.hyps(2) refl] by auto
  with rec_emit.IH word_plus_one [of "rc_next_seq r"] show ?case
    by (auto simp: validate_stream_def validate_from_iff sorted_wrt_append intro: less_trans)
next
  case (rec_emit_failed r es ts body r' err)
  with emit_at_seq(2) [OF rec_emit_failed.hyps(2)] word_plus_one [of "rc_next_seq r"] show ?case
    by (auto intro: less_trans)
next
  case (rec_replay r es e r')
  from record_seq(1,3) [OF rec_replay.hyps(3) refl] have e: "event_validate e = Inr ()"
    "rc_next_seq r' = (if rc_next_seq r \<le> ev_seq e then ev_seq e + 1 else rc_next_seq r)"
    by simp_all
  with rec_replay word_plus_one [of "ev_seq e"] show ?case
    by (auto simp: validate_stream_def validate_from_iff sorted_wrt_append intro: less_trans split: if_splits)
next
  case (rec_replay_failed r es e r' err)
  with record_seq(2) [OF rec_replay_failed.hyps(3)] word_plus_one [of "ev_seq e"] show ?case
    by (auto intro: less_trans)
qed

text \<open>A sink in memory, and the lines it holds.\<close>

definition memory_writer :: "string writer" where
  "memory_writer = \<lparr>wr_write_all = (\<lambda>w s. (w @ s, Inr ())), wr_flush = (\<lambda>w. (w, Inr ()))\<rparr>"

definition written :: "json_encoder \<Rightarrow> event list \<Rightarrow> string list \<Rightarrow> bool" where
  "written to_string es ls \<longleftrightarrow> list_all2 (\<lambda>e l. to_string (event_entries e) = Inr l) es ls"

lemma memory_write:
  "recorder_write to_string memory_writer r e =
     (case to_string (event_entries e) of
        Inl err \<Rightarrow> (r, Inl (error_of_json err))
      | Inr l \<Rightarrow> (r\<lparr>rc_out := rc_out r @ l @ [CHR 0x0A]\<rparr>, Inr ()))"
  by (simp add: recorder_write_def event_to_ndjson_def memory_writer_def Let_def split: sum.splits)

lemma written_snoc:
  "written to_string es ls \<Longrightarrow> to_string (event_entries e) = Inr l \<Longrightarrow> out = unlines ls \<Longrightarrow>
     \<exists>ls'. out @ l @ [CHR 0x0A] = unlines ls' \<and> written to_string (es @ [e]) ls'"
  by (rule exI [of _ "ls @ [l]"]) (simp add: written_def unlines_def list_all2_appendI)

lemma recorded_lines:
  assumes "recorded to_string memory_writer [] r es"
  shows "\<exists>ls. rc_out r = unlines ls \<and> written to_string es ls"
  using assms
proof (induction rule: recorded.induct)
  case rec_new
  then show ?case
    by (intro exI [of _ "[]"]) (simp add: recorder_new_def unlines_def written_def)
next
  case (rec_op r es op_id)
  then show ?case by (simp add: set_op_id_def)
next
  case (rec_emit r es ts body r' e)
  then show ?case
    by (auto simp: emit_at_def Let_def memory_write split: sum.splits dest: written_snoc)
next
  case (rec_emit_failed r es ts body r' err)
  then show ?case
    by (auto simp: emit_at_def Let_def memory_write split: sum.splits)
next
  case (rec_replay r es e r')
  then show ?case
    by (auto simp: recorder_record_def memory_write split: sum.splits if_splits dest: written_snoc)
next
  case (rec_replay_failed r es e r' err)
  then show ?case
    by (auto simp: recorder_record_def memory_write split: sum.splits if_splits)
qed

lemma str_lines_unlines:
  assumes "list_all clean_line ls"
  shows "str_lines (unlines ls) = ls"
proof -
  have "line_of_piece (l @ [CHR 0x0A]) = l" if "clean_line l" for l
  proof -
    have "last l \<noteq> CHR 0x0D" "l \<noteq> []"
      using that by (auto simp: clean_line_def ascii_graphic_def byte_of_def)
    then have "strip_cr l = l"
      by (cases l rule: rev_cases) (auto simp: strip_cr_def strip_suffix_def ends_with_def)
    then show ?thesis
      by (simp add: line_of_piece_def)
  qed
  moreover have "list_all (\<lambda>l. CHR 0x0A \<notin> set l) ls"
    using assms by (auto simp: list_all_iff clean_line_def)
  ultimately show ?thesis
    using assms by (simp add: str_lines_def split_unlines list_all_iff map_idI)
qed

lemma ndjson_loop_lines:
  "list_all2 (\<lambda>e l. str_trim l = l \<and> l \<noteq> [] \<and> from_str l = Inr e) es ls \<Longrightarrow>
     ndjson_loop from_str i ls acc = Inr (acc @ es)"
  by (induction es ls arbitrary: i acc rule: list_all2_induct) (simp_all add: Let_def)


lemma event_entries_inject: "event_entries e = event_entries e' \<Longrightarrow> e = e'"
  by (cases e; cases e') (auto simp: event_entries_def word_unat_eq_iff)

definition demo_event :: event where
  "demo_event =
     event_new 1 0 None (LogAppend \<lparr>la_stream = StreamIde, la_chunk = ''hi'', la_encoding = EncUtf8\<rparr>)"

definition demo_encoder :: json_encoder where
  "demo_encoder = (\<lambda>obj. if obj = event_entries demo_event then Inr ''{hi}'' else Inl ''no'')"

definition demo_reader :: "string \<Rightarrow> string + string event_wire" where
  "demo_reader l =
     (if l = ''{hi}''
      then Inr \<lparr>ew_v = 1, ew_seq = 1, ew_ts = 0, ew_op_id = None, ew_kind = KLogAppend, ew_payload = ''hi''\<rparr>
      else Inl ''no'')"


text \<open>
  The counter is exhausted, not reused: after an event with the largest sequence number the
  next one would be 0, and every later emission is refused with an internal error; and a replayed
  event is written even when it is older than what the stream already holds, so a stream the
  recorder wrote without an error can be one that \<open>validate_stream\<close> rejects.
\<close>

lemma recorder_counter_limits:
  "(rc_next_seq r = 0 \<longrightarrow> (\<exists>err. emit_at to_string io r ts body = (r, Inl err) \<and> pe_code err = Internal)) \<and>
   (event_validate e = Inr () \<and> ev_seq e = - 1 \<longrightarrow> rc_next_seq (fst (recorder_record to_string io r' e)) = 0) \<and>
   (event_validate e = Inr () \<and> to_string (event_entries e) = Inr l \<longrightarrow>
      (\<exists>r1 r2. recorder_record to_string memory_writer q e = (r1, Inr ()) \<and>
         recorder_record to_string memory_writer r1 e = (r2, Inr ()) \<and> validate_stream [e, e] \<noteq> Inr ()))"
proof (intro conjI impI)
  assume "rc_next_seq r = 0"
  then show "\<exists>err. emit_at to_string io r ts body = (r, Inl err) \<and> pe_code err = Internal"
    by (simp add: emit_at_def event_validate_def internal_error_def new_error_def Let_def)
next
  assume e: "event_validate e = Inr () \<and> ev_seq e = - 1"
  obtain r1 res where "recorder_record to_string io r' e = (r1, res)"
    by fastforce
  moreover from this have "recorder_write to_string io (r'\<lparr>rc_next_seq := ev_seq e + 1\<rparr>) e = (r1, res)"
    using e by (simp add: recorder_record_def)
  ultimately show "rc_next_seq (fst (recorder_record to_string io r' e)) = 0"
    using e recorder_write_fields by fastforce
next
  assume "event_validate e = Inr () \<and> to_string (event_entries e) = Inr l"
  then show "\<exists>r1 r2. recorder_record to_string memory_writer q e = (r1, Inr ()) \<and>
      recorder_record to_string memory_writer r1 e = (r2, Inr ()) \<and> validate_stream [e, e] \<noteq> Inr ()"
    by (simp add: recorder_record_def memory_write validate_stream_def validate_from_iff)
qed

theorem recorder_counter_limits_witness:
  "\<exists>r1 r2. recorder_record demo_encoder memory_writer (recorder_new []) demo_event = (r1, Inr ()) \<and>
     recorder_record demo_encoder memory_writer r1 demo_event = (r2, Inr ()) \<and>
     validate_stream [demo_event, demo_event] \<noteq> Inr ()"
proof -
  have "event_validate demo_event = Inr ()" "demo_encoder (event_entries demo_event) = Inr ''{hi}''"
    by (simp_all add: event_validate_def demo_event_def event_new_def EVENT_MODEL_VERSION_def demo_encoder_def)
  with recorder_counter_limits [of "recorder_new []" demo_encoder memory_writer 0 "ev_body demo_event" demo_event
      "recorder_new []" "''{hi}''" "recorder_new []"]
  show ?thesis by blast
qed

end
