(* ===== verification/Config.thy ===== *)
theory Config
  imports Event_Stream
begin

section \<open>The project manifest\<close>

text \<open>
  Models \<^verbatim>\<open>crates/princess-core/src/config.rs\<close>: the sections of \<open>princess.toml\<close> with their
  defaults, loading with its errors, the synthesised defaults for a project without a manifest,
  and the resolution of paths (expansion of \<open>~\<close> and variables, joining, lexical normalisation);
  and the plans of \<^verbatim>\<open>traits.rs\<close>, which carry configuration. The TOML parser is a third-party
  library and an argument; the file system, the environment and the current directory are
  arguments.
\<close>

subsection \<open>Selectors\<close>

datatype language = LangC | LangAsm | LangCpp | LangRust | LangZig | LangJava
datatype arch = ArchX86_64 | ArchI386 | ArchAarch64 | ArchRiscv64
datatype build_backend_kind = BackMake | BackCmake | BackCargo | BackZig | BackJavac | BackCustom
datatype run_backend_kind = RunQemu | RunJvm
datatype boot_protocol = Multiboot1 | Multiboot2 | BootUefi | BootRaw
datatype debug_backend_kind = DebugGdb
datatype ai_provider_kind = OpenAiCompatible | AiNone

fun build_backend_str :: "build_backend_kind \<Rightarrow> string" where
  "build_backend_str BackMake = ''make''"
| "build_backend_str BackCmake = ''cmake''"
| "build_backend_str BackCargo = ''cargo''"
| "build_backend_str BackZig = ''zig''"
| "build_backend_str BackJavac = ''javac''"
| "build_backend_str BackCustom = ''custom''"

fun run_backend_str :: "run_backend_kind \<Rightarrow> string" where
  "run_backend_str RunQemu = ''qemu''"
| "run_backend_str RunJvm = ''jvm''"

fun boot_str :: "boot_protocol \<Rightarrow> string" where
  "boot_str Multiboot1 = ''multiboot1''"
| "boot_str Multiboot2 = ''multiboot2''"
| "boot_str BootUefi = ''uefi''"
| "boot_str BootRaw = ''raw''"

fun debug_backend_str :: "debug_backend_kind \<Rightarrow> string" where
  "debug_backend_str DebugGdb = ''gdb''"

fun ai_provider_str :: "ai_provider_kind \<Rightarrow> string" where
  "ai_provider_str OpenAiCompatible = ''openai-compatible''"
| "ai_provider_str AiNone = ''none''"

subsection \<open>Sections\<close>

record project_section =
  pj_name :: "string option"
  pj_language :: language
  pj_arch :: arch

definition project_section_default :: project_section where
  "project_section_default = \<lparr>pj_name = None, pj_language = LangC, pj_arch = ArchX86_64\<rparr>"

record build_section =
  bu_backend :: build_backend_kind
  bu_command :: "string option"
  bu_cwd :: string
  bu_targets :: "string list"
  bu_artifacts :: "string list"
  bu_compile_commands :: "string option"
  bu_jobs :: "u32 option"

definition build_section_default :: build_section where
  "build_section_default =
     \<lparr>bu_backend = BackMake, bu_command = None, bu_cwd = ''.'', bu_targets = [], bu_artifacts = [],
      bu_compile_commands = Some ''compile_commands.json'', bu_jobs = None\<rparr>"

record serial_section =
  ss_device :: string
  ss_tee_to_file :: "string option"

definition DEFAULT_SERIAL_TEE :: string where "DEFAULT_SERIAL_TEE = ''build/serial.log''"
definition DEFAULT_RUN_TIMEOUT_MS :: u64 where "DEFAULT_RUN_TIMEOUT_MS = 15000"
definition DEFAULT_BOOT :: boot_protocol where "DEFAULT_BOOT = Multiboot2"
definition CONFIG_SCHEMA_VERSION :: u32 where "CONFIG_SCHEMA_VERSION = 1"
definition CONFIG_FILE_NAME :: string where "CONFIG_FILE_NAME = ''princess.toml''"

definition serial_section_default :: serial_section where
  "serial_section_default = \<lparr>ss_device = ''com1'', ss_tee_to_file = Some DEFAULT_SERIAL_TEE\<rparr>"

record run_section =
  ru_backend :: run_backend_kind
  ru_kernel :: "string option"
  ru_boot :: boot_protocol
  ru_args :: "string list"
  ru_timeout_ms :: u64
  ru_serial :: serial_section

definition run_section_default :: run_section where
  "run_section_default =
     \<lparr>ru_backend = RunQemu, ru_kernel = None, ru_boot = DEFAULT_BOOT, ru_args = [],
      ru_timeout_ms = DEFAULT_RUN_TIMEOUT_MS, ru_serial = serial_section_default\<rparr>"

record stub_section =
  st_host :: string
  st_port :: u16
  st_mode :: stub_mode

definition stub_section_default :: stub_section where
  "stub_section_default = \<lparr>st_host = ''127.0.0.1'', st_port = 1234, st_mode = StubLaunch\<rparr>"

record debug_section =
  de_backend :: debug_backend_kind
  de_symbols :: "string option"
  de_stub :: stub_section

definition debug_section_default :: debug_section where
  "debug_section_default =
     \<lparr>de_backend = DebugGdb, de_symbols = None, de_stub = stub_section_default\<rparr>"

record toolchain_section =
  tc_cc :: "string option"
  tc_assembler :: "string option"
  tc_ld :: "string option"
  tc_gdb :: "string option"

record ai_section =
  as_provider :: ai_provider_kind
  as_base_url :: string
  as_model :: string

definition ai_section_default :: ai_section where
  "ai_section_default = \<lparr>as_provider = AiNone, as_base_url = [], as_model = []\<rparr>"

record project_config =
  cf_schema :: u32
  cf_project :: project_section
  cf_build :: build_section
  cf_run :: run_section
  cf_debug :: debug_section
  cf_toolchain :: toolchain_section
  cf_ai :: ai_section

definition project_config_default :: project_config where
  "project_config_default =
     \<lparr>cf_schema = CONFIG_SCHEMA_VERSION, cf_project = project_section_default,
      cf_build = build_section_default, cf_run = run_section_default,
      cf_debug = debug_section_default,
      cf_toolchain = \<lparr>tc_cc = None, tc_assembler = None, tc_ld = None, tc_gdb = None\<rparr>,
      cf_ai = ai_section_default\<rparr>"

datatype config_source = SourceManifest string | SourceDefaults string

fun show_config_source :: "config_source \<Rightarrow> string" where
  "show_config_source (SourceManifest path) = path"
| "show_config_source (SourceDefaults reason) = ''engine defaults ('' @ reason @ '')''"

record loaded_config =
  lc_config :: project_config
  lc_source :: config_source
  lc_root :: string

subsection \<open>Paths\<close>

text \<open>\<open>Path::components\<close> on Unix.\<close>

datatype path_component = RootDir | CurDir | ParentDir | Normal string

definition component_of :: "string \<Rightarrow> path_component" where
  "component_of c = (if c = ''..'' then ParentDir else Normal c)"

definition components :: "string \<Rightarrow> path_component list" where
  "components p =
     (let ps = split_char CHR ''/'' p
      in (if starts_with ''/'' p then [RootDir] else if hd ps = ''.'' then [CurDir] else []) @
         map component_of (filter (\<lambda>c. c \<noteq> [] \<and> c \<noteq> ''.'') ps))"

definition is_absolute :: "string \<Rightarrow> bool" where
  "is_absolute p \<longleftrightarrow> starts_with ''/'' p"

definition path_join :: "string \<Rightarrow> string \<Rightarrow> string" where
  "path_join base p =
     (if is_absolute p then p
      else if base = [] \<or> last base = CHR ''/'' then base @ p
      else base @ CHR ''/'' # p)"

text \<open>
  The buffer \<open>out\<close> as the list of its components: \<open>pop\<close> removes the last one unless the buffer is
  empty or the root, and says whether it did.
\<close>

definition buf_pop :: "path_component list \<Rightarrow> path_component list \<times> bool" where
  "buf_pop out = (if out = [] \<or> last out = RootDir then (out, False) else (butlast out, True))"

fun normalize_loop :: "path_component list \<Rightarrow> path_component list \<Rightarrow> path_component list" where
  "normalize_loop [] out = out"
| "normalize_loop (CurDir # cs) out = normalize_loop cs out"
| "normalize_loop (ParentDir # cs) out =
     (case buf_pop out of (out', popped) \<Rightarrow> normalize_loop cs (if popped then out' else out' @ [ParentDir]))"
| "normalize_loop (c # cs) out = normalize_loop cs (out @ [c])"

fun component_text :: "path_component \<Rightarrow> string" where
  "component_text RootDir = ''/''"
| "component_text CurDir = ''.''"
| "component_text ParentDir = ''..''"
| "component_text (Normal s) = s"

definition render_path :: "path_component list \<Rightarrow> string" where
  "render_path cs =
     (case cs of
        RootDir # rest \<Rightarrow> ''/'' @ join ''/'' (map component_text rest)
      | _ \<Rightarrow> join ''/'' (map component_text cs))"

definition normalize :: "string \<Rightarrow> string" where
  "normalize p = (let out = normalize_loop (components p) [] in if out = [] then ''.'' else render_path out)"

definition absolute :: "string option \<Rightarrow> string \<Rightarrow> string" where
  "absolute cwd p =
     (if is_absolute p then normalize p
      else normalize (path_join (case cwd of None \<Rightarrow> ''/'' | Some d \<Rightarrow> d) p))"

definition ascii_alphabetic :: "char \<Rightarrow> bool" where
  "ascii_alphabetic c \<longleftrightarrow> 65 \<le> byte_of c \<and> byte_of c \<le> 90 \<or> 97 \<le> byte_of c \<and> byte_of c \<le> 122"

definition name_char :: "char \<Rightarrow> bool" where
  "name_char c \<longleftrightarrow> ascii_alphanumeric c \<or> c = CHR ''_''"

text \<open>The environment: \<open>None\<close> for a variable that is not set. The loop after the leading tilde.\<close>

type_synonym environment = "string \<Rightarrow> string option"

definition var_or_empty :: "environment \<Rightarrow> string \<Rightarrow> string" where
  "var_or_empty env name = (case env name of None \<Rightarrow> [] | Some v \<Rightarrow> v)"

lemma dropWhile_shorter: "length (dropWhile P xs) < Suc (Suc (length xs))"
  using length_dropWhile_le [of P xs] by simp

function expand_loop :: "environment \<Rightarrow> string \<Rightarrow> string" where
  "expand_loop env s =
     (case s of
        [] \<Rightarrow> []
      | c # rest \<Rightarrow>
          if c \<noteq> CHR ''$'' then c # expand_loop env rest
          else case rest of
            [] \<Rightarrow> ''$''
          | d # rest' \<Rightarrow>
              if d = CHR ''{'' then
                (case split_once CHR ''}'' rest' of
                   Some (name, after) \<Rightarrow> var_or_empty env name @ expand_loop env after
                 | None \<Rightarrow> ''${'' @ rest')
              else if ascii_alphabetic d \<or> d = CHR ''_'' then
                var_or_empty env (takeWhile name_char rest) @ expand_loop env (dropWhile name_char rest)
              else CHR ''$'' # expand_loop env rest)"
  by pat_completeness auto
termination
  by (relation "measure (\<lambda>(env, s). length s)")
    (auto dest: split_once_Some simp: dropWhile_shorter length_dropWhile_le le_imp_less_Suc)

declare expand_loop.simps [simp del]

definition expand_env :: "environment \<Rightarrow> string \<Rightarrow> string" where
  "expand_env env s =
     (if s = ''~'' then var_or_empty env ''HOME''
      else if starts_with ''~/'' s then var_or_empty env ''HOME'' @ expand_loop env (tl s)
      else expand_loop env s)"

definition resolve_path :: "environment \<Rightarrow> string \<Rightarrow> string \<Rightarrow> string" where
  "resolve_path env p root =
     (let expanded = expand_env env p
      in normalize (if is_absolute expanded then expanded else path_join root expanded))"


subsection \<open>Loading\<close>

text \<open>A TOML error: its message and the byte its span starts at, when it has one.\<close>

record toml_error =
  te_message :: string
  te_span_start :: "nat option"

definition error_line :: "string \<Rightarrow> nat \<Rightarrow> nat" where
  "error_line txt start = max 1 (length (str_lines (take (min start (length txt)) txt)))"

definition toml_failure :: "string \<Rightarrow> toml_error \<Rightarrow> princess_error" where
  "toml_failure txt err =
     (let error = new_error InvalidConfig (CONFIG_FILE_NAME @ '' is invalid: '' @ te_message err)
      in case te_span_start err of
           None \<Rightarrow> error
         | Some start \<Rightarrow>
             let n = error_line txt start; ls = str_lines txt
             in with_detail error
                  (''at line '' @ show_nat n @ '': '' @ str_trim (if n - 1 < length ls then ls ! (n - 1) else [])))"

definition from_toml_str :: "(string \<Rightarrow> toml_error + project_config) \<Rightarrow> string \<Rightarrow> princess_error + project_config" where
  "from_toml_str from_str txt =
     and_then (map_err (toml_failure txt) (from_str txt)) (\<lambda>config.
       if cf_schema config \<noteq> CONFIG_SCHEMA_VERSION
       then Inl (new_error InvalidConfig (''unsupported '' @ CONFIG_FILE_NAME @ '' schema '' @
              show_nat (unat (cf_schema config)) @ '': this engine implements schema '' @
              show_nat (unat CONFIG_SCHEMA_VERSION) @ '' (refusing to guess at an unknown format)''))
       else Inr config)"

text \<open>The file system as the loader sees it.\<close>

record file_system =
  fs_is_file :: "string \<Rightarrow> bool"
  fs_is_dir :: "string \<Rightarrow> bool"
  fs_read :: "string \<Rightarrow> string + string"

definition load ::
  "(string \<Rightarrow> toml_error + project_config) \<Rightarrow> file_system \<Rightarrow> string \<Rightarrow> princess_error + loaded_config" where
  "load from_str fs root =
     (let path = path_join root CONFIG_FILE_NAME
      in and_then (map_err (\<lambda>err. new_error InvalidConfig (''cannot read '' @ path @ '': '' @ err)) (fs_read fs path))
           (\<lambda>txt. and_then (from_toml_str from_str txt) (\<lambda>config.
              Inr \<lparr>lc_config = config, lc_source = SourceManifest path, lc_root = root\<rparr>)))"

definition has_iso_target :: "string \<Rightarrow> bool" where
  "has_iso_target makefile = list_ex (\<lambda>l. starts_with ''iso:'' (str_trim_start l)) (str_lines makefile)"

definition makefile_config :: "bool \<Rightarrow> project_config" where
  "makefile_config use_iso =
     project_config_default
       \<lparr>cf_build := build_section_default\<lparr>bu_backend := BackMake, bu_targets := (if use_iso then [''iso''] else []),
                       bu_artifacts := []\<rparr>,
        cf_run := run_section_default\<lparr>ru_args := [''-m'', ''256M'', ''-display'', ''none'', ''-no-reboot'']\<rparr>\<rparr>"

definition load_or_default ::
  "(string \<Rightarrow> toml_error + project_config) \<Rightarrow> file_system \<Rightarrow> string \<Rightarrow> princess_error + loaded_config" where
  "load_or_default from_str fs root =
     (if fs_is_file fs (path_join root CONFIG_FILE_NAME) then load from_str fs root
      else if \<not> fs_is_dir fs root
        then Inl (not_found_error (''project directory '' @ root @ '' does not exist''))
      else
        let makefile = path_join root ''Makefile''
        in if \<not> fs_is_file fs makefile
           then Inl (new_error InvalidConfig (root @ '' has no '' @ CONFIG_FILE_NAME @
                  '' and no Makefile: the engine cannot guess how to build it''))
           else
             let use_iso = has_iso_target (case fs_read fs makefile of Inl _ \<Rightarrow> [] | Inr txt \<Rightarrow> txt)
             in Inr \<lparr>lc_config = makefile_config use_iso,
                     lc_source = SourceDefaults (''no '' @ CONFIG_FILE_NAME @ '' in '' @ root @
                       ''; using Makefile-based engine defaults'' @ (if use_iso then '' with target `iso`'' else [])),
                     lc_root = root\<rparr>)"

subsection \<open>The resolved project\<close>

record resolved_project =
  rp_root :: string
  rp_build_cwd :: string
  rp_build_command :: "string option"
  rp_targets :: "string list"
  rp_declared_artifacts :: "string list"
  rp_compile_commands :: "string option"
  rp_kernel :: "string option"
  rp_serial_tee_to_file :: "string option"
  rp_symbols :: "string option"
  rp_config :: project_config

definition resolve_project :: "environment \<Rightarrow> string option \<Rightarrow> project_config \<Rightarrow> string \<Rightarrow> resolved_project" where
  "resolve_project env cwd c r =
     (let root = absolute cwd r; res = (\<lambda>p. resolve_path env p root)
      in \<lparr>rp_root = root, rp_build_cwd = res (bu_cwd (cf_build c)),
          rp_build_command = bu_command (cf_build c), rp_targets = bu_targets (cf_build c),
          rp_declared_artifacts = map res (bu_artifacts (cf_build c)),
          rp_compile_commands = map_option res (bu_compile_commands (cf_build c)),
          rp_kernel = map_option res (ru_kernel (cf_run c)),
          rp_serial_tee_to_file = map_option res (ss_tee_to_file (ru_serial (cf_run c))),
          rp_symbols = map_option res (de_symbols (cf_debug c)), rp_config = c\<rparr>)"

definition project_name :: "resolved_project \<Rightarrow> string" where
  "project_name p =
     (case pj_name (cf_project (rp_config p)) of
        Some n \<Rightarrow> n
      | None \<Rightarrow> (case path_file_name (rp_root p) of Some n \<Rightarrow> n | None \<Rightarrow> ''project''))"

subsection \<open>Plans\<close>

record build_plan =
  bl_backend :: build_backend_kind
  bl_toolchain_id :: string
  bl_argv :: "string list"
  bl_cwd :: string
  bl_env :: "string \<Rightarrow> string option"
  bl_declared_artifacts :: "string list"
  bl_timeout_ms :: "u64 option"

definition started_event :: "build_plan \<Rightarrow> build_started" where
  "started_event p =
     \<lparr>bs_backend = build_backend_str (bl_backend p), bs_toolchain_id = bl_toolchain_id p,
      bs_argv = bl_argv p, bs_cwd = bl_cwd p\<rparr>"

record run_plan =
  rn_backend :: string
  rn_argv :: "string list"
  rn_cwd :: string
  rn_boot_medium :: boot_medium
  rn_boot :: boot_protocol
  rn_timeout_ms :: u64
  rn_serial :: serial_capture
  rn_gdb_stub :: "gdb_stub option"

record run_outcome =
  ro_exit_code :: "int option"
  ro_reason :: exit_reason
  ro_uptime_ms :: u64
  ro_fault :: "run_fault option"
  ro_serial_log :: "string option"

definition exited_event :: "run_outcome \<Rightarrow> run_exited" where
  "exited_event o' =
     \<lparr>rx_exit_code = ro_exit_code o', rx_reason = ro_reason o', rx_uptime_ms = ro_uptime_ms o'\<rparr>"

subsection \<open>Facts: loading\<close>

lemma and_then_Inr: "and_then r f = Inr y \<longleftrightarrow> (\<exists>x. r = Inr x \<and> f x = Inr y)"
  by (cases r) auto

lemma map_err_Inr: "map_err g r = Inr y \<longleftrightarrow> r = Inr y"
  by (cases r) auto

text \<open>
  Loading never guesses: a configuration comes from the manifest, parsed and with the one
  supported schema version, whenever the manifest exists; or it is the synthesised default, which
  says so in its source, and then the directory exists, has no manifest and has a Makefile.
\<close>

lemma loading_never_guesses:
  assumes "load_or_default from_str fs root = Inr l"
  shows "lc_root l = root \<and>
    (if fs_is_file fs (path_join root CONFIG_FILE_NAME)
     then \<exists>txt. fs_read fs (path_join root CONFIG_FILE_NAME) = Inr txt \<and> from_str txt = Inr (lc_config l) \<and>
       cf_schema (lc_config l) = CONFIG_SCHEMA_VERSION \<and>
       lc_source l = SourceManifest (path_join root CONFIG_FILE_NAME)
     else fs_is_dir fs root \<and> fs_is_file fs (path_join root ''Makefile'') \<and>
       (\<exists>b reason. lc_config l = makefile_config b \<and> lc_source l = SourceDefaults reason))"
  using assms
  by (auto simp: load_or_default_def load_def from_toml_str_def Let_def and_then_Inr map_err_Inr split: if_splits)

definition demo_fs :: file_system where
  "demo_fs = \<lparr>fs_is_file = (\<lambda>p. p = ''/k/Makefile''), fs_is_dir = (\<lambda>p. p = ''/k''),
     fs_read = (\<lambda>p. Inr ''all:'')\<rparr>"

theorem loading_never_guesses_witness:
  "\<exists>l b. load_or_default (\<lambda>_. Inl \<lparr>te_message = [], te_span_start = None\<rparr>) demo_fs ''/k'' = Inr l \<and>
     lc_config l = makefile_config b"
proof -
  obtain l where l: "load_or_default (\<lambda>_. Inl \<lparr>te_message = [], te_span_start = None\<rparr>) demo_fs ''/k'' = Inr l"
    by (simp add: load_or_default_def demo_fs_def path_join_def is_absolute_def CONFIG_FILE_NAME_def Let_def)
  from loading_never_guesses [OF l] have "\<exists>b. lc_config l = makefile_config b"
    by (auto simp: demo_fs_def path_join_def is_absolute_def CONFIG_FILE_NAME_def)
  with l show ?thesis by blast
qed

subsection \<open>Facts: paths\<close>

text \<open>The root stays at the front of the buffer, and a path rendered from it is absolute.\<close>

lemma normalize_loop_root: "normalize_loop cs (RootDir # out) = RootDir # tl (normalize_loop cs (RootDir # out))"
proof (induction cs arbitrary: out)
  case (Cons c cs)
  show ?case
  proof (cases c)
    case ParentDir
    have "\<exists>out' b. buf_pop (RootDir # out) = (RootDir # out', b)"
      by (auto simp: buf_pop_def)
    then obtain out' b where pop: "buf_pop (RootDir # out) = (RootDir # out', b)"
      by blast
    show ?thesis
      using Cons.IH [of out'] Cons.IH [of "out' @ [ParentDir]"] by (cases b) (simp_all add: ParentDir pop)
  qed (use Cons.IH [of out] Cons.IH [of "out @ [c]"] in simp_all)
qed simp

lemma normalize_absolute: "is_absolute p \<Longrightarrow> is_absolute (normalize p)"
proof -
  assume "is_absolute p"
  then obtain cs where "components p = RootDir # cs"
    by (auto simp: is_absolute_def components_def Let_def)
  moreover have "normalize_loop (RootDir # cs) [] = normalize_loop cs [RootDir]"
    by simp
  ultimately have "\<exists>rest. normalize_loop (components p) [] = RootDir # rest"
    using normalize_loop_root [of cs "[]"] by metis
  then show ?thesis
    by (auto simp: normalize_def render_path_def is_absolute_def)
qed

lemma path_join_absolute: "is_absolute root \<Longrightarrow> is_absolute (path_join root p)"
  by (cases root) (auto simp: path_join_def is_absolute_def)

lemma resolve_path_absolute: "is_absolute root \<Longrightarrow> is_absolute (resolve_path env p root)"
  by (simp add: resolve_path_def Let_def normalize_absolute path_join_absolute)

lemma absolute_absolute: "(\<And>d. cwd = Some d \<Longrightarrow> is_absolute d) \<Longrightarrow> is_absolute (absolute cwd p)"
  by (cases cwd)
    (auto simp: absolute_def is_absolute_def [of "''/''"] intro!: normalize_absolute path_join_absolute)

text \<open>
  C16. Resolving a configuration makes every path of the project absolute, whatever the manifest
  says, the environment holds and the root is, provided the current directory is absolute, which
  the system guarantees.
\<close>

theorem resolved_paths_absolute:
  assumes "\<And>d. cwd = Some d \<Longrightarrow> is_absolute d"
  shows "let p = resolve_project env cwd c root
    in list_all is_absolute
         (rp_root p # rp_build_cwd p # rp_declared_artifacts p @
          concat (map (\<lambda>x. case x of None \<Rightarrow> [] | Some q \<Rightarrow> [q])
            [rp_compile_commands p, rp_kernel p, rp_serial_tee_to_file p, rp_symbols p]))"
proof -
  have "is_absolute (absolute cwd root)"
    using assms by (rule absolute_absolute)
  then have "is_absolute (resolve_path env p (absolute cwd root))" for p
    by (rule resolve_path_absolute)
  with \<open>is_absolute (absolute cwd root)\<close> show ?thesis
    by (auto simp: resolve_project_def Let_def list_all_iff map_option_case split: option.splits)
qed

theorem resolved_paths_absolute_witness:
  "is_absolute (rp_build_cwd (resolve_project (\<lambda>_. None) (Some ''/home'') project_config_default ''k''))"
  using resolved_paths_absolute [of "Some ''/home''" "\<lambda>_. None" project_config_default "''k''"]
  by (simp add: Let_def is_absolute_def)


text \<open>
  What \<open>.\<close> and \<open>..\<close> mean, lexically: \<open>..\<close> removes the name before it. A path that never climbs
  above its start has such a meaning.
\<close>

fun never_climbs :: "nat \<Rightarrow> path_component list \<Rightarrow> bool" where
  "never_climbs n [] \<longleftrightarrow> True"
| "never_climbs n (ParentDir # cs) \<longleftrightarrow> 0 < n \<and> never_climbs (n - 1) cs"
| "never_climbs n (Normal s # cs) \<longleftrightarrow> never_climbs (n + 1) cs"
| "never_climbs n (c # cs) \<longleftrightarrow> never_climbs n cs"

fun lexical :: "string list \<Rightarrow> path_component list \<Rightarrow> string list" where
  "lexical ns [] = ns"
| "lexical ns (ParentDir # cs) = lexical (butlast ns) cs"
| "lexical ns (Normal s # cs) = lexical (ns @ [s]) cs"
| "lexical ns (c # cs) = lexical ns cs"

lemma normalize_loop_lexical:
  "never_climbs (length ns) cs \<Longrightarrow> RootDir \<notin> set cs \<Longrightarrow> RootDir \<notin> set pre \<or> pre = [RootDir] \<Longrightarrow> pre = [] \<or> pre = [RootDir] \<Longrightarrow>
     normalize_loop cs (pre @ map Normal ns) = pre @ map Normal (lexical ns cs)"
proof (induction ns cs rule: lexical.induct)
  case (2 ns cs)
  then have "ns \<noteq> []" by auto
  then have "buf_pop (pre @ map Normal ns) = (pre @ map Normal (butlast ns), True)"
    by (cases ns rule: rev_cases) (simp_all add: buf_pop_def butlast_append)
  with 2 \<open>ns \<noteq> []\<close> show ?case by simp
next
  case (3 ns s cs)
  then show ?case using 3 by (simp flip: append_assoc map_append) simp
qed auto

definition plain_name :: "string \<Rightarrow> bool" where
  "plain_name s \<longleftrightarrow> s \<noteq> [] \<and> s \<noteq> ''.'' \<and> s \<noteq> ''..'' \<and> CHR ''/'' \<notin> set s"

lemma split_char_pieces: "p \<in> set (split_char c s) \<Longrightarrow> c \<notin> set p"
  by (induction c s arbitrary: p rule: split_char.induct) (auto split: if_splits list.splits)

lemma lexical_plain:
  "\<forall>s. Normal s \<in> set cs \<longrightarrow> plain_name s \<Longrightarrow> list_all plain_name ns \<Longrightarrow> list_all plain_name (lexical ns cs)"
  by (induction ns cs rule: lexical.induct) (auto simp: list_all_iff dest: in_set_butlastD)

lemma component_plain: "Normal s \<in> set (components p) \<Longrightarrow> plain_name s"
  by (auto simp: components_def Let_def component_of_def plain_name_def dest: split_char_pieces split: if_splits)

lemma split_join:
  "ns \<noteq> [] \<Longrightarrow> list_all plain_name ns \<Longrightarrow> split_char CHR ''/'' (join ''/'' ns) = ns"
  by (induction "''/''" ns rule: join.induct)
    (simp_all add: plain_name_def split_char_none split_char_append)

lemma components_plain:
  assumes "list_all plain_name ns"
  shows "components (''/'' @ join ''/'' ns) = RootDir # map Normal ns"
    and "ns \<noteq> [] \<Longrightarrow> components (join ''/'' ns) = map Normal ns"
proof -
  have keep: "map component_of (filter (\<lambda>c. c \<noteq> [] \<and> c \<noteq> ''.'') ns) = map Normal ns"
    using assms by (induction ns) (auto simp: plain_name_def component_of_def)
  have "split_char CHR ''/'' (''/'' @ t) = [] # split_char CHR ''/'' t" for t
    using split_char_append [of "CHR ''/''" "[]" t] by simp
  then show "components (''/'' @ join ''/'' ns) = RootDir # map Normal ns"
    using keep split_join [OF _ assms] by (cases "ns = []") (simp_all add: components_def Let_def split_char_none [of _ "[]"])
  assume "ns \<noteq> []"
  then have "plain_name (hd ns)" "join ''/'' ns \<noteq> []" "hd (join ''/'' ns) = hd (hd ns)"
    using assms by (induction "''/''" ns rule: join.induct) (auto simp: plain_name_def)
  moreover from this have "\<not> starts_with ''/'' (join ''/'' ns)"
    by (cases "join ''/'' ns") (auto simp: plain_name_def dest: hd_in_set)
  ultimately show "components (join ''/'' ns) = map Normal ns"
    using keep split_join [OF \<open>ns \<noteq> []\<close> assms] by (simp add: components_def Let_def plain_name_def)
qed


definition lexical_components :: "path_component list \<Rightarrow> path_component list" where
  "lexical_components cs =
     (let ns = lexical [] cs
      in if RootDir \<in> set cs then RootDir # map Normal ns
         else if ns = [] then [CurDir] else map Normal ns)"

lemma components_shape:
  obtains "RootDir \<notin> set (components p)"
  | cs where "components p = RootDir # cs" "RootDir \<notin> set cs"
proof -
  define rest where "rest = map component_of (filter (\<lambda>c. c \<noteq> [] \<and> c \<noteq> ''.'') (split_char CHR ''/'' p))"
  have "RootDir \<notin> set rest"
    by (auto simp: rest_def component_of_def)
  moreover have "components p \<in> {RootDir # rest, CurDir # rest, rest}"
    by (simp add: components_def Let_def rest_def)
  ultimately show thesis
    using that by auto
qed

lemma render_plain:
  assumes "list_all plain_name ns"
  shows "components (render_path (RootDir # map Normal ns)) = RootDir # map Normal ns"
    and "ns \<noteq> [] \<Longrightarrow> components (render_path (map Normal ns)) = map Normal ns"
  using components_plain [OF assms] by (cases ns; simp add: render_path_def comp_def)+

lemma components_normalize:
  assumes "never_climbs 0 (components p)"
  shows "components (normalize p) = lexical_components (components p)"
proof -
  have plain: "list_all plain_name (lexical [] (components p))"
    by (rule lexical_plain) (auto dest: component_plain)
  consider "RootDir \<notin> set (components p)" | cs where "components p = RootDir # cs" "RootDir \<notin> set cs"
    by (rule components_shape)
  then show ?thesis
  proof cases
    case 1
    then have "normalize_loop (components p) [] = map Normal (lexical [] (components p))"
      using normalize_loop_lexical [of "[]" "components p" "[]"] assms by simp
    moreover have "components ''.'' = [CurDir]"
      by (simp add: components_def)
    ultimately show ?thesis
      using 1 render_plain(2) [OF plain]
      by (simp add: normalize_def lexical_components_def Let_def)
  next
    case (2 cs)
    then have "normalize_loop (components p) [] = RootDir # map Normal (lexical [] (components p))"
      using normalize_loop_lexical [of "[]" cs "[RootDir]"] assms by simp
    then show ?thesis
      using 2 render_plain(1) [OF plain] by (simp add: normalize_def lexical_components_def Let_def)
  qed
qed

lemma lexical_names: "lexical ns (map Normal ms) = ns @ ms"
  by (induction ms arbitrary: ns) simp_all

lemma never_climbs_names: "never_climbs n (map Normal ms)"
  by (induction ms arbitrary: n) simp_all

lemma lexical_components_idem:
  "lexical_components (lexical_components cs) = lexical_components cs" "never_climbs 0 (lexical_components cs)"
  by (auto simp: lexical_components_def Let_def lexical_names never_climbs_names)

text \<open>
  On a path that never climbs above its start, \<open>normalize\<close> is the lexical meaning of \<open>.\<close> and
  \<open>..\<close>: the components of the result are the names left, with the root kept and \<open>.\<close> for nothing,
  and normalising again changes nothing. A path that does climb is outside that: \<open>../..\<close> loses
  both steps and becomes the current directory, and \<open>/..\<close> is left as it is.
\<close>

lemma normalize_is_lexical:
  "(never_climbs 0 (components p) \<longrightarrow>
      components (normalize p) = lexical_components (components p) \<and>
      components (normalize (normalize p)) = components (normalize p)) \<and>
   normalize ''../..'' = ''.'' \<and> normalize ''/..'' = ''/..''"
proof (intro conjI impI)
  assume p: "never_climbs 0 (components p)"
  show one: "components (normalize p) = lexical_components (components p)"
    using p by (rule components_normalize)
  have "never_climbs 0 (components (normalize p))"
    by (simp add: one lexical_components_idem(2))
  from components_normalize [OF this] show "components (normalize (normalize p)) = components (normalize p)"
    by (simp add: one lexical_components_idem(1))
next
  show "normalize ''../..'' = ''.''" "normalize ''/..'' = ''/..''"
    by (simp_all add: normalize_def components_def component_of_def buf_pop_def render_path_def)
qed

theorem normalize_is_lexical_witness:
  "components (normalize ''/k/./build/../src'') = [RootDir, Normal ''k'', Normal ''src'']"
  using normalize_is_lexical [of "''/k/./build/../src''"]
  by (simp add: components_def component_of_def lexical_components_def)

end
