(* ===== verification/Qemu_Plan.thy ===== *)
theory Qemu_Plan
  imports Config "HOL-Library.Sublist" "HOL-Library.Multiset"
begin

section \<open>The emulator's command line\<close>

text \<open>
  Models \<^verbatim>\<open>crates/princess-run/src/qemu.rs\<close> (and \<open>debug_log_from_argv\<close> and \<open>plan_with_stub\<close> of
  \<^verbatim>\<open>backend.rs\<close>): the split of the manifest's arguments, the check of the boot medium, the plan
  with its argument list, and the guard on an argument list. Opening the kernel and reading its
  first bytes is an argument. The debug assertions of \<open>plan_run\<close> are not part of a release build;
  they are shown to hold.
\<close>

subsection \<open>Arguments\<close>

definition ENGINE_OWNED_FLAGS :: "string list" where
  "ENGINE_OWNED_FLAGS =
     [''-serial'', ''-monitor'', ''-display'', ''-nographic'', ''-d'', ''-D'', ''-cdrom'', ''-boot'',
      ''-kernel'', ''-drive'', ''-no-reboot'', ''-s'', ''-S'', ''-gdb'']"

definition QEMU_DEBUG_ITEMS :: string where "QEMU_DEBUG_ITEMS = ''int,cpu_reset,guest_errors''"
definition QEMU_DEBUG_LOG_REL :: string where "QEMU_DEBUG_LOG_REL = ''build/qemu-debug.log''"

record plan_options =
  qo_timeout_ms :: "u64 option"
  qo_gdb_stub :: "gdb_stub option"
  qo_debug_log :: "string option"
  qo_qemu_data_dir :: "string option"
  qo_qemu_bin :: string

record partitioned_args =
  pa_kept :: "string list"
  pa_dropped :: "string list"

definition dropped_note :: "partitioned_args \<Rightarrow> string option" where
  "dropped_note p =
     (if pa_dropped p = [] then None
      else Some (''[run] args repeats emulator flags the engine owns and enforces (D9); ignoring: '' @
                 join '' '' (pa_dropped p)))"

definition engine_owned :: "string \<Rightarrow> bool" where
  "engine_owned t \<longleftrightarrow> t \<in> set ENGINE_OWNED_FLAGS"

definition keep_arg :: "string \<Rightarrow> partitioned_args \<Rightarrow> partitioned_args" where
  "keep_arg t p = p\<lparr>pa_kept := t # pa_kept p\<rparr>"

definition drop_arg :: "string \<Rightarrow> partitioned_args \<Rightarrow> partitioned_args" where
  "drop_arg t p = p\<lparr>pa_dropped := t # pa_dropped p\<rparr>"

fun partition_args :: "string list \<Rightarrow> partitioned_args" where
  "partition_args [] = \<lparr>pa_kept = [], pa_dropped = []\<rparr>"
| "partition_args (token # rest) =
     (if engine_owned token then
        (case rest of
           [] \<Rightarrow> drop_arg token (partition_args [])
         | v # rest' \<Rightarrow>
             if \<not> starts_with ''-'' v then drop_arg token (drop_arg v (partition_args rest'))
             else drop_arg token (partition_args (v # rest')))
      else keep_arg token (partition_args rest))"

record plan_inputs =
  pi_root :: string
  pi_cwd :: string
  pi_args :: "string list"
  pi_boot :: boot_protocol
  pi_timeout_ms :: u64
  pi_serial_device :: string
  pi_serial_tee :: "string option"

subsection \<open>The boot medium\<close>

datatype elf_class = Elf32 | Elf64 | ElfOther

text \<open>\<open>open_ident\<close>: the error of opening the file, or the bytes its first read of five gives.\<close>

definition classify_elf :: "(string \<Rightarrow> string + string) \<Rightarrow> string \<Rightarrow> princess_error + elf_class" where
  "classify_elf open_ident path =
     (case open_ident path of
        Inl err \<Rightarrow> Inl (not_found_error (''cannot open '' @ path @ '': '' @ err))
      | Inr ident \<Rightarrow>
          if length ident < 5 \<or> take 4 ident \<noteq> CHR 0x7F # ''ELF'' then Inr ElfOther
          else Inr (if byte_of (ident ! 4) = 1 then Elf32 else if byte_of (ident ! 4) = 2 then Elf64 else ElfOther))"

definition check_medium :: "(string \<Rightarrow> string + string) \<Rightarrow> boot_medium \<Rightarrow> princess_error + unit" where
  "check_medium open_ident medium =
     (case medium of
        MediumKernel path \<Rightarrow>
          if path = [] then Inl (invalid_config_error
            ''kernel path is empty: refusing to start an emulator with nothing to boot'')
          else and_then (classify_elf open_ident path) (\<lambda>class.
            if class = Elf64 then Inl (with_detail (new_error InvalidConfig
              (path @ '' is ELF64: QEMU's -kernel multiboot loader only accepts a 32-bit image (D2)''))
              ''Boot an x86_64 kernel through a GRUB ISO instead: `-cdrom <iso> -boot d`'')
            else Inr ())
      | _ \<Rightarrow>
          if medium_path medium = [] then Inl (invalid_config_error
            ''boot medium path is empty: refusing to start an emulator with nothing to boot'')
          else Inr ())"

subsection \<open>The plan\<close>

definition debug_log_path :: "plan_inputs \<Rightarrow> plan_options \<Rightarrow> string" where
  "debug_log_path inputs options =
     (case qo_debug_log options of
        Some p \<Rightarrow> p
      | None \<Rightarrow> path_join (pi_root inputs) QEMU_DEBUG_LOG_REL)"

fun medium_args :: "boot_medium \<Rightarrow> string list" where
  "medium_args (MediumIso path) = [''-cdrom'', path, ''-boot'', ''d'']"
| "medium_args (MediumKernel path) = [''-kernel'', path]"
| "medium_args (MediumDisk path) = [''-drive'', ''file='' @ path @ '',format=raw,if=floppy'']"

definition capture_args :: "string list" where
  "capture_args =
     [''-display'', ''none'', ''-monitor'', ''none'', ''-serial'', ''stdio'', ''-no-reboot'']"

definition plan_argv :: "plan_inputs \<Rightarrow> boot_medium \<Rightarrow> plan_options \<Rightarrow> string list" where
  "plan_argv inputs medium options =
     [qo_qemu_bin options] @
     (case qo_qemu_data_dir options of None \<Rightarrow> [] | Some data \<Rightarrow> [''-L'', data]) @
     pa_kept (partition_args (pi_args inputs)) @
     medium_args medium @
     capture_args @
     [''-d'', QEMU_DEBUG_ITEMS, ''-D'', debug_log_path inputs options] @
     (if qo_gdb_stub options \<noteq> None then [''-s''] else [])"

definition plan_run ::
  "(string \<Rightarrow> string + string) \<Rightarrow> plan_inputs \<Rightarrow> boot_medium \<Rightarrow> plan_options \<Rightarrow> princess_error + run_plan" where
  "plan_run open_ident inputs medium options =
     (if qo_qemu_bin options = [] then Inl (new_error ToolchainMissing
        ''no qemu-system-x86_64 binary was resolved; run `bash scripts/bootstrap-toolchain.sh`'')
      else and_then (check_medium open_ident medium) (\<lambda>_.
        Inr \<lparr>rn_backend = ''qemu'', rn_argv = plan_argv inputs medium options, rn_cwd = pi_cwd inputs,
             rn_boot_medium = medium, rn_boot = pi_boot inputs,
             rn_timeout_ms = (case qo_timeout_ms options of None \<Rightarrow> pi_timeout_ms inputs | Some t \<Rightarrow> t),
             rn_serial = \<lparr>sc_device = pi_serial_device inputs, sc_tee_to_file = pi_serial_tee inputs\<rparr>,
             rn_gdb_stub = qo_gdb_stub options\<rparr>))"

definition default_stub :: "string \<Rightarrow> u16 \<Rightarrow> stub_mode \<Rightarrow> gdb_stub" where
  "default_stub host port mode = \<lparr>gs_host = host, gs_port = port, gs_mode = mode\<rparr>"

subsection \<open>The guard\<close>

fun value_after :: "string \<Rightarrow> string list \<Rightarrow> string option" where
  "value_after flag [] = None"
| "value_after flag (t # ts) =
     (if t = flag then (case ts of [] \<Rightarrow> None | v # _ \<Rightarrow> Some v) else value_after flag ts)"

definition debug_option :: "string option \<Rightarrow> string" where
  "debug_option v = (case v of None \<Rightarrow> ''None'' | Some s \<Rightarrow> ''Some('' @ debug_str s @ '')'')"

definition check_argv_contract :: "string list \<Rightarrow> princess_error + unit" where
  "check_argv_contract argv =
     (let got = (\<lambda>flag. debug_option (value_after flag argv)) in
      if ''-nographic'' \<in> set argv then Inl (internal_error
        ''QEMU argv contains -nographic, which D9 forbids: it multiplexes the monitor onto the serial stream'')
      else if value_after ''-serial'' argv \<noteq> Some ''stdio'' then Inl (internal_error
        (''QEMU argv must carry `-serial stdio` (D9); got '' @ got ''-serial''))
      else if value_after ''-monitor'' argv \<noteq> Some ''none'' then Inl (internal_error
        (''QEMU argv must carry `-monitor none` (D9); got '' @ got ''-monitor''))
      else if value_after ''-display'' argv \<noteq> Some ''none'' then Inl (internal_error
        (''QEMU argv must carry `-display none` (D9); got '' @ got ''-display''))
      else if value_after ''-d'' argv \<noteq> Some QEMU_DEBUG_ITEMS then Inl (internal_error
        (''QEMU argv must carry `-d '' @ QEMU_DEBUG_ITEMS @
         ''` so a triple fault is observable (D9); got '' @ got ''-d''))
      else if ''-D'' \<notin> set argv then Inl (internal_error
        ''QEMU argv has -d but no -D: the debug output would go to stderr and be lost'')
      else Inr ())"

definition debug_log_from_argv :: "string list \<Rightarrow> string option" where
  "debug_log_from_argv argv = value_after ''-D'' argv"

record run_options =
  rq_plan :: plan_options
  rq_env :: "string \<Rightarrow> string option"
  rq_keep_debug_log :: bool
  rq_stub_defaults :: "(string \<times> u16) option"

definition plan_with_stub ::
  "(string \<Rightarrow> string + string) \<Rightarrow> plan_inputs \<Rightarrow> boot_medium \<Rightarrow> run_options \<Rightarrow> princess_error + run_plan" where
  "plan_with_stub open_ident inputs medium options =
     (let p = rq_plan options
      in plan_run open_ident inputs medium
           (if qo_gdb_stub p = None
            then (case rq_stub_defaults options of
                    None \<Rightarrow> p
                  | Some (host, port) \<Rightarrow> p\<lparr>qo_gdb_stub := Some (default_stub host port StubLaunch)\<rparr>)
            else p))"

subsection \<open>Facts: the split of the arguments\<close>

lemma partition_fields [simp]:
  "pa_kept (keep_arg t p) = t # pa_kept p" "pa_dropped (keep_arg t p) = pa_dropped p"
  "pa_kept (drop_arg t p) = pa_kept p" "pa_dropped (drop_arg t p) = t # pa_dropped p"
  by (simp_all add: keep_arg_def drop_arg_def)

declare partition_args.simps(2) [simp del]

lemma partition_simps [simp]:
  "\<not> engine_owned t \<Longrightarrow> partition_args (t # r) = keep_arg t (partition_args r)"
  "engine_owned t \<Longrightarrow> partition_args [t] = drop_arg t (partition_args [])"
  "engine_owned t \<Longrightarrow> \<not> starts_with ''-'' v \<Longrightarrow>
     partition_args (t # v # r) = drop_arg t (drop_arg v (partition_args r))"
  "engine_owned t \<Longrightarrow> starts_with ''-'' v \<Longrightarrow> partition_args (t # v # r) = drop_arg t (partition_args (v # r))"
  by (simp_all add: partition_args.simps(2))

lemma partition_args_split:
  "subseq (pa_kept (partition_args args)) args \<and> (\<forall>t \<in> set (pa_kept (partition_args args)). \<not> engine_owned t) \<and>
   mset (pa_kept (partition_args args)) + mset (pa_dropped (partition_args args)) = mset args"
proof (induction args rule: length_induct)
  case (1 args)
  show ?case
  proof (cases args)
    case (Cons t r)
    show ?thesis
    proof (cases "engine_owned t")
      case True
      show ?thesis
      proof (cases r)
        case (Cons v r')
        have "length r < length args" "length r' < length args"
          using \<open>args = t # r\<close> Cons by simp_all
        then show ?thesis
          using 1 [rule_format, of r] 1 [rule_format, of r'] True \<open>args = t # r\<close> Cons
          by (cases "starts_with ''-'' v") auto
      qed (use True Cons in simp)
    qed (use 1 [rule_format, of r] Cons in auto)
  qed simp
qed

lemmas partition_args_kept = partition_args_split [THEN conjunct1] partition_args_split [THEN conjunct2, THEN conjunct1]
lemmas partition_args_mset = partition_args_split [THEN conjunct2, THEN conjunct2]

lemma partition_args_unowned:
  "\<forall>t \<in> set args. \<not> engine_owned t \<Longrightarrow> partition_args args = \<lparr>pa_kept = args, pa_dropped = []\<rparr>"
  by (induction args) (auto simp: keep_arg_def)

subsection \<open>Facts: the plan keeps the contract\<close>

lemma value_after_skip: "flag \<notin> set xs \<Longrightarrow> value_after flag (xs @ ys) = value_after flag ys"
  by (induction xs) auto

lemma value_after_member: "value_after flag ts = Some v \<Longrightarrow> flag \<in> set ts"
  by (induction ts) (auto split: if_splits)

text \<open>What comes before the capture flags, and the words of it that are not literals.\<close>

definition plan_words :: "plan_inputs \<Rightarrow> boot_medium \<Rightarrow> plan_options \<Rightarrow> string list" where
  "plan_words inputs medium options =
     [qo_qemu_bin options, medium_path medium, debug_log_path inputs options] @
     (case qo_qemu_data_dir options of None \<Rightarrow> [] | Some d \<Rightarrow> [d])"

definition plan_front :: "plan_inputs \<Rightarrow> boot_medium \<Rightarrow> plan_options \<Rightarrow> string list" where
  "plan_front inputs medium options =
     [qo_qemu_bin options] @
     (case qo_qemu_data_dir options of None \<Rightarrow> [] | Some data \<Rightarrow> [''-L'', data]) @
     pa_kept (partition_args (pi_args inputs)) @ medium_args medium"

definition plan_back :: "plan_inputs \<Rightarrow> plan_options \<Rightarrow> string list" where
  "plan_back inputs options =
     capture_args @ [''-d'', QEMU_DEBUG_ITEMS, ''-D'', debug_log_path inputs options] @
     (if qo_gdb_stub options \<noteq> None then [''-s''] else [])"

lemma plan_argv_parts: "plan_argv inputs medium options = plan_front inputs medium options @ plan_back inputs options"
  by (simp add: plan_argv_def plan_front_def plan_back_def)

lemma plan_front_free:
  assumes "\<forall>w \<in> set (plan_words inputs medium options). \<not> engine_owned w"
    and "flag \<in> {''-nographic'', ''-serial'', ''-monitor'', ''-display'', ''-d'', ''-D'', ''-no-reboot''}"
  shows "flag \<notin> set (plan_front inputs medium options)"
proof -
  have owned: "engine_owned flag"
    using assms(2) by (auto simp: engine_owned_def ENGINE_OWNED_FLAGS_def)
  have kept: "flag \<notin> set (pa_kept (partition_args (pi_args inputs)))"
    using partition_args_kept(2) [of "pi_args inputs"] owned by auto
  have words: "flag \<noteq> w" if "w \<in> set (plan_words inputs medium options)" for w
    using assms(1) owned that by auto
  have m: "flag \<notin> set (medium_args medium)"
    using words [of "medium_path medium"] assms(2) by (cases medium) (auto simp: plan_words_def)
  have d: "flag \<notin> set (case qo_qemu_data_dir options of None \<Rightarrow> [] | Some data \<Rightarrow> [''-L'', data])"
    using words assms(2) by (auto simp: plan_words_def split: option.splits)
  have "flag \<noteq> qo_qemu_bin options"
    using words by (simp add: plan_words_def)
  then show ?thesis
    using kept m d by (simp add: plan_front_def)
qed

lemma plan_argv_values:
  assumes "\<forall>w \<in> set (plan_words inputs medium options). \<not> engine_owned w"
  shows "value_after ''-serial'' (plan_argv inputs medium options) = Some ''stdio''"
    and "value_after ''-monitor'' (plan_argv inputs medium options) = Some ''none''"
    and "value_after ''-display'' (plan_argv inputs medium options) = Some ''none''"
    and "value_after ''-d'' (plan_argv inputs medium options) = Some QEMU_DEBUG_ITEMS"
    and "value_after ''-D'' (plan_argv inputs medium options) = Some (debug_log_path inputs options)"
  using plan_front_free [OF assms]
  by (simp_all add: plan_argv_parts value_after_skip plan_back_def capture_args_def QEMU_DEBUG_ITEMS_def)

lemma plan_back_counts:
  assumes "\<not> engine_owned (debug_log_path inputs options)"
  shows "''-nographic'' \<notin> set (plan_back inputs options)"
    and "count_list (plan_back inputs options) ''-serial'' = 1"
    and "count_list (plan_back inputs options) ''-monitor'' = 1"
  using assms
  by (auto simp: plan_back_def capture_args_def QEMU_DEBUG_ITEMS_def engine_owned_def ENGINE_OWNED_FLAGS_def)

lemma plan_run_Inr:
  assumes "plan_run open_ident inputs medium options = Inr p"
  shows "rn_argv p = plan_argv inputs medium options" "rn_gdb_stub p = qo_gdb_stub options"
    "medium = MediumKernel path \<Longrightarrow> classify_elf open_ident path \<noteq> Inr Elf64"
  using assms by (auto simp: plan_run_def check_medium_def res_simps split: if_splits)

text \<open>
  C22. The planned command line keeps the engine's contract whatever the manifest says, unless a
  path of the plan is itself spelled like one of the engine's flags: the guard accepts it, the
  serial and monitor flags occur once each (the debug assertions of the code), the debug log is
  found again in it, and a 64-bit kernel is never planned for direct loading. The manifest's
  arguments are split, not lost: those kept are not the engine's, in their order, and kept and
  dropped together are the arguments. But a flag of the engine that takes no value takes the
  next word with it: a disk image after \<open>-no-reboot\<close> is dropped.
\<close>

theorem planned_argv_keeps_contract:
  assumes "plan_run open_ident inputs medium options = Inr p"
    and "\<forall>w \<in> set (plan_words inputs medium options). \<not> engine_owned w"
  shows "check_argv_contract (rn_argv p) = Inr () \<and>
    count_list (rn_argv p) ''-serial'' = 1 \<and> count_list (rn_argv p) ''-monitor'' = 1 \<and>
    debug_log_from_argv (rn_argv p) = Some (debug_log_path inputs options) \<and>
    (\<forall>path. medium = MediumKernel path \<longrightarrow> classify_elf open_ident path \<noteq> Inr Elf64) \<and>
    (let split = partition_args (pi_args inputs)
     in subseq (pa_kept split) (pi_args inputs) \<and> (\<forall>t \<in> set (pa_kept split). \<not> engine_owned t) \<and>
        mset (pa_kept split) + mset (pa_dropped split) = mset (pi_args inputs)) \<and>
    partition_args [''-no-reboot'', ''disk.img''] = \<lparr>pa_kept = [], pa_dropped = [''-no-reboot'', ''disk.img'']\<rparr>"
proof -
  have argv: "rn_argv p = plan_argv inputs medium options"
    using assms(1) by (rule plan_run_Inr)
  note vals = plan_argv_values [OF assms(2)]
  note free = plan_front_free [OF assms(2)]
  have tail: "''-nographic'' \<notin> set (plan_back inputs options)"
      "count_list (plan_back inputs options) ''-serial'' = 1"
      "count_list (plan_back inputs options) ''-monitor'' = 1"
    using plan_back_counts assms(2) by (simp_all add: plan_words_def)
  have "check_argv_contract (rn_argv p) = Inr ()"
    using tail(1) free [of "''-nographic''"] value_after_member [OF vals(5)]
    by (simp add: check_argv_contract_def argv vals Let_def) (simp add: plan_argv_parts)
  moreover have "count_list (rn_argv p) ''-serial'' = 1" "count_list (rn_argv p) ''-monitor'' = 1"
    using tail free [of "''-serial''"] free [of "''-monitor''"]
    by (simp_all add: argv plan_argv_parts count_list_0_iff [THEN iffD2])
  moreover have "partition_args [''-no-reboot'', ''disk.img''] = \<lparr>pa_kept = [], pa_dropped = [''-no-reboot'', ''disk.img'']\<rparr>"
    by (simp add: engine_owned_def ENGINE_OWNED_FLAGS_def drop_arg_def)
  ultimately show ?thesis
    using plan_run_Inr(3) [OF assms(1)] partition_args_kept partition_args_mset
    by (simp add: argv debug_log_from_argv_def vals Let_def)
qed

definition demo_inputs :: plan_inputs where
  "demo_inputs =
     \<lparr>pi_root = ''/k'', pi_cwd = ''/k'', pi_args = [''-m'', ''256M'', ''-serial'', ''file:x'', ''-nographic''],
      pi_boot = Multiboot2, pi_timeout_ms = 15000, pi_serial_device = ''com1'', pi_serial_tee = None\<rparr>"

definition demo_options :: plan_options where
  "demo_options = \<lparr>qo_timeout_ms = None, qo_gdb_stub = None, qo_debug_log = None, qo_qemu_data_dir = None,
     qo_qemu_bin = ''/bin/qemu''\<rparr>"

theorem planned_argv_keeps_contract_witness:
  "\<exists>p. plan_run (\<lambda>_. Inl []) demo_inputs (MediumIso ''/k/os.iso'') demo_options = Inr p \<and>
     check_argv_contract (rn_argv p) = Inr () \<and> count_list (rn_argv p) ''-serial'' = 1"
proof -
  obtain p where p: "plan_run (\<lambda>_. Inl []) demo_inputs (MediumIso ''/k/os.iso'') demo_options = Inr p"
    by (simp add: plan_run_def check_medium_def demo_options_def)
  have "\<forall>w \<in> set (plan_words demo_inputs (MediumIso ''/k/os.iso'') demo_options). \<not> engine_owned w"
    by (simp add: plan_words_def demo_inputs_def demo_options_def debug_log_path_def path_join_def
        is_absolute_def QEMU_DEBUG_LOG_REL_def engine_owned_def ENGINE_OWNED_FLAGS_def)
  from planned_argv_keeps_contract [OF p this] p show ?thesis by blast
qed

end
