(* ===== verification/Stream_Chunker.thy ===== *)
theory Stream_Chunker
  imports Core_Types
begin

section \<open>Chunking a byte stream into text\<close>

text \<open>
  Models \<^verbatim>\<open>crates/princess-core/src/stream.rs\<close>: the buffer between a child process and the
  \<open>log.append\<close> events. An operation returns the chunk it takes, if any, with the chunker left.
\<close>

record chunker =
  uc_pending :: string

definition chunker_new :: chunker where
  "chunker_new = \<lparr>uc_pending = []\<rparr>"

definition chunker_push :: "string \<Rightarrow> chunker \<Rightarrow> chunker" where
  "chunker_push bytes c = c\<lparr>uc_pending := uc_pending c @ bytes\<rparr>"

definition pending_len :: "chunker \<Rightarrow> nat" where
  "pending_len c = length (uc_pending c)"

definition chunker_is_empty :: "chunker \<Rightarrow> bool" where
  "chunker_is_empty c \<longleftrightarrow> uc_pending c = []"

definition take_prefix :: "nat \<Rightarrow> chunker \<Rightarrow> (string \<times> text_encoding) \<times> chunker" where
  "take_prefix n c =
     (let bytes = take n (uc_pending c); c' = c\<lparr>uc_pending := drop n (uc_pending c)\<rparr>
      in case from_utf8 bytes of
           Inr _ \<Rightarrow> ((bytes, EncUtf8), c')
         | Inl _ \<Rightarrow> ((from_utf8_lossy bytes, EncUtf8Lossy), c'))"

text \<open>\<open>iter().rposition(|b| *b == '\\n')\<close>.\<close>

fun rposition :: "('a \<Rightarrow> bool) \<Rightarrow> 'a list \<Rightarrow> nat option" where
  "rposition P [] = None"
| "rposition P (x # xs) =
     (case rposition P xs of
        Some i \<Rightarrow> Some (Suc i)
      | None \<Rightarrow> if P x then Some 0 else None)"

definition newline :: char where "newline = CHR 0x0A"

definition take_lines :: "chunker \<Rightarrow> (string \<times> text_encoding) option \<times> chunker" where
  "take_lines c =
     (case rposition (\<lambda>b. b = newline) (uc_pending c) of
        None \<Rightarrow> (None, c)
      | Some i \<Rightarrow> (case take_prefix (i + 1) c of (chunk, c') \<Rightarrow> (Some chunk, c')))"

definition take_available :: "chunker \<Rightarrow> (string \<times> text_encoding) option \<times> chunker" where
  "take_available c =
     (if uc_pending c = [] then (None, c)
      else case from_utf8 (uc_pending c) of
        Inr _ \<Rightarrow> (case take_prefix (length (uc_pending c)) c of (chunk, c') \<Rightarrow> (Some chunk, c'))
      | Inl (valid, None) \<Rightarrow>
          if valid = 0 then (None, c)
          else (case take_prefix valid c of (chunk, c') \<Rightarrow> (Some chunk, c'))
      | Inl (valid, Some invalid_len) \<Rightarrow>
          (case take_prefix (valid + invalid_len) c of (chunk, c') \<Rightarrow> (Some chunk, c')))"

definition take_remainder :: "chunker \<Rightarrow> (string \<times> text_encoding) option \<times> chunker" where
  "take_remainder c =
     (if uc_pending c = [] then (None, c)
      else (case take_prefix (length (uc_pending c)) c of (chunk, c') \<Rightarrow> (Some chunk, c')))"

subsection \<open>What a chunk is\<close>

lemma rposition_None: "rposition P xs = None \<longleftrightarrow> (\<forall>x \<in> set xs. \<not> P x)"
  by (induction xs) (auto split: option.splits)

lemma rposition_Some:
  "rposition P xs = Some i \<Longrightarrow> i < length xs \<and> P (xs ! i) \<and> (\<forall>j < length xs. i < j \<longrightarrow> \<not> P (xs ! j))"
proof (induction xs arbitrary: i)
  case Nil
  then show ?case by simp
next
  case (Cons x xs)
  show ?case
  proof (cases "rposition P xs")
    case None
    then have none: "\<forall>y \<in> set xs. \<not> P y"
      by (simp only: rposition_None)
    with None show ?thesis
      using Cons.prems none nth_mem [of _ xs] by (auto simp: nth_Cons' split: if_splits)
  next
    case (Some k)
    then show ?thesis
      using Cons.prems Cons.IH [OF Some] by (auto simp: nth_Cons')
  qed
qed

text \<open>
  The raw bytes an operation consumes, with the chunk it shows for them: verbatim and tagged
  UTF-8 when they are valid, replaced and tagged lossy when they are not.
\<close>

definition chunk_of :: "string \<Rightarrow> string \<times> text_encoding" where
  "chunk_of bytes =
     (if valid_utf8 bytes then (bytes, EncUtf8) else (from_utf8_lossy bytes, EncUtf8Lossy))"

lemma take_prefix_eq:
  "take_prefix n c = (chunk_of (take n (uc_pending c)), \<lparr>uc_pending = drop n (uc_pending c)\<rparr>)"
  by (cases c) (auto simp: take_prefix_def chunk_of_def valid_utf8_def Let_def split: sum.splits)


text \<open>
  The life of a chunker: bytes arrive and chunks are taken, in any interleaving. The relation
  records every byte pushed and every chunk emitted, oldest first.
\<close>

inductive chunker_run :: "string \<Rightarrow> (string \<times> text_encoding) list \<Rightarrow> chunker \<Rightarrow> bool" where
  run_new: "chunker_run [] [] chunker_new"
| run_push: "chunker_run pushed chunks c \<Longrightarrow> chunker_run (pushed @ bytes) chunks (chunker_push bytes c)"
| run_lines: "chunker_run pushed chunks c \<Longrightarrow> take_lines c = (Some chunk, c') \<Longrightarrow>
    chunker_run pushed (chunks @ [chunk]) c'"
| run_available: "chunker_run pushed chunks c \<Longrightarrow> take_available c = (Some chunk, c') \<Longrightarrow>
    chunker_run pushed (chunks @ [chunk]) c'"

text \<open>Where the three operations cut, in one form.\<close>

lemma newline_ascii: "byte_of newline < 128"
  by (simp add: newline_def byte_of_def)

lemma take_lines_cut:
  assumes "take_lines c = (Some chunk, c')"
  shows "\<exists>n. 0 < n \<and> n \<le> length (uc_pending c) \<and> uc_pending c ! (n - 1) = newline \<and>
    chunk = chunk_of (take n (uc_pending c)) \<and> uc_pending c' = drop n (uc_pending c)"
proof -
  obtain i where i: "rposition (\<lambda>b. b = newline) (uc_pending c) = Some i"
    using assms by (auto simp: take_lines_def split: option.splits)
  show ?thesis
    using rposition_Some [OF i] assms i by (intro exI [of _ "i + 1"]) (auto simp: take_lines_def take_prefix_eq)
qed

lemma take_lines_shorter: "take_lines c = (Some chunk, c') \<Longrightarrow> length (uc_pending c') < length (uc_pending c)"
  using take_lines_cut [of c chunk c'] by auto

lemma take_available_cut:
  assumes "take_available c = (Some chunk, c')"
  shows "\<exists>n. 0 < n \<and> n \<le> length (uc_pending c) \<and> chunk = chunk_of (take n (uc_pending c)) \<and>
    uc_pending c' = drop n (uc_pending c) \<and>
    (valid_utf8 (take n (uc_pending c)) \<or> (\<exists>v k. from_utf8 (uc_pending c) = Inl (v, Some k)))"
proof (cases "from_utf8 (uc_pending c)")
  case (Inr u)
  then show ?thesis
    using assms by (intro exI [of _ "length (uc_pending c)"])
      (auto simp: take_available_def take_prefix_eq valid_utf8_def split: if_splits)
next
  case (Inl ve)
  obtain v e where ve: "ve = (v, e)"
    by (cases ve)
  note f = from_utf8_Inl [OF Inl [unfolded ve]]
  show ?thesis
  proof (cases e)
    case None
    then show ?thesis
      using assms Inl ve f by (intro exI [of _ v])
        (auto simp: take_available_def take_prefix_eq split: if_splits)
  next
    case (Some k)
    then have "1 \<le> k \<and> v + k \<le> length (uc_pending c)"
      using f front_Invalid_bounds [of "drop v (uc_pending c)" k] by auto
    with Some show ?thesis
      using assms Inl ve by (intro exI [of _ "v + k"])
        (auto simp: take_available_def take_prefix_eq split: if_splits)
  qed
qed

lemma chunk_of_valid: "valid_utf8 s \<Longrightarrow> chunk_of s = (s, EncUtf8)"
  by (simp add: chunk_of_def)

text \<open>A stream cut inside a three-byte code point: \<open>hi\<close>, a line end, and one of its bytes.\<close>

definition demo_chunker :: chunker where
  "demo_chunker = chunker_push [CHR ''h'', CHR ''i'', newline, CHR 0xE4] chunker_new"

lemma demo_available:
  "take_available demo_chunker = (Some ([CHR ''h'', CHR ''i'', newline], EncUtf8), \<lparr>uc_pending = [CHR 0xE4]\<rparr>)"
  by (simp add: demo_chunker_def chunker_push_def chunker_new_def take_available_def take_prefix_eq
      chunk_of_def valid_utf8_def from_utf8_def from_utf8_at.simps newline_def byte_of_def lead_width_def)

lemma demo_run: "chunker_run [CHR ''h'', CHR ''i'', newline, CHR 0xE4] [([CHR ''h'', CHR ''i'', newline], EncUtf8)] \<lparr>uc_pending = [CHR 0xE4]\<rparr>"
proof -
  have "chunker_run [CHR ''h'', CHR ''i'', newline, CHR 0xE4] [] demo_chunker"
    using run_push [OF run_new, of "[CHR ''h'', CHR ''i'', newline, CHR 0xE4]"] by (simp add: demo_chunker_def)
  from run_available [OF this demo_available] show ?thesis by simp
qed

lemma demo_valid: "valid_utf8 ([CHR ''h'', CHR ''i'', newline, CHR 0xE4] @ [CHR 0xBD, CHR 0xA0])"
  by (simp add: valid_utf8_def from_utf8_def from_utf8_at.simps newline_def byte_of_def lead_width_def
      second_ok_def continuation_def)

text \<open>
  C7. No byte is lost, duplicated or reordered: at every moment the bytes pushed are the
  concatenation of the raw bytes of the chunks emitted and of the bytes still pending; each chunk
  is non-empty and shows its own bytes, verbatim and tagged UTF-8 exactly when they are valid.
\<close>

theorem chunks_partition_stream:
  assumes "chunker_run pushed chunks c"
  shows "\<exists>raws. concat raws @ uc_pending c = pushed \<and> chunks = map chunk_of raws \<and> [] \<notin> set raws"
  using assms
proof induction
  case run_new
  then show ?case by (simp add: chunker_new_def)
next
  case (run_push pushed chunks c bytes)
  then show ?case by (auto simp: chunker_push_def)
next
  case (run_lines pushed chunks c chunk c')
  obtain raws where raws: "concat raws @ uc_pending c = pushed" "chunks = map chunk_of raws" "[] \<notin> set raws"
    using run_lines.IH by blast
  obtain n where "0 < n" "n \<le> length (uc_pending c)" "chunk = chunk_of (take n (uc_pending c))" "uc_pending c' = drop n (uc_pending c)"
    using take_lines_cut [OF run_lines.hyps(2)] by blast
  with raws show ?case
    by (intro exI [of _ "raws @ [take n (uc_pending c)]"]) auto
next
  case (run_available pushed chunks c chunk c')
  obtain raws where raws: "concat raws @ uc_pending c = pushed" "chunks = map chunk_of raws" "[] \<notin> set raws"
    using run_available.IH by blast
  obtain n where "0 < n" "n \<le> length (uc_pending c)" "chunk = chunk_of (take n (uc_pending c))" "uc_pending c' = drop n (uc_pending c)"
    using take_available_cut [OF run_available.hyps(2)] by blast
  with raws show ?case
    by (intro exI [of _ "raws @ [take n (uc_pending c)]"]) auto
qed

lemma run_of_valid_stream:
  assumes "chunker_run pushed chunks c" and "valid_utf8 (pushed @ rest)"
  shows "concat (map fst chunks) @ uc_pending c = pushed \<and> (\<forall>ch \<in> set chunks. snd ch = EncUtf8 \<and> valid_utf8 (fst ch)) \<and>
    valid_utf8 (uc_pending c @ rest)"
  using assms
proof (induction arbitrary: rest)
  case run_new
  then show ?case by (simp add: chunker_new_def)
next
  case (run_push pushed chunks c bytes)
  then show ?case
    using run_push.IH [of "bytes @ rest"] by (simp add: chunker_push_def)
next
  case (run_lines pushed chunks c chunk c')
  note IH = run_lines.IH [OF run_lines.prems]
  obtain n where n: "0 < n" "n \<le> length (uc_pending c)" "uc_pending c ! (n - 1) = newline"
    "chunk = chunk_of (take n (uc_pending c))" "uc_pending c' = drop n (uc_pending c)"
    using take_lines_cut [OF run_lines.hyps(2)] by blast
  have split: "take (n - 1) (uc_pending c) @ newline # drop n (uc_pending c) @ rest = uc_pending c @ rest"
    using id_take_nth_drop [of "n - 1" "uc_pending c"] n by simp
  then have "valid_utf8 (take (n - 1) (uc_pending c))"
    using IH valid_utf8_before_ascii [of "uc_pending c @ rest" _ newline] by (metis newline_ascii)
  moreover have "valid_utf8 [newline]"
    by (simp add: valid_utf8_front newline_def byte_of_def lead_width_def)
  ultimately have "valid_utf8 (take (n - 1) (uc_pending c) @ [newline])"
    by (simp add: valid_utf8_append)
  then have v: "valid_utf8 (take n (uc_pending c))"
    using take_Suc_conv_app_nth [of "n - 1" "uc_pending c"] n by simp
  then have "valid_utf8 (drop n (uc_pending c) @ rest)"
    using IH valid_utf8_append [OF v, of "drop n (uc_pending c) @ rest"] by (simp flip: append_assoc)
  then show ?case
    using v n(4,5) IH by (auto simp: chunk_of_valid)
next
  case (run_available pushed chunks c chunk c')
  note IH = run_available.IH [OF run_available.prems]
  obtain n where n: "0 < n" "n \<le> length (uc_pending c)" "chunk = chunk_of (take n (uc_pending c))" "uc_pending c' = drop n (uc_pending c)"
    and "valid_utf8 (take n (uc_pending c)) \<or> (\<exists>v k. from_utf8 (uc_pending c) = Inl (v, Some k))"
    using take_available_cut [OF run_available.hyps(2)] by blast
  then have v: "valid_utf8 (take n (uc_pending c))"
    using valid_prefix_not_invalid [of "uc_pending c" rest] IH by auto
  then have "valid_utf8 (drop n (uc_pending c) @ rest)"
    using IH valid_utf8_append [OF v, of "drop n (uc_pending c) @ rest"] by (simp flip: append_assoc)
  then show ?case
    using v n(3,4) IH by (auto simp: chunk_of_valid)
qed

theorem chunks_partition_stream_witness:
  "\<exists>raws. concat raws @ [CHR 0xE4] = [CHR ''h'', CHR ''i'', newline, CHR 0xE4] \<and>
     [([CHR ''h'', CHR ''i'', newline], EncUtf8)] = map chunk_of raws"
  using chunks_partition_stream [OF demo_run] by auto

text \<open>
  C6. A code point is never split: while the producer's output is a prefix of valid UTF-8, every
  chunk taken at any moment is valid UTF-8 shown verbatim, the chunks and the pending bytes are
  the output so far, and when the output is complete the remainder completes it.
\<close>

theorem valid_stream_chunks:
  assumes "chunker_run pushed chunks c" and "valid_utf8 (pushed @ rest)"
  shows "concat (map fst chunks) @ uc_pending c = pushed \<and>
    (\<forall>ch \<in> set chunks. snd ch = EncUtf8 \<and> valid_utf8 (fst ch)) \<and>
    (rest = [] \<longrightarrow> fst (take_remainder c) = (if uc_pending c = [] then None else Some (uc_pending c, EncUtf8)))"
  using run_of_valid_stream [OF assms]
  by (auto simp: take_remainder_def take_prefix_eq chunk_of_valid split: prod.splits)

theorem valid_stream_chunks_witness:
  "concat (map fst [([CHR ''h'', CHR ''i'', newline], EncUtf8)]) @ [CHR 0xE4] = [CHR ''h'', CHR ''i'', newline, CHR 0xE4] \<and>
   valid_utf8 [CHR ''h'', CHR ''i'', newline]"
  using valid_stream_chunks [OF demo_run demo_valid] by simp

text \<open>
  Bytes are held back only for a code point that is still arriving: when \<open>take_available\<close>
  takes nothing at most three bytes are pending, and they are an incomplete sequence; when
  \<open>take_lines\<close> takes nothing no line end is pending, and what it leaves holds none.
\<close>

lemma chunker_holds_back_little:
  "(fst (take_available c) = None \<longrightarrow>
      pending_len c \<le> 3 \<and> (uc_pending c \<noteq> [] \<longrightarrow> front (uc_pending c) = Incomplete)) \<and>
   (fst (take_lines c) = None \<longleftrightarrow> newline \<notin> set (uc_pending c)) \<and>
   newline \<notin> set (uc_pending (snd (take_lines c)))"
proof (intro conjI impI)
  assume none: "fst (take_available c) = None"
  have "uc_pending c \<noteq> [] \<Longrightarrow> front (uc_pending c) = Incomplete"
  proof (cases "from_utf8 (uc_pending c)")
    case (Inl ve)
    moreover obtain v e where ve: "ve = (v, e)" by (cases ve)
    moreover assume "uc_pending c \<noteq> []"
    ultimately have "v = 0" "e = None"
      using none by (auto simp: take_available_def split: option.splits if_splits prod.splits)
    then show ?thesis
      using from_utf8_Inl [OF Inl [unfolded ve]] by simp
  qed (use none in \<open>auto simp: take_available_def split: prod.splits\<close>)
  then show "front (uc_pending c) = Incomplete" if "uc_pending c \<noteq> []"
    using that by blast
  then show "pending_len c \<le> 3"
    using front_Incomplete_short [of "uc_pending c"] by (cases "uc_pending c = []") (simp_all add: pending_len_def)
next
  show "fst (take_lines c) = None \<longleftrightarrow> newline \<notin> set (uc_pending c)"
    using rposition_None [of "\<lambda>b. b = newline" "uc_pending c"]
    by (cases "rposition (\<lambda>b. b = newline) (uc_pending c)") (auto simp: take_lines_def take_prefix_eq)
  show "newline \<notin> set (uc_pending (snd (take_lines c)))"
  proof (cases "rposition (\<lambda>b. b = newline) (uc_pending c)")
    case None
    then have "newline \<notin> set (uc_pending c)"
      by (auto simp: rposition_None)
    with None show ?thesis by (simp add: take_lines_def)
  next
    case (Some i)
    have "drop (i + 1) (uc_pending c) ! j \<noteq> newline" if "j < length (drop (i + 1) (uc_pending c))" for j
      using rposition_Some [OF Some] that by (simp add: less_diff_conv)
    then have "newline \<notin> set (drop (i + 1) (uc_pending c))"
      by (metis in_set_conv_nth)
    then show ?thesis
      using Some by (simp add: take_lines_def take_prefix_eq)
  qed
qed

lemma chunker_holds_back_little_witness:
  "fst (take_available \<lparr>uc_pending = [CHR 0xE4]\<rparr>) = None \<and> pending_len \<lparr>uc_pending = [CHR 0xE4]\<rparr> \<le> 3 \<and>
   fst (take_lines \<lparr>uc_pending = [CHR 0xE4]\<rparr>) = None"
proof -
  have "fst (take_available \<lparr>uc_pending = [CHR 0xE4]\<rparr>) = None"
    by (simp add: take_available_def from_utf8_def from_utf8_at.simps byte_of_def lead_width_def)
  then show ?thesis
    using chunker_holds_back_little [of "\<lparr>uc_pending = [CHR 0xE4]\<rparr>"] by (simp add: newline_def)
qed

end
