(* ===== verification/Process_Runner.thy ===== *)
theory Process_Runner
  imports Stream_Chunker Event_Stream
begin

section \<open>Running the emulator process\<close>

text \<open>
  Models \<^verbatim>\<open>crates/princess-run/src/process.rs\<close>: the reader threads, which turn a pipe into chunks;
  signalling a process group and finding out whether it lives; and the supervising loop of
  \<open>SystemRunner::run\<close> with its deadline, cancellation, tee file and outcome. Threads, pipes, the
  clock and the kernel are observations: a reader is fed the results of its \<open>recv_timeout\<close> calls,
  and an iteration of the loop sees what its calls return in that iteration. A script that ends
  leaves the loop running: nothing is assumed about how long observations go on.
\<close>

subsection \<open>Chunks\<close>

datatype pipe = PipeSerial | PipeEmulator

record stream_chunk =
  sk_pipe :: pipe
  sk_text :: string
  sk_encoding :: text_encoding
  sk_at_eof :: bool

record process_outcome =
  po_exit_code :: "int option"
  po_signal :: "int option"
  po_timed_out :: bool
  po_cancelled :: bool
  po_wall_ms :: u64
  po_group_dead :: bool

record spawn_spec =
  sp_argv :: "string list"
  sp_cwd :: string
  sp_timeout_ms :: "u64 option"
  sp_serial_tee :: "string option"
  sp_env :: "string \<Rightarrow> string option"

definition make_chunk :: "pipe \<Rightarrow> bool \<Rightarrow> string \<times> text_encoding \<Rightarrow> stream_chunk" where
  "make_chunk p eof c = \<lparr>sk_pipe = p, sk_text = fst c, sk_encoding = snd c, sk_at_eof = eof\<rparr>"

text \<open>
  What the reader thread receives before its channel is disconnected: bytes, or a timeout of
  \<open>flush_every\<close>. \<open>while let Some(..) = chunker.take_lines()\<close>: after one piece no line end is left,
  so the loop runs at most twice; it is the recursion on the pending length.
\<close>

datatype reader_event = ReaderBytes string | ReaderTimeout

function drain_lines :: "pipe \<Rightarrow> chunker \<Rightarrow> stream_chunk list \<times> chunker" where
  "drain_lines p c =
     (case take_lines c of
        (None, c') \<Rightarrow> ([], c')
      | (Some chunk, c') \<Rightarrow> (case drain_lines p c' of (cs, c'') \<Rightarrow> (make_chunk p False chunk # cs, c'')))"
  by pat_completeness auto
termination
  by (relation "measure (\<lambda>(p, c). length (uc_pending c))") (auto dest: take_lines_shorter [OF sym])

declare drain_lines.simps [simp del]

fun reader_loop :: "pipe \<Rightarrow> reader_event list \<Rightarrow> chunker \<Rightarrow> stream_chunk list \<times> chunker" where
  "reader_loop p [] c = ([], c)"
| "reader_loop p (ReaderBytes bytes # rest) c =
     (case drain_lines p (chunker_push bytes c) of (cs, c') \<Rightarrow>
      case reader_loop p rest c' of (ds, c'') \<Rightarrow> (cs @ ds, c''))"
| "reader_loop p (ReaderTimeout # rest) c =
     (case take_available c of
        (None, c') \<Rightarrow> reader_loop p rest c'
      | (Some chunk, c') \<Rightarrow> (case reader_loop p rest c' of (ds, c'') \<Rightarrow> (make_chunk p False chunk # ds, c'')))"

definition spawn_reader :: "pipe \<Rightarrow> reader_event list \<Rightarrow> stream_chunk list" where
  "spawn_reader p events =
     (case reader_loop p events chunker_new of (cs, c) \<Rightarrow>
        cs @ (case take_remainder c of (None, _) \<Rightarrow> [] | (Some chunk, _) \<Rightarrow> [make_chunk p True chunk]))"

subsection \<open>Process groups\<close>

datatype kill_result = KillOk | KillNoSuchProcess | KillFailed string

definition kill_group :: "u32 \<Rightarrow> kill_result \<Rightarrow> princess_error + unit" where
  "kill_group pgid rc =
     (if pgid = 0 then Inl (internal_error ''refusing to signal process group 0 (would signal the engine itself)'')
      else case rc of
        KillOk \<Rightarrow> Inr ()
      | KillNoSuchProcess \<Rightarrow> Inr ()
      | KillFailed err \<Rightarrow>
          Inl (new_error Internal (''cannot signal process group '' @ show_nat (unat pgid) @ '': '' @ err)))"

text \<open>The text of \<open>/proc/<pid>/stat\<close>: \<open>rsplit_once\<close> at the last closing parenthesis and space.\<close>

definition rsplit_once_str :: "string \<Rightarrow> string \<Rightarrow> (string \<times> string) option" where
  "rsplit_once_str p s =
     map_option (\<lambda>i. (take i s, drop (i + length p) s))
       (find (\<lambda>i. starts_with p (drop i s)) (rev [0..<length s + 1]))"

definition stat_is_running :: "u32 \<Rightarrow> string \<Rightarrow> bool" where
  "stat_is_running pgid stat =
     (case rsplit_once_str '') '' stat of
        None \<Rightarrow> False
      | Some (_, rest) \<Rightarrow>
          let fs = split_whitespace rest
          in if length fs < 3 then False
             else (case parse_unsigned 10 (2 ^ 32) (fs ! 2) of
                     None \<Rightarrow> False
                   | Some g \<Rightarrow> g = unat pgid \<and> fs ! 0 \<noteq> ''Z''))"

text \<open>
  An entry of \<open>/proc\<close>: its name and its \<open>stat\<close> text when it can be read. Without the directory the
  answer is that of signal 0.
\<close>

definition group_alive :: "u32 \<Rightarrow> (string \<times> string option) list option \<Rightarrow> bool \<Rightarrow> bool" where
  "group_alive pgid proc probe =
     (if pgid = 0 then False
      else case proc of
        None \<Rightarrow> probe
      | Some entries \<Rightarrow>
          list_ex (\<lambda>(name, stat).
            parse_unsigned 10 (2 ^ 32) name \<noteq> None \<and>
            (case stat of None \<Rightarrow> False | Some txt \<Rightarrow> stat_is_running pgid txt)) entries)"

text \<open>Alive at first, the two signals and what the two bounded waits say.\<close>

definition kill_group_blocking ::
  "u32 \<Rightarrow> bool \<Rightarrow> kill_result \<Rightarrow> bool \<Rightarrow> kill_result \<Rightarrow> bool \<Rightarrow> princess_error + unit" where
  "kill_group_blocking pgid alive term_rc gone_after_term kill_rc gone_after_kill =
     (if \<not> alive then Inr ()
      else and_then (kill_group pgid term_rc) (\<lambda>_.
        if gone_after_term then Inr ()
        else and_then (kill_group pgid kill_rc) (\<lambda>_.
          if gone_after_kill then Inr ()
          else Inl (new_error QemuFailed (''process group '' @ show_nat (unat pgid) @
                 '' still has running members after SIGKILL'')))))"

subsection \<open>The supervising loop\<close>

record exit_status =
  xs_code :: "int option"
  xs_signal :: "int option"

datatype recv_result = RecvChunk stream_chunk | RecvTimeout | RecvDisconnected

text \<open>
  One iteration: the answer of \<open>try_wait\<close>, the cancellation flag, whether the deadline has passed,
  what was received, the result of writing the tee, and whether \<open>drain_grace\<close> has passed since the
  last end of a pipe.
\<close>

record tick =
  tk_try_wait :: "string + exit_status option"
  tk_cancelled :: bool
  tk_past_deadline :: bool
  tk_recv :: recv_result
  tk_tee :: "string + unit"
  tk_drained :: bool

datatype unix_signal = SIGTERM | SIGKILL

record supervisor =
  su_status :: "exit_status option"
  su_timed_out :: bool
  su_cancelled :: bool
  su_kill_done :: bool
  su_eof_seen :: nat
  su_signals :: "unix_signal list"
  su_blocking_kill :: bool
  su_teed :: string
  su_delivered :: "stream_chunk list"

definition supervisor_start :: supervisor where
  "supervisor_start =
     \<lparr>su_status = None, su_timed_out = False, su_cancelled = False, su_kill_done = False,
      su_eof_seen = 0, su_signals = [], su_blocking_kill = False, su_teed = [], su_delivered = []\<rparr>"

definition send_both :: "supervisor \<Rightarrow> supervisor" where
  "send_both s = s\<lparr>su_signals := su_signals s @ [SIGTERM, SIGKILL]\<rparr>"

definition poll_status :: "tick \<Rightarrow> supervisor \<Rightarrow> princess_error + supervisor" where
  "poll_status t s =
     (if su_status s \<noteq> None then Inr s
      else case tk_try_wait t of
        Inl err \<Rightarrow> Inl (new_error QemuFailed (''cannot wait for the emulator: '' @ err))
      | Inr None \<Rightarrow> Inr s
      | Inr (Some st) \<Rightarrow> Inr (s\<lparr>su_status := Some st\<rparr>))"

definition enforce :: "bool \<Rightarrow> tick \<Rightarrow> supervisor \<Rightarrow> supervisor" where
  "enforce has_deadline t s =
     (if su_status s \<noteq> None \<or> su_kill_done s then s
      else
        let s1 = (if tk_cancelled t \<and> \<not> su_cancelled s
                  then send_both (s\<lparr>su_cancelled := True, su_kill_done := True\<rparr>) else s)
        in if has_deadline \<and> tk_past_deadline t \<and> \<not> su_timed_out s1
           then send_both (s1\<lparr>su_timed_out := True, su_kill_done := True\<rparr>) else s1)"

text \<open>Tee first, then the callback; empty chunks are dropped. \<open>None\<close> is the end of the channel.\<close>

definition receive :: "bool \<Rightarrow> tick \<Rightarrow> supervisor \<Rightarrow> princess_error + supervisor option" where
  "receive has_tee t s =
     (case tk_recv t of
        RecvTimeout \<Rightarrow> Inr (Some s)
      | RecvDisconnected \<Rightarrow> Inr None
      | RecvChunk c \<Rightarrow>
          let s1 = (if sk_at_eof c then s\<lparr>su_eof_seen := su_eof_seen s + 1\<rparr> else s)
          in if sk_text c = [] then Inr (Some s1)
             else if sk_pipe c = PipeSerial \<and> has_tee then
               (case tk_tee t of
                  Inl err \<Rightarrow> Inl (internal_error (''cannot write the serial log: '' @ err))
                | Inr _ \<Rightarrow> Inr (Some (s1\<lparr>su_teed := su_teed s1 @ sk_text c,
                                          su_delivered := su_delivered s1 @ [c]\<rparr>)))
             else Inr (Some (s1\<lparr>su_delivered := su_delivered s1 @ [c]\<rparr>)))"

text \<open>
  A failing \<open>try_wait\<close> calls \<open>kill_group_blocking\<close> (its result is dropped) before it returns; a
  failing tee returns at once.
\<close>

datatype loop_result =
    LoopRunning supervisor | LoopDone supervisor | LoopFailed princess_error supervisor

fun supervise :: "bool \<Rightarrow> bool \<Rightarrow> nat \<Rightarrow> tick list \<Rightarrow> supervisor \<Rightarrow> loop_result" where
  "supervise has_deadline has_tee readers [] s = LoopRunning s"
| "supervise has_deadline has_tee readers (t # ts) s =
     (case poll_status t s of
        Inl e \<Rightarrow> LoopFailed e (s\<lparr>su_blocking_kill := True\<rparr>)
      | Inr s1 \<Rightarrow>
          let s2 = enforce has_deadline t s1
          in case receive has_tee t s2 of
               Inl e \<Rightarrow> LoopFailed e s2
             | Inr None \<Rightarrow> LoopDone s2
             | Inr (Some s3) \<Rightarrow>
                 if readers \<le> su_eof_seen s3 \<and> su_status s3 \<noteq> None \<and> 0 < readers \<and> tk_drained t
                 then LoopDone s3
                 else supervise has_deadline has_tee readers ts s3)"

text \<open>After the loop: a child without a status is killed and reaped, and the group looked at twice.\<close>

definition finish_run ::
  "supervisor \<Rightarrow> string + exit_status \<Rightarrow> bool \<Rightarrow> bool \<Rightarrow> u64 \<Rightarrow> supervisor \<times> (princess_error + process_outcome)" where
  "finish_run s waited alive alive_again wall_ms =
     (let s1 = (if su_status s = None then send_both s else s)
      in case (case su_status s1 of Some st \<Rightarrow> Inr st
               | None \<Rightarrow> map_err (\<lambda>err. new_error QemuFailed (''cannot reap the emulator: '' @ err)) waited) of
           Inl e \<Rightarrow> (s1, Inl e)
         | Inr st \<Rightarrow>
             let s2 = (if alive then s1\<lparr>su_signals := su_signals s1 @ [SIGKILL]\<rparr> else s1)
             in (s2, Inr \<lparr>po_exit_code = xs_code st, po_signal = xs_signal st, po_timed_out = su_timed_out s2,
                          po_cancelled = su_cancelled s2, po_wall_ms = wall_ms,
                          po_group_dead = (\<not> alive \<or> \<not> alive_again)\<rparr>))"

text \<open>How starting the child and its tee fails.\<close>

definition spawn_error :: "spawn_spec \<Rightarrow> io_error_kind \<Rightarrow> string \<Rightarrow> princess_error" where
  "spawn_error spec kind err =
     (let code = (case kind of IoNotFound \<Rightarrow> ToolchainMissing | IoPermissionDenied \<Rightarrow> SandboxDenied
                  | IoOther \<Rightarrow> QemuFailed)
      in with_detail (new_error code (''cannot execute '' @ hd (sp_argv spec) @ '': '' @ err))
           (''cwd: '' @ sp_cwd spec))"

definition check_spawn :: "spawn_spec \<Rightarrow> princess_error + unit" where
  "check_spawn spec =
     (if sp_argv spec = [] then Inl (internal_error ''run plan has an empty argv: nothing to execute'')
      else Inr ())"


subsection \<open>Facts: the supervising loop\<close>

fun state_of :: "loop_result \<Rightarrow> supervisor" where
  "state_of (LoopRunning s) = s"
| "state_of (LoopDone s) = s"
| "state_of (LoopFailed e s) = s"

definition serial_text :: "stream_chunk list \<Rightarrow> string" where
  "serial_text cs = concat (map sk_text (filter (\<lambda>c. sk_pipe c = PipeSerial) cs))"

definition supervised :: "bool \<Rightarrow> supervisor \<Rightarrow> bool" where
  "supervised has_tee s \<longleftrightarrow>
     (has_tee \<longrightarrow> su_teed s = serial_text (su_delivered s)) \<and>
     (\<forall>c \<in> set (su_delivered s). sk_text c \<noteq> []) \<and>
     (su_kill_done s \<longleftrightarrow> su_cancelled s \<or> su_timed_out s) \<and>
     length (su_signals s) = 2 * (of_bool (su_cancelled s) + of_bool (su_timed_out s))"

lemma supervised_start: "supervised has_tee supervisor_start"
  by (simp add: supervised_def supervisor_start_def serial_text_def)

lemma supervised_status [simp]: "supervised has_tee (s\<lparr>su_status := st\<rparr>) = supervised has_tee s"
  by (simp add: supervised_def)

lemma supervised_eof [simp]: "supervised has_tee (s\<lparr>su_eof_seen := n\<rparr>) = supervised has_tee s"
  by (simp add: supervised_def)

lemma supervised_poll: "poll_status t s = Inr s' \<Longrightarrow> supervised has_tee s \<Longrightarrow> supervised has_tee s'"
  by (auto simp: poll_status_def split: if_splits sum.splits option.splits)

lemma supervised_kill:
  assumes "supervised has_tee s"
  shows "\<not> su_cancelled s \<Longrightarrow> supervised has_tee (send_both (s\<lparr>su_cancelled := True, su_kill_done := True\<rparr>))"
    and "\<not> su_timed_out s \<Longrightarrow> supervised has_tee (send_both (s\<lparr>su_timed_out := True, su_kill_done := True\<rparr>))"
  using assms by (simp_all add: supervised_def send_both_def)

lemma supervised_enforce: "supervised has_tee s \<Longrightarrow> supervised has_tee (enforce has_deadline t s)"
  by (simp add: enforce_def Let_def supervised_kill)

lemma supervised_deliver:
  assumes "supervised has_tee s" "sk_text c \<noteq> []"
  shows "\<not> (sk_pipe c = PipeSerial \<and> has_tee) \<Longrightarrow> supervised has_tee (s\<lparr>su_delivered := su_delivered s @ [c]\<rparr>)"
    and "sk_pipe c = PipeSerial \<Longrightarrow>
      supervised has_tee (s\<lparr>su_teed := su_teed s @ sk_text c, su_delivered := su_delivered s @ [c]\<rparr>)"
  using assms by (auto simp: supervised_def serial_text_def)


lemma supervised_blocking [simp]: "supervised has_tee (s\<lparr>su_blocking_kill := b\<rparr>) = supervised has_tee s"
  by (simp add: supervised_def)

lemma supervised_receive:
  assumes "receive has_tee t s = Inr (Some s')" "supervised has_tee s"
  shows "supervised has_tee s'"
proof (cases "tk_recv t")
  case (RecvChunk c)
  define s1 where "s1 = (if sk_at_eof c then s\<lparr>su_eof_seen := su_eof_seen s + 1\<rparr> else s)"
  have s1: "supervised has_tee s1" using assms(2) by (simp add: s1_def)
  have r: "receive has_tee t s =
      (if sk_text c = [] then Inr (Some s1)
       else if sk_pipe c = PipeSerial \<and> has_tee then
         (case tk_tee t of
            Inl err \<Rightarrow> Inl (internal_error (''cannot write the serial log: '' @ err))
          | Inr _ \<Rightarrow> Inr (Some (s1\<lparr>su_teed := su_teed s1 @ sk_text c, su_delivered := su_delivered s1 @ [c]\<rparr>)))
       else Inr (Some (s1\<lparr>su_delivered := su_delivered s1 @ [c]\<rparr>)))"
    by (simp only: receive_def RecvChunk recv_result.case Let_def s1_def)
  show ?thesis
  proof (cases "sk_text c = []")
    case True
    then have "s' = s1" using assms(1) unfolding r by simp
    then show ?thesis using s1 by simp
  next
    case ne: False
    show ?thesis
    proof (cases "sk_pipe c = PipeSerial \<and> has_tee")
      case True
      then have "s' = s1\<lparr>su_teed := su_teed s1 @ sk_text c, su_delivered := su_delivered s1 @ [c]\<rparr>"
        using assms(1) ne unfolding r by (cases "tk_tee t") simp_all
      then show ?thesis using supervised_deliver(2) [OF s1 ne] True by simp
    next
      case False
      then have "s' = s1\<lparr>su_delivered := su_delivered s1 @ [c]\<rparr>"
        using assms(1) ne unfolding r by (simp only: if_False if_not_P) simp
      then show ?thesis using supervised_deliver(1) [OF s1 ne] False by simp
    qed
  qed
qed (use assms in \<open>simp_all add: receive_def\<close>)

lemma supervised_loop:
  "supervised has_tee s \<Longrightarrow> supervised has_tee (state_of (supervise has_deadline has_tee readers ts s))"
proof (induction ts arbitrary: s)
  case (Cons t ts)
  show ?case
  proof (cases "poll_status t s")
    case (Inr s1)
    then have s2: "supervised has_tee (enforce has_deadline t s1)"
      by (rule supervised_enforce [OF supervised_poll [OF _ Cons.prems]])
    show ?thesis
    proof (cases "receive has_tee t (enforce has_deadline t s1)")
      case r: (Inr r)
      show ?thesis
      proof (cases r)
        case (Some s3)
        with r s2 have "supervised has_tee s3" by (auto intro: supervised_receive)
        with Inr r Some Cons.IH show ?thesis by (simp add: Let_def)
      qed (use Inr r s2 in \<open>simp add: Let_def\<close>)
    qed (use Inr s2 in \<open>simp add: Let_def\<close>)
  qed (use Cons.prems in simp)
qed simp

lemma supervise_disconnected:
  "tk_recv t = RecvDisconnected \<Longrightarrow> receive has_tee t s = Inr None"
  by (simp add: receive_def)

lemma receive_no_error: "tk_tee t = Inr () \<Longrightarrow> \<exists>r. receive has_tee t s = Inr r"
  by (cases "tk_recv t") (simp_all add: receive_def Let_def)

lemma poll_no_error: "tk_try_wait t = Inr st \<Longrightarrow> \<exists>s'. poll_status t s = Inr s'"
  by (cases st) (simp_all add: poll_status_def)

lemma supervise_ends:
  assumes "\<forall>t \<in> set ts. (\<exists>st. tk_try_wait t = Inr st) \<and> tk_tee t = Inr ()"
    "\<exists>t \<in> set ts. tk_recv t = RecvDisconnected"
  shows "\<exists>s'. supervise has_deadline has_tee readers ts s = LoopDone s'"
  using assms
proof (induction ts arbitrary: s)
  case (Cons t ts)
  obtain s1 where p: "poll_status t s = Inr s1" using Cons.prems(1) poll_no_error by force
  obtain r where r: "receive has_tee t (enforce has_deadline t s1) = Inr r"
    using Cons.prems(1) receive_no_error [of t has_tee "enforce has_deadline t s1"] by auto
  show ?case
  proof (cases r)
    case None with p r show ?thesis by (simp add: Let_def)
  next
    case (Some s3)
    then have "tk_recv t \<noteq> RecvDisconnected" using r by (auto simp: supervise_disconnected)
    with Cons.prems have "\<exists>s'. supervise has_deadline has_tee readers ts s3 = LoopDone s'"
      by (intro Cons.IH) auto
    with p r Some show ?thesis by (simp add: Let_def)
  qed
qed simp

lemma supervise_stuck:
  assumes "su_status s \<noteq> None" "su_eof_seen s < readers" "\<forall>t \<in> set ts. tk_recv t = RecvTimeout"
  shows "supervise has_deadline has_tee readers ts s = LoopRunning s"
  using assms(3)
proof (induction ts)
  case (Cons t ts)
  have "poll_status t s = Inr s" "enforce has_deadline t s = s" using assms(1) by (simp_all add: poll_status_def enforce_def)
  with Cons assms(2) show ?case by (simp add: Let_def receive_def)
qed simp

lemma supervised_facts:
  assumes "supervised has_tee s"
  shows "(has_tee \<longrightarrow> su_teed s = serial_text (su_delivered s)) \<and>
      (\<forall>c \<in> set (su_delivered s). sk_text c \<noteq> []) \<and>
      (su_kill_done s \<longleftrightarrow> su_cancelled s \<or> su_timed_out s) \<and>
      (su_signals s = [] \<longleftrightarrow> \<not> su_cancelled s \<and> \<not> su_timed_out s)"
proof -
  have "length (su_signals s) = 2 * (of_bool (su_cancelled s) + of_bool (su_timed_out s))"
    using assms by (simp add: supervised_def)
  then have "su_signals s = [] \<longleftrightarrow> \<not> su_cancelled s \<and> \<not> su_timed_out s"
    by (cases "su_cancelled s"; cases "su_timed_out s") auto
  with assms show ?thesis by (simp add: supervised_def)
qed


definition demo_tick :: "string + unit \<Rightarrow> recv_result \<Rightarrow> tick" where
  "demo_tick tee r =
     \<lparr>tk_try_wait = Inr None, tk_cancelled = False, tk_past_deadline = False, tk_recv = r, tk_tee = tee,
      tk_drained = False\<rparr>"


text \<open>
  When the loop ends. It ends once the channel is disconnected, if nothing failed before. But
  once the child has exited it is never ended by time: while some process keeps the pipes open
  and nothing arrives, any number of iterations leaves it running in the same state, past every
  deadline and drain period and without a signal, as long as fewer final chunks than readers
  were seen (and a pipe that ends at a line end sends none).
\<close>

lemma supervisor_waits_for_pipes:
  "((\<forall>t \<in> set ts. (\<exists>st. tk_try_wait t = Inr st) \<and> tk_tee t = Inr ()) \<and>
     (\<exists>t \<in> set ts. tk_recv t = RecvDisconnected) \<longrightarrow>
     (\<exists>s'. supervise has_deadline has_tee readers ts s = LoopDone s')) \<and>
   (su_status s \<noteq> None \<and> su_eof_seen s < readers \<and> (\<forall>t \<in> set ts. tk_recv t = RecvTimeout) \<longrightarrow>
     supervise has_deadline has_tee readers ts s = LoopRunning s)"
  using supervise_ends [of ts has_deadline has_tee readers s] supervise_stuck [of s readers ts has_deadline has_tee]
  by simp

theorem supervisor_waits_for_pipes_witness:
  "(\<exists>s'. supervise True True 2 [demo_tick (Inr ()) RecvTimeout, demo_tick (Inr ()) RecvDisconnected] supervisor_start =
      LoopDone s') \<and>
   (let s = supervisor_start\<lparr>su_status := Some \<lparr>xs_code = Some 0, xs_signal = None\<rparr>\<rparr>
    in supervise True True 2 (replicate 3 (demo_tick (Inr ()) RecvTimeout)) s = LoopRunning s)"
  using supervisor_waits_for_pipes [of "[demo_tick (Inr ()) RecvTimeout, demo_tick (Inr ()) RecvDisconnected]"
      True True 2 supervisor_start]
    supervisor_waits_for_pipes [of "replicate 3 (demo_tick (Inr ()) RecvTimeout)" True True 2
      "supervisor_start\<lparr>su_status := Some \<lparr>xs_code = Some 0, xs_signal = None\<rparr>\<rparr>"]
  by (simp add: demo_tick_def supervisor_start_def Let_def numeral_eq_Suc)

end
