(* ===== verification/Serial_Observer.thy ===== *)
theory Serial_Observer
  imports Event_Stream
begin

section \<open>Watching the guest\<close>

text \<open>
  Models \<^verbatim>\<open>crates/princess-run/src/serial.rs\<close> and \<^verbatim>\<open>crates/princess-run/src/exit.rs\<close>: the
  observer fed with serial lines, which recognises banners, the paging state, exceptions, faults
  and panics; and the evidence from which the reason of an exit is attributed. The debug log of
  the emulator is what reading the file gave.
\<close>

subsection \<open>Numbers and vectors\<close>

definition serial_hex_u64 :: "string \<Rightarrow> u64 option" where
  "serial_hex_u64 txt =
     (let trimmed = trim_end_matches (\<lambda>c. c = CHR '','') (str_trim txt);
          digits = (case strip_prefix ''0x'' trimmed of
                      Some d \<Rightarrow> d
                    | None \<Rightarrow> (case strip_prefix ''0X'' trimmed of Some d \<Rightarrow> d | None \<Rightarrow> trimmed))
      in if digits = [] \<or> \<not> list_all is_hexdigit digits then None
         else map_option word_of_nat (radix16_u64 digits))"

definition vector_name :: "u32 \<Rightarrow> string" where
  "vector_name n =
     (if n = 0 then ''#DE'' else if n = 1 then ''#DB'' else if n = 2 then ''NMI''
      else if n = 3 then ''#BP'' else if n = 4 then ''#OF'' else if n = 5 then ''#BR''
      else if n = 6 then ''#UD'' else if n = 7 then ''#NM'' else if n = 8 then ''#DF''
      else if n = 10 then ''#TS'' else if n = 11 then ''#NP'' else if n = 12 then ''#SS''
      else if n = 13 then ''#GP'' else if n = 14 then ''#PF'' else if n = 16 then ''#MF''
      else if n = 17 then ''#AC'' else if n = 18 then ''#MC'' else if n = 19 then ''#XM''
      else if n = 21 then ''#CP'' else ''unknown'')"

definition BANNER_PREFIX :: string where "BANNER_PREFIX = ''PrincessIDE''"
definition EXCEPTION_PREFIX :: string where "EXCEPTION_PREFIX = ''EXCEPTION: vector=''"
definition FAULT_PREFIX :: string where "FAULT_PREFIX = ''FAULT_RIP=''"
definition PANIC_PREFIX :: string where "PANIC_PREFIX = ''PANIC:''"
definition PAGING_ENABLED_MARKER :: string where "PAGING_ENABLED_MARKER = ''CR0.PG=1''"

subsection \<open>Faults\<close>

record raw_fault =
  fa_vector_number :: "u32 option"
  fa_vector :: string
  fa_rip :: u64
  fa_rip_text :: string
  fa_error_code :: u64
  fa_cs :: "string option"
  fa_rflags :: "string option"

definition fault_registers :: "raw_fault \<Rightarrow> register_file" where
  "fault_registers f =
     (let r0 = Map.empty(''RIP'' \<mapsto> fa_rip_text f);
          r1 = (case fa_cs f of None \<Rightarrow> r0 | Some cs \<Rightarrow> r0(''CS'' \<mapsto> cs))
      in case fa_rflags f of None \<Rightarrow> r1 | Some fl \<Rightarrow> r1(''RFLAGS'' \<mapsto> fl))"

definition into_payload :: "raw_fault \<Rightarrow> symbolicated_location option \<Rightarrow> run_fault" where
  "into_payload f loc =
     \<lparr>rf_vector = fa_vector f, rf_rip = fa_rip f, rf_rip_text = fa_rip_text f,
      rf_error_code = fa_error_code f, rf_regs = fault_registers f, rf_symbolicated = loc\<rparr>"

definition is_page_fault :: "raw_fault \<Rightarrow> bool" where
  "is_page_fault f \<longleftrightarrow> fa_vector_number f = Some 14 \<or> fa_vector f = ''#PF''"

datatype page_fault_gate = PagingConfirmed | PagingUnproven | PagingDisabled | NotApplicable

datatype serial_observation =
    ObsBanner string | ObsFault raw_fault | ObsPanic | ObsPagingState bool

definition detect_banner :: "string \<Rightarrow> string option" where
  "detect_banner line =
     (let trimmed = str_trim line
      in if \<not> starts_with BANNER_PREFIX trimmed then None
         else if starts_with ''['' trimmed then None
         else Some trimmed)"

definition parse_vector :: "string \<Rightarrow> (u32 \<times> string) option" where
  "parse_vector rest =
     (case split_whitespace rest of
        [] \<Rightarrow> None
      | token # _ \<Rightarrow>
          (case serial_hex_u64 token of
             None \<Rightarrow> None
           | Some v \<Rightarrow>
               let number = (ucast v :: u32);
                   name = (case split_once CHR ''('' rest of
                             None \<Rightarrow> vector_name number
                           | Some (_, after) \<Rightarrow>
                               let candidate = (case split_whitespace after of [] \<Rightarrow> [] | w # _ \<Rightarrow> w)
                               in if starts_with ''#'' candidate \<or> list_all ascii_uppercase candidate
                                  then candidate else vector_name number)
               in Some (number, name)))"

text \<open>The fields after the address, in order; a later one replaces an earlier one.\<close>

definition fault_field :: "string \<Rightarrow> raw_fault \<Rightarrow> raw_fault" where
  "fault_field fld f =
     (case strip_prefix ''cs='' fld of
        Some v \<Rightarrow> f\<lparr>fa_cs := Some v\<rparr>
      | None \<Rightarrow>
     (case strip_prefix ''rflags='' fld of
        Some v \<Rightarrow> f\<lparr>fa_rflags := Some v\<rparr>
      | None \<Rightarrow>
     (case strip_prefix ''error='' fld of
        Some v \<Rightarrow> f\<lparr>fa_error_code := (case serial_hex_u64 v of None \<Rightarrow> 0 | Some e \<Rightarrow> e)\<rparr>
      | None \<Rightarrow> f)))"

definition parse_fault :: "string \<Rightarrow> raw_fault option" where
  "parse_fault rest =
     (case split_whitespace rest of
        [] \<Rightarrow> None
      | rip_text # flds \<Rightarrow>
          (case serial_hex_u64 rip_text of
             None \<Rightarrow> None
           | Some rip \<Rightarrow>
               Some (fold fault_field flds
                 \<lparr>fa_vector_number = None, fa_vector = [], fa_rip = rip, fa_rip_text = rip_text,
                  fa_error_code = 0, fa_cs = None, fa_rflags = None\<rparr>)))"

subsection \<open>The observer\<close>

record serial_observer =
  sv_banner :: "string option"
  sv_panic_seen :: bool
  sv_paging_enabled :: "bool option"
  sv_last_vector :: "(u32 \<times> string) option"
  sv_fault :: "raw_fault option"
  sv_fault_count :: u64
  sv_page_fault_gate :: "page_fault_gate option"

definition observer_new :: serial_observer where
  "observer_new =
     \<lparr>sv_banner = None, sv_panic_seen = False, sv_paging_enabled = None, sv_last_vector = None,
      sv_fault = None, sv_fault_count = 0, sv_page_fault_gate = None\<rparr>"

definition gate_for :: "serial_observer \<Rightarrow> raw_fault \<Rightarrow> page_fault_gate" where
  "gate_for s f =
     (if \<not> is_page_fault f then NotApplicable
      else case sv_paging_enabled s of
        Some True \<Rightarrow> PagingConfirmed
      | Some False \<Rightarrow> PagingDisabled
      | None \<Rightarrow> PagingUnproven)"

text \<open>The blocks of \<open>feed\<close>, in order; each gives the observer and what it adds.\<close>

definition feed_banner :: "string \<Rightarrow> serial_observer \<Rightarrow> serial_observer \<times> serial_observation list" where
  "feed_banner line s =
     (if sv_banner s = None
      then (case detect_banner line of
              None \<Rightarrow> (s, [])
            | Some b \<Rightarrow> (s\<lparr>sv_banner := Some b\<rparr>, [ObsBanner b]))
      else (s, []))"

definition feed_paging :: "string \<Rightarrow> serial_observer \<Rightarrow> serial_observer \<times> serial_observation list" where
  "feed_paging line s =
     (if str_contains PAGING_ENABLED_MARKER line \<and> sv_paging_enabled s \<noteq> Some True
      then (s\<lparr>sv_paging_enabled := Some True\<rparr>, [ObsPagingState True])
      else if str_contains ''CR0.PG=0'' line \<and> sv_paging_enabled s \<noteq> Some False
      then (s\<lparr>sv_paging_enabled := Some False\<rparr>, [ObsPagingState False])
      else (s, []))"

definition feed_vector :: "string \<Rightarrow> serial_observer \<Rightarrow> serial_observer" where
  "feed_vector line s =
     (case split_once_str EXCEPTION_PREFIX line of
        None \<Rightarrow> s
      | Some (_, rest) \<Rightarrow>
          (case parse_vector rest of None \<Rightarrow> s | Some v \<Rightarrow> s\<lparr>sv_last_vector := Some v\<rparr>))"

definition line_error :: "string \<Rightarrow> u64 option" where
  "line_error line =
     (case split_once_str ''FAULT_ERROR='' line of
        None \<Rightarrow> None
      | Some (_, rest) \<Rightarrow> (case split_whitespace rest of [] \<Rightarrow> None | w # _ \<Rightarrow> serial_hex_u64 w))"

definition feed_fault :: "string \<Rightarrow> serial_observer \<Rightarrow> serial_observer \<times> serial_observation list" where
  "feed_fault line s =
     (case split_once_str FAULT_PREFIX line of
        None \<Rightarrow> (s, [])
      | Some (_, rest) \<Rightarrow>
          (case parse_fault rest of
             None \<Rightarrow> (s, [])
           | Some f0 \<Rightarrow>
               let f1 = (case sv_last_vector s of
                           None \<Rightarrow> f0
                         | Some (number, name) \<Rightarrow> f0\<lparr>fa_vector_number := Some number, fa_vector := name\<rparr>);
                   f = (case line_error line of None \<Rightarrow> f1 | Some e \<Rightarrow> f1\<lparr>fa_error_code := e\<rparr>);
                   s' = s\<lparr>sv_fault_count := sv_fault_count s + 1\<rparr>
               in (s'\<lparr>sv_page_fault_gate := Some (gate_for s' f), sv_fault := Some f\<rparr>, [ObsFault f])))"

definition feed_panic :: "string \<Rightarrow> serial_observer \<Rightarrow> serial_observer \<times> serial_observation list" where
  "feed_panic line s =
     (if str_contains PANIC_PREFIX line \<and> \<not> sv_panic_seen s
      then (s\<lparr>sv_panic_seen := True\<rparr>, [ObsPanic]) else (s, []))"

definition feed :: "serial_observer \<Rightarrow> string \<Rightarrow> serial_observer \<times> serial_observation list" where
  "feed s line =
     (case feed_banner line s of (s1, o1) \<Rightarrow>
      case feed_paging line s1 of (s2, o2) \<Rightarrow>
      case feed_fault line (feed_vector line s2) of (s3, o3) \<Rightarrow>
      case feed_panic line s3 of (s4, o4) \<Rightarrow> (s4, o1 @ o2 @ o3 @ o4))"

fun fault_rip_loop :: "string list \<Rightarrow> u64 option" where
  "fault_rip_loop [] = None"
| "fault_rip_loop (line # rest) =
     (case split_once_str FAULT_PREFIX line of
        None \<Rightarrow> fault_rip_loop rest
      | Some (_, after) \<Rightarrow>
          (case split_whitespace after of
             [] \<Rightarrow> fault_rip_loop rest
           | w # _ \<Rightarrow> (case serial_hex_u64 w of None \<Rightarrow> fault_rip_loop rest | Some v \<Rightarrow> Some v)))"

definition fault_rip_in_log :: "string \<Rightarrow> u64 option" where
  "fault_rip_in_log txt = fault_rip_loop (str_lines txt)"

fun first_banner :: "string list \<Rightarrow> string option" where
  "first_banner [] = None"
| "first_banner (l # ls) = (case detect_banner l of None \<Rightarrow> first_banner ls | Some b \<Rightarrow> Some b)"

definition banner_in_log :: "string \<Rightarrow> string option" where
  "banner_in_log txt = first_banner (str_lines txt)"

subsection \<open>Why the machine stopped\<close>

record qemu_evidence =
  qe_exit_code :: "int option"
  qe_signal :: "int option"
  qe_timed_out :: bool
  qe_cancelled :: bool
  qe_triple_fault :: bool
  qe_guest_shutdown :: bool

definition into_facts :: "qemu_evidence \<Rightarrow> exit_facts" where
  "into_facts e =
     \<lparr>ef_exit_code = qe_exit_code e, ef_signal = qe_signal e, ef_timed_out = qe_timed_out e,
      ef_cancelled = qe_cancelled e,
      ef_guest_powered_off =
        (qe_guest_shutdown e \<and> \<not> qe_timed_out e \<and> \<not> qe_cancelled e \<and> \<not> qe_triple_fault e),
      ef_triple_fault = qe_triple_fault e\<rparr>"

definition evidence_reason :: "qemu_evidence \<Rightarrow> exit_reason" where
  "evidence_reason e = classify_exit (into_facts e)"

definition justification :: "qemu_evidence \<Rightarrow> string" where
  "justification e =
     (let reason = evidence_reason e; basis = (\<lambda>b. exit_reason_str reason @ '': '' @ b)
      in case reason of
           Killed \<Rightarrow>
             if qe_cancelled e then basis ''cancellation was requested''
             else (case (qe_exit_code e, qe_signal e) of
                     (_, Some sig) \<Rightarrow> ''killed: signal '' @ show_int sig @ '' (no cancellation was requested)''
                   | (Some code, None) \<Rightarrow> ''killed: exit code '' @ show_int code @ '' with no shutdown evidence''
                   | (None, None) \<Rightarrow> basis ''no exit status was available'')
         | ExitTimeout \<Rightarrow> basis ''the deadline fired before the machine stopped''
         | TripleFault \<Rightarrow> basis ''`Triple fault` appeared in the -d int,cpu_reset log''
         | GuestShutdown \<Rightarrow>
             if qe_guest_shutdown e then basis ''the guest requested power-off and QEMU exited cleanly''
             else basis ''a clean exit with no reset and no fault'')"

definition detect_triple_fault :: "string \<Rightarrow> bool" where
  "detect_triple_fault log =
     list_ex (\<lambda>line. str_contains ''triple fault'' (map ascii_lower line)) (str_lines log)"

text \<open>
  Opening the file, its bytes on the first read, and its bytes when it is opened and read a second
  time; \<open>None\<close> is a failure.
\<close>

definition triple_fault_in_file :: "bool \<Rightarrow> string option \<Rightarrow> string option \<Rightarrow> bool" where
  "triple_fault_in_file opened first second =
     (if \<not> opened then False
      else
        let txt = (case first of
                     Some bytes \<Rightarrow>
                       if valid_utf8 bytes then bytes
                       else (case second of None \<Rightarrow> [] | Some raw \<Rightarrow> from_utf8_lossy raw)
                   | None \<Rightarrow> (case second of None \<Rightarrow> [] | Some raw \<Rightarrow> from_utf8_lossy raw))
        in detect_triple_fault txt)"


subsection \<open>Facts: the observer and its history\<close>

fun feed_all :: "serial_observer \<Rightarrow> string list \<Rightarrow> serial_observer \<times> serial_observation list" where
  "feed_all s [] = (s, [])"
| "feed_all s (l # ls) = (case feed s l of (s', o1) \<Rightarrow> case feed_all s' ls of (s'', o2) \<Rightarrow> (s'', o1 @ o2))"

definition faults_of :: "serial_observation list \<Rightarrow> raw_fault list" where
  "faults_of obs = concat (map (\<lambda>x. case x of ObsFault f \<Rightarrow> [f] | _ \<Rightarrow> []) obs)"

definition banners_of :: "serial_observation list \<Rightarrow> string list" where
  "banners_of obs = concat (map (\<lambda>x. case x of ObsBanner b \<Rightarrow> [b] | _ \<Rightarrow> []) obs)"

definition panics_of :: "serial_observation list \<Rightarrow> nat" where
  "panics_of obs = length (filter (\<lambda>x. x = ObsPanic) obs)"

lemma observations_append [simp]:
  "faults_of (a @ b) = faults_of a @ faults_of b" "banners_of (a @ b) = banners_of a @ banners_of b"
  "panics_of (a @ b) = panics_of a + panics_of b"
  "faults_of [] = []" "banners_of [] = []" "panics_of [] = 0"
  by (simp_all add: faults_of_def banners_of_def panics_of_def)

lemma observations_one [simp]:
  "faults_of [ObsFault f] = [f]" "banners_of [ObsFault f] = []" "panics_of [ObsFault f] = 0"
  "faults_of [ObsBanner b] = []" "banners_of [ObsBanner b] = [b]" "panics_of [ObsBanner b] = 0"
  "faults_of [ObsPanic] = []" "banners_of [ObsPanic] = []" "panics_of [ObsPanic] = 1"
  "faults_of [ObsPagingState x] = []" "banners_of [ObsPagingState x] = []" "panics_of [ObsPagingState x] = 0"
  by (simp_all add: faults_of_def banners_of_def panics_of_def)

text \<open>One line, block by block: each block changes its own fields only.\<close>

lemma banner_block [simp]:
  "sv_panic_seen (fst (feed_banner l s)) = sv_panic_seen s"
  "sv_fault_count (fst (feed_banner l s)) = sv_fault_count s"
  "sv_fault (fst (feed_banner l s)) = sv_fault s"
  "sv_last_vector (fst (feed_banner l s)) = sv_last_vector s"
  "sv_paging_enabled (fst (feed_banner l s)) = sv_paging_enabled s"
  "sv_banner (fst (feed_banner l s)) = (case sv_banner s of None \<Rightarrow> detect_banner l | Some b \<Rightarrow> Some b)"
  "faults_of (snd (feed_banner l s)) = []" "panics_of (snd (feed_banner l s)) = 0"
  "banners_of (snd (feed_banner l s)) =
     (if sv_banner s = None then (case detect_banner l of None \<Rightarrow> [] | Some b \<Rightarrow> [b]) else [])"
  by (auto simp: feed_banner_def split: option.splits)

lemma paging_block [simp]:
  "sv_panic_seen (fst (feed_paging l s)) = sv_panic_seen s"
  "sv_fault_count (fst (feed_paging l s)) = sv_fault_count s"
  "sv_fault (fst (feed_paging l s)) = sv_fault s"
  "sv_last_vector (fst (feed_paging l s)) = sv_last_vector s"
  "sv_banner (fst (feed_paging l s)) = sv_banner s"
  "faults_of (snd (feed_paging l s)) = []" "panics_of (snd (feed_paging l s)) = 0"
  "banners_of (snd (feed_paging l s)) = []"
  by (simp_all add: feed_paging_def)

lemma vector_block [simp]:
  "sv_panic_seen (feed_vector l s) = sv_panic_seen s"
  "sv_fault_count (feed_vector l s) = sv_fault_count s"
  "sv_fault (feed_vector l s) = sv_fault s"
  "sv_banner (feed_vector l s) = sv_banner s"
  "sv_paging_enabled (feed_vector l s) = sv_paging_enabled s"
  by (simp_all add: feed_vector_def split: option.split prod.split)

lemma fault_block [simp]:
  "sv_panic_seen (fst (feed_fault l s)) = sv_panic_seen s"
  "sv_banner (fst (feed_fault l s)) = sv_banner s"
  "sv_last_vector (fst (feed_fault l s)) = sv_last_vector s"
  "sv_paging_enabled (fst (feed_fault l s)) = sv_paging_enabled s"
  "panics_of (snd (feed_fault l s)) = 0" "banners_of (snd (feed_fault l s)) = []"
  "sv_fault_count (fst (feed_fault l s)) = sv_fault_count s + word_of_nat (length (faults_of (snd (feed_fault l s))))"
  "sv_fault (fst (feed_fault l s)) =
     (if faults_of (snd (feed_fault l s)) = [] then sv_fault s else Some (last (faults_of (snd (feed_fault l s)))))"
  by (simp_all add: feed_fault_def Let_def split: option.split prod.split)

lemma panic_block [simp]:
  "sv_banner (fst (feed_panic l s)) = sv_banner s"
  "sv_fault_count (fst (feed_panic l s)) = sv_fault_count s"
  "sv_fault (fst (feed_panic l s)) = sv_fault s"
  "sv_last_vector (fst (feed_panic l s)) = sv_last_vector s"
  "sv_paging_enabled (fst (feed_panic l s)) = sv_paging_enabled s"
  "sv_panic_seen (fst (feed_panic l s)) \<longleftrightarrow> sv_panic_seen s \<or> str_contains PANIC_PREFIX l"
  "faults_of (snd (feed_panic l s)) = []" "banners_of (snd (feed_panic l s)) = []"
  "panics_of (snd (feed_panic l s)) = (if \<not> sv_panic_seen s \<and> str_contains PANIC_PREFIX l then 1 else 0)"
  by (auto simp: feed_panic_def)

lemma feed_state:
  "fst (feed s l) =
     fst (feed_panic l (fst (feed_fault l (feed_vector l (fst (feed_paging l (fst (feed_banner l s))))))))"
  by (simp add: feed_def split: prod.split)

lemma feed_observations:
  "snd (feed s l) =
     (let s1 = fst (feed_banner l s); s2 = fst (feed_paging l s1); s3 = fst (feed_fault l (feed_vector l s2))
      in snd (feed_banner l s) @ snd (feed_paging l s1) @ snd (feed_fault l (feed_vector l s2)) @ snd (feed_panic l s3))"
  by (simp add: feed_def Let_def split: prod.split)

lemma feed_all_simp:
  "feed_all s (l # ls) =
     (fst (feed_all (fst (feed s l)) ls), snd (feed s l) @ snd (feed_all (fst (feed s l)) ls))"
  by (simp add: case_prod_beta)

declare feed_all.simps(2) [simp del]



subsection \<open>Facts: a fault report\<close>

text \<open>The machine-readable line of the guest kernels.\<close>

definition fault_line :: "string \<Rightarrow> u64 \<Rightarrow> string \<Rightarrow> string \<Rightarrow> u64 \<Rightarrow> string" where
  "fault_line prefix rip cs rflags err =
     prefix @ FAULT_PREFIX @ (''0x'' @ hex16 rip) @ CHR '' '' # (''cs='' @ cs) @ CHR '' '' #
     (''rflags='' @ rflags) @ CHR '' '' # (''error=0x'' @ hex16 err)"

text \<open>A prefix without an upper-case F does not start the marker early.\<close>

lemma fault_prefix_split:
  assumes "CHR ''F'' \<notin> set a"
  shows "split_once_str FAULT_PREFIX (a @ FAULT_PREFIX @ b) = Some (a, b)"
proof (rule split_once_str_first, intro allI impI)
  fix t assume t: "t < length a"
  then have "drop t (a @ FAULT_PREFIX @ b) = a ! t # drop (Suc t) (a @ FAULT_PREFIX @ b)"
    by (simp add: Cons_nth_drop_Suc [symmetric] nth_append)
  moreover have "a ! t \<noteq> CHR ''F''"
    using assms t by (metis nth_mem)
  ultimately show "\<not> starts_with FAULT_PREFIX (drop t (a @ FAULT_PREFIX @ b))"
    by (simp add: FAULT_PREFIX_def)
qed

lemma serial_hex_16: "serial_hex_u64 (''0x'' @ hex16 w) = Some w"
proof -
  have g: "ascii_graphic (last (hex16 w))" "last (hex16 w) \<noteq> CHR '',''"
    using hex16_chars [OF last_in_set [OF hex16_nonempty], of w]
    by (auto simp: is_hexdigit_def to_digit_def byte_of_def)
  have "str_trim (''0x'' @ hex16 w) = ''0x'' @ hex16 w"
    using g(1) by (intro str_trim_graphic(3)) (simp_all add: ascii_graphic_def byte_of_def)
  moreover have "trim_end_matches (\<lambda>c. c = CHR '','') (''0x'' @ hex16 w) = ''0x'' @ hex16 w"
    using g(2) by (cases "hex16 w" rule: rev_cases) (simp_all add: trim_end_matches_def)
  moreover have "strip_prefix ''0x'' (''0x'' @ hex16 w) = Some (hex16 w)"
    by (simp add: strip_prefix_def starts_with_iff)
  moreover have "list_all is_hexdigit (hex16 w)"
    using hex16_chars by (auto simp: list_all_iff)
  ultimately show ?thesis
    by (simp add: serial_hex_u64_def Let_def radix16_hex16)
qed

lemma parse_fault_line:
  assumes "field_ok cs" "field_ok rflags"
  shows "parse_fault ((''0x'' @ hex16 rip) @ CHR '' '' # (''cs='' @ cs) @ CHR '' '' #
      (''rflags='' @ rflags) @ CHR '' '' # (''error=0x'' @ hex16 err)) =
    Some \<lparr>fa_vector_number = None, fa_vector = [], fa_rip = rip, fa_rip_text = ''0x'' @ hex16 rip,
      fa_error_code = err, fa_cs = Some cs, fa_rflags = Some rflags\<rparr>"
proof -
  have ok: "field_ok (''0x'' @ hex16 w)" "field_ok (''error=0x'' @ hex16 w)" for w
    using hex16_field [of w] by (auto simp: field_ok_def ascii_graphic_def byte_of_def)
  have "field_ok (''cs='' @ cs)" "field_ok (''rflags='' @ rflags)"
    using assms by (auto simp: field_ok_def ascii_graphic_def byte_of_def)
  then have words: "split_whitespace ((''0x'' @ hex16 rip) @ CHR '' '' # (''cs='' @ cs) @ CHR '' '' #
      (''rflags='' @ rflags) @ CHR '' '' # (''error=0x'' @ hex16 err)) =
    [''0x'' @ hex16 rip, ''cs='' @ cs, ''rflags='' @ rflags, ''error=0x'' @ hex16 err]"
    using ok by (simp only: split_whitespace_Cons split_whitespace_one)
  have "strip_prefix ''cs='' (''cs='' @ cs) = Some cs" "strip_prefix ''cs='' (''rflags='' @ rflags) = None"
    "strip_prefix ''rflags='' (''rflags='' @ rflags) = Some rflags"
    "strip_prefix ''cs='' (''error=0x'' @ hex16 err) = None"
    "strip_prefix ''rflags='' (''error=0x'' @ hex16 err) = None"
    "strip_prefix ''error='' (''error=0x'' @ hex16 err) = Some (''0x'' @ hex16 err)"
    by (simp_all add: strip_prefix_def)
  then have "fold fault_field [''cs='' @ cs, ''rflags='' @ rflags, ''error=0x'' @ hex16 err] f =
      f\<lparr>fa_cs := Some cs, fa_rflags := Some rflags, fa_error_code := err\<rparr>" for f
    by (simp only: fold_simps fault_field_def option.case serial_hex_16)
  then show ?thesis
    unfolding parse_fault_def words by (simp only: list.case serial_hex_16 option.case) simp
qed

definition no_marks :: "string \<Rightarrow> bool" where
  "no_marks t \<longleftrightarrow> CHR ''F'' \<notin> set t \<and> CHR ''X'' \<notin> set t"

lemma no_marks_hex16: "no_marks (hex16 w)"
proof -
  have "c \<noteq> CHR ''F'' \<and> c \<noteq> CHR ''X''" if "c \<in> set (hex16 w)" for c
  proof -
    from hex16_digits [OF that] obtain d where d: "d < 16" "c = digit_char d"
      by blast
    then have "byte_of c \<noteq> 70 \<and> byte_of c \<noteq> 88"
      using byte_of_digit_char [OF d(1)] by (auto split: if_splits)
    then show ?thesis by (auto simp: byte_of_def)
  qed
  then show ?thesis by (auto simp: no_marks_def)
qed

lemma no_exception: "CHR ''X'' \<notin> set l \<Longrightarrow> feed_vector l s = s"
proof -
  assume "CHR ''X'' \<notin> set l"
  then have "\<not> str_contains EXCEPTION_PREFIX l"
    by (auto simp: str_contains_iff EXCEPTION_PREFIX_def)
  then show ?thesis
    using split_once_str_None [of EXCEPTION_PREFIX l] by (simp add: feed_vector_def)
qed

lemma no_fault_error:
  assumes "CHR ''F'' \<notin> set a" "CHR ''F'' \<notin> set b"
  shows "split_once_str ''FAULT_ERROR='' (a @ FAULT_PREFIX @ b) = None"
proof -
  have "\<not> str_contains ''FAULT_ERROR='' t" if "CHR ''F'' \<notin> set t" for t
    using that by (auto simp: str_contains_iff)
  then have "\<not> str_contains ''FAULT_ERROR='' (FAULT_PREFIX @ b)"
    using assms(2) by (simp add: FAULT_PREFIX_def)
  then have "\<not> str_contains ''FAULT_ERROR='' (a @ FAULT_PREFIX @ b)"
    using assms(1) by (induction a) auto
  then show ?thesis by (simp add: split_once_str_None)
qed

lemma fault_line_fault:
  assumes "no_marks prefix" "no_marks cs" "no_marks rflags" "field_ok cs" "field_ok rflags"
  shows "faults_of (snd (feed s (fault_line prefix rip cs rflags err))) =
    [\<lparr>fa_vector_number = map_option fst (sv_last_vector s),
      fa_vector = (case sv_last_vector s of None \<Rightarrow> [] | Some v \<Rightarrow> snd v),
      fa_rip = rip, fa_rip_text = ''0x'' @ hex16 rip, fa_error_code = err, fa_cs = Some cs, fa_rflags = Some rflags\<rparr>]"
proof -
  define rest where "rest = (''0x'' @ hex16 rip) @ CHR '' '' # (''cs='' @ cs) @ CHR '' '' #
      (''rflags='' @ rflags) @ CHR '' '' # (''error=0x'' @ hex16 err)"
  define line where "line = fault_line prefix rip cs rflags err"
  have line: "line = prefix @ FAULT_PREFIX @ rest"
    by (simp add: line_def fault_line_def rest_def)
  have F: "CHR ''F'' \<notin> set prefix" "CHR ''F'' \<notin> set rest" and X: "CHR ''X'' \<notin> set line"
    using assms no_marks_hex16 [of rip] no_marks_hex16 [of err]
    by (auto simp: line rest_def no_marks_def FAULT_PREFIX_def)
  have parsed: "parse_fault rest = Some \<lparr>fa_vector_number = None, fa_vector = [], fa_rip = rip,
      fa_rip_text = ''0x'' @ hex16 rip, fa_error_code = err, fa_cs = Some cs, fa_rflags = Some rflags\<rparr>"
    unfolding rest_def using assms(4,5) by (rule parse_fault_line)
  have "split_once_str FAULT_PREFIX line = Some (prefix, rest)" "line_error line = None"
    using fault_prefix_split [OF F(1)] no_fault_error [OF F] by (simp_all add: line line_error_def)
  then have "faults_of (snd (feed_fault line u)) =
    [\<lparr>fa_vector_number = map_option fst (sv_last_vector u),
      fa_vector = (case sv_last_vector u of None \<Rightarrow> [] | Some v \<Rightarrow> snd v),
      fa_rip = rip, fa_rip_text = ''0x'' @ hex16 rip, fa_error_code = err, fa_cs = Some cs, fa_rflags = Some rflags\<rparr>]" for u
    by (simp add: feed_fault_def parsed Let_def split: option.split prod.split)
  then show ?thesis
    by (simp add: feed_observations Let_def no_exception [OF X] flip: line_def)
qed

text \<open>
  C18. A fault the guest prints in its own format is reported with exactly what was printed: the
  address and its text verbatim, the segment, the flags, the error code, and the vector of the
  last exception line; the payload keys the printed texts by register name. An error code that
  the guest prints on a line of its own is lost: such a line before the report changes nothing
  in it, and after it nothing at all.
\<close>

theorem guest_fault_reported:
  assumes "no_marks prefix" "no_marks cs" "no_marks rflags" "field_ok cs" "field_ok rflags"
  shows "\<exists>f. faults_of (snd (feed s (fault_line prefix rip cs rflags err))) = [f] \<and>
    fa_vector_number f = map_option fst (sv_last_vector s) \<and> fa_error_code f = err \<and>
    rf_rip (into_payload f loc) = rip \<and> rf_rip_text (into_payload f loc) = ''0x'' @ hex16 rip \<and>
    rf_regs (into_payload f loc) =
      [''RIP'' \<mapsto> ''0x'' @ hex16 rip, ''CS'' \<mapsto> cs, ''RFLAGS'' \<mapsto> rflags] \<and>
    faults_of (snd (feed (fst (feed s (''FAULT_ERROR=0x'' @ hex16 e))) (fault_line prefix rip cs rflags err))) = [f] \<and>
    sv_fault (fst (feed q (''FAULT_ERROR=0x'' @ hex16 e))) = sv_fault q"
proof -
  have X: "CHR ''X'' \<notin> set (''FAULT_ERROR=0x'' @ hex16 e)"
    using no_marks_hex16 [of e] by (auto simp: no_marks_def)
  have "\<not> str_contains FAULT_PREFIX t" if "CHR ''F'' \<notin> set t" for t
    using that by (auto simp: str_contains_iff FAULT_PREFIX_def)
  then have "\<not> str_contains FAULT_PREFIX (''FAULT_ERROR=0x'' @ hex16 e)"
    using no_marks_hex16 [of e] by (simp add: no_marks_def FAULT_PREFIX_def)
  then have none: "faults_of (snd (feed_fault (''FAULT_ERROR=0x'' @ hex16 e) u)) = []" for u
    using split_once_str_None [of FAULT_PREFIX "''FAULT_ERROR=0x'' @ hex16 e"] by (simp add: feed_fault_def)
  have "sv_last_vector (fst (feed s (''FAULT_ERROR=0x'' @ hex16 e))) = sv_last_vector s"
    by (simp only: feed_state panic_block fault_block no_exception [OF X] paging_block banner_block)
  then show ?thesis
    using assms none
    by (simp add: fault_line_fault into_payload_def fault_registers_def feed_state no_exception [OF X]
        del: append.simps)
qed

theorem guest_fault_reported_witness:
  "\<exists>f. faults_of (snd (feed observer_new (fault_line ''[k] '' 0x100b3d ''0x0008'' ''0x2'' 0))) = [f] \<and> fa_rip f = 0x100b3d"
proof -
  have "no_marks ''[k] ''" "no_marks ''0x0008''" "no_marks ''0x2''" "field_ok ''0x0008''" "field_ok ''0x2''"
    by (simp_all add: no_marks_def field_ok_def ascii_graphic_def byte_of_def)
  from guest_fault_reported [OF this, of observer_new "0x100b3d" 0 None 0 observer_new]
  show ?thesis by (auto simp: into_payload_def)
qed

subsection \<open>Facts: attribution\<close>

text \<open>
  Attribution follows the evidence in a fixed order and never takes a fault from an exit code:
  killed exactly by cancellation or by an unclean end with nothing else known, timeout exactly by
  the deadline without cancellation, triple fault exactly by the reset log without either, and
  shutdown exactly by the guest's request or by exit code 0 with none of those; and the
  justification starts with the reason it justifies.
\<close>

lemma attribution_follows_evidence:
  "(evidence_reason e = ExitTimeout \<longleftrightarrow> qe_timed_out e \<and> \<not> qe_cancelled e) \<and>
   (evidence_reason e = TripleFault \<longleftrightarrow> qe_triple_fault e \<and> \<not> qe_timed_out e \<and> \<not> qe_cancelled e) \<and>
   (evidence_reason e = GuestShutdown \<longleftrightarrow>
      (qe_guest_shutdown e \<or> qe_exit_code e = Some 0) \<and>
      \<not> qe_triple_fault e \<and> \<not> qe_timed_out e \<and> \<not> qe_cancelled e) \<and>
   evidence_reason (e\<lparr>qe_exit_code := Some 0, qe_triple_fault := False, qe_guest_shutdown := True\<rparr>) \<noteq> TripleFault \<and>
   starts_with (exit_reason_str (evidence_reason e) @ '': '') (justification e)"
proof (intro conjI)
  show "starts_with (exit_reason_str (evidence_reason e) @ '': '') (justification e)"
    unfolding starts_with_iff justification_def Let_def
    by (cases "evidence_reason e") (auto split: option.split)
qed (auto simp: evidence_reason_def into_facts_def classify_exit_def split: option.splits)

end
