(* ===== verification/Event_Sink.thy ===== *)
theory Event_Sink
  imports Event_Stream
begin

section \<open>Event sinks\<close>

text \<open>
  Models the trait \<open>EventSink\<close> of \<^verbatim>\<open>crates/princess-core/src/traits.rs\<close>: \<open>emit\<close>, on which the
  other operations rest, and the recorder as a sink. The locale is the contract its clients rely
  on: a sink holds exactly the events whose emission succeeded, and stays sound. The recorder is shown to keep it
  when it is watched, that is paired with the events its \<open>emit\<close> returned.
\<close>

type_synonym 's emitter = "event_body \<Rightarrow> ('s, princess_error, unit) op"

definition sink_log :: "'s emitter \<Rightarrow> log_stream \<Rightarrow> string \<Rightarrow> ('s, princess_error, unit) op" where
  "sink_log emit stream chunk =
     emit (LogAppend \<lparr>la_stream = stream, la_chunk = chunk, la_encoding = EncUtf8\<rparr>)"

definition sink_note :: "'s emitter \<Rightarrow> string \<Rightarrow> ('s, princess_error, unit) op" where
  "sink_note emit txt = sink_log emit StreamIde (ensure_newline txt)"

text \<open>The recorder as a sink, with a clock, and the events it returned so far.\<close>

definition recorder_sink ::
  "json_encoder \<Rightarrow> 'w writer \<Rightarrow> (u64 \<Rightarrow> int) \<Rightarrow> ('w recorder \<times> event list) emitter" where
  "recorder_sink to_string io clock body =
     (\<lambda>(r, es). case emit_at to_string io r (clock (rc_next_seq r)) body of
        (r', Inl e) \<Rightarrow> ((r', es), Inl e)
      | (r', Inr event) \<Rightarrow> ((r', es @ [event]), Inr ()))"

locale event_sink =
  fixes emit :: "'s emitter" and bodies :: "'s \<Rightarrow> event_body list" and sound :: "'s \<Rightarrow> bool"
  assumes emitted: "emit b s = (s', Inr x) \<Longrightarrow> bodies s' = bodies s @ [b]"
    and refused: "emit b s = (s', Inl e) \<Longrightarrow> bodies s' = bodies s"
    and stays_sound: "sound s \<Longrightarrow> sound (fst (emit b s))"
begin

lemma emitted_sound: "emit b s = (s', x) \<Longrightarrow> sound s \<Longrightarrow> sound s'"
  using stays_sound [of s b] by simp

lemma noted:
  assumes "sink_note emit txt s = (s', Inr x)"
  shows "\<exists>c. bodies s' = bodies s @ [LogAppend \<lparr>la_stream = StreamIde, la_chunk = c, la_encoding = EncUtf8\<rparr>]"
    and "sound s \<Longrightarrow> sound s'"
  using assms by (auto simp: sink_note_def sink_log_def dest: emitted emitted_sound)

end

lemma recorder_sink_simp:
  "recorder_sink to_string io clock b (r, es) =
     (case emit_at to_string io r (clock (rc_next_seq r)) b of
        (r', Inl e) \<Rightarrow> ((r', es), Inl e)
      | (r', Inr event) \<Rightarrow> ((r', es @ [event]), Inr ()))"
  by (simp add: recorder_sink_def)

lemma emit_at_body: "emit_at to_string io r ts b = (r', Inr e) \<Longrightarrow> ev_body e = b"
  by (auto simp: emit_at_def Let_def event_new_def split: sum.splits prod.splits)

definition watched_bodies :: "'w recorder \<times> event list \<Rightarrow> event_body list" where
  "watched_bodies s = map ev_body (snd s)"

text \<open>Whatever a client does with the sink, its events are a recorded stream.\<close>

definition watched :: "json_encoder \<Rightarrow> 'w writer \<Rightarrow> 'w \<Rightarrow> 'w recorder \<times> event list \<Rightarrow> bool" where
  "watched to_string io out s = recorded to_string io out (fst s) (snd s)"

lemma watched_new: "watched to_string io out (recorder_new out, [])"
  by (simp add: watched_def rec_new)

lemma watched_emit: "watched to_string io out s \<Longrightarrow> watched to_string io out (fst (recorder_sink to_string io clock b s))"
  by (cases s)
    (auto simp: watched_def recorder_sink_simp intro: rec_emit rec_emit_failed split: prod.splits sum.splits)

interpretation recorder: event_sink "recorder_sink to_string io clock" watched_bodies "watched to_string io out"
  for to_string and io :: "'w writer" and clock out
proof unfold_locales
  fix s b
  assume "watched to_string io out s"
  then show "watched to_string io out (fst (recorder_sink to_string io clock b s))"
    by (rule watched_emit)
qed (auto simp: watched_bodies_def recorder_sink_def emit_at_body split: prod.splits sum.splits)

subsection \<open>Sinks that accept\<close>

text \<open>A sink that takes every event, and a history that has grown by events of a kind.\<close>

definition accepting :: "'s emitter \<Rightarrow> ('s \<Rightarrow> event_body list) \<Rightarrow> bool" where
  "accepting emit bodies \<longleftrightarrow> (\<forall>b s. snd (emit b s) = Inr () \<and> bodies (fst (emit b s)) = bodies s @ [b])"

lemma accepted: "accepting emit bodies \<Longrightarrow> \<exists>s'. emit b s = (s', Inr ()) \<and> bodies s' = bodies s @ [b]"
  unfolding accepting_def by (metis prod.collapse)

lemma log_accepted: "accepting emit bodies \<Longrightarrow> \<exists>s'. sink_log emit st line s = (s', Inr ())"
  using accepted [of emit bodies] unfolding sink_log_def by metis

definition grown :: "(event_body \<Rightarrow> bool) \<Rightarrow> ('s \<Rightarrow> event_body list) \<Rightarrow> event_body list \<Rightarrow> 's \<Rightarrow> bool" where
  "grown P bodies base s \<longleftrightarrow> (\<exists>mid. bodies s = base @ mid \<and> list_all P mid)"

lemma grown_start: "grown P bodies (bodies s) s"
  by (simp add: grown_def)

lemma keeps_grown: "accepting emit bodies \<Longrightarrow> P b \<Longrightarrow> keeps (grown P bodies base) (emit b)"
  by (rule keepsI) (fastforce simp: accepting_def grown_def)

lemma keeps_grown_log:
  "accepting emit bodies \<Longrightarrow> P (LogAppend \<lparr>la_stream = stream, la_chunk = line, la_encoding = EncUtf8\<rparr>) \<Longrightarrow>
     keeps (grown P bodies base) (sink_log emit stream line)"
  unfolding sink_log_def by (rule keeps_grown)

lemma never_refused: "accepting emit bodies \<Longrightarrow> never_fails (emit b)"
  unfolding never_fails_def accepting_def by blast

lemma log_accepts: "accepting emit bodies \<Longrightarrow> never_fails (sink_log emit st line)"
  unfolding sink_log_def by (rule never_refused)

lemma note_accepted: "accepting emit bodies \<Longrightarrow> never_fails (sink_note emit line)"
  unfolding sink_note_def by (rule log_accepts)

text \<open>The sink that keeps its events in a list.\<close>

definition list_sink :: "event_body list emitter" where
  "list_sink b es = (es @ [b], Inr ())"

lemma list_sink_accepts: "accepting list_sink id"
  by (simp add: accepting_def list_sink_def)

end
