(* ===== verification/Qemu_Run.thy ===== *)
theory Qemu_Run
  imports Qemu_Plan Process_Runner Serial_Observer Event_Sink
begin

section \<open>Running a machine\<close>

text \<open>
  Models \<^verbatim>\<open>crates/princess-run/src/backend.rs\<close>: what one run emits, from \<open>run.started\<close> to
  \<open>run.exited\<close>, the handling of each chunk, the evidence for the reason, and the summary. The
  event sink, the process runner (what it streams for a specification, and what it returns), the
  symbolizer and the debug log are arguments.
\<close>

subsection \<open>Chunks\<close>

definition MAX_FAULT_EVENTS :: nat where "MAX_FAULT_EVENTS = 16"

record 's run_state =
  rt_sink :: 's
  rt_observer :: serial_observer
  rt_faults :: "run_fault list"
  rt_suppressed :: nat

type_synonym symbolizer = "(u64 \<Rightarrow> symbolicated_location option) option"

definition on_sink :: "('s, princess_error, unit) op \<Rightarrow> ('s run_state, princess_error, unit) op" where
  "on_sink m r = (case m (rt_sink r) of (k, x) \<Rightarrow> (r\<lparr>rt_sink := k\<rparr>, x))"

definition page_fault_note :: "'s emitter \<Rightarrow> raw_fault \<Rightarrow> ('s run_state, princess_error, unit) op" where
  "page_fault_note emit raw r =
     (if is_page_fault raw then
        (case sv_page_fault_gate (rt_observer r) of
           Some PagingConfirmed \<Rightarrow> give () r
         | Some PagingDisabled \<Rightarrow> on_sink (sink_note emit
             ''guest reported #PF but the stream showed CR0.PG=0: not attributing a page fault'') r
         | _ \<Rightarrow> on_sink (sink_note emit
             ''guest reported #PF; CR0.PG=1 was not observed on the serial stream, so paging is unproven'') r)
      else give () r)"

definition symbol_note :: "'s emitter \<Rightarrow> raw_fault \<Rightarrow> symbolicated_location option \<Rightarrow> ('s run_state, princess_error, unit) op" where
  "symbol_note emit raw loc =
     on_sink (sink_note emit (''fault '' @ show_hex_alt (unat (fa_rip raw)) @
       (case loc of
          Some l \<Rightarrow> '' symbolicated as '' @ sy_symbol l @ '' at '' @ sy_file l @ '':'' @ show_nat (unat (sy_line l))
        | None \<Rightarrow> '' could not be symbolicated (no debug info covers it)'')))"

definition report_fault :: "'s emitter \<Rightarrow> raw_fault \<Rightarrow> symbolicated_location option \<Rightarrow> ('s run_state, princess_error, unit) op" where
  "report_fault emit raw loc r =
     (if MAX_FAULT_EVENTS \<le> length (rt_faults r) then
        let r1 = r\<lparr>rt_suppressed := rt_suppressed r + 1\<rparr>
        in if rt_suppressed r1 = 1
           then on_sink (sink_note emit (''more than '' @ show_nat MAX_FAULT_EVENTS @
                  '' faults in this run; suppressing further run.fault events'')) r1
           else give () r1
      else
        let payload = into_payload raw loc
        in then_do (on_sink (emit (RunFault payload)))
             (\<lambda>_ r. give () (r\<lparr>rt_faults := rt_faults r @ [payload]\<rparr>)) r)"

definition handle_fault :: "'s emitter \<Rightarrow> symbolizer \<Rightarrow> raw_fault \<Rightarrow> ('s run_state, princess_error, unit) op" where
  "handle_fault emit symbols raw =
     (let loc = (case symbols of None \<Rightarrow> None | Some lookup \<Rightarrow> lookup (fa_rip raw))
      in then_do (page_fault_note emit raw) (\<lambda>_.
         then_do (symbol_note emit raw loc) (\<lambda>_. report_fault emit raw loc)))"

fun handle_observation :: "'s emitter \<Rightarrow> symbolizer \<Rightarrow> serial_observation \<Rightarrow> ('s run_state, princess_error, unit) op" where
  "handle_observation emit symbols (ObsBanner banner) =
     on_sink (sink_note emit (''guest banner observed on serial.com1: '' @ banner))"
| "handle_observation emit symbols (ObsPagingState enabled) =
     on_sink (sink_note emit (''guest paging state: CR0.PG='' @ (if enabled then ''1'' else ''0'')))"
| "handle_observation emit symbols ObsPanic =
     on_sink (sink_note emit ''guest panic observed on serial.com1'')"
| "handle_observation emit symbols (ObsFault raw) = handle_fault emit symbols raw"

definition observe_line :: "'s emitter \<Rightarrow> symbolizer \<Rightarrow> string \<Rightarrow> ('s run_state, princess_error, unit) op" where
  "observe_line emit symbols line r =
     (case feed (rt_observer r) line of (observer, obs) \<Rightarrow>
        each_do (handle_observation emit symbols) obs (r\<lparr>rt_observer := observer\<rparr>))"

definition handle_chunk :: "'s emitter \<Rightarrow> symbolizer \<Rightarrow> stream_chunk \<Rightarrow> ('s run_state, princess_error, unit) op" where
  "handle_chunk emit symbols c =
     (case sk_pipe c of
        PipeSerial \<Rightarrow>
          then_do (on_sink (emit (LogAppend
              \<lparr>la_stream = SerialCom1, la_chunk = sk_text c, la_encoding = sk_encoding c\<rparr>)))
            (\<lambda>_. each_do (observe_line emit symbols) (str_lines (sk_text c)))
      | PipeEmulator \<Rightarrow>
          on_sink (emit (LogAppend
              \<lparr>la_stream = QemuMonitor, la_chunk = sk_text c, la_encoding = sk_encoding c\<rparr>)))"

text \<open>The callback: the first failure is kept, and from then on nothing more is handled.\<close>

definition on_chunk ::
  "'s emitter \<Rightarrow> symbolizer \<Rightarrow> stream_chunk \<Rightarrow> 's run_state \<times> princess_error option \<Rightarrow>
   's run_state \<times> princess_error option" where
  "on_chunk emit symbols c =
     (\<lambda>(r, slot). case slot of
        Some e \<Rightarrow> (r, Some e)
      | None \<Rightarrow> (case handle_chunk emit symbols c r of
                   (r', Inl e) \<Rightarrow> (r', Some e)
                 | (r', Inr _) \<Rightarrow> (r', None)))"

subsection \<open>A run\<close>

text \<open>
  What a run depends on: the runner, the cancellation flag after it returned, the time since the
  start, and what opening and reading a debug log gives.
\<close>

record run_environment =
  re_runner :: "spawn_spec \<Rightarrow> stream_chunk list \<times> (princess_error + process_outcome)"
  re_cancelled :: bool
  re_uptime_ms :: u64
  re_debug_log :: "string \<Rightarrow> bool \<times> string option \<times> string option"

definition evidence_from :: "run_environment \<Rightarrow> run_plan \<Rightarrow> process_outcome \<Rightarrow> string option \<Rightarrow> qemu_evidence" where
  "evidence_from env plan outcome debug_log =
     (let triple_fault = (case debug_log of
            None \<Rightarrow> False
          | Some path \<Rightarrow> (case re_debug_log env path of (opened, first, second) \<Rightarrow> triple_fault_in_file opened first second));
          guest_shutdown = (po_exit_code outcome = Some 0 \<and> po_signal outcome = None \<and>
            \<not> po_timed_out outcome \<and> \<not> po_cancelled outcome \<and> \<not> triple_fault)
      in \<lparr>qe_exit_code = po_exit_code outcome, qe_signal = po_signal outcome,
          qe_timed_out = po_timed_out outcome, qe_cancelled = (po_cancelled outcome \<or> re_cancelled env),
          qe_triple_fault = triple_fault,
          qe_guest_shutdown = (guest_shutdown \<and> sc_device (rn_serial plan) = ''com1'')\<rparr>)"

definition show_bool :: "bool \<Rightarrow> string" where
  "show_bool b = (if b then ''true'' else ''false'')"

definition debug_int_option :: "int option \<Rightarrow> string" where
  "debug_int_option v = (case v of None \<Rightarrow> ''None'' | Some i \<Rightarrow> ''Some('' @ show_int i @ '')'')"

definition serial_summary :: "'s run_state \<Rightarrow> string" where
  "serial_summary r =
     ''serial: banner_seen='' @ show_bool (sv_banner (rt_observer r) \<noteq> None) @
     '' panic_seen='' @ show_bool (sv_panic_seen (rt_observer r)) @
     '' faults='' @ show_nat (length (rt_faults r)) @
     (if 0 < rt_suppressed r then '' (suppressed='' @ show_nat (rt_suppressed r) @ '')'' else []) @
     (case sv_fault (rt_observer r) of
        Some f \<Rightarrow> '' last_fault='' @ fa_rip_text f @ '' '' @ fa_vector f
      | None \<Rightarrow> [])"

definition end_summary :: "run_environment \<Rightarrow> run_plan \<Rightarrow> process_outcome \<Rightarrow> qemu_evidence \<Rightarrow> string" where
  "end_summary env plan outcome evidence =
     ''run ended: reason='' @ exit_reason_str (evidence_reason evidence) @
     '', exit='' @ debug_int_option (po_exit_code outcome) @
     '', uptime='' @ show_nat (unat (re_uptime_ms env)) @ '' ms ('' @ justification evidence @ '')'' @
     (case sc_tee_to_file (rn_serial plan) of Some path \<Rightarrow> '', serial log '' @ path | None \<Rightarrow> [])"

definition last_option :: "'a list \<Rightarrow> 'a option" where
  "last_option xs = (if xs = [] then None else Some (last xs))"

definition failed_outcome :: "run_environment \<Rightarrow> run_plan \<Rightarrow> 's run_state \<Rightarrow> run_outcome" where
  "failed_outcome env plan r =
     \<lparr>ro_exit_code = None, ro_reason = Killed, ro_uptime_ms = re_uptime_ms env,
      ro_fault = last_option (rt_faults r), ro_serial_log = sc_tee_to_file (rn_serial plan)\<rparr>"

definition final_outcome :: "run_environment \<Rightarrow> run_plan \<Rightarrow> process_outcome \<Rightarrow> qemu_evidence \<Rightarrow> 's run_state \<Rightarrow> run_outcome" where
  "final_outcome env plan outcome evidence r =
     \<lparr>ro_exit_code = po_exit_code outcome, ro_reason = evidence_reason evidence,
      ro_uptime_ms = re_uptime_ms env, ro_fault = last_option (rt_faults r),
      ro_serial_log = sc_tee_to_file (rn_serial plan)\<rparr>"

text \<open>After the runner returned; a successful run also gives the debug log it removes.\<close>

definition conclude ::
  "'s emitter \<Rightarrow> run_options \<Rightarrow> run_environment \<Rightarrow> run_plan \<Rightarrow> princess_error + process_outcome \<Rightarrow> 's run_state \<Rightarrow>
   ('s, princess_error, run_outcome \<times> string option) op" where
  "conclude emit options env plan result r =
     (case result of
        Inl err \<Rightarrow>
          then_do (sink_note emit (''run failed before the machine stopped: '' @ show_error err)) (\<lambda>_.
          then_do (emit (RunExited (exited_event (failed_outcome env plan r)))) (\<lambda>_ s. (s, Inl err)))
      | Inr outcome \<Rightarrow>
          let debug_log = (case qo_debug_log (rq_plan options) of
                Some p \<Rightarrow> Some p | None \<Rightarrow> debug_log_from_argv (rn_argv plan));
              evidence = evidence_from env plan outcome debug_log;
              terminal = final_outcome env plan outcome evidence r
          in then_do (sink_note emit (serial_summary r)) (\<lambda>_.
             then_do (sink_note emit (end_summary env plan outcome evidence)) (\<lambda>_.
             then_do (emit (RunExited (exited_event terminal))) (\<lambda>_.
             give (terminal, if rq_keep_debug_log options then None else debug_log)))))"

definition run_spec :: "run_options \<Rightarrow> run_plan \<Rightarrow> spawn_spec" where
  "run_spec options plan =
     \<lparr>sp_argv = rn_argv plan, sp_cwd = rn_cwd plan, sp_timeout_ms = Some (rn_timeout_ms plan),
      sp_serial_tee = sc_tee_to_file (rn_serial plan), sp_env = rq_env options\<rparr>"

definition run_start :: "'s \<Rightarrow> 's run_state" where
  "run_start s = \<lparr>rt_sink = s, rt_observer = observer_new, rt_faults = [], rt_suppressed = 0\<rparr>"

definition run_machine ::
  "'s emitter \<Rightarrow> run_options \<Rightarrow> run_environment \<Rightarrow> symbolizer \<Rightarrow> run_plan \<Rightarrow>
   ('s, princess_error, run_outcome \<times> string option) op" where
  "run_machine emit options env symbols plan s =
     (case re_runner env (run_spec options plan) of (chunks, result) \<Rightarrow>
      case fold (on_chunk emit symbols) chunks (run_start s, None) of
        (r, Some e) \<Rightarrow> (rt_sink r, Inl e)
      | (r, None) \<Rightarrow> conclude emit options env plan result r (rt_sink r))"

definition started_payload :: "run_plan \<Rightarrow> run_started" where
  "started_payload plan =
     \<lparr>rs_qemu_argv = rn_argv plan, rs_gdb_stub = map_option stub_endpoint (rn_gdb_stub plan)\<rparr>"

definition launch_plan ::
  "'s emitter \<Rightarrow> run_options \<Rightarrow> run_environment \<Rightarrow> symbolizer \<Rightarrow> run_plan \<Rightarrow>
   ('s, princess_error, run_outcome \<times> string option) op" where
  "launch_plan emit options env symbols plan s =
     (case check_argv_contract (rn_argv plan) of
        Inl e \<Rightarrow> (s, Inl e)
      | Inr _ \<Rightarrow>
          then_do (emit (RunStarted (started_payload plan)))
            (\<lambda>_. run_machine emit options env symbols plan) s)"

definition stop_run :: "string \<Rightarrow> princess_error + unit" where
  "stop_run op_id =
     Inl (new_error Internal (''princess-run cannot stop op '' @ op_id @
       '' by id alone: the caller must hold the CancelToken and the process group (contract '' @
       [CHR 0xC2, CHR 0xA7] @ ''6 rule 3)''))"

subsection \<open>The summary\<close>

record run_summary =
  rz_reason :: exit_reason
  rz_exit_code :: "int option"
  rz_uptime_ms :: u64
  rz_banner :: "string option"
  rz_faults :: u64
  rz_rip_text :: "string option"
  rz_vector :: "string option"

text \<open>\<open>read_to_string\<close> of a path; its failure, or bytes that are no text, give the empty text.\<close>

definition summarize :: "(string \<Rightarrow> string option) \<Rightarrow> run_outcome \<Rightarrow> string option \<Rightarrow> run_summary" where
  "summarize read_to_string outcome serial_log =
     (let txt = (case serial_log of None \<Rightarrow> []
            | Some path \<Rightarrow> (case read_to_string path of None \<Rightarrow> [] | Some t \<Rightarrow> t));
          fault = ro_fault outcome
      in \<lparr>rz_reason = ro_reason outcome, rz_exit_code = ro_exit_code outcome,
          rz_uptime_ms = ro_uptime_ms outcome, rz_banner = banner_in_log txt,
          rz_faults = (if fault \<noteq> None then 1 else 0), rz_rip_text = map_option rf_rip_text fault,
          rz_vector = map_option rf_vector fault\<rparr>)"

definition serial_reached_kernel :: "string \<Rightarrow> bool" where
  "serial_reached_kernel txt \<longleftrightarrow> banner_in_log txt \<noteq> None"

definition last_fault_rip :: "string \<Rightarrow> u64 option" where
  "last_fault_rip txt = fault_rip_in_log txt"

text \<open>The runner that replays canned chunks.\<close>

definition fake_runner :: "stream_chunk list \<Rightarrow> process_outcome option \<Rightarrow> spawn_spec \<Rightarrow>
    stream_chunk list \<times> (princess_error + process_outcome)" where
  "fake_runner chunks outcome spec =
     (chunks, Inr (case outcome of
        Some p \<Rightarrow> p
      | None \<Rightarrow> \<lparr>po_exit_code = Some 0, po_signal = None, po_timed_out = False, po_cancelled = False,
                 po_wall_ms = 1, po_group_dead = True\<rparr>))"

subsection \<open>Facts: what a run emits\<close>

definition quiet :: "event_body list \<Rightarrow> bool" where
  "quiet bs \<longleftrightarrow> (\<forall>b \<in> set bs. body_kind b \<noteq> KRunStarted \<and> body_kind b \<noteq> KRunExited)"

definition faults_in :: "event_body list \<Rightarrow> run_fault list" where
  "faults_in bs = concat (map (\<lambda>b. case b of RunFault f \<Rightarrow> [f] | _ \<Rightarrow> []) bs)"

definition serial_in :: "event_body list \<Rightarrow> string" where
  "serial_in bs =
     concat (map (\<lambda>b. case b of LogAppend l \<Rightarrow> if la_stream l = SerialCom1 then la_chunk l else [] | _ \<Rightarrow> []) bs)"

definition fault_payload :: "symbolizer \<Rightarrow> raw_fault \<Rightarrow> run_fault" where
  "fault_payload symbols f = into_payload f (case symbols of None \<Rightarrow> None | Some lookup \<Rightarrow> lookup (fa_rip f))"

text \<open>The lines of the serial chunks, each chunk cut on its own, as the code does.\<close>

definition chunk_lines :: "stream_chunk list \<Rightarrow> string list" where
  "chunk_lines cs = concat (map (\<lambda>c. str_lines (sk_text c)) (filter (\<lambda>c. sk_pipe c = PipeSerial) cs))"

definition run_trace :: "event_body list \<Rightarrow> string \<Rightarrow> run_fault list \<Rightarrow> event_body list \<Rightarrow> bool" where
  "run_trace base t fs bs \<longleftrightarrow> (\<exists>mid. bs = base @ mid \<and> quiet mid \<and> faults_in mid = fs \<and> serial_in mid = t)"

lemma run_trace_new: "run_trace base [] [] base"
  by (simp add: run_trace_def quiet_def faults_in_def serial_in_def)

lemma run_trace_snoc:
  assumes "run_trace base t fs bs" "body_kind b \<noteq> KRunStarted" "body_kind b \<noteq> KRunExited"
  shows "run_trace base (t @ serial_in [b]) (fs @ faults_in [b]) (bs @ [b])"
proof -
  obtain mid where "bs = base @ mid" "quiet mid" "faults_in mid = fs" "serial_in mid = t"
    using assms(1) by (auto simp: run_trace_def)
  with assms(2,3) show ?thesis
    unfolding run_trace_def by (intro exI [of _ "mid @ [b]"]) (auto simp: quiet_def faults_in_def serial_in_def)
qed

lemma run_trace_note:
  "run_trace base t fs bs \<Longrightarrow>
     run_trace base t fs (bs @ [LogAppend \<lparr>la_stream = StreamIde, la_chunk = c, la_encoding = EncUtf8\<rparr>])"
  using run_trace_snoc [of base t fs bs "LogAppend \<lparr>la_stream = StreamIde, la_chunk = c, la_encoding = EncUtf8\<rparr>"]
  by (simp add: faults_in_def serial_in_def)

lemma run_trace_log:
  "run_trace base t fs bs \<Longrightarrow>
     run_trace base (if st = SerialCom1 then t @ c else t) fs (bs @ [LogAppend \<lparr>la_stream = st, la_chunk = c, la_encoding = e\<rparr>])"
  using run_trace_snoc [of base t fs bs "LogAppend \<lparr>la_stream = st, la_chunk = c, la_encoding = e\<rparr>"]
  by (cases "st = SerialCom1") (simp_all add: faults_in_def serial_in_def)

lemma run_trace_fault: "run_trace base t fs bs \<Longrightarrow> run_trace base t (fs @ [f]) (bs @ [RunFault f])"
  using run_trace_snoc [of base t fs bs "RunFault f"] by (simp add: faults_in_def serial_in_def)

lemma take_snoc_full: "n \<le> length (take n xs) \<Longrightarrow> take n (xs @ [y]) = take n xs"
  by simp

lemma take_snoc_room: "\<not> n \<le> length (take n xs) \<Longrightarrow> take n (xs @ [y]) = take n xs @ [y]"
  by simp

lemma faults_of_snoc:
  "faults_of (obs @ [x]) = (case x of ObsFault f \<Rightarrow> faults_of obs @ [f] | _ \<Rightarrow> faults_of obs)"
  by (simp add: faults_of_def split: serial_observation.split)

text \<open>
  The state of a run that has emitted a text and made the observations \<open>obs\<close>: its observer, the
  faults among the observations up to the bound, and the events since \<open>base\<close>.
\<close>

definition run_holds ::
  "('s \<Rightarrow> event_body list) \<Rightarrow> ('s \<Rightarrow> bool) \<Rightarrow> symbolizer \<Rightarrow> event_body list \<Rightarrow> string \<Rightarrow> serial_observer \<Rightarrow>
   serial_observation list \<Rightarrow> 's run_state \<Rightarrow> bool" where
  "run_holds bodies sound symbols base t v obs r \<longleftrightarrow>
     rt_observer r = v \<and>
     rt_faults r = take MAX_FAULT_EVENTS (map (fault_payload symbols) (faults_of obs)) \<and>
     run_trace base t (rt_faults r) (bodies (rt_sink r)) \<and> sound (rt_sink r)"

context event_sink
begin

lemma note_holds:
  "succeeds_with (run_holds bodies sound symbols base t v obs) (on_sink (sink_note emit txt))
     (run_holds bodies sound symbols base t v obs)"
proof (unfold succeeds_with_def, intro allI impI)
  fix r r' x
  assume r: "run_holds bodies sound symbols base t v obs r" and res: "on_sink (sink_note emit txt) r = (r', Inr x)"
  then obtain k where k: "sink_note emit txt (rt_sink r) = (k, Inr x)" and r': "r' = r\<lparr>rt_sink := k\<rparr>"
    by (auto simp: on_sink_def split: prod.splits)
  then show "run_holds bodies sound symbols base t v obs r'"
    using r noted [OF k] by (auto simp: run_holds_def r' run_trace_note)
qed

lemma log_holds:
  "succeeds_with (run_holds bodies sound symbols base t v obs)
     (on_sink (emit (LogAppend \<lparr>la_stream = st, la_chunk = c, la_encoding = e\<rparr>)))
     (run_holds bodies sound symbols base (if st = SerialCom1 then t @ c else t) v obs)"
proof (unfold succeeds_with_def, intro allI impI)
  fix r r' x
  let ?b = "LogAppend \<lparr>la_stream = st, la_chunk = c, la_encoding = e\<rparr>"
  assume r: "run_holds bodies sound symbols base t v obs r" and res: "on_sink (emit ?b) r = (r', Inr x)"
  then obtain k where k: "emit ?b (rt_sink r) = (k, Inr x)" and r': "r' = r\<lparr>rt_sink := k\<rparr>"
    by (auto simp: on_sink_def split: prod.splits)
  have "run_trace base (if st = SerialCom1 then t @ c else t) (rt_faults r) (bodies (rt_sink r) @ [?b])"
    using r unfolding run_holds_def by (blast intro: run_trace_log)
  then show "run_holds bodies sound symbols base (if st = SerialCom1 then t @ c else t) v obs r'"
    using r emitted [OF k] emitted_sound [OF k] by (simp add: run_holds_def r')
qed

lemma give_holds: "succeeds_with P (give x) P"
  by (rule succeeds_with_give)

lemma page_fault_note_holds:
  "succeeds_with (run_holds bodies sound symbols base t v obs) (page_fault_note emit raw)
     (run_holds bodies sound symbols base t v obs)"
proof -
  have "\<exists>m. page_fault_note emit raw r = m r \<and>
      succeeds_with (run_holds bodies sound symbols base t v obs) m (run_holds bodies sound symbols base t v obs)" for r
    unfolding page_fault_note_def
    by (auto intro!: exI note_holds give_holds split: option.split page_fault_gate.split)
  then show ?thesis
    unfolding succeeds_with_def by metis
qed

lemma symbol_note_holds:
  "succeeds_with (run_holds bodies sound symbols base t v obs) (symbol_note emit raw loc)
     (run_holds bodies sound symbols base t v obs)"
  unfolding symbol_note_def by (rule note_holds)

lemma report_fault_holds:
  "succeeds_with (run_holds bodies sound symbols base t v obs)
     (report_fault emit raw (case symbols of None \<Rightarrow> None | Some lookup \<Rightarrow> lookup (fa_rip raw)))
     (run_holds bodies sound symbols base t v (obs @ [ObsFault raw]))"
  (is "succeeds_with _ (report_fault emit raw ?loc) _")
  unfolding succeeds_with_def
proof (intro allI impI)
  fix r r' x
  assume r: "run_holds bodies sound symbols base t v obs r" and res: "report_fault emit raw ?loc r = (r', Inr x)"
  let ?fs = "map (fault_payload symbols) (faults_of obs)"
  have fs: "rt_faults r = take MAX_FAULT_EVENTS ?fs" using r by (simp add: run_holds_def)
  show "run_holds bodies sound symbols base t v (obs @ [ObsFault raw]) r'"
  proof (cases "MAX_FAULT_EVENTS \<le> length (rt_faults r)")
    case True
    define r1 where "r1 = r\<lparr>rt_suppressed := rt_suppressed r + 1\<rparr>"
    have full: "take MAX_FAULT_EVENTS (?fs @ [fault_payload symbols raw]) = take MAX_FAULT_EVENTS ?fs"
      using True unfolding fs by (rule take_snoc_full)
    have r1: "run_holds bodies sound symbols base t v (obs @ [ObsFault raw]) r1"
      using r full by (auto simp: run_holds_def r1_def faults_of_snoc simp del: take_append)
    show ?thesis
    proof (cases "rt_suppressed r1 = 1")
      case True
      then show ?thesis
        using res \<open>MAX_FAULT_EVENTS \<le> length (rt_faults r)\<close> r1
        unfolding report_fault_def Let_def r1_def [symmetric]
        by (auto dest: succeeds_withD [OF note_holds])
    next
      case False
      then show ?thesis
        using res \<open>MAX_FAULT_EVENTS \<le> length (rt_faults r)\<close> r1
        unfolding report_fault_def Let_def r1_def [symmetric] by (simp add: give_def)
    qed
  next
    case False
    have room: "take MAX_FAULT_EVENTS (?fs @ [fault_payload symbols raw]) =
        take MAX_FAULT_EVENTS ?fs @ [fault_payload symbols raw]"
      using False unfolding fs by (rule take_snoc_room)
    obtain k where k: "emit (RunFault (fault_payload symbols raw)) (rt_sink r) = (k, Inr ())"
      and r': "r' = r\<lparr>rt_sink := k, rt_faults := rt_faults r @ [fault_payload symbols raw]\<rparr>"
      using res False
      by (auto simp: report_fault_def Let_def then_do_def on_sink_def give_def fault_payload_def
          split: prod.splits sum.splits)
    show ?thesis
      using r emitted [OF k] emitted_sound [OF k]
      by (simp add: run_holds_def r' faults_of_snoc room run_trace_fault flip: fs del: take_append)
  qed
qed


lemma handle_fault_holds:
  "succeeds_with (run_holds bodies sound symbols base t v obs) (handle_fault emit symbols raw)
     (run_holds bodies sound symbols base t v (obs @ [ObsFault raw]))"
  unfolding handle_fault_def Let_def
  by (intro succeeds_with_then [OF page_fault_note_holds] succeeds_with_then [OF symbol_note_holds] report_fault_holds)

lemma handle_observation_holds:
  "succeeds_with (run_holds bodies sound symbols base t v obs) (handle_observation emit symbols x)
     (run_holds bodies sound symbols base t v (obs @ [x]))"
proof -
  have keep: "run_holds bodies sound symbols base t v (obs @ [y]) = run_holds bodies sound symbols base t v obs"
    if "case y of ObsFault f \<Rightarrow> False | _ \<Rightarrow> True" for y
    using that by (cases y) (simp_all add: run_holds_def faults_of_snoc fun_eq_iff)
  show ?thesis
    by (cases x) (simp_all only: keep serial_observation.case handle_observation.simps handle_fault_holds note_holds)
qed

lemma observations_hold:
  "succeeds_with (run_holds bodies sound symbols base t v obs) (each_do (handle_observation emit symbols) xs)
     (run_holds bodies sound symbols base t v (obs @ xs))"
proof (induction xs arbitrary: obs)
  case Nil
  then show ?case by (simp add: give_holds)
next
  case (Cons x xs)
  show ?case
    using succeeds_with_then [OF handle_observation_holds Cons [of "obs @ [x]"]] by simp
qed

lemma observe_line_holds:
  "succeeds_with (run_holds bodies sound symbols base t v obs) (observe_line emit symbols line)
     (run_holds bodies sound symbols base t (fst (feed v line)) (obs @ snd (feed v line)))"
proof (unfold succeeds_with_def, intro allI impI)
  fix r r' x
  assume r: "run_holds bodies sound symbols base t v obs r" and res: "observe_line emit symbols line r = (r', Inr x)"
  obtain v' xs where f: "feed v line = (v', xs)" by (cases "feed v line")
  have v: "rt_observer r = v" using r unfolding run_holds_def by blast
  have "run_holds bodies sound symbols base t v' obs (r\<lparr>rt_observer := v'\<rparr>)"
    using r by (auto simp: run_holds_def)
  moreover have "each_do (handle_observation emit symbols) xs (r\<lparr>rt_observer := v'\<rparr>) = (r', Inr x)"
    using res by (simp add: observe_line_def v f)
  ultimately show "run_holds bodies sound symbols base t (fst (feed v line)) (obs @ snd (feed v line)) r'"
    using succeeds_withD [OF observations_hold] by (simp add: f)
qed

lemma observe_lines_hold:
  "succeeds_with (run_holds bodies sound symbols base t v obs) (each_do (observe_line emit symbols) ls)
     (run_holds bodies sound symbols base t (fst (feed_all v ls)) (obs @ snd (feed_all v ls)))"
proof (induction ls arbitrary: v obs)
  case Nil
  then show ?case by (simp add: give_holds)
next
  case (Cons l ls)
  show ?case
    using succeeds_with_then [OF observe_line_holds Cons [of "fst (feed v l)" "obs @ snd (feed v l)"]]
    by (simp add: feed_all_simp)
qed

lemma handle_chunk_holds:
  "succeeds_with (run_holds bodies sound symbols base t v obs) (handle_chunk emit symbols c)
     (run_holds bodies sound symbols base (t @ serial_text [c]) (fst (feed_all v (chunk_lines [c])))
        (obs @ snd (feed_all v (chunk_lines [c]))))"
proof (cases "sk_pipe c")
  case PipeSerial
  show ?thesis
    using succeeds_with_then [OF log_holds [of symbols base t v obs SerialCom1] observe_lines_hold]
    by (simp add: handle_chunk_def PipeSerial serial_text_def chunk_lines_def)
next
  case PipeEmulator
  show ?thesis
    using log_holds [of symbols base t v obs QemuMonitor]
    by (simp add: handle_chunk_def PipeEmulator serial_text_def chunk_lines_def)
qed

end

lemma feed_all_append:
  "feed_all v (ls @ ms) =
     (fst (feed_all (fst (feed_all v ls)) ms), snd (feed_all v ls) @ snd (feed_all (fst (feed_all v ls)) ms))"
  by (induction ls arbitrary: v) (simp_all add: feed_all_simp)

lemma chunk_lines_Cons: "chunk_lines (c # cs) = chunk_lines [c] @ chunk_lines cs"
  by (simp add: chunk_lines_def)

lemma serial_text_Cons: "serial_text (c # cs) = serial_text [c] @ serial_text cs"
  by (simp add: serial_text_def)

text \<open>The callback with its error slot is the chunks handled one by one up to the first failure.\<close>

lemma on_chunk_stopped: "fold (on_chunk emit symbols) cs (r, Some e) = (r, Some e)"
  by (induction cs) (simp_all add: on_chunk_def)

lemma on_chunk_each:
  "fold (on_chunk emit symbols) cs (r, None) =
     (case each_do (handle_chunk emit symbols) cs r of
        (r', Inl e) \<Rightarrow> (r', Some e) | (r', Inr _) \<Rightarrow> (r', None))"
proof (induction cs arbitrary: r)
  case (Cons c cs)
  show ?case
  proof (cases "handle_chunk emit symbols c r")
    case (Pair r' x)
    then show ?thesis
      by (cases x) (simp_all add: on_chunk_def then_do_def on_chunk_stopped [unfolded on_chunk_def] Cons [unfolded on_chunk_def])
  qed
qed (simp add: give_def)

context event_sink
begin

lemma chunks_hold:
  "succeeds_with (run_holds bodies sound symbols base t v obs) (each_do (handle_chunk emit symbols) cs)
     (run_holds bodies sound symbols base (t @ serial_text cs) (fst (feed_all v (chunk_lines cs)))
        (obs @ snd (feed_all v (chunk_lines cs))))"
proof (induction cs arbitrary: t v obs)
  case Nil
  then show ?case by (simp add: give_holds serial_text_def chunk_lines_def)
next
  case (Cons c cs)
  show ?case
    using succeeds_with_then [OF handle_chunk_holds Cons]
    by (simp add: chunk_lines_Cons [of c cs] serial_text_Cons [of c cs] feed_all_append)
qed

end

text \<open>A run that has ended: its last event is the exit.\<close>

definition run_ended :: "event_body list \<Rightarrow> string \<Rightarrow> run_fault list \<Rightarrow> run_outcome \<Rightarrow> event_body list \<Rightarrow> bool" where
  "run_ended base t fs out bs \<longleftrightarrow>
     (\<exists>mid. bs = base @ mid @ [RunExited (exited_event out)] \<and> quiet mid \<and> faults_in mid = fs \<and> serial_in mid = t)"

lemma run_ended_snoc: "run_trace base t fs bs \<Longrightarrow> run_ended base t fs out (bs @ [RunExited (exited_event out)])"
  by (auto simp: run_trace_def run_ended_def)

text \<open>The faults and the serial text that the chunks of a run should give.\<close>

definition chunk_faults :: "symbolizer \<Rightarrow> stream_chunk list \<Rightarrow> run_fault list" where
  "chunk_faults symbols cs =
     take MAX_FAULT_EVENTS (map (fault_payload symbols) (faults_of (snd (feed_all observer_new (chunk_lines cs)))))"

lemma then_do_Inr: "then_do m k s = (s', Inr y) \<longleftrightarrow> (\<exists>s1 x. m s = (s1, Inr x) \<and> k x s1 = (s', Inr y))"
  by (auto simp: then_do_def split: prod.splits sum.splits)

lemma then_do_eq: "m s = (s1, Inr x) \<Longrightarrow> then_do m k s = k x s1"
  by (simp add: then_do_def)

lemma run_start_holds: "sound s \<Longrightarrow> run_holds bodies sound symbols (bodies s) [] observer_new [] (run_start s)"
  by (simp add: run_holds_def run_start_def run_trace_new faults_of_def)

context event_sink
begin

lemma note_trace:
  assumes "run_trace base t fs (bodies s) \<and> sound s" "sink_note emit txt s = (s', Inr x)"
  shows "run_trace base t fs (bodies s') \<and> sound s'"
  using assms(1) noted [OF assms(2)] by (auto intro: run_trace_note)

lemma exit_ends:
  assumes "run_trace base t fs (bodies s) \<and> sound s" "emit (RunExited (exited_event out)) s = (s', Inr x)"
  shows "run_ended base t fs out (bodies s') \<and> sound s'"
  using assms(1) emitted [OF assms(2)] emitted_sound [OF assms(2)] by (auto intro: run_ended_snoc)

lemma conclude_ok:
  assumes "run_trace base t fs (bodies k) \<and> sound k" "conclude emit options env plan result r k = (s', Inr (out, rm))"
  shows "run_ended base t fs out (bodies s') \<and> sound s'"
proof (cases result)
  case (Inl err)
  then show ?thesis using assms(2) by (auto simp: conclude_def then_do_Inr)
next
  case (Inr p)
  then show ?thesis
    using assms(2) exit_ends [OF note_trace [OF note_trace [OF assms(1)]]]
    by (auto simp: conclude_def then_do_Inr Let_def give_def)
qed

lemma chunks_trace:
  assumes "sound s" "fold (on_chunk emit symbols) cs (run_start s, None) = (r, None)"
  shows "run_trace (bodies s) (serial_text cs) (chunk_faults symbols cs) (bodies (rt_sink r)) \<and> sound (rt_sink r)"
proof -
  obtain x where "each_do (handle_chunk emit symbols) cs (run_start s) = (r, Inr x)"
    using assms(2) by (auto simp: on_chunk_each split: prod.splits sum.splits)
  from succeeds_withD [OF chunks_hold run_start_holds [of sound, OF assms(1)] this] show ?thesis
    by (auto simp: run_holds_def chunk_faults_def)
qed

lemma machine_ok:
  assumes "run_machine emit options env symbols plan s = (s', Inr (out, rm))"
    and "re_runner env (run_spec options plan) = (chunks, result)" "sound s"
  shows "run_ended (bodies s) (serial_text chunks) (chunk_faults symbols chunks) out (bodies s') \<and> sound s'"
proof -
  obtain r slot where fold: "fold (on_chunk emit symbols) chunks (run_start s, None) = (r, slot)"
    by (meson surj_pair)
  show ?thesis
  proof (cases slot)
    case None
    then have "conclude emit options env plan result r (rt_sink r) = (s', Inr (out, rm))"
      using assms fold by (simp add: run_machine_def)
    then show ?thesis
      by (rule conclude_ok [OF chunks_trace [OF assms(3) fold [unfolded None]]])
  qed (use assms fold in \<open>simp add: run_machine_def\<close>)
qed

lemma launch_ok:
  assumes "launch_plan emit options env symbols plan s = (s', Inr (out, rm))"
    and "re_runner env (run_spec options plan) = (chunks, result)" "sound s"
  shows "run_ended (bodies s @ [RunStarted (started_payload plan)]) (serial_text chunks)
    (chunk_faults symbols chunks) out (bodies s') \<and> sound s'"
proof -
  obtain s1 x where "emit (RunStarted (started_payload plan)) s = (s1, Inr x)"
      "run_machine emit options env symbols plan s1 = (s', Inr (out, rm))"
    using assms(1) by (auto simp: launch_plan_def then_do_Inr split: sum.splits)
  with machine_ok [OF this(2) assms(2) emitted_sound [OF this(1) assms(3)]] show ?thesis
    by (simp add: emitted)
qed

end

subsection \<open>Facts: a sink that never fails\<close>

lemma never_fails_on_sink: "never_fails m \<Longrightarrow> never_fails (on_sink m)"
  unfolding never_fails_def on_sink_def by (auto split: prod.split) (metis snd_conv)

lemma never_fails_unit: "never_fails m \<Longrightarrow> \<exists>s'. m s = (s', Inr ())" for m :: "('s, 'e, unit) op"
  by (rule never_failsE [of m s]) auto

lemma never_fails_note: "(\<And>b. never_fails (emit b)) \<Longrightarrow> never_fails (sink_note emit txt)"
  by (simp add: sink_note_def sink_log_def)

lemma never_fails_pointwise:
  "(\<And>r. \<exists>m'. m r = m' r \<and> never_fails m') \<Longrightarrow> never_fails m"
  unfolding never_fails_def by metis

lemma never_fails_fault:
  assumes "\<And>b. never_fails (emit b)"
  shows "never_fails (handle_fault emit symbols raw)"
proof -
  note fine = never_fails_on_sink never_fails_note never_fails_give never_fails_then assms
  have "never_fails (page_fault_note emit raw)"
    by (rule never_fails_pointwise)
      (auto simp: page_fault_note_def intro!: exI fine split: option.split page_fault_gate.split)
  moreover have "never_fails (symbol_note emit raw loc)" for loc
    unfolding symbol_note_def by (intro fine)
  moreover have "never_fails (report_fault emit raw loc)" for loc
    unfolding never_fails_def
  proof
    fix r
    have push: "\<exists>x. snd (then_do (on_sink (emit b)) (\<lambda>_ r. give () (f r)) r) = Inr x" for b and f :: "'a run_state \<Rightarrow> 'a run_state"
    proof -
      have "never_fails (\<lambda>r. give () (f r))" by (simp add: never_fails_def give_def)
      then have "never_fails (then_do (on_sink (emit b)) (\<lambda>_ r. give () (f r)))"
        by (intro never_fails_then never_fails_on_sink assms)
      then show ?thesis by (simp add: never_fails_def)
    qed
    have noted: "\<exists>x. snd (on_sink (sink_note emit t) q) = Inr x" for q t
      using never_fails_on_sink [OF never_fails_note [OF assms]] by (simp add: never_fails_def)
    show "\<exists>x. snd (report_fault emit raw loc r) = Inr x"
      using push noted by (simp add: report_fault_def Let_def give_def)
  qed
  ultimately show ?thesis
    unfolding handle_fault_def Let_def by (intro never_fails_then)
qed

lemma never_fails_observation:
  assumes "\<And>b. never_fails (emit b)"
  shows "never_fails (handle_observation emit symbols x)"
  using never_fails_on_sink [OF never_fails_note [OF assms]] never_fails_fault [OF assms]
  by (cases x) (simp_all only: handle_observation.simps)

lemma never_fails_line:
  assumes "\<And>b. never_fails (emit b)"
  shows "never_fails (observe_line emit symbols line)"
proof -
  have "never_fails (each_do (handle_observation emit symbols) xs)" for xs
    by (intro never_fails_each never_fails_observation assms)
  then show ?thesis
    by (auto simp: never_fails_def observe_line_def split: prod.split)
qed

lemma never_fails_chunk:
  assumes "\<And>b. never_fails (emit b)"
  shows "never_fails (handle_chunk emit symbols c)"
  unfolding handle_chunk_def
  by (cases "sk_pipe c")
    (simp_all add: never_fails_then never_fails_on_sink never_fails_each never_fails_line assms)


context event_sink
begin

lemma conclude_reliable:
  assumes "\<And>b. never_fails (emit b)" "run_trace base t fs (bodies k) \<and> sound k"
    and "conclude emit options env plan result r k = (s', x)"
  shows "\<exists>out. run_ended base t fs out (bodies s') \<and>
    (case result of Inl err \<Rightarrow> x = Inl err \<and> ro_reason out = Killed | Inr p \<Rightarrow> \<exists>rm. x = Inr (out, rm))"
proof -
  have quietly: "\<exists>k'. sink_note emit tx k = (k', Inr ()) \<and> run_trace base t fs (bodies k') \<and> sound k'"
    if "run_trace base t fs (bodies k) \<and> sound k" for tx k
    using never_fails_unit [OF never_fails_note [of emit tx, OF assms(1)], of k] note_trace [OF that] by blast
  have exits: "\<exists>k'. emit (RunExited (exited_event out)) k = (k', Inr ()) \<and> run_ended base t fs out (bodies k')"
    if "run_trace base t fs (bodies k) \<and> sound k" for out k
    using never_fails_unit [OF assms(1), of "RunExited (exited_event out)" k] exit_ends [OF that] by blast
  show ?thesis
  proof (cases result)
    case (Inl err)
    obtain k1 where k1: "sink_note emit (''run failed before the machine stopped: '' @ show_error err) k = (k1, Inr ())"
        "run_trace base t fs (bodies k1) \<and> sound k1"
      using quietly [OF assms(2)] by blast
    obtain k2 where k2: "emit (RunExited (exited_event (failed_outcome env plan r))) k1 = (k2, Inr ())"
        "run_ended base t fs (failed_outcome env plan r) (bodies k2)"
      using exits [OF k1(2)] by blast
    have "s' = k2 \<and> x = Inl err"
      using assms(3) by (simp add: conclude_def Inl then_do_def k1(1) k2(1) del: append.simps)
    with k2(2) Inl show ?thesis by (auto simp: failed_outcome_def)
  next
    case (Inr p)
    define log where "log = (case qo_debug_log (rq_plan options) of
        Some q \<Rightarrow> Some q | None \<Rightarrow> debug_log_from_argv (rn_argv plan))"
    define ev where "ev = evidence_from env plan p log"
    obtain k1 where k1: "sink_note emit (serial_summary r) k = (k1, Inr ())" "run_trace base t fs (bodies k1) \<and> sound k1"
      using quietly [OF assms(2)] by blast
    obtain k2 where k2: "sink_note emit (end_summary env plan p ev) k1 = (k2, Inr ())" "run_trace base t fs (bodies k2) \<and> sound k2"
      using quietly [OF k1(2)] by blast
    obtain k3 where k3: "emit (RunExited (exited_event (final_outcome env plan p ev r))) k2 = (k3, Inr ())"
        "run_ended base t fs (final_outcome env plan p ev r) (bodies k3)"
      using exits [OF k2(2)] by blast
    have "s' = k3 \<and> x = Inr (final_outcome env plan p ev r, if rq_keep_debug_log options then None else log)"
      using assms(3)
      by (simp add: conclude_def Inr Let_def then_do_def give_def k1(1) k2(1) k3(1) flip: log_def ev_def)
    with k3(2) Inr show ?thesis by auto
  qed
qed

lemma launch_reliable:
  assumes "\<And>b. never_fails (emit b)" "check_argv_contract (rn_argv plan) = Inr ()"
    and "re_runner env (run_spec options plan) = (chunks, result)"
    and "launch_plan emit options env symbols plan s = (s', x)" "sound s"
  shows "\<exists>out. run_ended (bodies s @ [RunStarted (started_payload plan)]) (serial_text chunks)
      (chunk_faults symbols chunks) out (bodies s') \<and>
    (case result of Inl err \<Rightarrow> x = Inl err \<and> ro_reason out = Killed | Inr p \<Rightarrow> \<exists>rm. x = Inr (out, rm))"
proof -
  obtain s1 where s1: "emit (RunStarted (started_payload plan)) s = (s1, Inr ())"
    using never_fails_unit [OF assms(1)] by blast
  have "never_fails (each_do (handle_chunk emit symbols) chunks)"
    by (intro never_fails_each never_fails_chunk assms(1))
  then obtain r y where r: "each_do (handle_chunk emit symbols) chunks (run_start s1) = (r, Inr y)"
    by (rule never_failsE)
  then have f: "fold (on_chunk emit symbols) chunks (run_start s1, None) = (r, None)"
    by (simp add: on_chunk_each)
  have "launch_plan emit options env symbols plan s = conclude emit options env plan result r (rt_sink r)"
    by (simp add: launch_plan_def assms(2,3) then_do_def s1 run_machine_def f)
  then show ?thesis
    using conclude_reliable [OF assms(1) chunks_trace [OF emitted_sound [OF s1 assms(5)] f]] assms(4) emitted [OF s1] by simp
qed

end

subsection \<open>Facts: chunks and lines\<close>

lemma split_inclusive_whole: "split_inclusive c (a @ c # b) = split_inclusive c (a @ [c]) @ split_inclusive c b"
proof (induction a rule: length_induct)
  case (1 a)
  show ?case
  proof (cases "c \<in> set a")
    case False
    then show ?thesis
      using split_inclusive_append [of c a b] split_inclusive_append [of c a "[]"] by simp
  next
    case True
    then obtain x y where a: "a = x @ c # y" "c \<notin> set x"
      by (meson split_list_first)
    then have "length y < length a" by simp
    with 1 have "split_inclusive c (y @ c # b) = split_inclusive c (y @ [c]) @ split_inclusive c b" by blast
    then show ?thesis
      using split_inclusive_append [OF a(2), of "y @ c # b"] split_inclusive_append [OF a(2), of "y @ [c]"]
      by (simp add: a(1))
  qed
qed

lemma str_lines_whole:
  "ends_with [CHR 0x0A] a \<Longrightarrow> str_lines (a @ b) = str_lines a @ str_lines b"
proof -
  assume "ends_with [CHR 0x0A] a"
  then obtain t where "rev a = CHR 0x0A # t" by (auto simp: ends_with_def starts_with_iff)
  then have "a = rev t @ [CHR 0x0A]" by (metis rev.simps(2) rev_rev_ident)
  then show ?thesis by (simp add: str_lines_def split_inclusive_whole [of _ _ b])
qed

definition serial_chunks :: "stream_chunk list \<Rightarrow> string list" where
  "serial_chunks cs = map sk_text (filter (\<lambda>c. sk_pipe c = PipeSerial) cs)"

text \<open>Every serial chunk but the last ends at a line end.\<close>

definition whole_lines :: "stream_chunk list \<Rightarrow> bool" where
  "whole_lines cs \<longleftrightarrow> list_all (ends_with [CHR 0x0A]) (butlast (serial_chunks cs))"

lemma lines_of_concat:
  "list_all (ends_with [CHR 0x0A]) (butlast ts) \<Longrightarrow> concat (map str_lines ts) = str_lines (concat ts)"
proof (induction ts)
  case (Cons t ts)
  then show ?case
    by (cases "ts = []") (simp_all add: str_lines_whole)
qed (simp add: str_lines_def)

lemma chunk_lines_whole: "whole_lines cs \<Longrightarrow> chunk_lines cs = str_lines (serial_text cs)"
  using lines_of_concat [of "serial_chunks cs"]
  by (simp add: whole_lines_def serial_chunks_def chunk_lines_def serial_text_def comp_def)


text \<open>A report that the guest printed in two bursts, as the reader cuts it.\<close>

definition split_report :: "stream_chunk list" where
  "split_report =
     spawn_reader PipeSerial
       [ReaderBytes ''FAULT_RIP=0x0010'', ReaderTimeout, ReaderBytes (''0b3d'' @ [CHR 0x0A])]"

lemma split_report_chunks:
  "split_report = [make_chunk PipeSerial False (''FAULT_RIP=0x0010'', EncUtf8),
     make_chunk PipeSerial False (''0b3d'' @ [CHR 0x0A], EncUtf8)]"
  by code_simp

lemma bare_report:
  assumes "serial_hex_u64 w = Some rip" "field_ok w" "no_marks w"
  shows "map fa_rip (faults_of (snd (feed s (FAULT_PREFIX @ w)))) = [rip]"
    and "fault_rip_loop [FAULT_PREFIX @ w] = Some rip"
proof -
  have F: "CHR ''F'' \<notin> set w" and X: "CHR ''X'' \<notin> set (FAULT_PREFIX @ w)"
    using assms(3) by (auto simp: no_marks_def FAULT_PREFIX_def)
  have at: "split_once_str FAULT_PREFIX (FAULT_PREFIX @ w) = Some ([], w)" "line_error (FAULT_PREFIX @ w) = None"
    using fault_prefix_split [of "[]" w] no_fault_error [of "[]" w] F by (simp_all add: line_error_def)
  have words: "split_whitespace w = [w]"
    using assms(2) by (rule split_whitespace_one)
  show "fault_rip_loop [FAULT_PREFIX @ w] = Some rip"
    by (simp add: at words assms(1))
  have "map fa_rip (faults_of (snd (feed_fault (FAULT_PREFIX @ w) u))) = [rip]" for u
    by (simp add: feed_fault_def at parse_fault_def words assms(1) Let_def split: option.split prod.split)
  then show "map fa_rip (faults_of (snd (feed s (FAULT_PREFIX @ w)))) = [rip]"
    by (simp add: feed_observations Let_def no_exception [OF X])
qed

lemma no_report: "CHR ''F'' \<notin> set l \<Longrightarrow> faults_of (snd (feed s l)) = []"
proof -
  assume "CHR ''F'' \<notin> set l"
  then have "split_once_str FAULT_PREFIX l = None"
    by (auto simp: split_once_str_None str_contains_iff FAULT_PREFIX_def)
  then show ?thesis by (simp add: feed_observations Let_def feed_fault_def)
qed

lemma hex_words:
  "serial_hex_u64 ''0x0010'' = Some 0x10" "serial_hex_u64 ''0x00100b3d'' = Some 0x100b3d"
proof -
  have t: "str_trim ''0x0010'' = ''0x0010''" "str_trim ''0x00100b3d'' = ''0x00100b3d''"
    by (intro str_trim_graphic(3); simp add: ascii_graphic_def byte_of_def)+
  show "serial_hex_u64 ''0x0010'' = Some 0x10" "serial_hex_u64 ''0x00100b3d'' = Some 0x100b3d"
    by (simp_all add: serial_hex_u64_def t trim_end_matches_def strip_prefix_def radix16_u64_def parse_unsigned_def
        to_digit_def byte_of_def is_hexdigit_def)
qed

lemma split_report_faults: "map rf_rip (chunk_faults None split_report) = [0x10]"
proof -
  have ls: "chunk_lines split_report = [FAULT_PREFIX @ ''0x0010'', ''0b3d'']"
    unfolding split_report_chunks by (simp add: chunk_lines_def make_chunk_def FAULT_PREFIX_def str_lines_def line_of_piece_def
        strip_suffix_def ends_with_def strip_cr_def)
  have "map fa_rip (faults_of (snd (feed s (FAULT_PREFIX @ ''0x0010'')))) = [0x10]" for s
    by (rule bare_report(1) [OF hex_words(1)]) (simp_all add: field_ok_def ascii_graphic_def byte_of_def no_marks_def)
  moreover have "faults_of (snd (feed s ''0b3d'')) = []" for s
    by (rule no_report) simp
  ultimately have "map fa_rip (faults_of (snd (feed_all observer_new (chunk_lines split_report)))) = [0x10]"
    unfolding ls by (simp add: feed_all_simp faults_of_def)
  then show ?thesis
    by (auto simp: chunk_faults_def fault_payload_def into_payload_def MAX_FAULT_EVENTS_def map_eq_Cons_conv)
qed

lemma split_report_log: "fault_rip_in_log (serial_text split_report) = Some 0x100b3d"
proof -
  have "str_lines (serial_text split_report) = [FAULT_PREFIX @ ''0x00100b3d'']"
    unfolding split_report_chunks by (simp add: serial_text_def make_chunk_def FAULT_PREFIX_def str_lines_def line_of_piece_def
        strip_suffix_def ends_with_def strip_cr_def)
  moreover have "fault_rip_loop [FAULT_PREFIX @ ''0x00100b3d''] = Some 0x100b3d"
    by (rule bare_report(2) [OF hex_words(2)]) (simp_all add: field_ok_def ascii_graphic_def byte_of_def no_marks_def)
  ultimately show ?thesis by (simp add: fault_rip_in_log_def)
qed

subsection \<open>Facts: complete runs\<close>

text \<open>
  C20. With a sink that accepts events, an accepted command line is followed by a complete run on
  every path out: whatever the runner streams and returns, the sink gets \<open>run.started\<close>, then the
  rest, then \<open>run.exited\<close> as the last event, neither of them a second time; at most sixteen
  \<open>run.fault\<close> in between; and every byte of serial text once and in order. A runner that failed
  is reported as its error after an exit attributed as killed.
\<close>

theorem run_always_ends:
  assumes "\<And>b s. \<exists>s'. emit b s = (s', Inr ()) \<and> bodies s' = bodies s @ [b]"
    and "check_argv_contract (rn_argv plan) = Inr ()"
    and "re_runner env (run_spec options plan) = (chunks, result)"
    and "launch_plan emit options env symbols plan s = (s', x)"
  shows "\<exists>out mid.
    bodies s' = bodies s @ RunStarted (started_payload plan) # mid @ [RunExited (exited_event out)] \<and>
    quiet mid \<and> length (faults_in mid) \<le> 16 \<and> serial_in mid = serial_text chunks \<and>
    (case result of Inl err \<Rightarrow> x = Inl err \<and> ro_reason out = Killed | Inr p \<Rightarrow> \<exists>rm. x = Inr (out, rm))"
proof -
  have emits: "fst (emit b s) = s' \<Longrightarrow> bodies s' = bodies s @ [b]" "snd (emit b s) = Inr ()" for b s s'
    using assms(1) [of b s] by auto
  have sink: "event_sink emit bodies (\<lambda>_. True)"
    using emits by unfold_locales (metis fst_conv, metis Inl_Inr_False snd_conv, simp)
  have "never_fails (emit b)" for b
    using emits(2) by (simp add: never_fails_def)
  from event_sink.launch_reliable [OF sink this assms(2-4)] obtain out where
      "run_ended (bodies s @ [RunStarted (started_payload plan)]) (serial_text chunks)
        (chunk_faults symbols chunks) out (bodies s')"
      "case result of Inl err \<Rightarrow> x = Inl err \<and> ro_reason out = Killed | Inr p \<Rightarrow> \<exists>rm. x = Inr (out, rm)"
    by blast
  moreover have "length (chunk_faults symbols chunks) \<le> 16"
    by (simp add: chunk_faults_def MAX_FAULT_EVENTS_def)
  ultimately show ?thesis
    by (auto simp: run_ended_def)
qed

definition collect :: "event_body list emitter" where
  "collect b bs = (bs @ [b], Inr ())"

definition demo_plan :: run_plan where
  "demo_plan =
     \<lparr>rn_backend = ''qemu'',
      rn_argv = [''qemu'', ''-display'', ''none'', ''-monitor'', ''none'', ''-serial'', ''stdio'',
                 ''-d'', QEMU_DEBUG_ITEMS, ''-D'', ''log''],
      rn_cwd = ''/k'', rn_boot_medium = MediumIso ''os.iso'', rn_boot = Multiboot2, rn_timeout_ms = 15000,
      rn_serial = serial_capture_default, rn_gdb_stub = None\<rparr>"

definition demo_run_options :: run_options where
  "demo_run_options = \<lparr>rq_plan = demo_options, rq_env = Map.empty, rq_keep_debug_log = True, rq_stub_defaults = None\<rparr>"

definition demo_environment :: "(princess_error + process_outcome) \<Rightarrow> run_environment" where
  "demo_environment result =
     \<lparr>re_runner = (\<lambda>_. (split_report, result)), re_cancelled = False, re_uptime_ms = 7,
      re_debug_log = (\<lambda>_. (False, None, None))\<rparr>"

lemma demo_contract: "check_argv_contract (rn_argv demo_plan) = Inr ()"
  by (simp add: check_argv_contract_def demo_plan_def QEMU_DEBUG_ITEMS_def Let_def)

theorem run_always_ends_witness:
  "\<exists>bs out. launch_plan collect demo_run_options (demo_environment (Inl (internal_error ''gone''))) None demo_plan [] =
     (bs, Inl (internal_error ''gone'')) \<and> hd bs = RunStarted (started_payload demo_plan) \<and>
     last bs = RunExited (exited_event out) \<and> ro_reason out = Killed"
proof -
  obtain bs x where l: "launch_plan collect demo_run_options (demo_environment (Inl (internal_error ''gone''))) None
      demo_plan [] = (bs, x)"
    by (meson surj_pair)
  have "re_runner (demo_environment (Inl (internal_error ''gone''))) (run_spec demo_run_options demo_plan) =
      (split_report, Inl (internal_error ''gone''))"
    by (simp add: demo_environment_def)
  from run_always_ends [of collect "\<lambda>bs. bs", OF _ demo_contract this l] obtain out mid where
    "bs = RunStarted (started_payload demo_plan) # mid @ [RunExited (exited_event out)]"
    "x = Inl (internal_error ''gone'')" "ro_reason out = Killed"
    by (auto simp: collect_def)
  with l show ?thesis by auto
qed

text \<open>
  C21. A run recorded by the engine's own recorder: when the launch succeeds, the events written
  are a valid stream, from \<open>run.started\<close> to the exit that was returned; and when the serial
  chunks are whole lines, its \<open>run.fault\<close> events are exactly the faults of the serial log, read
  as a whole, up to the bound. Chunks need not be whole lines: a report of address \<open>0x00100b3d\<close>
  whose first half waits longer than the flush interval is cut in two and reported as a fault at
  address \<open>0x10\<close>, although the log gives the right address.
\<close>

theorem recorded_run_matches_log:
  assumes "launch_plan (recorder_sink to_string io clock) options env symbols plan (recorder_new out, []) =
      ((r, es), Inr (outcome, rm))"
    and "re_runner env (run_spec options plan) = (chunks, result)"
  shows "validate_stream es = Inr () \<and>
    (\<exists>mid. map ev_body es = RunStarted (started_payload plan) # mid @ [RunExited (exited_event outcome)] \<and>
       quiet mid \<and> serial_in mid = serial_text chunks \<and>
       (whole_lines chunks \<longrightarrow>
          faults_in mid = take 16 (map (fault_payload symbols)
            (faults_of (snd (feed_all observer_new (str_lines (serial_text chunks)))))))) \<and>
    map rf_rip (chunk_faults None split_report) = [0x10] \<and>
    fault_rip_in_log (serial_text split_report) = Some 0x100b3d"
proof -
  note run = recorder.launch_ok [OF assms watched_new]
  have ended: "run_ended [RunStarted (started_payload plan)] (serial_text chunks)
      (chunk_faults symbols chunks) outcome (map ev_body es)"
    using run by (simp add: watched_bodies_def)
  have "validate_stream es = Inr ()"
    using run recorded_invariant [of to_string io out r es] by (simp add: watched_def)
  moreover have "whole_lines chunks \<Longrightarrow> chunk_faults symbols chunks =
      take 16 (map (fault_payload symbols) (faults_of (snd (feed_all observer_new (str_lines (serial_text chunks))))))"
    by (simp add: chunk_faults_def chunk_lines_whole MAX_FAULT_EVENTS_def)
  ultimately show ?thesis
    using ended split_report_faults split_report_log by (auto simp: run_ended_def)
qed

definition quiet_chunk :: stream_chunk where
  "quiet_chunk = make_chunk PipeEmulator False (''hi'', EncUtf8)"

definition null_writer :: "unit writer" where
  "null_writer = \<lparr>wr_write_all = (\<lambda>w s. (w, Inr ())), wr_flush = (\<lambda>w. (w, Inr ()))\<rparr>"

definition demo_ending :: run_environment where
  "demo_ending =
     \<lparr>re_runner = fake_runner [quiet_chunk] None, re_cancelled = False, re_uptime_ms = 7,
      re_debug_log = (\<lambda>_. (False, None, None))\<rparr>"

lemma null_emit:
  "rc_next_seq r \<noteq> 0 \<Longrightarrow> emit_at (\<lambda>_. Inr ''{}'') null_writer r ts b =
     (r\<lparr>rc_out := (), rc_next_seq := rc_next_seq r + 1\<rparr>, Inr (event_new (rc_next_seq r) ts (rc_op_id r) b))"
  by (simp add: emit_at_def event_validate_def event_new_def recorder_write_def event_to_ndjson_def
      null_writer_def Let_def EVENT_MODEL_VERSION_def)

lemma demo_launch:
  "\<exists>r es outcome rm. launch_plan (recorder_sink (\<lambda>_. Inr ''{}'') null_writer (\<lambda>_. 0)) demo_run_options demo_ending None
     demo_plan (recorder_new (), []) = ((r, es), Inr (outcome, rm)) \<and> length es = 5"
  by (simp add: launch_plan_def demo_contract then_do_def recorder_sink_def null_emit recorder_new_def run_machine_def
      demo_ending_def fake_runner_def on_chunk_def handle_chunk_def quiet_chunk_def make_chunk_def on_sink_def
      run_start_def conclude_def Let_def sink_note_def sink_log_def give_def)

theorem recorded_run_matches_log_witness:
  "\<exists>r es outcome rm. launch_plan (recorder_sink (\<lambda>_. Inr ''{}'') null_writer (\<lambda>_. 0)) demo_run_options demo_ending None
     demo_plan (recorder_new (), []) = ((r, es), Inr (outcome, rm)) \<and> length es = 5 \<and> validate_stream es = Inr ()"
proof -
  obtain r es outcome rm where l: "launch_plan (recorder_sink (\<lambda>_. Inr ''{}'') null_writer (\<lambda>_. 0)) demo_run_options
      demo_ending None demo_plan (recorder_new (), []) = ((r, es), Inr (outcome, rm))" "length es = 5"
    using demo_launch by blast
  have "re_runner demo_ending (run_spec demo_run_options demo_plan) =
      fake_runner [quiet_chunk] None (run_spec demo_run_options demo_plan)"
    by (simp add: demo_ending_def)
  then obtain chunks result where "re_runner demo_ending (run_spec demo_run_options demo_plan) = (chunks, result)"
    by (meson surj_pair)
  from recorded_run_matches_log [OF l(1) this] l show ?thesis by blast
qed

end
