(* ===== verification/Jvm_Run.thy ===== *)
theory Jvm_Run
  imports Qemu_Run
begin

section \<open>The JVM run backend\<close>

text \<open>
  Models \<^verbatim>\<open>crates/princess-run/src/jvm.rs\<close>: the command line of a Java project and its run. The
  environment, the files and the process runner are parameters.
\<close>

definition DEFAULT_JVM_TIMEOUT_MS :: u64 where "DEFAULT_JVM_TIMEOUT_MS = 30 * 1000"

definition jvm_which :: "(string \<Rightarrow> string option) \<Rightarrow> (string \<Rightarrow> bool) \<Rightarrow> string \<Rightarrow> string option" where
  "jvm_which env is_file name =
     (case env ''PATH'' of
        None \<Rightarrow> None
      | Some path \<Rightarrow> find is_file (map (\<lambda>dir. path_join dir name) (split_char CHR '':'' path)))"

definition plan_java ::
  "(string \<Rightarrow> string option) \<Rightarrow> (string \<Rightarrow> bool) \<Rightarrow> u64 \<Rightarrow> resolved_project \<Rightarrow> princess_error + run_plan" where
  "plan_java env is_file timeout_ms project =
     (case jvm_which env is_file ''java'' of
        None \<Rightarrow> Inl (new_error ToolchainMissing ''java not found in PATH'')
      | Some java \<Rightarrow>
          let build_dir = path_join (rp_root project) ''build''
          in Inr \<lparr>rn_backend = ''jvm'', rn_argv = [java, ''-cp'', build_dir, ''Main''], rn_cwd = rp_root project,
                  rn_boot_medium = MediumKernel build_dir, rn_boot = BootRaw, rn_timeout_ms = timeout_ms,
                  rn_serial = serial_capture_default, rn_gdb_stub = None\<rparr>)"

definition jvm_spec :: "run_plan \<Rightarrow> spawn_spec" where
  "jvm_spec plan =
     \<lparr>sp_argv = rn_argv plan, sp_cwd = rn_cwd plan, sp_timeout_ms = Some (rn_timeout_ms plan),
      sp_serial_tee = None, sp_env = Map.empty\<rparr>"

definition jvm_chunk :: "stream_chunk \<Rightarrow> event_body" where
  "jvm_chunk c = LogAppend \<lparr>la_stream = StreamIde, la_chunk = sk_text c, la_encoding = EncUtf8\<rparr>"

definition jvm_facts :: "process_outcome \<Rightarrow> exit_facts" where
  "jvm_facts p =
     \<lparr>ef_exit_code = po_exit_code p, ef_signal = po_signal p, ef_timed_out = po_timed_out p,
      ef_cancelled = po_cancelled p, ef_guest_powered_off = False, ef_triple_fault = False\<rparr>"

definition jvm_outcome :: "u64 \<Rightarrow> process_outcome \<Rightarrow> run_outcome" where
  "jvm_outcome uptime_ms p =
     \<lparr>ro_exit_code = po_exit_code p, ro_reason = classify_exit (jvm_facts p), ro_uptime_ms = uptime_ms,
      ro_fault = None, ro_serial_log = None\<rparr>"

definition jvm_launch ::
  "'s emitter \<Rightarrow> (spawn_spec \<Rightarrow> stream_chunk list \<times> (princess_error + process_outcome)) \<Rightarrow> u64 \<Rightarrow> run_plan \<Rightarrow>
   ('s, princess_error, run_outcome) op" where
  "jvm_launch emit runner uptime_ms plan =
     then_do (emit (RunStarted \<lparr>rs_qemu_argv = rn_argv plan, rs_gdb_stub = None\<rparr>)) (\<lambda>_.
       case runner (jvm_spec plan) of
         (chunks, Inl e) \<Rightarrow> (\<lambda>s. (s, Inl e))
       | (chunks, Inr p) \<Rightarrow>
           then_do (each_do (\<lambda>c. emit (jvm_chunk c)) chunks) (\<lambda>_.
           then_do (emit (RunExited (exited_event (jvm_outcome uptime_ms p)))) (\<lambda>_.
             give (jvm_outcome uptime_ms p))))"

definition jvm_serial :: "run_plan \<Rightarrow> serial_capture" where
  "jvm_serial plan = serial_capture_default"

definition jvm_stop :: "string \<Rightarrow> princess_error + unit" where
  "jvm_stop op_id = Inr ()"

end
