(* ===== verification/Json_Access.thy ===== *)
theory Json_Access
  imports Core_Error Rust_Str
begin

section \<open>JSON values\<close>

text \<open>
  The JSON values of the third-party \<open>serde_json\<close> are of a type parameter \<open>'v\<close>; what the sources
  ask of a value is a record of functions, so that every definition that reads a message takes the
  reader as an argument. The literals the sources build with \<open>json!\<close> are terms of \<open>json_literal\<close>.
\<close>

record 'v json =
  js_parse :: "string \<Rightarrow> string + 'v"
  js_get :: "'v \<Rightarrow> string \<Rightarrow> 'v option"
  js_str :: "'v \<Rightarrow> string option"
  js_i64 :: "'v \<Rightarrow> int option"
  js_u64 :: "'v \<Rightarrow> u64 option"
  js_bool :: "'v \<Rightarrow> bool option"
  js_array :: "'v \<Rightarrow> 'v list option"
  js_show :: "'v \<Rightarrow> string"
  js_pretty :: "'v \<Rightarrow> string option"

definition get_str :: "'v json \<Rightarrow> 'v \<Rightarrow> string \<Rightarrow> string option" where
  "get_str j v key = Option.bind (js_get j v key) (js_str j)"

definition get_i64 :: "'v json \<Rightarrow> 'v \<Rightarrow> string \<Rightarrow> int option" where
  "get_i64 j v key = Option.bind (js_get j v key) (js_i64 j)"

definition get_u64 :: "'v json \<Rightarrow> 'v \<Rightarrow> string \<Rightarrow> u64 option" where
  "get_u64 j v key = Option.bind (js_get j v key) (js_u64 j)"

definition get_bool :: "'v json \<Rightarrow> 'v \<Rightarrow> string \<Rightarrow> bool option" where
  "get_bool j v key = Option.bind (js_get j v key) (js_bool j)"

text \<open>\<open>pointer("/body/key")\<close>.\<close>

definition in_body :: "'v json \<Rightarrow> 'v \<Rightarrow> string \<Rightarrow> 'v option" where
  "in_body j v key = Option.bind (js_get j v ''body'') (\<lambda>b. js_get j b key)"

definition body_array :: "'v json \<Rightarrow> 'v \<Rightarrow> string \<Rightarrow> 'v list option" where
  "body_array j v key = Option.bind (in_body j v key) (js_array j)"

datatype json_literal =
    JNull | JBool bool | JInt int | JStr string | JArr "json_literal list"
  | JObj "(string \<times> json_literal) list"

text \<open>\<open>as u32\<close> of a 64-bit number.\<close>

definition as_u32 :: "u64 \<Rightarrow> u32" where
  "as_u32 w = ucast w"

subsection \<open>Durations\<close>

text \<open>The \<open>Debug\<close> form of a duration of whole milliseconds.\<close>

definition debug_duration :: "nat \<Rightarrow> string" where
  "debug_duration ms =
     (if 1000 \<le> ms then
        show_nat (ms div 1000) @
        (let frac = trim_end_matches (\<lambda>c. c = CHR ''0'') (pad_left 3 CHR ''0'' (show_nat (ms mod 1000)))
         in if frac = [] then [] else CHR ''.'' # frac) @ ''s''
      else if 0 < ms then show_nat ms @ ''ms'' else ''0ns'')"

end
