(* ===== verification/Dap_Framing.thy ===== *)
theory Dap_Framing
  imports Rust_Str
begin

section \<open>DAP framing\<close>

text \<open>
  Models \<^verbatim>\<open>crates/princess-debug/src/framing.rs\<close>: the encoder and the incremental decoder of
  \<open>Content-Length\<close> frames, and the buffered reader on top of it. The byte stream behind the reader
  is a script of what successive \<open>read\<close> calls return; the end of the script, like an empty read,
  is the end of the stream.
\<close>

subsection \<open>Frames\<close>

definition HEADER_LENGTH :: string where "HEADER_LENGTH = ''Content-Length''"

definition MAX_CONTENT_LENGTH :: nat where "MAX_CONTENT_LENGTH = 16 * 1024 * 1024"

datatype frame_error =
    HeaderTooLong nat
  | MalformedHeader string
  | MissingContentLength string
  | BadContentLength string
  | BodyTooLarge nat nat
  | UnexpectedEof nat nat
  | NotUtf8 string
  | ReadFailed string

definition encode_frame :: "string \<Rightarrow> string" where
  "encode_frame body =
     HEADER_LENGTH @ '': '' @ show_nat (length body) @ [CHR 0x0D, CHR 0x0A, CHR 0x0D, CHR 0x0A] @ body"

text \<open>The index loop of \<open>find_header_terminator\<close>, over the rest of the input.\<close>

fun terminator_from :: "nat \<Rightarrow> string \<Rightarrow> (nat \<times> nat) option" where
  "terminator_from i [] = None"
| "terminator_from i (c # rest) =
     (if c = CHR 0x0A \<and> starts_with [CHR 0x0A] rest then Some (i, i + 2)
      else if c = CHR 0x0A \<and> starts_with [CHR 0x0D, CHR 0x0A] rest then Some (i, i + 3)
      else terminator_from (i + 1) rest)"

definition find_header_terminator :: "string \<Rightarrow> (nat \<times> nat) option" where
  "find_header_terminator input = terminator_from 0 input"

text \<open>The loop over the header lines, with the content length found so far.\<close>

fun header_loop :: "string list \<Rightarrow> nat option \<Rightarrow> frame_error + nat option" where
  "header_loop [] content_length = Inr content_length"
| "header_loop (raw_line # rest) content_length =
     (let line = str_trim raw_line
      in if line = [] then header_loop rest content_length
         else case split_once CHR '':'' line of
           None \<Rightarrow> Inl (MalformedHeader line)
         | Some (name, v) \<Rightarrow>
             if eq_ignore_ascii_case (str_trim name) HEADER_LENGTH then
               (case parse_u64 (str_trim v) of
                  None \<Rightarrow> Inl (BadContentLength (str_trim v))
                | Some parsed \<Rightarrow> header_loop rest (Some parsed))
             else header_loop rest content_length)"

definition header_lines :: "string \<Rightarrow> string list" where
  "header_lines header_text = concat (map (split_char CHR 0x0A) (split_crlf header_text))"

definition decode_frame :: "string \<Rightarrow> frame_error + (string \<times> nat) option" where
  "decode_frame input =
     (case find_header_terminator input of
        None \<Rightarrow>
          if min MAX_CONTENT_LENGTH (64 * 1024) < length input then Inl (HeaderTooLong (64 * 1024))
          else Inr None
      | Some (header_end, body_start) \<Rightarrow>
          let header_text = from_utf8_lossy (take header_end input)
          in and_then (header_loop (header_lines header_text) None) (\<lambda>content_length.
             case content_length of
               None \<Rightarrow> Inl (MissingContentLength header_text)
             | Some len \<Rightarrow>
                 if MAX_CONTENT_LENGTH < len then Inl (BodyTooLarge len MAX_CONTENT_LENGTH)
                 else
                   let total = body_start + len
                   in if length input < total then Inr None
                      else
                        let bytes = take len (drop body_start input)
                        in case from_utf8 bytes of
                             Inl _ \<Rightarrow> Inl (NotUtf8 (from_utf8_lossy bytes))
                           | Inr _ \<Rightarrow> Inr (Some (bytes, total))))"

subsection \<open>The buffered reader\<close>

datatype read_event = ReadData string | ReadInterrupted | ReadError string

record frame_reader =
  fr_script :: "read_event list"
  fr_buffer :: string
  fr_eof :: bool

definition frame_reader_new :: "read_event list \<Rightarrow> frame_reader" where
  "frame_reader_new script = \<lparr>fr_script = script, fr_buffer = [], fr_eof = False\<rparr>"

function next_body :: "frame_reader \<Rightarrow> frame_reader \<times> (frame_error + string option)" where
  "next_body r =
     (case decode_frame (fr_buffer r) of
        Inl e \<Rightarrow> (r, Inl e)
      | Inr (Some (body, used)) \<Rightarrow> (r\<lparr>fr_buffer := drop used (fr_buffer r)\<rparr>, Inr (Some body))
      | Inr None \<Rightarrow>
          if fr_eof r then
            (if fr_buffer r = [] then (r, Inr None)
             else (r, Inl (UnexpectedEof (length (fr_buffer r) + 1) (length (fr_buffer r)))))
          else
            case fr_script r of
              [] \<Rightarrow> next_body (r\<lparr>fr_eof := True\<rparr>)
            | ReadData bytes # script \<Rightarrow>
                next_body
                  (if bytes = [] then r\<lparr>fr_script := script, fr_eof := True\<rparr>
                   else r\<lparr>fr_script := script, fr_buffer := fr_buffer r @ bytes\<rparr>)
            | ReadInterrupted # script \<Rightarrow> next_body (r\<lparr>fr_script := script\<rparr>)
            | ReadError message # script \<Rightarrow> (r\<lparr>fr_script := script\<rparr>, Inl (ReadFailed message)))"
  by pat_completeness auto
termination
  by (relation "measure (\<lambda>r. length (fr_script r) + (if fr_eof r then 0 else 1))") auto

declare next_body.simps [simp del]

definition read_frame :: "read_event list \<Rightarrow> frame_error + (string option \<times> frame_reader)" where
  "read_frame script =
     (case next_body (frame_reader_new script) of
        (r, Inl e) \<Rightarrow> Inl e
      | (r, Inr body) \<Rightarrow> Inr (body, r))"

subsection \<open>Decoding what was encoded\<close>

lemma terminator_from_skip:
  "CHR 0x0A \<notin> set a \<Longrightarrow> terminator_from i (a @ b) = terminator_from (i + length a) b"
  by (induction a arbitrary: i) auto

lemma terminator_from_none: "CHR 0x0A \<notin> set a \<Longrightarrow> terminator_from i a = None"
  by (induction a arbitrary: i) auto

text \<open>The header of an encoded frame, up to and including its first carriage return.\<close>

definition frame_head :: "string \<Rightarrow> string" where
  "frame_head body = HEADER_LENGTH @ '': '' @ show_nat (length body) @ [CHR 0x0D]"

lemma encode_frame_head:
  "encode_frame body = frame_head body @ CHR 0x0A # CHR 0x0D # CHR 0x0A # body"
  by (simp add: encode_frame_def frame_head_def)

lemma frame_head_no_newline: "CHR 0x0A \<notin> set (frame_head body)"
  by (simp add: frame_head_def HEADER_LENGTH_def show_nat_no byte_of_def)

lemma frame_head_ascii: "valid_utf8 (frame_head body)"
proof -
  have "\<forall>c \<in> set (HEADER_LENGTH @ '': '' @ [CHR 0x0D]). byte_of c < 128"
    by (simp add: HEADER_LENGTH_def byte_of_def)
  then have "\<forall>c \<in> set (frame_head body). byte_of c < 128"
    using show_nat_ascii by (auto simp: frame_head_def)
  then show ?thesis by (rule valid_utf8_ascii)
qed

lemma header_of_head:
  assumes "length body < 2 ^ 64"
  shows "header_loop (header_lines (frame_head body)) None = Inr (Some (length body))"
proof -
  let ?n = "show_nat (length body)"
  have lines: "header_lines (frame_head body) = [frame_head body]"
    by (simp add: header_lines_def split_crlf_none split_char_none frame_head_no_newline)
  have "str_trim (frame_head body) = HEADER_LENGTH @ '': '' @ ?n"
  proof -
    have "str_trim_start (frame_head body) = frame_head body"
      by (simp add: frame_head_def HEADER_LENGTH_def str_trim_start_graphic ascii_graphic_def byte_of_def)
    moreover have "str_trim_end ((HEADER_LENGTH @ '': '' @ ?n) @ [CHR 0x0D]) = HEADER_LENGTH @ '': '' @ ?n"
    proof -
      have "str_trim_end (HEADER_LENGTH @ '': '' @ ?n) = HEADER_LENGTH @ '': '' @ ?n"
        by (rule str_trim_graphic(2))
          (simp_all add: HEADER_LENGTH_def show_nat_graphic ascii_graphic_def [of "CHR ''C''"] byte_of_def)
      moreover have "ascii_space (CHR 0x0D)"
        by (simp add: ascii_space_def byte_of_def)
      ultimately show ?thesis
        by (simp only: str_trim_end_space)
    qed
    ultimately show ?thesis
      by (simp add: str_trim_def frame_head_def)
  qed
  moreover have "split_once CHR '':'' (HEADER_LENGTH @ '': '' @ ?n) = Some (HEADER_LENGTH, CHR '' '' # ?n)"
    using split_once_append [of "CHR '':''" HEADER_LENGTH "CHR '' '' # ?n"] by (simp add: HEADER_LENGTH_def)
  moreover have "str_trim HEADER_LENGTH = HEADER_LENGTH"
    by (rule str_trim_graphic) (simp_all add: HEADER_LENGTH_def ascii_graphic_def byte_of_def)
  moreover have "str_trim (CHR '' '' # ?n) = ?n"
    using str_trim_graphic [of ?n] show_nat_graphic [of "length body"]
    by (simp add: str_trim_def str_trim_start_space ascii_space_def byte_of_def)
  ultimately show ?thesis
    using parse_show_nat [OF assms] by (simp add: lines HEADER_LENGTH_def)
qed


lemma frame_terminator:
  "find_header_terminator (frame_head body @ [CHR 0x0A, CHR 0x0D, CHR 0x0A] @ rest) =
     Some (length (frame_head body), length (frame_head body) + 3)"
  by (simp add: find_header_terminator_def terminator_from_skip frame_head_no_newline)

lemma frame_head_short: "length body \<le> MAX_CONTENT_LENGTH \<Longrightarrow> length (frame_head body) + 3 \<le> 64 * 1024"
  using length_digits_in [of 10 "length body" 8]
  by (simp add: frame_head_def HEADER_LENGTH_def show_nat_def MAX_CONTENT_LENGTH_def)

lemma decode_head:
  assumes "length body \<le> MAX_CONTENT_LENGTH"
  shows "decode_frame (frame_head body @ [CHR 0x0A, CHR 0x0D, CHR 0x0A] @ rest) =
    (if length rest < length body then Inr None
     else case from_utf8 (take (length body) rest) of
       Inl _ \<Rightarrow> Inl (NotUtf8 (from_utf8_lossy (take (length body) rest)))
     | Inr _ \<Rightarrow> Inr (Some (take (length body) rest, length (frame_head body) + 3 + length body)))"
proof -
  have "length body < 2 ^ 64"
    using assms by (simp add: MAX_CONTENT_LENGTH_def)
  then have head: "header_loop (header_lines (from_utf8_lossy (frame_head body))) None = Inr (Some (length body))"
    by (simp add: from_utf8_lossy_valid frame_head_ascii header_of_head)
  have d: "drop (length (frame_head body) + 3) (frame_head body @ CHR 0x0A # CHR 0x0D # CHR 0x0A # rest) = rest"
    by (simp add: numeral_3_eq_3)
  show ?thesis
    using assms frame_terminator [of body rest] by (simp add: decode_frame_def head d Let_def)
qed

lemma terminator_from_take:
  assumes "CHR 0x0A \<notin> set a" and "n < length a + 3"
  shows "terminator_from i (take n (a @ CHR 0x0A # CHR 0x0D # CHR 0x0A # rest)) = None"
proof (cases "n \<le> length a")
  case True
  then show ?thesis
    using assms(1) by (auto intro!: terminator_from_none dest: in_set_takeD)
next
  case False
  then have "n - length a = 1 \<or> n - length a = 2"
    using assms(2) by linarith
  then have "take n (a @ CHR 0x0A # CHR 0x0D # CHR 0x0A # rest) = a @ [CHR 0x0A] \<or>
      take n (a @ CHR 0x0A # CHR 0x0D # CHR 0x0A # rest) = a @ [CHR 0x0A, CHR 0x0D]"
    using False by (auto simp: numeral_2_eq_2)
  then show ?thesis
    using assms(1) by (auto simp: terminator_from_skip)
qed

lemma decode_encoded:
  assumes "valid_utf8 body" and "length body \<le> MAX_CONTENT_LENGTH"
  shows "decode_frame (encode_frame body @ rest) = Inr (Some (body, length (encode_frame body)))"
    and "n < length (encode_frame body) \<Longrightarrow> decode_frame (take n (encode_frame body)) = Inr None"
proof -
  have "from_utf8 body = Inr ()"
    using assms(1) by (simp add: valid_utf8_def)
  then show "decode_frame (encode_frame body @ rest) = Inr (Some (body, length (encode_frame body)))"
    using decode_head [OF assms(2), of "body @ rest"] by (simp add: encode_frame_head)
  assume n: "n < length (encode_frame body)"
  let ?h = "length (frame_head body)"
  show "decode_frame (take n (encode_frame body)) = Inr None"
  proof (cases "n < ?h + 3")
    case True
    then have "find_header_terminator (take n (encode_frame body)) = None"
      using terminator_from_take [OF frame_head_no_newline True, of 0 body]
      by (simp add: find_header_terminator_def encode_frame_head)
    moreover have "length (take n (encode_frame body)) \<le> 64 * 1024"
      using True frame_head_short [OF assms(2)] by simp
    ultimately show ?thesis
      by (auto simp: decode_frame_def MAX_CONTENT_LENGTH_def)
  next
    case False
    then have "take n (encode_frame body) =
        frame_head body @ [CHR 0x0A, CHR 0x0D, CHR 0x0A] @ take (n - (?h + 3)) body"
      by (auto simp: encode_frame_head numeral_3_eq_3 Suc_diff_le take_Cons')
    moreover have "n - (?h + 3) < length body"
      using n False by (auto simp: encode_frame_head)
    ultimately show ?thesis
      using decode_head [OF assms(2), of "take (n - (?h + 3)) body"] by simp
  qed
qed

subsection \<open>Reading a whole conversation\<close>

fun event_data :: "read_event \<Rightarrow> string" where
  "event_data (ReadData bytes) = bytes"
| "event_data _ = []"

text \<open>A stream that delivers its bytes in any pieces, with interruptions, and does not fail.\<close>

fun steady :: "read_event \<Rightarrow> bool" where
  "steady (ReadData bytes) = (bytes \<noteq> [])"
| "steady ReadInterrupted = True"
| "steady (ReadError _) = False"

definition stream_left :: "frame_reader \<Rightarrow> string" where
  "stream_left r = fr_buffer r @ concat (map event_data (fr_script r))"

fun next_bodies :: "nat \<Rightarrow> frame_reader \<Rightarrow> (frame_error + string option) list" where
  "next_bodies 0 r = []"
| "next_bodies (Suc n) r = (case next_body r of (r', x) \<Rightarrow> x # next_bodies n r')"

definition body_ok :: "string \<Rightarrow> bool" where
  "body_ok body \<longleftrightarrow> valid_utf8 body \<and> length body \<le> MAX_CONTENT_LENGTH"

lemma next_body_frame:
  assumes "stream_left r = encode_frame body @ rest" and "body_ok body" and "list_all steady (fr_script r)"
    and "\<not> fr_eof r"
  shows "\<exists>r'. next_body r = (r', Inr (Some body)) \<and> stream_left r' = rest \<and> list_all steady (fr_script r') \<and> \<not> fr_eof r'"
  using assms
proof (induction "fr_script r" arbitrary: r)
  case Nil
  then have "fr_buffer r = encode_frame body @ rest"
    by (simp add: stream_left_def)
  then show ?case
    using Nil decode_encoded(1) [of body rest]
    by (subst next_body.simps) (auto simp: body_ok_def stream_left_def)
next
  case (Cons e script)
  note script = Cons.hyps(2) [symmetric]
  let ?enc = "encode_frame body"
  show ?case
  proof (cases "length ?enc \<le> length (fr_buffer r)")
    case True
    define more where "more = drop (length ?enc) (fr_buffer r)"
    have "take (length ?enc) (fr_buffer r) = ?enc"
      using arg_cong [OF Cons.prems(1), of "take (length ?enc)"] True by (simp add: stream_left_def)
    then have buffer: "fr_buffer r = ?enc @ more"
      by (metis append_take_drop_id more_def)
    then have "more @ concat (map event_data (fr_script r)) = rest"
      using Cons.prems(1) by (simp add: stream_left_def)
    then show ?thesis
      using Cons.prems decode_encoded(1) [of body more] buffer
      by (subst next_body.simps) (auto simp: body_ok_def stream_left_def)
  next
    case False
    have "fr_buffer r = take (length (fr_buffer r)) ?enc"
      using arg_cong [OF Cons.prems(1), of "take (length (fr_buffer r))"] False by (simp add: stream_left_def)
    then have none: "decode_frame (fr_buffer r) = Inr None"
      using decode_encoded(2) [of body "length (fr_buffer r)"] False Cons.prems(2) by (simp add: body_ok_def)
    show ?thesis
    proof (cases e)
      case (ReadData bytes)
      let ?r = "r\<lparr>fr_script := script, fr_buffer := fr_buffer r @ bytes\<rparr>"
      have "next_body r = next_body ?r"
        using none Cons.prems(3,4) script ReadData by (subst next_body.simps) auto
      moreover have "stream_left ?r = stream_left r"
        using script ReadData by (simp add: stream_left_def)
      ultimately show ?thesis
        using Cons.hyps(1) [of ?r] Cons.prems script by simp
    next
      case ReadInterrupted
      let ?r = "r\<lparr>fr_script := script\<rparr>"
      have "next_body r = next_body ?r"
        using none Cons.prems(4) script ReadInterrupted by (subst next_body.simps) auto
      moreover have "stream_left ?r = stream_left r"
        using script ReadInterrupted by (simp add: stream_left_def)
      ultimately show ?thesis
        using Cons.hyps(1) [of ?r] Cons.prems script by simp
    qed (use Cons.prems(3) script in simp)
  qed
qed

lemma decode_nothing: "decode_frame [] = Inr None"
  by (simp add: decode_frame_def find_header_terminator_def)

lemma next_body_end:
  assumes "stream_left r = []" and "list_all steady (fr_script r)"
  shows "\<exists>r'. next_body r = (r', Inr None) \<and> stream_left r' = [] \<and> list_all steady (fr_script r')"
  using assms
proof (induction "fr_script r" arbitrary: r)
  case Nil
  then have b: "fr_buffer r = []"
    by (simp add: stream_left_def)
  have "next_body q = (q, Inr None)" if "fr_buffer q = []" "fr_eof q" for q
    using that by (subst next_body.simps) (simp add: decode_nothing)
  then show ?case
    using b Nil by (subst next_body.simps) (auto simp: decode_nothing stream_left_def)
next
  case (Cons e script)
  note script = Cons.hyps(2) [symmetric]
  have b: "fr_buffer r = []" "event_data e = []" "concat (map event_data script) = []"
    using Cons.prems(1) script by (simp_all add: stream_left_def)
  show ?case
  proof (cases e)
    case ReadInterrupted
    let ?r = "r\<lparr>fr_script := script\<rparr>"
    show ?thesis
    proof (cases "fr_eof r")
      case True
      then show ?thesis
        using b Cons.prems script by (subst next_body.simps) (simp add: decode_nothing stream_left_def)
    next
      case False
      then have "next_body r = next_body ?r"
        using b script ReadInterrupted by (subst next_body.simps) (simp add: decode_nothing)
      then show ?thesis
        using Cons.hyps(1) [of ?r] Cons.prems(2) b script by (simp add: stream_left_def)
    qed
  qed (use Cons.prems(2) script b in auto)
qed

lemma next_bodies_end:
  "stream_left r = [] \<Longrightarrow> list_all steady (fr_script r) \<Longrightarrow> next_bodies m r = replicate m (Inr None)"
proof (induction m arbitrary: r)
  case (Suc m)
  obtain r' where "next_body r = (r', Inr None)" "stream_left r' = []" "list_all steady (fr_script r')"
    using next_body_end [OF Suc.prems] by blast
  with Suc.IH show ?case by simp
qed simp

text \<open>
  Encoding and decoding agree: a frame is decoded to its body and its exact length whatever
  bytes follow it, and every proper prefix of it asks for more bytes instead of failing, for every
  valid UTF-8 body up to the limit of 16 MiB.
\<close>

lemma frame_roundtrip:
  assumes "valid_utf8 body" and "length body \<le> MAX_CONTENT_LENGTH"
  shows "decode_frame (encode_frame body @ rest) = Inr (Some (body, length (encode_frame body))) \<and>
    (\<forall>n < length (encode_frame body). decode_frame (take n (encode_frame body)) = Inr None)"
  using decode_encoded [OF assms] by blast

theorem frame_roundtrip_witness:
  "decode_frame (encode_frame ''{}'' @ ''Cont'') = Inr (Some (''{}'', length (encode_frame ''{}'')))"
proof -
  have "valid_utf8 ''{}''"
    by (rule valid_utf8_ascii) (simp add: byte_of_def)
  then show ?thesis
    using frame_roundtrip [of "''{}''" "''Cont''"] by (simp add: MAX_CONTENT_LENGTH_def)
qed

text \<open>
  C8. The conversation is read whole, however the stream cuts it: when the bytes of a sequence of
  encoded messages arrive in any pieces, with any interrupted reads between them, successive calls
  of the reader return exactly those messages in order, and then the clean end of the stream for
  ever.
\<close>

theorem reader_returns_messages:
  assumes "list_all body_ok bodies" and "list_all steady script"
    and "concat (map event_data script) = concat (map encode_frame bodies)"
  shows "next_bodies (length bodies + m) (frame_reader_new script) =
    map (\<lambda>body. Inr (Some body)) bodies @ replicate m (Inr None)"
proof -
  have "next_bodies (length bodies + m) r = map (\<lambda>body. Inr (Some body)) bodies @ replicate m (Inr None)"
    if "stream_left r = concat (map encode_frame bodies)" "list_all steady (fr_script r)" "\<not> fr_eof r" for r
    using that assms(1)
  proof (induction bodies arbitrary: r)
    case Nil
    then show ?case by (simp add: next_bodies_end)
  next
    case (Cons body bodies)
    then obtain r' where "next_body r = (r', Inr (Some body))" "stream_left r' = concat (map encode_frame bodies)"
      "list_all steady (fr_script r')" "\<not> fr_eof r'"
      using next_body_frame [of r body "concat (map encode_frame bodies)"] by auto
    with Cons show ?case by simp
  qed
  then show ?thesis
    using assms(2,3) by (simp add: frame_reader_new_def stream_left_def)
qed

theorem reader_returns_messages_witness:
  "next_bodies 3 (frame_reader_new [ReadData (take 7 (encode_frame ''{}'')), ReadInterrupted,
      ReadData (drop 7 (encode_frame ''{}'') @ encode_frame ''[]'')]) =
   [Inr (Some ''{}''), Inr (Some ''[]''), Inr None]"
proof -
  have ok: "body_ok ''{}''" "body_ok ''[]''"
    by (simp_all add: body_ok_def valid_utf8_ascii byte_of_def MAX_CONTENT_LENGTH_def)
  have ne: "take 7 (encode_frame ''{}'') \<noteq> []" "drop 7 (encode_frame ''{}'') @ encode_frame ''[]'' \<noteq> []"
    by (simp_all add: encode_frame_def)
  have "length [''{}'', ''[]''] + 1 = (3 :: nat)"
    by simp
  then show ?thesis
    using reader_returns_messages [of "[''{}'', ''[]'']" "[ReadData (take 7 (encode_frame ''{}'')), ReadInterrupted,
      ReadData (drop 7 (encode_frame ''{}'') @ encode_frame ''[]'')]" 1] ok ne
    by (simp add: numeral_3_eq_3 del: next_bodies.simps flip: append_assoc)
qed
end
