(* ===== verification/Repl.thy ===== *)
theory Repl
  imports Core_Error Rust_Str
begin

section \<open>The GDB REPL escape hatch\<close>

text \<open>
  Models \<^verbatim>\<open>crates/princess-debug/src/repl.rs\<close>. The JSON response is the third-party
  \<open>serde_json::Value\<close>; the model takes what the source looks up in it: the boolean
  \<open>success\<close>, the string \<open>message\<close>, the string \<open>body.result\<close> and its pretty form, each absent when
  the lookup fails.
\<close>

definition ERROR_SIGNS :: "string list" where
  "ERROR_SIGNS =
     [''not defined.'', ''No symbol table is loaded'', ''No symbol '' @ [CHR 0x22],
      ''Undefined command:'', ''Undefined item:'', ''Invalid syntax'', ''is not a valid'',
      ''Cannot access memory at address'', ''Cannot insert breakpoint'', ''Warning: '', ''error: '',
      ''Error: '', ''No registers.'', ''The program has no registers now.'', ''You can't do that'',
      ''Requires an argument'', ''not supported by this target'', ''is not the same architecture'',
      ''Architecture rejected'']"

record repl_outcome =
  ro_command :: string
  ro_text :: string
  ro_saw_error_text :: bool
  ro_error_sign :: "string option"

definition repl_trimmed :: "repl_outcome \<Rightarrow> string" where
  "repl_trimmed o1 = str_trim_end (ro_text o1)"

definition looks_ok :: "repl_outcome \<Rightarrow> bool" where
  "looks_ok o1 \<longleftrightarrow> \<not> ro_saw_error_text o1"

definition into_error :: "string \<Rightarrow> repl_outcome \<Rightarrow> princess_error" where
  "into_error context_text o1 =
     (let sign = (case ro_error_sign o1 of None \<Rightarrow> '''' | Some s \<Rightarrow> s)
      in with_detail
           (new_error NotFound
             (context_text @ '': GDB rejected `'' @ ro_command o1 @ ''` ('' @ sign @ '')''))
           (''command: '' @ ro_command o1 @ [CHR 0x0A] @ ''output:'' @ [CHR 0x0A] @ ro_text o1))"

definition require_ok :: "string \<Rightarrow> repl_outcome \<Rightarrow> princess_error + repl_outcome" where
  "require_ok context_text o1 =
     (if ro_saw_error_text o1 then Inl (into_error context_text o1) else Inr o1)"

record repl_response =
  rr_success :: "bool option"
  rr_message :: "string option"
  rr_result :: "string option"
  rr_pretty :: string

definition interpret_response :: "string \<Rightarrow> repl_response \<Rightarrow> princess_error + repl_outcome" where
  "interpret_response command response =
     (let success = (case rr_success response of None \<Rightarrow> False | Some b \<Rightarrow> b)
      in if \<not> success then
           let message = (case rr_message response of None \<Rightarrow> ''(no message)'' | Some m \<Rightarrow> m)
           in Inl (with_detail
                (new_error NotFound (''GDB rejected the repl command `'' @ command @ ''`: '' @ message))
                (rr_pretty response))
         else
           let body = (case rr_result response of None \<Rightarrow> '''' | Some t \<Rightarrow> t);
               error_sign = find (\<lambda>sign. str_contains sign body) ERROR_SIGNS
           in Inr \<lparr>ro_command = command, ro_text = body, ro_saw_error_text = (error_sign \<noteq> None),
                   ro_error_sign = error_sign\<rparr>)"

text \<open>\<open>run\<close>: the transport's answer, then the interpretation.\<close>

definition repl_run ::
  "(string \<Rightarrow> princess_error + repl_response) \<Rightarrow> string \<Rightarrow> princess_error + repl_outcome" where
  "repl_run request command = and_then (request command) (interpret_response command)"

subsection \<open>Properties\<close>



end
