(* ===== verification/Dap_Transport.thy ===== *)
theory Dap_Transport
  imports Json_Access Dap_Framing Repl
begin

section \<open>The DAP transport\<close>

text \<open>
  Models \<^verbatim>\<open>crates/princess-debug/src/transport.rs\<close> and \<open>run\<close> of \<^verbatim>\<open>repl.rs\<close>: the reader thread
  that turns the adapter's bytes into messages, the requests written with their sequence numbers,
  and the two waits, which keep what they are not waiting for. The channel and the clock are a script of
  ticks: each iteration of a wait sees whether its deadline has passed and what the channel gives.
  A script that ends leaves the caller waiting. The map of early responses and the queue of events
  are only used by the thread that owns the transport, so their locks are not modelled. A sequence
  number is an \<open>int\<close>: the \<open>i64\<close> counter starts at 1 and is out of reach of its limit.
\<close>

subsection \<open>What the adapter sends\<close>

datatype 'v incoming = Response int 'v | Event 'v | Closed string

fun show_frame_error :: "frame_error \<Rightarrow> string" where
  "show_frame_error (HeaderTooLong limit) =
     ''DAP header block exceeded '' @ show_nat limit @ '' bytes without a blank line''"
| "show_frame_error (MalformedHeader line) = ''malformed DAP header line: '' @ debug_str line"
| "show_frame_error (MissingContentLength header) =
     ''DAP message has no Content-Length header: '' @ debug_str header"
| "show_frame_error (BadContentLength v) = ''DAP Content-Length is not a number: '' @ debug_str v"
| "show_frame_error (BodyTooLarge len limit) =
     ''DAP Content-Length '' @ show_nat len @ '' exceeds the '' @ show_nat limit @ '' byte limit''"
| "show_frame_error (UnexpectedEof wanted got) =
     ''DAP body truncated: wanted '' @ show_nat wanted @ '' bytes, stream ended after '' @ show_nat got"
| "show_frame_error (NotUtf8 lossy) = ''DAP body is not valid UTF-8: '' @ debug_str lossy"
| "show_frame_error (ReadFailed message) = ''reading the DAP stream failed: '' @ message"

definition describe_frame_error :: "frame_error \<Rightarrow> string" where
  "describe_frame_error err = show_frame_error err"

text \<open>One body: a message, one the thread skips, or the reason the thread stops.\<close>

definition classify_message :: "'v json \<Rightarrow> 'v \<Rightarrow> 'v incoming option" where
  "classify_message j v =
     (if get_str j v ''type'' = Some ''event'' then Some (Event v)
      else map_option (\<lambda>seq. Response seq v) (get_i64 j v ''request_seq''))"

fun reader_thread :: "'v json \<Rightarrow> (frame_error + string option) list \<Rightarrow> 'v incoming list" where
  "reader_thread j [] = []"
| "reader_thread j (Inl err # rest) = [Closed (describe_frame_error err)]"
| "reader_thread j (Inr None # rest) = [Closed ''adapter stdout closed'']"
| "reader_thread j (Inr (Some body) # rest) =
     (case js_parse j body of
        Inl err \<Rightarrow> [Closed (''adapter emitted a frame that is not JSON: '' @ err @ '': '' @ take_chars 400 body)]
      | Inr v \<Rightarrow>
          (case classify_message j v of
             None \<Rightarrow> reader_thread j rest
           | Some m \<Rightarrow> m # reader_thread j rest))"

subsection \<open>The state\<close>

datatype 'v received = RxMessage "'v incoming" | RxNothing | RxDisconnected

text \<open>One iteration of a wait: before its deadline, or after it.\<close>

datatype 'v tick = InTime "'v received" | Late "'v received"

datatype dap_stop = Failed princess_error | StillWaiting | Panicked

text \<open>
  \<open>tp_write\<close> is what writing and flushing the request with a sequence number gives, \<open>None\<close> for
  success; \<open>tp_written\<close> is all that was written.
\<close>

record 'v transport =
  tp_argv :: "string list"
  tp_early :: "int \<rightharpoonup> 'v"
  tp_events :: "'v list"
  tp_next_seq :: int
  tp_timeout :: nat
  tp_closed :: "string option"
  tp_ticks :: "'v tick list"
  tp_write :: "int \<Rightarrow> string option"
  tp_written :: string

definition adapter_display :: "string list \<Rightarrow> string" where
  "adapter_display argv = join '' '' argv"

definition DEFAULT_REQUEST_TIMEOUT :: nat where "DEFAULT_REQUEST_TIMEOUT = 30 * 1000"

text \<open>
  What starting the process gives: the kind of failure and its text. \<open>None\<close>: the process is up, with
  its pipes.
\<close>

definition transport_spawn ::
  "string list \<Rightarrow> (io_error_kind \<times> string) option \<Rightarrow> 'v tick list \<Rightarrow> (int \<Rightarrow> string option) \<Rightarrow>
   princess_error + 'v transport" where
  "transport_spawn argv failure ticks writes =
     (if argv = [] then Inl (new_error ToolchainMissing ''debug adapter command is empty'')
      else case failure of
        Some (kind, err) \<Rightarrow>
          Inl (with_detail
            (new_error (if kind = IoNotFound then ToolchainMissing else Internal)
              (''could not start debug adapter '' @ hd argv))
            (adapter_display argv @ [CHR 0x0A] @ err))
      | None \<Rightarrow>
          Inr \<lparr>tp_argv = argv, tp_early = Map.empty, tp_events = [], tp_next_seq = 1,
               tp_timeout = DEFAULT_REQUEST_TIMEOUT, tp_closed = None, tp_ticks = ticks,
               tp_write = writes, tp_written = []\<rparr>)"

definition set_default_timeout :: "nat \<Rightarrow> 'v transport \<Rightarrow> 'v transport" where
  "set_default_timeout ms t = t\<lparr>tp_timeout := ms\<rparr>"

definition is_closed :: "'v transport \<Rightarrow> bool" where
  "is_closed t \<longleftrightarrow> tp_closed t \<noteq> None"

definition closed_error :: "'v transport \<Rightarrow> string \<Rightarrow> princess_error" where
  "closed_error t reason =
     with_detail (new_error QemuFailed ''the debug adapter terminated while the engine was talking to it'')
       (adapter_display (tp_argv t) @ [CHR 0x0A] @ reason)"

subsection \<open>Requests\<close>

definition request_message :: "int \<Rightarrow> string \<Rightarrow> json_literal option \<Rightarrow> json_literal" where
  "request_message seq command arguments =
     JObj ([(''seq'', JInt seq), (''type'', JStr ''request''), (''command'', JStr command)] @
       (case arguments of None \<Rightarrow> [] | Some a \<Rightarrow> [(''arguments'', a)]))"

type_synonym ('v, 'a) dap_op = "('v transport, dap_stop, 'a) op"

text \<open>\<open>to_string\<close> is \<open>serde_json::to_string\<close>.\<close>

definition dap_send ::
  "(json_literal \<Rightarrow> string + string) \<Rightarrow> string \<Rightarrow> json_literal option \<Rightarrow> ('v, int) dap_op" where
  "dap_send to_string command arguments t =
     (case tp_closed t of
        Some reason \<Rightarrow> (t, Inl (Failed (closed_error t reason)))
      | None \<Rightarrow>
          let seq = tp_next_seq t; t1 = t\<lparr>tp_next_seq := seq + 1\<rparr>
          in case to_string (request_message seq command arguments) of
               Inl err \<Rightarrow> (t1, Inl (Failed (error_of_json err)))
             | Inr body \<Rightarrow>
                 (case tp_write t seq of
                    Some err \<Rightarrow> (t1, Inl (Failed (with_detail
                      (internal_error (''could not write the '' @ command @ '' request to the adapter''))
                      (adapter_display (tp_argv t) @ [CHR 0x0A] @ err))))
                  | None \<Rightarrow> (t1\<lparr>tp_written := tp_written t @ encode_frame body\<rparr>, Inr seq)))"

text \<open>Keeping a message nobody waits for.\<close>

fun keep :: "'v incoming \<Rightarrow> 'v transport \<Rightarrow> 'v transport" where
  "keep (Response seq m) t = t\<lparr>tp_early := (tp_early t)(seq \<mapsto> m)\<rparr>"
| "keep (Event e) t = t\<lparr>tp_events := tp_events t @ [e]\<rparr>"
| "keep (Closed reason) t = t"

definition close_with :: "string \<Rightarrow> ('v, 'a) dap_op" where
  "close_with reason t = (t\<lparr>tp_closed := Some reason\<rparr>, Inl (Failed (closed_error t reason)))"

definition response_timeout :: "int \<Rightarrow> nat \<Rightarrow> 'v transport \<Rightarrow> princess_error" where
  "response_timeout seq ms t =
     with_detail (new_error Timeout
         (''timed out after '' @ debug_duration ms @ '' waiting for the DAP response to seq '' @ show_int seq))
       (adapter_display (tp_argv t))"

fun wait_response_loop :: "int \<Rightarrow> nat \<Rightarrow> 'v tick list \<Rightarrow> ('v, 'v) dap_op" where
  "wait_response_loop seq ms ticks t =
     (case tp_early t seq of
        Some response \<Rightarrow> (t\<lparr>tp_early := (tp_early t)(seq := None), tp_ticks := ticks\<rparr>, Inr response)
      | None \<Rightarrow>
          (case ticks of
             [] \<Rightarrow> (t\<lparr>tp_ticks := []\<rparr>, Inl StillWaiting)
           | Late _ # rest \<Rightarrow> (t\<lparr>tp_ticks := rest\<rparr>, Inl (Failed (response_timeout seq ms t)))
           | InTime (RxMessage (Closed reason)) # rest \<Rightarrow> close_with reason (t\<lparr>tp_ticks := rest\<rparr>)
           | InTime (RxMessage (Event e)) # rest \<Rightarrow> wait_response_loop seq ms rest (keep (Event e) t)
           | InTime (RxMessage (Response seq' m)) # rest \<Rightarrow>
               if seq' = seq then (t\<lparr>tp_ticks := rest\<rparr>, Inr m)
               else wait_response_loop seq ms rest (keep (Response seq' m) t)
           | InTime RxNothing # rest \<Rightarrow> wait_response_loop seq ms rest t
           | InTime RxDisconnected # rest \<Rightarrow>
               close_with ''debug adapter reader thread stopped'' (t\<lparr>tp_ticks := rest\<rparr>)))"

declare wait_response_loop.simps [simp del]

definition wait_response :: "int \<Rightarrow> nat \<Rightarrow> ('v, 'v) dap_op" where
  "wait_response seq ms t = wait_response_loop seq ms (tp_ticks t) t"

definition request_within ::
  "(json_literal \<Rightarrow> string + string) \<Rightarrow> string \<Rightarrow> json_literal option \<Rightarrow> nat \<Rightarrow> ('v, 'v) dap_op" where
  "request_within to_string command arguments ms =
     then_do (dap_send to_string command arguments) (\<lambda>seq. wait_response seq ms)"

definition request :: "(json_literal \<Rightarrow> string + string) \<Rightarrow> string \<Rightarrow> json_literal option \<Rightarrow> ('v, 'v) dap_op" where
  "request to_string command arguments t = request_within to_string command arguments (tp_timeout t) t"

definition ensure_success :: "'v json \<Rightarrow> string \<Rightarrow> 'v \<Rightarrow> princess_error + 'v" where
  "ensure_success j command response =
     (if unwrap_or False (get_bool j response ''success'') then Inr response
      else
        let message = unwrap_or ''(adapter sent no message)'' (get_str j response ''message'');
            detail = unwrap_or (js_show j response) (js_pretty j response) @
              (case js_get j response ''body'' of None \<Rightarrow> []
               | Some extra \<Rightarrow> [CHR 0x0A] @ ''body: '' @ js_show j extra)
        in Inl (with_detail (new_error Internal (''DAP request `'' @ command @ ''` failed: '' @ message)) detail))"

definition lift_result :: "princess_error + 'a \<Rightarrow> ('s, dap_stop, 'a) op" where
  "lift_result r s = (s, map_err Failed r)"

definition request_ok ::
  "'v json \<Rightarrow> (json_literal \<Rightarrow> string + string) \<Rightarrow> string \<Rightarrow> json_literal option \<Rightarrow> ('v, 'v) dap_op" where
  "request_ok j to_string command arguments =
     then_do (request to_string command arguments) (\<lambda>response. lift_result (ensure_success j command response))"

subsection \<open>Events\<close>

definition take_events :: "'v transport \<Rightarrow> 'v transport \<times> 'v list" where
  "take_events t = (t\<lparr>tp_events := []\<rparr>, tp_events t)"

definition named :: "'v json \<Rightarrow> string \<Rightarrow> 'v \<Rightarrow> bool" where
  "named j name e \<longleftrightarrow> get_str j e ''event'' = Some name"

text \<open>The first element that qualifies, taken out.\<close>

fun take_first :: "('a \<Rightarrow> bool) \<Rightarrow> 'a list \<Rightarrow> ('a \<times> 'a list) option" where
  "take_first P [] = None"
| "take_first P (x # xs) =
     (if P x then Some (x, xs) else map_option (\<lambda>(y, ys). (y, x # ys)) (take_first P xs))"

text \<open>Past the deadline what is already in the channel is swept, until something is not a message.\<close>

fun wait_event_loop :: "'v json \<Rightarrow> string \<Rightarrow> 'v tick list \<Rightarrow> ('v, 'v option) dap_op" where
  "wait_event_loop j name [] t = (t\<lparr>tp_ticks := []\<rparr>, Inl StillWaiting)"
| "wait_event_loop j name (Late (RxMessage (Event e)) # rest) t =
     (if named j name e then (t\<lparr>tp_ticks := rest\<rparr>, Inr (Some e))
      else wait_event_loop j name rest (keep (Event e) t))"
| "wait_event_loop j name (Late (RxMessage (Response seq m)) # rest) t =
     wait_event_loop j name rest (keep (Response seq m) t)"
| "wait_event_loop j name (Late _ # rest) t = (t\<lparr>tp_ticks := rest\<rparr>, Inr None)"
| "wait_event_loop j name (InTime (RxMessage (Event e)) # rest) t =
     (if named j name e then (t\<lparr>tp_ticks := rest\<rparr>, Inr (Some e))
      else wait_event_loop j name rest (keep (Event e) t))"
| "wait_event_loop j name (InTime (RxMessage (Response seq m)) # rest) t =
     wait_event_loop j name rest (keep (Response seq m) t)"
| "wait_event_loop j name (InTime (RxMessage (Closed reason)) # rest) t =
     close_with reason (t\<lparr>tp_ticks := rest\<rparr>)"
| "wait_event_loop j name (InTime RxNothing # rest) t = wait_event_loop j name rest t"
| "wait_event_loop j name (InTime RxDisconnected # rest) t = (t\<lparr>tp_ticks := rest\<rparr>, Inr None)"

definition wait_event :: "'v json \<Rightarrow> string \<Rightarrow> ('v, 'v option) dap_op" where
  "wait_event j name t =
     (case take_first (named j name) (tp_events t) of
        Some (e, rest) \<Rightarrow> (t\<lparr>tp_events := rest\<rparr>, Inr (Some e))
      | None \<Rightarrow> wait_event_loop j name (tp_ticks t) t)"

subsection \<open>GDB commands over the transport\<close>

definition repl_response_of :: "'v json \<Rightarrow> 'v \<Rightarrow> repl_response" where
  "repl_response_of j v =
     \<lparr>rr_success = get_bool j v ''success'', rr_message = get_str j v ''message'',
      rr_result = Option.bind (in_body j v ''result'') (js_str j),
      rr_pretty = unwrap_or (js_show j v) (js_pretty j v)\<rparr>"

definition dap_repl :: "'v json \<Rightarrow> (json_literal \<Rightarrow> string + string) \<Rightarrow> string \<Rightarrow> ('v, repl_outcome) dap_op" where
  "dap_repl j to_string command =
     then_do (request to_string ''evaluate''
         (Some (JObj [(''expression'', JStr command), (''context'', JStr ''repl'')])))
       (\<lambda>response. lift_result (interpret_response command (repl_response_of j response)))"

subsection \<open>Shutting down\<close>

text \<open>
  What the three seconds of polling give for the adapter process: each poll finds it exited or not,
  or fails; the deadline passes after some of them. The result is whether it was killed. Closing
  the write half is asked of the pipe with a socket call, which has no effect on a pipe, so the
  adapter sees the end of its input only when the transport is dropped.
\<close>

datatype child_poll = PollExited | PollRunning bool | PollFails

fun shutdown_polls :: "child_poll list \<Rightarrow> bool" where
  "shutdown_polls [] = True"
| "shutdown_polls (PollExited # polls) = False"
| "shutdown_polls (PollRunning in_time # polls) = (if in_time then shutdown_polls polls else True)"
| "shutdown_polls (PollFails # polls) = True"

subsection \<open>Facts: no message is lost or given to the wrong request\<close>

text \<open>What a wait takes from the channel: past the deadline only the wait for an event reads it.\<close>

fun tick_messages :: "bool \<Rightarrow> 'v tick \<Rightarrow> 'v incoming list" where
  "tick_messages sweeps (InTime (RxMessage m)) = [m]"
| "tick_messages sweeps (Late (RxMessage m)) = (if sweeps then [m] else [])"
| "tick_messages sweeps _ = []"

definition messages :: "bool \<Rightarrow> 'v tick list \<Rightarrow> 'v incoming list" where
  "messages sweeps ts = concat (map (tick_messages sweeps) ts)"

lemma messages_simps [simp]:
  "messages sw [] = []" "messages sw (t # ts) = tick_messages sw t @ messages sw ts"
  "messages sw (ts @ us) = messages sw ts @ messages sw us"
  by (simp_all add: messages_def)

text \<open>The messages of a list, all kept.\<close>

definition keep_all :: "'v incoming list \<Rightarrow> 'v transport \<Rightarrow> 'v transport" where
  "keep_all ms t = fold keep ms t"

lemma keep_all_simps [simp]:
  "keep_all [] t = t" "keep_all (m # ms) t = keep_all ms (keep m t)" "keep_all (xs @ ys) t = keep_all ys (keep_all xs t)"
  by (simp_all add: keep_all_def)

lemma keep_fields [simp]:
  "tp_ticks (keep m t) = tp_ticks t" "tp_closed (keep m t) = tp_closed t" "tp_argv (keep m t) = tp_argv t"
  "tp_next_seq (keep m t) = tp_next_seq t" "tp_written (keep m t) = tp_written t" "tp_timeout (keep m t) = tp_timeout t"
  "tp_write (keep m t) = tp_write t"
  by (cases m; simp)+

lemma keep_ticks: "keep m (t\<lparr>tp_ticks := ts\<rparr>) = (keep m t)\<lparr>tp_ticks := ts\<rparr>"
  by (cases m) simp_all

lemma keep_all_fields [simp]:
  "tp_ticks (keep_all ms t) = tp_ticks t" "tp_closed (keep_all ms t) = tp_closed t" "tp_argv (keep_all ms t) = tp_argv t"
  "tp_next_seq (keep_all ms t) = tp_next_seq t" "tp_written (keep_all ms t) = tp_written t"
  "tp_timeout (keep_all ms t) = tp_timeout t" "tp_write (keep_all ms t) = tp_write t"
  by (induction ms arbitrary: t; simp)+

definition events_of :: "'v incoming list \<Rightarrow> 'v list" where
  "events_of ms = List.map_filter (\<lambda>m. case m of Event e \<Rightarrow> Some e | _ \<Rightarrow> None) ms"

definition replies_of :: "'v incoming list \<Rightarrow> (int \<times> 'v) list" where
  "replies_of ms = List.map_filter (\<lambda>m. case m of Response seq v \<Rightarrow> Some (seq, v) | _ \<Rightarrow> None) ms"

lemma events_of_simps [simp]:
  "events_of [] = []" "events_of (Event e # ms) = e # events_of ms" "events_of (Response seq v # ms) = events_of ms"
  "events_of (Closed r # ms) = events_of ms" "events_of (xs @ ys) = events_of xs @ events_of ys"
  by (simp_all add: events_of_def map_filter_def)

lemma replies_of_simps [simp]:
  "replies_of [] = []" "replies_of (Event e # ms) = replies_of ms" "replies_of (Response seq v # ms) = (seq, v) # replies_of ms"
  "replies_of (Closed r # ms) = replies_of ms" "replies_of (xs @ ys) = replies_of xs @ replies_of ys"
  by (simp_all add: replies_of_def map_filter_def)

lemma events_keep_all: "tp_events (keep_all ms t) = tp_events t @ events_of ms"
proof (induction ms arbitrary: t)
  case (Cons m ms)
  then show ?case by (cases m) simp_all
qed simp

lemma early_keep_all: "tp_early (keep_all ms t) = tp_early t ++ map_of (rev (replies_of ms))"
proof (induction ms arbitrary: t)
  case (Cons m ms)
  then show ?case by (cases m) (simp_all add: map_add_upd_left fun_eq_iff map_add_def split: option.splits)
qed simp

text \<open>What a wait for the reply to \<open>seq\<close> leaves behind.\<close>

definition waited :: "int \<Rightarrow> 'v transport \<Rightarrow> 'v transport \<times> (dap_stop + 'v) \<Rightarrow> 'v tick list \<Rightarrow> bool" where
  "waited seq t out us \<longleftrightarrow>
     (case out of
        (t', Inr m) \<Rightarrow>
          tp_early (keep_all (messages False us) t) seq = Some m \<and>
          t' = (keep_all (messages False us) t)\<lparr>tp_early := (tp_early (keep_all (messages False us) t))(seq := None),
                 tp_ticks := tp_ticks t'\<rparr>
      | (t', Inl stop) \<Rightarrow>
          tp_early (keep_all (messages False us) t) seq = None \<and>
          t' = (keep_all (messages False us) t)\<lparr>tp_closed := tp_closed t', tp_ticks := tp_ticks t'\<rparr>)"

lemma waited_keep:
  "waited seq (keep m t) out us \<Longrightarrow> tick_messages False tick = [m] \<Longrightarrow> waited seq t out (tick # us)"
  by (auto simp: waited_def split: prod.splits sum.splits)

lemma waited_skip: "waited seq t out us \<Longrightarrow> tick_messages False tick = [] \<Longrightarrow> waited seq t out (tick # us)"
  by (auto simp: waited_def split: prod.splits sum.splits)

lemma map_clear: "f x = None \<Longrightarrow> f(x := None) = f" "f x = None \<Longrightarrow> (f(x \<mapsto> y))(x := None) = f"
  by (auto simp: fun_eq_iff)

lemma closed_same: "t\<lparr>tp_closed := tp_closed t, tp_ticks := x\<rparr> = t\<lparr>tp_ticks := x\<rparr>"
  by (cases t) simp

lemma wait_response_waited:
  "\<exists>us. ticks = us @ tp_ticks (fst (wait_response_loop seq w ticks t)) \<and>
     waited seq t (wait_response_loop seq w ticks t) us"
proof (induction ticks arbitrary: t)
  case Nil
  show ?case
    by (rule exI [of _ "[]"]) (subst (1 2) wait_response_loop.simps, auto simp: waited_def split: option.splits)
next
  case (Cons tick ticks)
  show ?case
  proof (cases "tp_early t seq")
    case (Some m)
    then show ?thesis
      by (intro exI [of _ "[]"]) (subst (1 2) wait_response_loop.simps, simp add: waited_def)
  next
    case None
    have skip: "?thesis" if "tick_messages False tick = []"
        "wait_response_loop seq w (tick # ticks) t = wait_response_loop seq w ticks t"
    proof -
      obtain us where "ticks = us @ tp_ticks (fst (wait_response_loop seq w ticks t))"
          "waited seq t (wait_response_loop seq w ticks t) us" using Cons.IH by blast
      then show ?thesis using that by (intro exI [of _ "tick # us"]) (auto intro: waited_skip)
    qed
    have kept: "?thesis" if "tick_messages False tick = [m]"
        "wait_response_loop seq w (tick # ticks) t = wait_response_loop seq w ticks (keep m t)" for m
    proof -
      obtain us where "ticks = us @ tp_ticks (fst (wait_response_loop seq w ticks (keep m t)))"
          "waited seq (keep m t) (wait_response_loop seq w ticks (keep m t)) us" using Cons.IH by blast
      then show ?thesis using that by (intro exI [of _ "tick # us"]) (auto intro: waited_keep)
    qed
    have stop: "?thesis" if "wait_response_loop seq w (tick # ticks) t = (t', Inl e)"
        "t' = t\<lparr>tp_closed := tp_closed t', tp_ticks := ticks\<rparr>" "keep_all (tick_messages False tick) t = t" for t' e
    proof -
      have "tp_ticks t' = ticks" by (subst that(2)) simp
      then show ?thesis using that None by (intro exI [of _ "[tick]"]) (auto simp: waited_def)
    qed
    show ?thesis
    proof (cases tick)
      case (Late x)
      show ?thesis
      proof (rule stop [of "t\<lparr>tp_ticks := ticks\<rparr>" "Failed (response_timeout seq w t)"])
        show "wait_response_loop seq w (tick # ticks) t =
            (t\<lparr>tp_ticks := ticks\<rparr>, Inl (Failed (response_timeout seq w t)))"
          by (subst wait_response_loop.simps) (simp add: None Late)
        show "keep_all (tick_messages False tick) t = t"
          by (cases x) (simp_all add: Late)
      qed (simp add: closed_same)
    next
      case (InTime x)
      show ?thesis
      proof (cases x)
        case (RxMessage m)
        show ?thesis
        proof (cases m)
          case (Response seq' v)
          show ?thesis
          proof (cases "seq' = seq")
            case True
            with None InTime RxMessage Response show ?thesis
              by (intro exI [of _ "[tick]"]) (subst (1 2) wait_response_loop.simps, simp add: waited_def map_clear)
          next
            case False
            with None InTime RxMessage Response show ?thesis
              by (intro kept [of m]) (simp, subst wait_response_loop.simps, simp)
          qed
        next
          case (Event e)
          with None InTime RxMessage show ?thesis
            by (intro kept [of m]) (simp, subst wait_response_loop.simps, simp)
        next
          case (Closed reason)
          show ?thesis
            by (rule stop [of "t\<lparr>tp_closed := Some reason, tp_ticks := ticks\<rparr>" "Failed (closed_error (t\<lparr>tp_ticks := ticks\<rparr>) reason)"])
              (subst wait_response_loop.simps, simp_all add: None InTime RxMessage Closed close_with_def)
        qed
      next
        case RxNothing
        show ?thesis
          by (rule skip) (simp add: InTime RxNothing, subst wait_response_loop.simps, simp add: None InTime RxNothing)
      next
        case RxDisconnected
        show ?thesis
          by (rule stop [of "t\<lparr>tp_closed := Some ''debug adapter reader thread stopped'', tp_ticks := ticks\<rparr>"
              "Failed (closed_error (t\<lparr>tp_ticks := ticks\<rparr>) ''debug adapter reader thread stopped'')"])
            (subst wait_response_loop.simps, simp_all add: None InTime RxDisconnected close_with_def)
      qed
    qed
  qed
qed

text \<open>What a wait for an event leaves behind.\<close>

definition event_waited :: "'v json \<Rightarrow> string \<Rightarrow> 'v transport \<Rightarrow> 'v transport \<times> (dap_stop + 'v option) \<Rightarrow> 'v tick list \<Rightarrow> bool" where
  "event_waited j name t out us \<longleftrightarrow>
     (let kept = keep_all (messages True us) t; found = take_first (named j name) (tp_events kept)
      in case out of
        (t', Inr (Some e)) \<Rightarrow>
          (\<exists>rest. found = Some (e, rest) \<and> t' = kept\<lparr>tp_events := rest, tp_ticks := tp_ticks t'\<rparr>)
      | (t', Inr None) \<Rightarrow> found = None \<and> t' = kept\<lparr>tp_ticks := tp_ticks t'\<rparr>
      | (t', Inl stop) \<Rightarrow> found = None \<and> t' = kept\<lparr>tp_closed := tp_closed t', tp_ticks := tp_ticks t'\<rparr>)"

lemma event_waited_keep:
  "event_waited j name (keep m t) out us \<Longrightarrow> tick_messages True tick = [m] \<Longrightarrow> event_waited j name t out (tick # us)"
  by (auto simp: event_waited_def Let_def split: prod.splits sum.splits option.splits)

lemma event_waited_skip:
  "event_waited j name t out us \<Longrightarrow> tick_messages True tick = [] \<Longrightarrow> event_waited j name t out (tick # us)"
  by (auto simp: event_waited_def Let_def split: prod.splits sum.splits option.splits)

lemma take_first_snoc:
  "take_first P xs = None \<Longrightarrow> take_first P (xs @ [x]) = (if P x then Some (x, xs) else None)"
  by (induction xs) (auto split: if_splits)

lemma take_first_None_iff: "take_first P xs = None \<longleftrightarrow> (\<forall>x \<in> set xs. \<not> P x)"
  by (induction xs) auto

lemma take_first_Some:
  "take_first P xs = Some (x, rest) \<Longrightarrow> P x \<and> (\<exists>a b. xs = a @ x # b \<and> rest = a @ b \<and> (\<forall>y \<in> set a. \<not> P y))"
proof (induction xs arbitrary: rest)
  case (Cons y ys)
  show ?case
  proof (cases "P y")
    case True
    with Cons.prems have "P x \<and> y # ys = [] @ x # ys \<and> rest = [] @ ys \<and> (\<forall>y \<in> set []. \<not> P y)" by auto
    then show ?thesis by blast
  next
    case False
    then obtain rest' where r: "take_first P ys = Some (x, rest')" "rest = y # rest'"
      using Cons.prems by auto
    from Cons.IH [OF r(1)] obtain a b where "P x" "ys = a @ x # b" "rest' = a @ b" "\<forall>z \<in> set a. \<not> P z" by blast
    with False r(2) have "P x \<and> y # ys = (y # a) @ x # b \<and> rest = (y # a) @ b \<and> (\<forall>z \<in> set (y # a). \<not> P z)" by auto
    then show ?thesis by blast
  qed
qed simp

definition event_ran :: "'v json \<Rightarrow> string \<Rightarrow> 'v tick list \<Rightarrow> 'v transport \<Rightarrow> 'v transport \<times> (dap_stop + 'v option) \<Rightarrow> bool" where
  "event_ran j name ticks t out \<longleftrightarrow> (\<exists>us. ticks = us @ tp_ticks (fst out) \<and> event_waited j name t out us)"

lemma event_ran_keep: "event_ran j name ticks (keep m t) out \<Longrightarrow> tick_messages True tick = [m] \<Longrightarrow> event_ran j name (tick # ticks) t out"
  unfolding event_ran_def by (metis append_Cons event_waited_keep)

lemma event_ran_skip: "event_ran j name ticks t out \<Longrightarrow> tick_messages True tick = [] \<Longrightarrow> event_ran j name (tick # ticks) t out"
  unfolding event_ran_def by (metis append_Cons event_waited_skip)

lemma event_ran_now: "tp_ticks (fst out) = ticks \<Longrightarrow> event_waited j name t out [tick] \<Longrightarrow> event_ran j name (tick # ticks) t out"
  unfolding event_ran_def by auto

lemma event_kept:
  "event_ran j name rest (t\<lparr>tp_events := tp_events t @ [e]\<rparr>) out \<Longrightarrow> tick_messages True tick = [Event e] \<Longrightarrow>
     event_ran j name (tick # rest) t out"
  by (rule event_ran_keep [where m = "Event e"]) simp_all

lemma event_found:
  assumes "take_first (named j name) (tp_events t) = None" "tick_messages True tick = [Event e]" "named j name e"
  shows "event_ran j name (tick # rest) t (t\<lparr>tp_ticks := rest\<rparr>, Inr (Some e))"
  using assms by (intro event_ran_now) (simp_all add: event_waited_def take_first_snoc)

lemma event_missed:
  assumes "take_first (named j name) (tp_events t) = None" "keep_all (tick_messages True tick) t = t"
  shows "event_ran j name (tick # rest) t (t\<lparr>tp_ticks := rest\<rparr>, Inr None)"
  using assms by (intro event_ran_now) (simp_all add: event_waited_def)

lemma wait_event_waited:
  "take_first (named j name) (tp_events t) = None \<Longrightarrow> event_ran j name ticks t (wait_event_loop j name ticks t)"
proof (induction j name ticks t rule: wait_event_loop.induct)
  case (1 j name t)
  then show ?case by (simp add: event_ran_def event_waited_def closed_same)
next
  case (2 j name e rest t)
  then show ?case
    by (auto intro: event_kept event_found simp: take_first_snoc)
next
  case (3 j name seq m rest t)
  then show ?case by (auto intro: event_ran_keep [where m = "Response seq m"])
next
  case "4_1"
  then show ?case by (auto intro: event_missed)
next
  case "4_2"
  then show ?case by (auto intro: event_missed)
next
  case "4_3"
  then show ?case by (auto intro: event_missed)
next
  case (5 j name e rest t)
  then show ?case
    by (auto intro: event_kept event_found simp: take_first_snoc)
next
  case (6 j name seq m rest t)
  then show ?case by (auto intro: event_ran_keep [where m = "Response seq m"])
next
  case (7 j name reason rest t)
  then show ?case by (auto intro!: event_ran_now simp: close_with_def event_waited_def)
next
  case (8 j name rest t)
  then show ?case by (auto intro: event_ran_skip)
next
  case (9 j name rest t)
  then show ?case by (auto intro: event_missed)
qed

text \<open>
  The two waits never lose a message and never give one to the wrong request. Each takes some
  messages from the channel, keeps all of them in order of arrival - replies under their sequence
  number, events at the end of the queue - and then takes out exactly what it waits for: the reply
  kept under its number, or the first event of the name in the queue. If it gives up, at its
  deadline or because the adapter is gone, all it received is kept and what it waits for is not
  there.
\<close>

lemma waits_keep_everything:
  "(\<exists>us. tp_ticks t = us @ tp_ticks (fst (wait_response seq w t)) \<and> waited seq t (wait_response seq w t) us) \<and>
   (\<exists>us. tp_ticks t = us @ tp_ticks (fst (wait_event j name t)) \<and> event_waited j name t (wait_event j name t) us)"
proof (intro conjI)
  show "\<exists>us. tp_ticks t = us @ tp_ticks (fst (wait_event j name t)) \<and> event_waited j name t (wait_event j name t) us"
  proof (cases "take_first (named j name) (tp_events t)")
    case None
    from wait_event_waited [OF this] show ?thesis by (simp add: wait_event_def None event_ran_def)
  next
    case (Some er)
    then show ?thesis
      by (intro exI [of _ "[]"]) (auto simp: wait_event_def event_waited_def split: prod.split)
  qed
qed (simp add: wait_response_def wait_response_waited)

subsection \<open>Facts: replies in any order\<close>

text \<open>Ticks of a conversation that goes on: in time, and the adapter stays.\<close>

fun lively :: "'v tick \<Rightarrow> bool" where
  "lively (InTime (RxMessage (Closed r))) = False"
| "lively (InTime (RxMessage m)) = True"
| "lively (InTime RxNothing) = True"
| "lively _ = False"

lemma lively_reply:
  "list_all lively ts \<Longrightarrow> tp_early t seq \<noteq> None \<or> seq \<in> fst ` set (replies_of (messages False ts)) \<Longrightarrow>
     \<exists>vs t' m. wait_response_loop seq w (ts @ rest) t = (t', Inr m) \<and> tp_ticks t' = vs @ rest"
proof (induction ts arbitrary: t)
  case Nil
  then show ?case by (subst wait_response_loop.simps) auto
next
  case (Cons tick ts)
  show ?case
  proof (cases "tp_early t seq")
    case (Some m)
    then show ?thesis by (subst wait_response_loop.simps) (auto intro: exI [of _ "tick # ts"])
  next
    case None
    with Cons.prems consider v where "tick = InTime (RxMessage (Response seq v))"
      | seq' v where "tick = InTime (RxMessage (Response seq' v))" "seq' \<noteq> seq"
      | e where "tick = InTime (RxMessage (Event e))" | "tick = InTime RxNothing"
      by (cases tick rule: lively.cases) auto
    then show ?thesis
    proof cases
      case 2
      with Cons.prems None Cons.IH [of "keep (Response seq' v) t"] show ?thesis
        by (subst wait_response_loop.simps) auto
    next
      case (3 e)
      with Cons.prems None Cons.IH [of "keep (Event e) t"] show ?thesis
        by (subst wait_response_loop.simps) auto
    next
      case 4
      with Cons.prems None Cons.IH [of t] show ?thesis by (subst wait_response_loop.simps) auto
    qed (use None in \<open>subst wait_response_loop.simps; auto\<close>)
  qed
qed

lemma only_reply:
  assumes "distinct (map fst xs)" "(k, v) \<in> set xs" "set ys \<subseteq> set xs" "map_of (rev ys) k = Some v'"
  shows "v' = v"
proof -
  have "(k, v') \<in> set xs" using assms(3) map_of_SomeD [OF assms(4)] by auto
  with assms(1,2) show ?thesis by (meson eq_key_imp_eq_value)
qed

lemma lively_wait:
  assumes "tp_ticks t = ts @ rest" "list_all lively ts"
    "tp_early t seq \<noteq> None \<or> seq \<in> fst ` set (replies_of (messages False ts))"
  obtains us vs t' m where "ts = us @ vs" "wait_response seq w t = (t', Inr m)" "tp_ticks t' = vs @ rest"
    "tp_early (keep_all (messages False us) t) seq = Some m"
    "tp_early t' = (tp_early (keep_all (messages False us) t))(seq := None)"
    "tp_events t' = tp_events t @ events_of (messages False us)"
proof -
  obtain vs t' m where r: "wait_response_loop seq w (ts @ rest) t = (t', Inr m)" "tp_ticks t' = vs @ rest"
    using lively_reply [OF assms(2,3)] by blast
  with wait_response_waited [of "ts @ rest" seq w t] obtain us where us: "ts @ rest = us @ vs @ rest"
      "waited seq t (t', Inr m) us" by auto
  then have "ts = us @ vs" by simp
  moreover have "wait_response seq w t = (t', Inr m)" using r assms(1) by (simp add: wait_response_def)
  moreover from us(2) have t': "t' = (keep_all (messages False us) t)\<lparr>
      tp_early := (tp_early (keep_all (messages False us) t))(seq := None), tp_ticks := tp_ticks t'\<rparr>"
    and found: "tp_early (keep_all (messages False us) t) seq = Some m"
    by (simp_all add: waited_def)
  moreover have "tp_early t' = (tp_early (keep_all (messages False us) t))(seq := None)" by (subst t') simp
  moreover have "tp_events t' = tp_events t @ events_of (messages False us)" by (subst t') (simp add: events_keep_all)
  ultimately show thesis using that r(2) by blast
qed

text \<open>
  C24. Replies are matched by their number whatever order the adapter answers in. While the
  conversation goes on, let the channel give any messages with one reply each for two requests \<open>a\<close>
  and \<open>b\<close>, before or after each other, with other replies and events anywhere between: waiting for
  \<open>b\<close> and then for \<open>a\<close> returns the reply of each, and the events received, followed by those still
  to come, are all the events, in order. This is the handshake, where \<open>attach\<close> is answered after
  the later \<open>configurationDone\<close>.
\<close>

theorem replies_in_any_order:
  assumes ticks: "tp_ticks t = ts @ rest" "list_all lively ts"
    and replies: "distinct (map fst (replies_of (messages False ts)))"
      "(a, ma) \<in> set (replies_of (messages False ts))" "(b, mb) \<in> set (replies_of (messages False ts))"
    and fresh: "tp_early t a = None" "tp_early t b = None" "a \<noteq> b"
  shows "\<exists>t1 t2 left. wait_response b w t = (t1, Inr mb) \<and> wait_response a w' t1 = (t2, Inr ma) \<and>
    tp_ticks t2 = left @ rest \<and>
    tp_events t2 @ events_of (messages False left) = tp_events t @ events_of (messages False ts)"
proof -
  have b: "tp_early t b \<noteq> None \<or> b \<in> fst ` set (replies_of (messages False ts))"
    using replies(3) by force
  obtain us vs t1 m where 1: "ts = us @ vs" "wait_response b w t = (t1, Inr m)" "tp_ticks t1 = vs @ rest"
      "tp_early (keep_all (messages False us) t) b = Some m"
      "tp_early t1 = (tp_early (keep_all (messages False us) t))(b := None)"
      "tp_events t1 = tp_events t @ events_of (messages False us)"
    using lively_wait [OF ticks b] .
  have m: "m = mb"
    using 1(1,4) fresh(2) replies only_reply [OF replies(1,3), of "replies_of (messages False us)" m]
    by (auto simp: early_keep_all map_add_def split: option.splits)
  have "list_all lively vs" using ticks(2) 1(1) by simp
  moreover have "tp_early t1 a \<noteq> None \<or> a \<in> fst ` set (replies_of (messages False vs))"
  proof (cases "a \<in> fst ` set (replies_of (messages False us))")
    case True
    then have "map_of (rev (replies_of (messages False us))) a \<noteq> None"
      by (auto simp: map_of_eq_None_iff)
    then show ?thesis using fresh(3) by (auto simp: 1(5) early_keep_all map_add_def)
  qed (use replies(2) 1(1) in force)
  ultimately obtain us' vs' t2 m' where 2: "vs = us' @ vs'" "wait_response a w' t1 = (t2, Inr m')" "tp_ticks t2 = vs' @ rest"
      "tp_early (keep_all (messages False us') t1) a = Some m'"
      "tp_events t2 = tp_events t1 @ events_of (messages False us')"
    using lively_wait [OF 1(3)] by metis
  have "m' = ma"
  proof (cases "map_of (rev (replies_of (messages False us'))) a")
    case None
    with 2(4) have "map_of (rev (replies_of (messages False us))) a = Some m'"
      using fresh by (auto simp: early_keep_all 1(5) map_add_def split: option.splits if_splits)
    with only_reply [OF replies(1,2), of "replies_of (messages False us)"] 1(1) show ?thesis by auto
  next
    case (Some x)
    with 2(4) have "x = m'" by (simp add: early_keep_all map_add_def)
    with only_reply [OF replies(1,2), of "replies_of (messages False us')"] 1(1) 2(1) Some show ?thesis by auto
  qed
  then show ?thesis
    using m 1 2 by (intro exI [of _ t1] exI [of _ t2] exI [of _ vs']) simp
qed

definition demo_transport :: "nat tick list \<Rightarrow> nat transport" where
  "demo_transport ticks =
     \<lparr>tp_argv = [''gdb''], tp_early = Map.empty, tp_events = [], tp_next_seq = 3, tp_timeout = 30000,
      tp_closed = None, tp_ticks = ticks, tp_write = (\<lambda>seq. None), tp_written = []\<rparr>"

lemma replies_in_any_order_witness:
  "\<exists>t1 t2 left. wait_response 1 5 (demo_transport
       [InTime (RxMessage (Response 2 20)), InTime RxNothing, InTime (RxMessage (Event 7)),
        InTime (RxMessage (Response 1 10)), Late RxNothing]) = (t1, Inr 10) \<and>
     wait_response 2 9 t1 = (t2, Inr 20) \<and> tp_ticks t2 = left @ [Late RxNothing] \<and>
     tp_events t2 @ events_of (messages False left) = [7]"
  using replies_in_any_order [where a = 2 and b = 1 and ma = 20 and mb = 10 and w = 5 and w' = 9 and
      rest = "[Late RxNothing]" and
      ts = "[InTime (RxMessage (Response 2 20)), InTime RxNothing, InTime (RxMessage (Event 7)),
        InTime (RxMessage (Response 1 10))]" and
      t = "demo_transport [InTime (RxMessage (Response 2 20)), InTime RxNothing, InTime (RxMessage (Event 7)),
        InTime (RxMessage (Response 1 10)), Late RxNothing]"]
  by (simp add: demo_transport_def)

end
