(* ===== verification/Gdb_Capability.thy ===== *)
theory Gdb_Capability
  imports Dap_Transport Core_Types Guest_Memory
begin

section \<open>The GDB capability layer\<close>

text \<open>
  Models \<^verbatim>\<open>crates/princess-debug/src/capability.rs\<close>: what the engine does with GDB commands that
  DAP has no request for, and the parsers of their output. The layer is over any way \<open>run\<close> of
  running a command; over the transport it is \<open>dap_repl\<close>. Addresses of a memory dump are machine
  words whose sums wrap as in a release build; a slice out of range is a panic.
\<close>

subsection \<open>Records\<close>

record breakpoint_record =
  br_number :: u32
  br_kind :: string
  br_enabled :: bool
  br_address :: "string option"
  br_what :: string

definition is_hardware :: "breakpoint_record \<Rightarrow> bool" where
  "is_hardware b \<longleftrightarrow> str_contains ''hw breakpoint'' (br_kind b)"

definition is_pending :: "breakpoint_record \<Rightarrow> bool" where
  "is_pending b \<longleftrightarrow> str_contains ''<PENDING>'' (br_what b) \<or> br_address b = Some ''<PENDING>''"

definition debug_breakpoint :: "breakpoint_record \<Rightarrow> string" where
  "debug_breakpoint b =
     ''BreakpointRecord { number: '' @ show_nat (unat (br_number b)) @ '', kind: '' @ debug_str (br_kind b) @
     '', enabled: '' @ show_flag (br_enabled b) @ '', address: '' @ debug_str_option (br_address b) @
     '', what: '' @ debug_str (br_what b) @ '' }''"

datatype physical_backend = QemuMonitorBackend | Unavailable

record register_entry =
  re_name :: string
  re_value :: string
  re_decimal :: "string option"
  re_annotation :: "string option"
  re_raw :: string

subsection \<open>Parsers\<close>

definition is_declaration_line :: "string \<Rightarrow> bool" where
  "is_declaration_line raw \<longleftrightarrow>
     (let line = str_trim raw
      in \<not> (line = [] \<or> starts_with ''All defined functions'' line \<or> starts_with ''All functions'' line \<or>
            starts_with ''Non-debugging symbols'' line \<or> starts_with ''File '' line \<or> ends_with '':'' line) \<and>
         (ends_with '';'' line \<and> CHR ''('' \<in> set line \<or> starts_with ''0x'' line))"

definition count_function_declarations :: "string \<Rightarrow> nat" where
  "count_function_declarations txt = length (filter is_declaration_line (str_lines txt))"

text \<open>The loop over the bytes of a line: what follows its first \<open>n\<close> fields.\<close>

fun after_fields :: "nat \<Rightarrow> string \<Rightarrow> string" where
  "after_fields 0 s = s"
| "after_fields (Suc n) s =
     (let field = dropWhile u8_space s
      in if field = [] then []
         else let rest = dropWhile u8_space (dropWhile (\<lambda>c. \<not> u8_space c) field)
              in if n = 0 then rest else after_fields n rest)"

definition strip_after_nth_field :: "string \<Rightarrow> nat \<Rightarrow> string" where
  "strip_after_nth_field line n = after_fields n line"

definition nth_field :: "string list \<Rightarrow> nat \<Rightarrow> string option" where
  "nth_field fs i = (if i < length fs then Some (fs ! i) else None)"

definition breakpoint_line :: "string \<Rightarrow> breakpoint_record option" where
  "breakpoint_line raw =
     (let line = str_trim_end raw; fs = split_whitespace line
      in case nth_field fs 0 of
           None \<Rightarrow> None
         | Some first \<Rightarrow>
             if first = ''Num'' \<or> starts_with ''No breakpoints'' line \<or> starts_with ''No watchpoints'' line then None
             else case parse_u32 first of
               None \<Rightarrow> None
             | Some number \<Rightarrow>
                 (case nth_field fs 1 of
                    None \<Rightarrow> None
                  | Some word \<Rightarrow>
                      let (kind, i) =
                            (if word = ''hw'' then (''hw '' @ unwrap_or ''breakpoint'' (nth_field fs 2), 3) else (word, 2));
                          enabled = ((nth_field fs i = Some ''keep'' \<or> nth_field fs i = Some ''del'') \<and>
                            nth_field fs (i + 1) = Some ''y'');
                          (address, what) =
                            (case nth_field fs (i + 2) of
                               Some a \<Rightarrow>
                                 if starts_with ''0x'' a \<or> a = ''<PENDING>'' \<or> starts_with ''*'' a
                                 then (Some (trim_start_matches (\<lambda>c. c = CHR ''*'') a), strip_after_nth_field line (i + 3))
                                 else (None, strip_after_nth_field line (i + 2))
                             | None \<Rightarrow> (None, strip_after_nth_field line (i + 2)))
                      in Some \<lparr>br_number = number, br_kind = kind, br_enabled = enabled,
                               br_address = address, br_what = what\<rparr>))"

definition parse_breakpoints :: "string \<Rightarrow> breakpoint_record list" where
  "parse_breakpoints txt = List.map_filter breakpoint_line (str_lines txt)"

definition extract_bracket :: "string \<Rightarrow> string option" where
  "extract_bracket rest =
     (case split_once CHR ''['' rest of
        None \<Rightarrow> None
      | Some (_, after) \<Rightarrow>
          map_option (\<lambda>(inside, _). CHR ''['' # inside @ '']'') (split_once CHR '']'' after))"

definition register_entry_of :: "string \<Rightarrow> register_entry option" where
  "register_entry_of line =
     (if str_trim line = [] then None
      else case split_at_space line of (first, second) \<Rightarrow>
        let name = str_trim first; rest = str_trim (unwrap_or [] second)
        in if name = [] \<or> CHR ''='' \<in> set name \<or> rest = [] then None
           else if \<not> list_all (\<lambda>c. is_alnum c \<or> c = CHR ''_'' \<or> c = CHR ''.'') name then None
           else
             let vals = (case split_once CHR ''['' rest of None \<Rightarrow> rest | Some (before, _) \<Rightarrow> str_trim before);
                 tokens = split_whitespace vals
             in Some \<lparr>re_name = map ascii_upper name, re_value = unwrap_or [] (nth_field tokens 0),
                      re_decimal = nth_field tokens 1, re_annotation = extract_bracket rest, re_raw = line\<rparr>)"

definition parse_info_registers :: "string \<Rightarrow> register_entry list" where
  "parse_info_registers txt = List.map_filter register_entry_of (str_lines txt)"

subsection \<open>Memory dumps\<close>

record dump_word =
  dw_address :: u64
  dw_value :: u64
  dw_width :: nat

text \<open>The values of a line, from an address on; tokens that are no words are skipped.\<close>

fun dump_tokens :: "u64 \<Rightarrow> string list \<Rightarrow> dump_word list" where
  "dump_tokens cursor [] = []"
| "dump_tokens cursor (token # tokens) =
     (let digits = strip_all ''0x'' (str_trim token); width = (length digits + 1) div 2
      in if digits = [] \<or> \<not> list_all is_hex_digit digits \<or> 8 < width then dump_tokens cursor tokens
         else case radix16_u64 digits of
           None \<Rightarrow> dump_tokens cursor tokens
         | Some v \<Rightarrow>
             \<lparr>dw_address = cursor, dw_value = word_of_nat v, dw_width = width\<rparr> #
             dump_tokens (cursor + word_of_nat width) tokens)"

definition dump_line :: "string \<Rightarrow> dump_word list" where
  "dump_line raw =
     (case split_once CHR '':'' (str_trim raw) of
        None \<Rightarrow> []
      | Some (address_part, values_part) \<Rightarrow>
          (case radix16_u64 (strip_all ''0x'' (str_trim address_part)) of
             None \<Rightarrow> []
           | Some base \<Rightarrow> dump_tokens (word_of_nat base) (split_whitespace values_part)))"

definition dump_words :: "string \<Rightarrow> dump_word list" where
  "dump_words txt = concat (map dump_line (str_lines txt))"

text \<open>One word laid into the buffer that starts at \<open>base\<close>; \<open>None\<close> is a panic.\<close>

definition lay_word :: "u64 \<Rightarrow> dump_word \<Rightarrow> u8 list \<Rightarrow> u8 list option" where
  "lay_word base w buf =
     (let offset = unat (sat_sub (dw_address w) base); end_at = (offset + dw_width w) mod 2 ^ 64
      in if length buf < end_at then Some buf
         else if end_at < offset then None
         else Some (take offset buf @ take (dw_width w) (le_bytes (dw_value w)) @ drop end_at buf))"

fun lay_words :: "u64 \<Rightarrow> dump_word list \<Rightarrow> u8 list \<Rightarrow> u8 list option" where
  "lay_words base [] buf = Some buf"
| "lay_words base (w # ws) buf = Option.bind (lay_word base w buf) (lay_words base ws)"

definition parse_monitor_xp :: "string \<Rightarrow> u64 \<Rightarrow> u8 list option" where
  "parse_monitor_xp txt start =
     (let ws = dump_words txt
      in if ws = [] then Some []
         else
           let lowest = fold (\<lambda>w a. min (dw_address w) a) ws (dw_address (hd ws));
               highest = fold (\<lambda>w a. max (dw_address w + word_of_nat (dw_width w)) a) ws 0;
               base = min lowest start;
               span = unat (sat_sub highest base)
           in if span = 0 \<or> 4096 < span then Some []
              else map_option (drop (unat (sat_sub start base))) (lay_words base ws (replicate span 0)))"

definition parse_gdb_hex_value :: "string \<Rightarrow> u64 option" where
  "parse_gdb_hex_value txt =
     Option.bind (nth_field (split_char CHR ''='' txt) 1) (\<lambda>v.
     Option.bind (nth_field (split_whitespace (str_trim v)) 0) (\<lambda>token.
       map_option word_of_nat (radix16_u64 (strip_all ''0X'' (strip_all ''0x'' token)))))"

definition shell_escape :: "string \<Rightarrow> string" where
  "shell_escape txt =
     (if \<not> list_ex (\<lambda>c. c = CHR '' '' \<or> c = CHR 0x22 \<or> c = CHR 0x5C) txt then txt
      else CHR 0x22 # replace_char CHR 0x22 [CHR 0x5C, CHR 0x22]
             (replace_char CHR 0x5C [CHR 0x5C, CHR 0x5C] txt) @ [CHR 0x22])"

subsection \<open>Commands\<close>

text \<open>A way to run a command on a state: the text GDB printed, judged.\<close>

type_synonym 's runner = "string \<Rightarrow> ('s, dap_stop, repl_outcome) op"

definition run_ok :: "'s runner \<Rightarrow> 's runner" where
  "run_ok run command = then_do (run command) (\<lambda>o1. lift_result (require_ok ''gdb command'' o1))"

definition refuse :: "princess_error \<Rightarrow> ('s, dap_stop, 'a) op" where
  "refuse e s = (s, Inl (Failed e))"

definition prepare_session :: "'s runner \<Rightarrow> ('s, dap_stop, unit) op" where
  "prepare_session run =
     each_do (\<lambda>command. then_do (run_ok run command) (\<lambda>_. give ()))
       [''set pagination off'', ''set confirm off'', ''set print elements 0'', ''set print repeats 0'']"

definition command_output :: "string \<Rightarrow> string \<Rightarrow> string" where
  "command_output command txt = ''command: '' @ command @ [CHR 0x0A] @ ''output:'' @ [CHR 0x0A] @ txt"

text \<open>The evidence of an empty listing is cut at byte 2000, which panics inside a character.\<close>

definition load_symbols :: "'s runner \<Rightarrow> string \<Rightarrow> ('s, dap_stop, nat) op" where
  "load_symbols run elf =
     then_do (run (''symbol-file '' @ shell_escape elf)) (\<lambda>outcome.
       if ro_saw_error_text outcome then
         refuse (with_detail (not_found_error (''could not load symbols from '' @ elf))
           (command_output (ro_command outcome) (ro_text outcome)))
       else then_do (run ''info functions'') (\<lambda>listing.
         if ro_saw_error_text listing then
           refuse (into_error (''could not enumerate the functions in '' @ elf) listing)
         else
           let count = count_function_declarations (ro_text listing)
           in if count = 0 then
                let shown = min (length (ro_text listing)) 2000
                in if char_boundary (ro_text listing) shown then
                     refuse (with_detail
                       (not_found_error (elf @ '' loaded but GDB reports no functions; the ELF probably has no debug info''))
                       (''command: '' @ ro_command listing @ [CHR 0x0A] @ ''output (first 2000 bytes):'' @ [CHR 0x0A] @
                        take shown (ro_text listing)))
                   else (\<lambda>s. (s, Inl Panicked))
              else give count))"

definition list_breakpoints :: "'s runner \<Rightarrow> ('s, dap_stop, breakpoint_record list) op" where
  "list_breakpoints run =
     then_do (run_ok run ''info breakpoints'') (\<lambda>outcome. give (parse_breakpoints (ro_text outcome)))"

definition created_by :: "string \<Rightarrow> breakpoint_record list \<Rightarrow> breakpoint_record list \<Rightarrow> string \<Rightarrow>
    princess_error + breakpoint_record" where
  "created_by command before after txt =
     (case find (\<lambda>b. br_number b \<notin> br_number ` set before) after of
        None \<Rightarrow> Inl (with_detail
          (internal_error (''`'' @ command @ ''` reported success but created no breakpoint'')) txt)
      | Some record \<Rightarrow> Inr record)"

definition judge_hardware :: "string \<Rightarrow> string \<Rightarrow> breakpoint_record \<Rightarrow> princess_error + breakpoint_record" where
  "judge_hardware spec txt record =
     (if \<not> is_hardware record then
        Inl (with_detail (internal_error (''`hbreak '' @ spec @ ''` created a '' @ br_kind record @
          '', not a hardware breakpoint'')) txt)
      else if is_pending record then
        Inl (with_detail
          (not_found_error (''no such symbol or location for a hardware breakpoint: `'' @ spec @ ''`''))
          (''gdb left the breakpoint pending, so the location does not exist in this image.'' @ [CHR 0x0A] @
           command_output (''hbreak '' @ spec) txt @ [CHR 0x0A] @ ''breakpoint: '' @ debug_breakpoint record))
      else Inr record)"

definition set_hardware_breakpoint :: "'s runner \<Rightarrow> string \<Rightarrow> ('s, dap_stop, breakpoint_record) op" where
  "set_hardware_breakpoint run spec =
     then_do (list_breakpoints run) (\<lambda>before.
     then_do (run (''hbreak '' @ spec)) (\<lambda>outcome.
       if ro_saw_error_text outcome then
         refuse (into_error (''cannot set a hardware breakpoint at `'' @ spec @ ''`'') outcome)
       else then_do (list_breakpoints run) (\<lambda>after.
         lift_result (and_then (created_by (''hbreak '' @ spec) before after (ro_text outcome))
           (judge_hardware spec (ro_text outcome))))))"

definition judge_software :: "string \<Rightarrow> string \<Rightarrow> breakpoint_record \<Rightarrow> princess_error + breakpoint_record" where
  "judge_software spec txt record =
     (if is_pending record then
        Inl (with_detail (not_found_error (''no such symbol or location: `'' @ spec @ ''`''))
          (command_output (''break '' @ spec) txt))
      else Inr record)"

definition set_software_breakpoint :: "'s runner \<Rightarrow> string \<Rightarrow> ('s, dap_stop, breakpoint_record) op" where
  "set_software_breakpoint run spec =
     then_do (list_breakpoints run) (\<lambda>before.
     then_do (run (''break '' @ spec)) (\<lambda>outcome.
       if ro_saw_error_text outcome then
         refuse (into_error (''cannot set a breakpoint at `'' @ spec @ ''`'') outcome)
       else then_do (list_breakpoints run) (\<lambda>after.
         lift_result (and_then (created_by (''break '' @ spec) before after (ro_text outcome))
           (judge_software spec (ro_text outcome))))))"

definition clear_breakpoints :: "'s runner \<Rightarrow> ('s, dap_stop, unit) op" where
  "clear_breakpoints run = then_do (run_ok run ''delete breakpoints'') (\<lambda>_. give ())"

subsection \<open>Physical memory\<close>

text \<open>The probe of a fresh layer.\<close>

definition physical_memory_backend :: "'s runner \<Rightarrow> ('s, dap_stop, physical_backend) op" where
  "physical_memory_backend run =
     then_do (run ''monitor xp /1xb 0x0'') (\<lambda>outcome.
       give (if ro_saw_error_text outcome \<or> str_contains ''not supported'' (ro_text outcome) \<or>
                str_contains ''Undefined command'' (ro_text outcome)
             then Unavailable else QemuMonitorBackend))"

definition xp_command :: "nat \<Rightarrow> u64 \<Rightarrow> string" where
  "xp_command width cursor =
     (let (n, unit) =
        (if 8 \<le> width \<and> width mod 8 = 0 then (width div 8, ''xg'')
         else if 4 \<le> width \<and> width mod 4 = 0 then (width div 4, ''xw'')
         else if 2 \<le> width \<and> width mod 2 = 0 then (width div 2, ''xh'')
         else (width, ''xb''))
      in ''monitor xp /'' @ show_nat n @ unit @ '' 0x'' @ show_hex (unat cursor))"

function xp_loop :: "'s runner \<Rightarrow> nat \<Rightarrow> u64 \<Rightarrow> u8 list \<Rightarrow> ('s, dap_stop, u8 list) op" where
  "xp_loop run count cursor bytes s =
     (if count \<le> length bytes then (s, Inr (take count bytes))
      else case run (xp_command (min (count - length bytes) 16) cursor) s of
        (s', Inl e) \<Rightarrow> (s', Inl e)
      | (s', Inr outcome) \<Rightarrow>
          if ro_saw_error_text outcome then
            (s', Inl (Failed (into_error (''cannot read physical memory at 0x'' @ show_hex (unat cursor)) outcome)))
          else case parse_monitor_xp (ro_text outcome) cursor of
            None \<Rightarrow> (s', Inl Panicked)
          | Some parsed \<Rightarrow>
              if parsed = [] then
                (s', Inl (Failed (with_detail
                  (internal_error (''could not parse the physical memory dump at 0x'' @ show_hex (unat cursor)))
                  (command_output (ro_command outcome) (ro_text outcome)))))
              else
                let got = take (count - length bytes) parsed
                in xp_loop run count (cursor + word_of_nat (length got)) (bytes @ got) s')"
  by pat_completeness auto
termination
  by (relation "measure (\<lambda>(run, count, cursor, bytes, s). count - length bytes)") (auto simp: min_def neq_Nil_conv)

declare xp_loop.simps [simp del]

text \<open>
  A vector of \<open>2^63\<close> bytes or more cannot be reserved: that is a panic. Smaller reservations are taken
  to succeed.
\<close>

definition read_physical_memory :: "'s runner \<Rightarrow> u64 \<Rightarrow> u64 \<Rightarrow> ('s, dap_stop, u8 list) op" where
  "read_physical_memory run address count =
     (if count = 0 then give []
      else then_do (physical_memory_backend run) (\<lambda>backend.
        case backend of
          Unavailable \<Rightarrow>
            refuse (with_detail
              (new_error ToolchainMissing
                ''the connected target has no `monitor` command, so physical memory cannot be read'')
              (''`monitor` is a QEMU feature; on Bochs, real hardware over BDM/JTAG, '' @
               ''or a custom stub there is no physical-memory path through GDB. '' @
               ''PrincessIDE refuses to substitute a virtual read, which would '' @
               ''return plausible-looking bytes from the wrong address space.''))
        | QemuMonitorBackend \<Rightarrow>
            if 2 ^ 63 \<le> unat count then (\<lambda>s. (s, Inl Panicked))
            else xp_loop run (unat count) address []))"

definition disassemble_physical :: "'s runner \<Rightarrow> u64 \<Rightarrow> u64 \<Rightarrow> ('s, dap_stop, string) op" where
  "disassemble_physical run address instructions =
     then_do (run_ok run (''monitor xp /'' @ show_nat (unat instructions) @ ''i 0x'' @ show_hex (unat address)))
       (\<lambda>outcome. give (ro_text outcome))"

subsection \<open>Registers\<close>

datatype register_selection =
    SelectAll | SelectControl | SelectSegments | SelectGeneral | SelectNamed "string list"

fun registers_command :: "register_selection \<Rightarrow> string" where
  "registers_command SelectAll = ''info registers''"
| "registers_command SelectControl = ''info registers cr0 cr2 cr3 cr4''"
| "registers_command SelectSegments = ''info registers cs ss ds es fs gs''"
| "registers_command SelectGeneral =
     ''info registers rax rbx rcx rdx rsi rdi rbp rsp r8 r9 r10 r11 r12 r13 r14 r15 rip eflags''"
| "registers_command (SelectNamed names) = ''info registers '' @ join '' '' names"

definition register_map :: "register_entry list \<Rightarrow> register_file" where
  "register_map entries = map_of (rev (map (\<lambda>e. (re_name e, re_value e)) entries))"

definition read_registers ::
  "'s runner \<Rightarrow> register_selection \<Rightarrow> ('s, dap_stop, register_file \<times> register_entry list) op" where
  "read_registers run selection =
     (let command = registers_command selection
      in then_do (run_ok run command) (\<lambda>outcome.
        let entries = parse_info_registers (ro_text outcome)
        in if entries = [] then
             refuse (with_detail (internal_error ''`info registers` returned nothing parseable'')
               (command_output command (ro_text outcome)))
           else give (register_map entries, entries)))"

definition read_register :: "'s runner \<Rightarrow> string \<Rightarrow> ('s, dap_stop, register_entry) op" where
  "read_register run name =
     then_do (read_registers run (SelectNamed [name])) (\<lambda>(_, entries).
       case find (\<lambda>e. eq_ignore_ascii_case (re_name e) (map ascii_upper name)) entries of
         Some e \<Rightarrow> give e
       | None \<Rightarrow> refuse (with_detail (not_found_error (''the target has no register named `'' @ name @ ''`''))
           (''`info registers '' @ name @ ''` returned no matching line'')))"

definition program_counter :: "'s runner \<Rightarrow> ('s, dap_stop, u64) op" where
  "program_counter run =
     then_do (run_ok run ''p/x $pc'') (\<lambda>outcome.
       case parse_gdb_hex_value (ro_text outcome) of
         Some v \<Rightarrow> give v
       | None \<Rightarrow> refuse (with_detail (internal_error ''could not parse `p/x $pc` output into an address'')
           (ro_text outcome)))"

definition read_hex_expression :: "'s runner \<Rightarrow> string \<Rightarrow> ('s, dap_stop, u64) op" where
  "read_hex_expression run expression =
     then_do (run_ok run (''p/x '' @ expression)) (\<lambda>outcome.
       case parse_gdb_hex_value (ro_text outcome) of
         Some v \<Rightarrow> give v
       | None \<Rightarrow> refuse (with_detail (internal_error (''could not parse the value of `'' @ expression @ ''`''))
           (ro_text outcome)))"

subsection \<open>What commands keep, and how many a physical read takes\<close>

lemma yields_stop: "yields P (refuse e) Q" "yields P (\<lambda>s. (s, Inl stop)) Q"
  by (simp_all add: yields_def refuse_def)

lemma keeps_lift [keeping]: "keeps P (lift_result r)" "keeps P (refuse e)" "keeps P (\<lambda>s. (s, Inl stop))"
  by (simp_all add: yields_def lift_result_def refuse_def)

text \<open>Each operation of the capability layer keeps what running a command keeps.\<close>

lemma keeps_run_ok [keeping]: "(\<And>c. keeps P (run c)) \<Longrightarrow> keeps P (run_ok run c)"
  unfolding run_ok_def by (auto intro!: keeping)

lemma keeps_commands [keeping]:
  assumes "\<And>c. keeps P (run c)"
  shows "keeps P (prepare_session run)" "keeps P (load_symbols run elf)" "keeps P (list_breakpoints run)"
    "keeps P (set_hardware_breakpoint run spec)" "keeps P (set_software_breakpoint run spec)"
    "keeps P (clear_breakpoints run)" "keeps P (physical_memory_backend run)"
    "keeps P (disassemble_physical run address n)" "keeps P (read_registers run selection)"
    "keeps P (program_counter run)" "keeps P (read_hex_expression run expression)"
  unfolding prepare_session_def load_symbols_def list_breakpoints_def set_hardware_breakpoint_def Let_def
    set_software_breakpoint_def clear_breakpoints_def physical_memory_backend_def disassemble_physical_def
    read_registers_def program_counter_def read_hex_expression_def
  by (intro keeping assms)+


lemma xp_loop_step:
  assumes "length bytes < count" "run (xp_command (min (count - length bytes) 16) cursor) s = (s', r)"
  obtains (stop) e where "xp_loop run count cursor bytes s = (s', Inl e)"
    | (go) got where "got \<noteq> []" "length bytes + length got \<le> count" "\<exists>o1. r = Inr o1"
        "xp_loop run count cursor bytes s = xp_loop run count (cursor + word_of_nat (length got)) (bytes @ got) s'"
proof (cases r)
  case (Inl e)
  then have "\<exists>e. xp_loop run count cursor bytes s = (s', Inl e)"
    using assms by (subst xp_loop.simps) simp
  then show thesis using stop by blast
next
  case (Inr o1)
  show thesis
  proof (cases "ro_saw_error_text o1 \<or> parse_monitor_xp (ro_text o1) cursor \<in> {None, Some []}")
    case True
    then have "\<exists>e. xp_loop run count cursor bytes s = (s', Inl e)"
      using assms Inr by (subst xp_loop.simps) auto
    then show thesis using stop by blast
  next
    case False
    then obtain parsed where p: "parse_monitor_xp (ro_text o1) cursor = Some parsed" "parsed \<noteq> []" by auto
    show thesis
    proof (rule go [of "take (count - length bytes) parsed"])
      show "take (count - length bytes) parsed \<noteq> []" using p assms(1) by simp
      show "length bytes + length (take (count - length bytes) parsed) \<le> count" using assms(1) by simp
      show "\<exists>o1. r = Inr o1" using Inr by simp
      show "xp_loop run count cursor bytes s = xp_loop run count
          (cursor + word_of_nat (length (take (count - length bytes) parsed)))
          (bytes @ take (count - length bytes) parsed) s'"
        by (subst xp_loop.simps) (use assms Inr False p in \<open>simp\<close>)
    qed
  qed
qed

lemma xp_loop_done: "count \<le> length bytes \<Longrightarrow> xp_loop run count cursor bytes s = (s, Inr (take count bytes))"
  by (subst xp_loop.simps) simp

lemma xp_loop_yields:
  assumes run: "\<And>c. keeps P (run c)"
  shows "P s \<Longrightarrow> P (fst (xp_loop run count cursor bytes s)) \<and>
    (\<forall>x. snd (xp_loop run count cursor bytes s) = Inr x \<longrightarrow> length x = count)"
proof (induction "count - length bytes" arbitrary: cursor bytes s rule: less_induct)
  case less
  show ?case
  proof (cases "count \<le> length bytes")
    case True
    with less.prems show ?thesis by (simp add: xp_loop_done)
  next
    case False
    obtain s' r where r: "run (xp_command (min (count - length bytes) 16) cursor) s = (s', r)"
      by (cases "run (xp_command (min (count - length bytes) 16) cursor) s")
    have s': "P s'" using yieldsD [OF run less.prems r] by simp
    have "length bytes < count" using False by simp
    from this r show ?thesis
    proof (cases rule: xp_loop_step [of bytes count run cursor s s' r])
      case (go got)
      then have "0 < length got" by simp
      with False have "count - length (bytes @ got) < count - length bytes"
        unfolding length_append by linarith
      from less.hyps [OF this s'] show ?thesis unfolding go(4) .
    qed (use s' in auto)
  qed
qed

lemma physical_yields:
  assumes "\<And>c. keeps P (run c)"
  shows "yields P (read_physical_memory run address count) (\<lambda>bytes. length bytes = unat count)"
proof -
  have loop: "yields P (xp_loop run (unat count) address []) (\<lambda>bytes. length bytes = unat count)"
    using xp_loop_yields [of P run] assms by (auto simp: yields_def)
  have probe: "keeps P (physical_memory_backend run)" by (rule keeping assms)+
  show ?thesis
  proof (cases "count = 0")
    case False
    then show ?thesis unfolding read_physical_memory_def
      by (auto intro!: yields_then [OF probe] yields_stop loop split: physical_backend.split)
  qed (simp add: read_physical_memory_def yields_def give_def)
qed

lemma keeps_physical [keeping]: "(\<And>c. keeps P (run c)) \<Longrightarrow> keeps P (read_physical_memory run address count)"
  by (rule yields_weaken [OF physical_yields]) auto

text \<open>A runner that counts the commands it is given.\<close>

definition counted :: "'s runner \<Rightarrow> (nat \<times> 's) runner" where
  "counted run command = (\<lambda>(n, s). case run command s of (s', r) \<Rightarrow> ((Suc n, s'), r))"

lemma xp_loop_commands:
  "fst (fst (xp_loop (counted run) count cursor bytes (n, s))) \<le> n + (count - length bytes)"
proof (induction "count - length bytes" arbitrary: cursor bytes n s rule: less_induct)
  case less
  show ?case
  proof (cases "count \<le> length bytes")
    case True
    then show ?thesis by (simp add: xp_loop_done)
  next
    case False
    obtain s' r where r: "counted run (xp_command (min (count - length bytes) 16) cursor) (n, s) = ((Suc n, s'), r)"
      by (cases "run (xp_command (min (count - length bytes) 16) cursor) s") (simp add: counted_def)
    have "length bytes < count" using False by simp
    from this r show ?thesis
    proof (cases rule: xp_loop_step [of bytes count "counted run" cursor "(n, s)" "(Suc n, s')" r])
      case (go got)
      then have "0 < length got" by simp
      with False have "count - length (bytes @ got) < count - length bytes"
        "Suc n + (count - length (bytes @ got)) \<le> n + (count - length bytes)"
        unfolding length_append by linarith+
      with less.hyps [of "bytes @ got" "cursor + word_of_nat (length got)" "Suc n" s'] show ?thesis
        unfolding go(4) by linarith
    qed (use False in auto)
  qed
qed

text \<open>
  C25. A physical read ends, and is never short. Whatever the command runner answers, a read of
  \<open>count\<close> bytes issues at most \<open>count + 1\<close> commands (the probe and one per round, since a round that
  brings no byte is an error), and the bytes of a successful read are exactly \<open>count\<close>.
\<close>

theorem physical_read_ends:
  "case read_physical_memory (counted run) address count (0, s) of
     ((n, s'), r) \<Rightarrow> n \<le> unat count + 1 \<and> (case r of Inl _ \<Rightarrow> True | Inr bytes \<Rightarrow> length bytes = unat count)"
proof -
  obtain s1 r1 where probe: "run ''monitor xp /1xb 0x0'' s = (s1, r1)"
    by (cases "run ''monitor xp /1xb 0x0'' s")
  have len: "\<forall>x. snd (read_physical_memory (counted run) address count (0, s)) = Inr x \<longrightarrow> length x = unat count"
    using physical_yields [of "\<lambda>_. True" "counted run"] by (simp add: yields_def)
  have "fst (fst (read_physical_memory (counted run) address count (0, s))) \<le> unat count + 1"
    using xp_loop_commands [of run "unat count" address "[]" 1 s1]
    by (cases r1) (auto simp: read_physical_memory_def physical_memory_backend_def then_do_def give_def counted_def
        probe refuse_def)
  with len show ?thesis by (auto split: prod.split sum.split)
qed

end
