(* ===== verification/Arch_Check.thy ===== *)
theory Arch_Check
  imports Gdb_Capability
begin

section \<open>The architecture self-check\<close>

text \<open>
  Models \<^verbatim>\<open>crates/princess-debug/src/arch.rs\<close>: the header of the ELF file, the architecture and the
  pointer width GDB reports, and the verdict. The file is what opening it and reading its first 20
  bytes gives. The width in bits is a 32-bit product, which wraps as in a release build.
\<close>

subsection \<open>The file\<close>

datatype elf_class = Elf32 | Elf64

fun pointer_bits :: "elf_class \<Rightarrow> u32" where
  "pointer_bits Elf32 = 32"
| "pointer_bits Elf64 = 64"

fun elf_class_str :: "elf_class \<Rightarrow> string" where
  "elf_class_str Elf32 = ''elf32''"
| "elf_class_str Elf64 = ''elf64''"

record elf_facts =
  ef_class :: elf_class
  ef_machine :: u16
  ef_machine_name :: string
  ef_is_x86 :: bool

datatype elf_read = OpenFailed string | HeaderFailed string | ElfHeader "u8 list"

definition hex2 :: "u8 \<Rightarrow> string" where
  "hex2 b = pad_left 2 CHR ''0'' (show_hex (unat b))"

definition elf_magic :: "u8 list" where "elf_magic = [0x7F, 0x45, 0x4C, 0x46]"

definition machine_name :: "u16 \<Rightarrow> string \<times> bool" where
  "machine_name m =
     (if m = 3 then (''EM_386'', True)
      else if m = 62 then (''EM_X86_64'', True)
      else if m = 183 then (''EM_AARCH64'', False)
      else if m = 243 then (''EM_RISCV'', False)
      else (''EM_UNKNOWN'', False))"

definition elf_u16 :: "u8 \<Rightarrow> u8 \<Rightarrow> u16" where
  "elf_u16 low high = word_of_nat (unat low + 256 * unat high)"

definition read_elf_facts :: "elf_read \<Rightarrow> string \<Rightarrow> princess_error + elf_facts" where
  "read_elf_facts file path =
     (case file of
        OpenFailed err \<Rightarrow>
          Inl (with_detail (not_found_error (''cannot open the debug symbols file '' @ path)) err)
      | HeaderFailed err \<Rightarrow>
          Inl (with_detail (invalid_config_error (path @ '' is too small to be an ELF file'')) err)
      | ElfHeader h \<Rightarrow>
          if take 4 h \<noteq> elf_magic then
            Inl (with_detail (invalid_config_error (path @ '' is not an ELF file (bad magic)''))
              (''first 4 bytes: ['' @ join '', '' (map hex2 (take 4 h)) @ '']''))
          else if h ! 4 \<noteq> 1 \<and> h ! 4 \<noteq> 2 then
            Inl (with_detail (invalid_config_error (path @ '' has an unknown ELF class byte''))
              (''EI_CLASS = '' @ show_nat (unat (h ! 4))))
          else if h ! 5 \<noteq> 1 \<and> h ! 5 \<noteq> 2 then
            Inl (with_detail (invalid_config_error (path @ '' has an unknown EI_DATA byte''))
              (''EI_DATA = '' @ show_nat (unat (h ! 5))))
          else
            let machine = (if h ! 5 = 1 then elf_u16 (h ! 18) (h ! 19) else elf_u16 (h ! 19) (h ! 18))
            in Inr \<lparr>ef_class = (if h ! 4 = 1 then Elf32 else Elf64), ef_machine = machine,
                    ef_machine_name = fst (machine_name machine), ef_is_x86 = snd (machine_name machine)\<rparr>)"

subsection \<open>The target\<close>

record target_arch =
  ta_name :: string
  ta_pointer_bits :: "u32 option"
  ta_raw :: string

definition is_x86_64 :: "target_arch \<Rightarrow> bool" where
  "is_x86_64 t \<longleftrightarrow>
     (let name = map ascii_lower (ta_name t)
      in str_contains ''x86-64'' name \<or> str_contains ''x86_64'' name \<or> name = ''i386:x64-32'')"

definition is_i386 :: "target_arch \<Rightarrow> bool" where
  "is_i386 t \<longleftrightarrow>
     (let name = map ascii_lower (ta_name t)
      in name = ''i386'' \<or> starts_with ''i386:'' name \<and> \<not> str_contains ''x86-64'' name \<or> name = ''i8086'')"

datatype arch_check =
    Consistent string u32
  | Mismatch string string string
  | Unknown string

definition is_consistent :: "arch_check \<Rightarrow> bool" where
  "is_consistent c \<longleftrightarrow> (case c of Consistent _ _ \<Rightarrow> True | _ \<Rightarrow> False)"

definition require_consistent :: "arch_check \<Rightarrow> string \<Rightarrow> princess_error + arch_check" where
  "require_consistent c elf_path =
     (case c of
        Mismatch expected actual reason \<Rightarrow>
          Inl (with_detail
            (invalid_config_error (''architecture mismatch between '' @ elf_path @ '' and the debug stub: '' @ reason))
            (''elf: '' @ expected @ [CHR 0x0A] @ ''target: '' @ actual @ [CHR 0x0A] @
             ''(D10: a mismatched architecture makes gdbstub return truncated '' @
             ''register data and nonsense stack frames; the engine refuses to '' @
             ''debug rather than report either.)''))
      | other \<Rightarrow> Inr other)"

definition arch_summary :: "arch_check \<Rightarrow> string" where
  "arch_summary c =
     (case c of
        Consistent arch bits \<Rightarrow> ''consistent: '' @ arch @ '' ('' @ show_nat (unat bits) @ ''-bit target)''
      | Mismatch expected actual reason \<Rightarrow>
          ''MISMATCH: elf='' @ expected @ '' target='' @ actual @ '' ('' @ reason @ '')''
      | Unknown raw \<Rightarrow> ''unknown: gdb did not report an architecture ('' @ str_trim raw @ '')'')"

definition parse_show_architecture :: "string \<Rightarrow> string option" where
  "parse_show_architecture txt =
     (case split_once_str (''currently '' @ [CHR 0x22]) txt of
        None \<Rightarrow> None
      | Some (_, rest) \<Rightarrow>
          (case split_once CHR 0x22 rest of
             None \<Rightarrow> None
           | Some (inside, _) \<Rightarrow> let name = str_trim inside in if name = [] then None else Some name))"

definition parse_sizeof_pointer :: "string \<Rightarrow> u32 option" where
  "parse_sizeof_pointer txt =
     (case nth_field (split_char CHR ''='' txt) 1 of
        None \<Rightarrow> None
      | Some v \<Rightarrow> map_option (\<lambda>bytes. bytes * 8) (parse_u32 (takeWhile is_digit (str_trim v))))"

subsection \<open>The verdict\<close>

definition known_bits :: "target_arch \<Rightarrow> string" where
  "known_bits t = (case ta_pointer_bits t of None \<Rightarrow> ''unknown'' | Some b \<Rightarrow> show_nat (unat b))"

definition judge_arch :: "elf_facts \<Rightarrow> target_arch \<Rightarrow> arch_check" where
  "judge_arch elf target =
     (let class_str = elf_class_str (ef_class elf); elf_bits = pointer_bits (ef_class elf);
          agrees = (case ef_class elf of Elf64 \<Rightarrow> is_x86_64 target | Elf32 \<Rightarrow> is_i386 target);
          named = (if \<not> agrees then
               Mismatch (class_str @ '' ('' @ ef_machine_name elf @ '')'')
                 (ta_name target @ '' ('' @ known_bits target @ '' pointer bits)'')
                 (''the ELF is '' @ class_str @ '' but the stub negotiated '' @ debug_str (ta_name target))
             else if \<not> ef_is_x86 elf then
               Mismatch (class_str @ '' ('' @ ef_machine_name elf @ '')'') (ta_name target)
                 (''the ELF machine '' @ ef_machine_name elf @ '' is not the x86 target gdb negotiated ('' @
                  ta_name target @ '')'')
             else Consistent (ta_name target) (unwrap_or elf_bits (ta_pointer_bits target)))
      in case ta_pointer_bits target of
           None \<Rightarrow> named
         | Some bits \<Rightarrow>
             if bits = elf_bits then named
             else Mismatch (class_str @ '' ('' @ show_nat (unat elf_bits) @ '' pointer bits)'')
                 (ta_name target @ '' ('' @ show_nat (unat bits) @ '' pointer bits)'')
                 (''the stub reports a '' @ show_nat (unat bits) @ ''-bit pointer but the ELF is '' @ class_str))"

text \<open>The second probe may fail, which leaves the width unknown; a wait that does not end is one.\<close>

definition probe_pointer :: "'s runner \<Rightarrow> ('s, dap_stop, u32 option) op" where
  "probe_pointer run s =
     (case run ''p sizeof(void*)'' s of
        (s', Inl (Failed _)) \<Rightarrow> (s', Inr None)
      | (s', Inl stop) \<Rightarrow> (s', Inl stop)
      | (s', Inr outcome) \<Rightarrow>
          (s', Inr (if looks_ok outcome then parse_sizeof_pointer (ro_text outcome) else None)))"

definition arch_check_run :: "'s runner \<Rightarrow> elf_read \<Rightarrow> string \<Rightarrow> ('s, dap_stop, arch_check) op" where
  "arch_check_run run file elf_path =
     then_do (lift_result (read_elf_facts file elf_path)) (\<lambda>elf.
     then_do (run ''show architecture'') (\<lambda>arch_outcome.
       if \<not> looks_ok arch_outcome then give (Unknown (ro_text arch_outcome))
       else case parse_show_architecture (ro_text arch_outcome) of
         None \<Rightarrow> give (Unknown (ro_text arch_outcome))
       | Some name \<Rightarrow>
           then_do (probe_pointer run) (\<lambda>bits.
             give (judge_arch elf \<lparr>ta_name = name, ta_pointer_bits = bits, ta_raw = ro_text arch_outcome\<rparr>))))"

end
