(* ===== verification/Debug_Qemu.thy ===== *)
theory Debug_Qemu
  imports Dap_Transport Core_Types
begin

section \<open>The machine under the debugger\<close>

text \<open>
  Models \<^verbatim>\<open>crates/princess-debug/src/qemu.rs\<close>: the command line of a machine with a GDB stub, the
  wait until the stub answers, and the end of its process group. Spawning, polling and connecting
  are scripts of what the system answers. What the pipes of the machine give when they are drained
  is \<open>None\<close> while nothing closes them: the read then does not return.
\<close>

record qemu_command =
  qc_argv :: "string list"
  qc_cwd :: string
  qc_symbols :: "string option"
  qc_ready_timeout :: nat

definition shell_plain :: "char \<Rightarrow> bool" where
  "shell_plain c \<longleftrightarrow> is_alnum c \<or> c \<in> set ''._-/:@=+,''"

definition shell_quote :: "string \<Rightarrow> string" where
  "shell_quote txt =
     (if txt \<noteq> [] \<and> list_all shell_plain txt then txt
      else CHR 0x27 # replace_char CHR 0x27 [CHR 0x27, CHR 0x5C, CHR 0x27, CHR 0x27] txt @ [CHR 0x27])"

definition qemu_display :: "qemu_command \<Rightarrow> string" where
  "qemu_display c = join '' '' ((''cd '' @ shell_quote (qc_cwd c)) # map shell_quote (qc_argv c))"

subsection \<open>The stub\<close>

definition parse_u16_digits :: "string \<Rightarrow> u16 option" where
  "parse_u16_digits s = map_option word_of_nat (parse_unsigned 10 (2 ^ 16) s)"

definition parse_gdb_spec :: "string \<Rightarrow> u16 option" where
  "parse_gdb_spec spec =
     (let tail = (case rsplit_once CHR '':'' spec of None \<Rightarrow> spec | Some (_, t) \<Rightarrow> t);
          digits = takeWhile is_digit tail
      in if digits = [] then None else parse_u16_digits digits)"

fun stub_port_from :: "string list \<Rightarrow> u16 option" where
  "stub_port_from [] = None"
| "stub_port_from (arg # rest) =
     (if arg = ''-s'' then Some 1234
      else
        let own = (if arg = ''-gdb'' then (case rest of [] \<Rightarrow> None | v # _ \<Rightarrow> parse_gdb_spec v) else None)
        in case own of
             Some port \<Rightarrow> Some port
           | None \<Rightarrow>
               (case Option.bind (strip_prefix ''-gdb='' arg) parse_gdb_spec of
                  Some port \<Rightarrow> Some port
                | None \<Rightarrow> stub_port_from rest))"

definition stub_port :: "qemu_command \<Rightarrow> u16 option" where
  "stub_port c = stub_port_from (qc_argv c)"

definition debug_boot_argv ::
  "string \<Rightarrow> string option \<Rightarrow> string \<Rightarrow> string \<Rightarrow> string \<Rightarrow> u16 \<Rightarrow> bool \<Rightarrow> string list" where
  "debug_boot_argv qemu data_dir iso_path memory serial_log port frozen_at_start =
     [qemu] @ (case data_dir of None \<Rightarrow> [] | Some dir \<Rightarrow> [''-L'', dir]) @
     [''-m'', memory, ''-cdrom'', iso_path, ''-boot'', ''d'', ''-display'', ''none'', ''-serial'',
      ''file:'' @ serial_log, ''-monitor'', ''none'', ''-no-reboot'', ''-gdb'',
      ''tcp::'' @ show_nat (unat port)] @
     (if frozen_at_start then [''-S''] else [])"

subsection \<open>Starting\<close>

text \<open>
  One iteration of the wait: the exit status of the process if it exited, the error of the connection
  if it failed, and whether the deadline has passed by then.
\<close>

record ready_poll =
  rp_exited :: "string option"
  rp_connect_error :: "string option"
  rp_in_time :: bool

record machine_start =
  ms_spawn_failure :: "(io_error_kind \<times> string) option"
  ms_polls :: "ready_poll list"
  ms_stderr :: "string option"
  ms_stdout :: "string option"

definition pipe_limit :: nat where "pipe_limit = 64 * 1024"

text \<open>What is read of a pipe that closes, or that never does.\<close>

definition drain_output :: "machine_start \<Rightarrow> dap_stop + string" where
  "drain_output m =
     (case ms_stderr m of
        None \<Rightarrow> Inl StillWaiting
      | Some err \<Rightarrow>
          (case ms_stdout m of
             None \<Rightarrow> Inl StillWaiting
           | Some out \<Rightarrow>
               let extra = from_utf8_lossy (take pipe_limit out)
               in Inr (from_utf8_lossy (take pipe_limit err) @ (if str_trim extra = [] then [] else extra))))"

definition startup_failure :: "qemu_command \<Rightarrow> machine_start \<Rightarrow> string \<Rightarrow> dap_stop" where
  "startup_failure c m message =
     (case drain_output m of
        Inl stop \<Rightarrow> stop
      | Inr captured \<Rightarrow>
          Failed (with_detail (new_error QemuFailed ''QEMU did not come up for debugging'')
            (qemu_display c @ [CHR 0x0A] @ message @ [CHR 0x0A] @ captured)))"

fun wait_until_ready :: "qemu_command \<Rightarrow> machine_start \<Rightarrow> u16 \<Rightarrow> ready_poll list \<Rightarrow> dap_stop + unit" where
  "wait_until_ready c m port [] = Inl StillWaiting"
| "wait_until_ready c m port (p # polls) =
     (case rp_exited p of
        Some status \<Rightarrow>
          Inl (startup_failure c m (''QEMU exited before the GDB stub opened ('' @ status @ '')''))
      | None \<Rightarrow>
          (case rp_connect_error p of
             None \<Rightarrow> Inr ()
           | Some err \<Rightarrow>
               if rp_in_time p then wait_until_ready c m port polls
               else Inl (startup_failure c m
                 (''GDB stub on 127.0.0.1:'' @ show_nat (unat port) @ '' never accepted a connection within '' @
                  debug_duration (qc_ready_timeout c) @ '': '' @ err))))"

definition qemu_start :: "qemu_command \<Rightarrow> machine_start \<Rightarrow> dap_stop + unit" where
  "qemu_start c m =
     (if qc_argv c = [] then Inl (Failed (new_error QemuFailed ''QEMU command is empty''))
      else case ms_spawn_failure m of
        Some (kind, err) \<Rightarrow>
          Inl (Failed (with_detail
            (new_error (if kind = IoNotFound then ToolchainMissing else QemuFailed)
              (''could not start '' @ hd (qc_argv c)))
            (qemu_display c @ [CHR 0x0A] @ err)))
      | None \<Rightarrow>
          (case stub_port c of
             None \<Rightarrow> Inr ()
           | Some port \<Rightarrow> wait_until_ready c m port (ms_polls m)))"

subsection \<open>Stopping\<close>

datatype group_kill = GroupTerm | GroupKill

text \<open>The signals to the group, in order, for what the polls of the leader find.\<close>

definition terminate_group :: "child_poll list \<Rightarrow> group_kill list" where
  "terminate_group polls =
     GroupTerm # (if shutdown_polls polls then [GroupKill] else []) @ [GroupKill]"

text \<open>Whether the machine was stopped before, and what stopping it does.\<close>

definition qemu_stop :: "child_poll list \<Rightarrow> bool \<Rightarrow> bool \<times> group_kill list" where
  "qemu_stop polls stopped = (True, if stopped then [] else terminate_group polls)"

end
