(* ===== verification/Base64.thy ===== *)
theory Base64
  imports Rust_Str
begin

section \<open>Base64\<close>

text \<open>
  Models \<open>base64_decode\<close> and \<open>base64_encode\<close> of \<^verbatim>\<open>crates/princess-debug/src/backend.rs\<close>, the coding of
  the memory DAP transfers.
\<close>

definition byte_word :: "char \<Rightarrow> u8" where
  "byte_word c = word_of_nat (byte_of c)"

definition b64_value :: "char \<Rightarrow> nat option" where
  "b64_value c =
     (let b = byte_of c
      in if 65 \<le> b \<and> b \<le> 90 then Some (b - 65)
         else if 97 \<le> b \<and> b \<le> 122 then Some (b - 97 + 26)
         else if 48 \<le> b \<and> b \<le> 57 then Some (b - 48 + 52)
         else if b = 43 then Some 62
         else if b = 47 then Some 63
         else None)"

fun chunks_of :: "nat \<Rightarrow> 'a list \<Rightarrow> 'a list list" where
  "chunks_of 0 xs = []"
| "chunks_of (Suc n) [] = []"
| "chunks_of (Suc n) (x # xs) = (x # take n xs) # chunks_of (Suc n) (drop n xs)"

text \<open>The accumulator after the bytes of a chunk, each shifting in six bits.\<close>

fun b64_accumulate :: "string \<Rightarrow> u32 \<Rightarrow> u32 option" where
  "b64_accumulate [] acc = Some acc"
| "b64_accumulate (c # cs) acc =
     (if c = CHR ''='' then b64_accumulate cs (push_bit 6 acc)
      else case b64_value c of
        None \<Rightarrow> None
      | Some v \<Rightarrow> b64_accumulate cs (or (push_bit 6 acc) (word_of_nat v)))"

definition b64_decode_chunk :: "string \<Rightarrow> u8 list option" where
  "b64_decode_chunk ch =
     (let padding = length (filter (\<lambda>c. c = CHR ''='') ch)
      in if length ch < 2 \<or> 2 < padding then None
         else map_option (\<lambda>acc.
           let triple = push_bit (6 * (4 - length ch)) acc
           in [ucast (drop_bit 16 triple)] @
              (if 2 < length ch \<and> padding < 2 then [ucast (drop_bit 8 triple)] else []) @
              (if 3 < length ch \<and> padding < 1 then [ucast triple] else []))
             (b64_accumulate ch 0))"

fun b64_decode_chunks :: "string list \<Rightarrow> u8 list option" where
  "b64_decode_chunks [] = Some []"
| "b64_decode_chunks (ch # rest) =
     (case b64_decode_chunk ch of
        None \<Rightarrow> None
      | Some bytes \<Rightarrow> map_option ((@) bytes) (b64_decode_chunks rest))"

definition base64_decode :: "string \<Rightarrow> u8 list option" where
  "base64_decode input = b64_decode_chunks (chunks_of 4 (filter (\<lambda>c. \<not> u8_space c) input))"

definition b64_alphabet :: string where
  "b64_alphabet = ''ABCDEFGHIJKLMNOPQRSTUVWXYZabcdefghijklmnopqrstuvwxyz0123456789+/''"

definition b64_digit :: "u32 \<Rightarrow> nat \<Rightarrow> char" where
  "b64_digit triple shift = b64_alphabet ! unat (and (drop_bit shift triple) 0x3F)"

definition b64_encode_chunk :: "u8 list \<Rightarrow> string" where
  "b64_encode_chunk ch =
     (let byte = (\<lambda>i. if i < length ch then ch ! i else 0);
          triple = or (or (push_bit 16 (ucast (byte 0) :: u32)) (push_bit 8 (ucast (byte 1)))) (ucast (byte 2))
      in [b64_digit triple 18, b64_digit triple 12,
          if 1 < length ch then b64_digit triple 6 else CHR ''='',
          if 2 < length ch then b64_digit triple 0 else CHR ''=''])"

definition base64_encode :: "u8 list \<Rightarrow> string" where
  "base64_encode bytes = concat (map b64_encode_chunk (chunks_of 3 bytes))"

subsection \<open>Facts: decoding what was encoded\<close>

lemma b64_alphabet_values: "map b64_value b64_alphabet = map Some [0..<64]"
  by (simp add: b64_alphabet_def b64_value_def byte_of_def upt_rec)

lemma b64_alphabet_clean: "list_all (\<lambda>c. c \<noteq> CHR ''='' \<and> \<not> u8_space c) b64_alphabet"
  by (simp add: b64_alphabet_def u8_space_def byte_of_def)

lemma length_b64_alphabet: "length b64_alphabet = 64"
  by (simp add: b64_alphabet_def)

lemma b64_digits: "n < 64 \<Longrightarrow> b64_value (b64_alphabet ! n) = Some n \<and> b64_alphabet ! n \<noteq> CHR ''='' \<and> \<not> u8_space (b64_alphabet ! n)"
  using arg_cong [OF b64_alphabet_values, of "\<lambda>xs. xs ! n"] b64_alphabet_clean
  by (simp add: length_b64_alphabet list_all_length)

definition six :: "u32 \<Rightarrow> nat \<Rightarrow> u32" where
  "six triple shift = and (drop_bit shift triple) 0x3F"

lemma six_less: "unat (six triple shift) < 64"
proof -
  have "six triple shift = and (drop_bit shift triple) (mask 6)"
    by (simp add: six_def mask_eq_exp_minus_1)
  then show ?thesis by (simp add: unat_and_mask)
qed

lemma b64_digit_value:
  "b64_value (b64_digit triple shift) = Some (unat (six triple shift))"
  "b64_digit triple shift \<noteq> CHR ''=''" "\<not> u8_space (b64_digit triple shift)"
  using b64_digits [OF six_less [of triple shift]] by (simp_all add: b64_digit_def six_def)

lemma accumulate_digit:
  "b64_accumulate (b64_digit triple shift # cs) acc =
     b64_accumulate cs (or (push_bit 6 acc) (six triple shift))"
  by (simp add: b64_digit_value word_of_unat)

lemma accumulate_pad: "b64_accumulate (CHR ''='' # cs) acc = b64_accumulate cs (push_bit 6 acc)"
  by simp

definition three :: "u8 \<Rightarrow> u8 \<Rightarrow> u8 \<Rightarrow> u32" where
  "three a b c = or (or (push_bit 16 (ucast a)) (push_bit 8 (ucast b))) (ucast c)"

lemma bit_three:
  "bit (three a b c) n \<longleftrightarrow>
     (n < 8 \<and> bit c n) \<or> (8 \<le> n \<and> n < 16 \<and> bit b (n - 8)) \<or> (16 \<le> n \<and> n < 24 \<and> bit a (n - 16))"
  by (auto simp: three_def bit_simps dest: bit_imp_le_length)

lemma bit_six: "bit (six t s) n \<longleftrightarrow> n < 6 \<and> bit t (s + n)"
proof -
  have "six t s = and (drop_bit s t) (mask 6)" by (simp add: six_def mask_eq_exp_minus_1)
  then show ?thesis by (auto simp: bit_simps dest: bit_imp_le_length)
qed

lemma three_bytes:
  "ucast (drop_bit 16 (three a b c)) = a" "ucast (drop_bit 8 (three a b c)) = b" "ucast (three a b c) = c"
  by (rule bit_word_eqI; auto simp: bit_simps bit_three dest: bit_imp_le_length)+

definition four :: "u32 \<Rightarrow> u32" where
  "four t = or (push_bit 6 (or (push_bit 6 (or (push_bit 6 (or (push_bit 6 0) (six t 18))) (six t 12))) (six t 6))) (six t 0)"

lemma bit_four: "bit (four t) n \<longleftrightarrow> n < 24 \<and> bit t n"
proof (cases "n < 24")
  case True
  then consider "n < 6" | "6 \<le> n" "n < 12" | "12 \<le> n" "n < 18" | "18 \<le> n" "n < 24" by linarith
  then show ?thesis
    by cases (auto simp: four_def bit_simps bit_six)
next
  case False
  then show ?thesis by (auto simp: four_def bit_simps bit_six)
qed

lemma four_three: "four (three a b c) = three a b c"
  by (rule bit_word_eqI) (auto simp: bit_four bit_three)

lemma six_zero:
  "six (three a 0 0) 6 = 0" "six (three a 0 0) 0 = 0" "six (three a b 0) 0 = 0"
  by (rule bit_word_eqI; auto simp: bit_six bit_three)+

lemma decode_encode_chunk:
  assumes "ch \<noteq> []" "length ch \<le> 3"
  shows "b64_decode_chunk (b64_encode_chunk ch) = Some ch"
proof -
  have "length ch = 1 \<or> length ch = 2 \<or> length ch = 3"
    using assms by (cases ch; cases "tl ch") (auto simp: le_Suc_eq numeral_eq_Suc)
  then consider a where "ch = [a]" | a b where "ch = [a, b]" | a b c where "ch = [a, b, c]"
    by (auto simp: length_Suc_conv numeral_2_eq_2 numeral_3_eq_3)
  then show ?thesis
  proof cases
    case 1
    have e: "b64_encode_chunk [a] = [b64_digit (three a 0 0) 18, b64_digit (three a 0 0) 12, CHR ''='', CHR ''='']"
      by (simp add: b64_encode_chunk_def three_def Let_def)
    have "b64_accumulate (b64_encode_chunk [a]) 0 = Some (four (three a 0 0))"
      unfolding e by (simp only: accumulate_digit accumulate_pad b64_accumulate.simps(1)) (simp add: four_def six_zero)
    then show ?thesis
      unfolding 1 by (simp add: b64_decode_chunk_def e b64_digit_value four_three three_bytes Let_def)
  next
    case 2
    have e: "b64_encode_chunk [a, b] =
        [b64_digit (three a b 0) 18, b64_digit (three a b 0) 12, b64_digit (three a b 0) 6, CHR ''='']"
      by (simp add: b64_encode_chunk_def three_def Let_def)
    have "b64_accumulate (b64_encode_chunk [a, b]) 0 = Some (four (three a b 0))"
      unfolding e by (simp only: accumulate_digit accumulate_pad b64_accumulate.simps(1)) (simp add: four_def six_zero)
    then show ?thesis
      unfolding 2 by (simp add: b64_decode_chunk_def e b64_digit_value four_three three_bytes Let_def)
  next
    case 3
    have e: "b64_encode_chunk [a, b, c] =
        [b64_digit (three a b c) 18, b64_digit (three a b c) 12, b64_digit (three a b c) 6, b64_digit (three a b c) 0]"
      by (simp add: b64_encode_chunk_def three_def Let_def)
    have "b64_accumulate (b64_encode_chunk [a, b, c]) 0 = Some (four (three a b c))"
      unfolding e by (simp only: accumulate_digit b64_accumulate.simps(1)) (simp add: four_def)
    then show ?thesis
      unfolding 3 by (simp add: b64_decode_chunk_def e b64_digit_value four_three three_bytes Let_def)
  qed
qed

lemma length_b64_encode_chunk: "length (b64_encode_chunk ch) = 4"
  by (simp add: b64_encode_chunk_def Let_def)

lemma chunks_of_encoded:
  "list_all (\<lambda>ch. length ch = 4) chs \<Longrightarrow> chunks_of 4 (concat chs) = chs"
proof (induction chs)
  case (Cons ch chs)
  then obtain a b c d where "ch = [a, b, c, d]"
    by (auto simp: length_Suc_conv numeral_eq_Suc)
  with Cons show ?case by (simp add: eval_nat_numeral)
qed (simp add: eval_nat_numeral)

lemma chunks_of_pieces: "ch \<in> set (chunks_of (Suc n) xs) \<Longrightarrow> ch \<noteq> [] \<and> length ch \<le> Suc n"
  by (induction "Suc n" xs rule: chunks_of.induct) auto

lemma concat_chunks_of: "concat (chunks_of (Suc n) xs) = xs"
  by (induction "Suc n" xs rule: chunks_of.induct) auto

lemma decode_encoded_chunks:
  "\<forall>ch \<in> set chs. ch \<noteq> [] \<and> length ch \<le> 3 \<Longrightarrow> b64_decode_chunks (map b64_encode_chunk chs) = Some (concat chs)"
  by (induction chs) (auto simp: decode_encode_chunk)

lemma encode_chunk_no_space: "c \<in> set (b64_encode_chunk ch) \<Longrightarrow> \<not> u8_space c"
proof -
  assume "c \<in> set (b64_encode_chunk ch)"
  then consider "c = CHR ''=''" | t s where "c = b64_digit t s"
    by (auto simp: b64_encode_chunk_def Let_def split: if_splits)
  then show ?thesis
  proof cases
    case 1
    then show ?thesis by (simp add: u8_space_def byte_of_def)
  qed (simp add: b64_digit_value)
qed

lemma length_base64_encode: "length (base64_encode bytes) = 4 * length (chunks_of 3 bytes)"
  by (simp add: base64_encode_def length_concat length_b64_encode_chunk comp_def sum_list_triv)

lemma length_chunks_of: "length (chunks_of (Suc n) xs) = (length xs + n) div Suc n"
proof (induction "Suc n" xs rule: chunks_of.induct)
  case (3 x xs)
  show ?case
  proof (cases "n \<le> length xs")
    case True
    have "(length (x # xs) + n) div Suc n = Suc (length xs div Suc n)"
      using div_add_self2 [of "Suc n" "length xs"] by simp
    with 3 True show ?thesis by simp
  next
    case False
    then have "(length (x # xs) + n) div Suc n = 1"
      by (intro div_nat_eqI) auto
    with 3 False show ?thesis by simp
  qed
qed simp_all

text \<open>
  Memory survives the DAP transfer: whatever white space the adapter puts into the text, decoding
  what was encoded gives exactly the bytes, and the text has four characters per three bytes begun.
  The decoder also accepts padding where the standard has none, inside a group.
\<close>

lemma base64_roundtrip:
  assumes "filter (\<lambda>c. \<not> u8_space c) txt = base64_encode bytes"
  shows "base64_decode txt = Some bytes \<and> length (base64_encode bytes) = 4 * ((length bytes + 2) div 3) \<and>
    base64_decode ''A=BC'' = Some [0, 0]"
proof -
  let ?chs = "map b64_encode_chunk (chunks_of 3 bytes)"
  have "chunks_of 4 (concat ?chs) = ?chs"
    by (rule chunks_of_encoded) (simp add: list_all_iff length_b64_encode_chunk)
  then have "base64_decode txt = Some bytes"
    using decode_encoded_chunks [of "chunks_of 3 bytes"] chunks_of_pieces [of _ 2 bytes] concat_chunks_of [of 2 bytes]
    by (simp add: base64_decode_def assms base64_encode_def numeral_3_eq_3)
  moreover have "base64_decode ''A=BC'' = Some [0, 0]"
  proof -
    have "chunks_of 4 ''A=BC'' = [''A=BC'']" by (simp add: numeral_eq_Suc)
    moreover have "b64_accumulate ''A=BC'' 0 = Some 66" by (simp add: b64_value_def byte_of_def)
    ultimately show ?thesis by (simp add: base64_decode_def u8_space_def byte_of_def b64_decode_chunk_def)
  qed
  ultimately show ?thesis
    using length_chunks_of [of 2 bytes] by (simp add: length_base64_encode)
qed

theorem base64_roundtrip_witness: "base64_decode ''A A QB'' = Some [0, 4, 1]"
proof -
  have c: "chunks_of 3 [0, 4, 1 :: u8] = [[0, 4, 1]]" unfolding numeral_3_eq_3 by simp
  have "base64_encode [0, 4, 1] = ''AAQB''"
  proof -
    have t: "b64_encode_chunk [0, 4, 1] = [b64_digit 1025 18, b64_digit 1025 12, b64_digit 1025 6, b64_digit 1025 0]"
      by (simp add: b64_encode_chunk_def Let_def)
    have "b64_digit 1025 18 = CHR ''A''" "b64_digit 1025 12 = CHR ''A''" "b64_digit 1025 6 = CHR ''Q''" "b64_digit 1025 0 = CHR ''B''"
      by (simp_all add: b64_digit_def b64_alphabet_def)
    then show ?thesis by (simp add: base64_encode_def c t)
  qed
  then have "filter (\<lambda>c. \<not> u8_space c) ''A A QB'' = base64_encode [0, 4, 1]"
    by (simp add: u8_space_def byte_of_def)
  from base64_roundtrip [OF this] show ?thesis by simp
qed

end
