(* ===== verification/Debug_Session.thy ===== *)
theory Debug_Session
  imports Arch_Check Debug_Qemu Base64 Event_Sink
begin

section \<open>The debug session\<close>

text \<open>
  Models \<^verbatim>\<open>crates/princess-debug/src/backend.rs\<close>: the state of a session, the handshake, and every
  operation of the \<open>DebugBackend\<close> trait with the requests it sends and the answers it reads. An
  operation works on the session and an event sink. The environment holds what is outside: the
  JSON library, the start of the machine and of the adapter, what its channel gives, and the ELF file.
\<close>

subsection \<open>State\<close>

datatype session_state = Idle | Ready | Attaching | Poisoned | Detached

datatype hardware_support = HwUnknown | HwHardware | HwUnsupported

datatype target_mode = LaunchTarget qemu_command | AttachTarget

record session_config =
  dc_adapter :: string
  dc_symbols :: string
  dc_target :: target_mode
  dc_request_timeout :: nat
  dc_ready_timeout :: nat
  dc_serial_log :: "string option"

definition launching :: "string \<Rightarrow> string \<Rightarrow> string list \<Rightarrow> string \<Rightarrow> session_config" where
  "launching adapter symbols argv cwd =
     \<lparr>dc_adapter = adapter, dc_symbols = symbols,
      dc_target = LaunchTarget \<lparr>qc_argv = argv, qc_cwd = cwd, qc_symbols = None, qc_ready_timeout = 30 * 1000\<rparr>,
      dc_request_timeout = DEFAULT_REQUEST_TIMEOUT, dc_ready_timeout = 30 * 1000, dc_serial_log = None\<rparr>"

record 'v session =
  db_config :: session_config
  db_machine :: bool
  db_transport :: "'v transport option"
  db_state :: session_state
  db_thread_id :: int
  db_hardware :: hardware_support
  db_arch_check :: "arch_check option"
  db_hw_breakpoints :: "breakpoint_record list"
  db_frames :: "stack_frame list"
  db_supports :: "'v option"

definition session_new :: "session_config \<Rightarrow> 'v session" where
  "session_new config =
     \<lparr>db_config = config, db_machine = False, db_transport = None, db_state = Idle, db_thread_id = 1,
      db_hardware = HwUnknown, db_arch_check = None, db_hw_breakpoints = [], db_frames = [], db_supports = None\<rparr>"

record 'v session_env =
  en_json :: "'v json"
  en_to_string :: "json_literal \<Rightarrow> string + string"
  en_machine :: machine_start
  en_pid :: nat
  en_spawn :: "(io_error_kind \<times> string) option"
  en_ticks :: "'v tick list"
  en_writes :: "int \<Rightarrow> string option"
  en_elf :: elf_read

type_synonym ('v, 's, 'a) session_op = "('v session \<times> 's, dap_stop, 'a) op"

definition emitting :: "('s, princess_error, unit) op \<Rightarrow> ('v, 's, unit) session_op" where
  "emitting m = (\<lambda>(d, k). case m k of (k', r) \<Rightarrow> ((d, k'), map_err Failed r))"

definition note_ide :: "'s emitter \<Rightarrow> string \<Rightarrow> ('v, 's, unit) session_op" where
  "note_ide emit txt = emitting (sink_log emit StreamIde txt)"

definition change :: "('v session \<Rightarrow> 'v session) \<Rightarrow> ('v, 's, unit) session_op" where
  "change f = (\<lambda>(d, k). ((f d, k), Inr ()))"

definition poison :: "'v session \<Rightarrow> 'v session" where
  "poison d = d\<lparr>db_state := Poisoned\<rparr>"

definition poisoned_error :: "string \<Rightarrow> princess_error" where
  "poisoned_error what =
     with_detail (new_error QemuFailed (''cannot '' @ what @ '': the debug session is no longer usable''))
       (''gdb's DAP session answers with plausible-looking but wrong data after a '' @
        ''protocol-level failure (research C '' @ [CHR 0xC2, CHR 0xA7] @ ''3.2), so the engine refuses to keep '' @
        ''using it. Re-attach to continue.'')"

text \<open>What runs on the transport of a session.\<close>

definition on_live :: "'v transport \<Rightarrow> ('v, 'a) dap_op \<Rightarrow> ('v, 's, 'a) session_op" where
  "on_live t m = (\<lambda>(d, k). case m t of (t', r) \<Rightarrow> ((d\<lparr>db_transport := Some t'\<rparr>, k), r))"

text \<open>\<open>transport_mut\<close>: an open connection is enough.\<close>

definition with_transport :: "('v, 'a) dap_op \<Rightarrow> ('v, 's, 'a) session_op" where
  "with_transport m = (\<lambda>(d, k).
     case db_transport d of
       Some t \<Rightarrow>
         if is_closed t then refuse (poisoned_error ''there is no live debug adapter connection'') (d, k)
         else on_live t m (d, k)
     | None \<Rightarrow> refuse (poisoned_error ''there is no live debug adapter connection'') (d, k))"

text \<open>\<open>require_ready\<close>, then the operation.\<close>

definition with_ready :: "string \<Rightarrow> ('v, 'a) dap_op \<Rightarrow> ('v, 's, 'a) session_op" where
  "with_ready what m = (\<lambda>(d, k).
     case db_state d of
       Poisoned \<Rightarrow> refuse (poisoned_error what) (d, k)
     | Idle \<Rightarrow> refuse (internal_error (''cannot '' @ what @ '': the debug session is not attached yet'')) (d, k)
     | Attaching \<Rightarrow> refuse (internal_error (''cannot '' @ what @ '': the debug session is not attached yet'')) (d, k)
     | Detached \<Rightarrow> refuse (internal_error (''cannot '' @ what @ '': the debug session has been detached'')) (d, k)
     | Ready \<Rightarrow>
         (case db_transport d of
            None \<Rightarrow> refuse (poisoned_error what) (d, k)
          | Some t \<Rightarrow>
              if is_closed t then refuse (poisoned_error what) (poison d, k)
              else on_live (set_default_timeout (dc_request_timeout (db_config d)) t) m (d, k)))"

text \<open>\<open>ok\<close> and \<open>unwrap_or_default\<close>: an error becomes a value, a wait that does not end does not.\<close>

definition or_default :: "'a \<Rightarrow> ('s, dap_stop, 'a) op \<Rightarrow> ('s, dap_stop, 'a) op" where
  "or_default x m s = (case m s of (s', Inl (Failed _)) \<Rightarrow> (s', Inr x) | r \<Rightarrow> r)"

definition poisoning :: "('v, 's, 'a) session_op \<Rightarrow> ('v, 's, 'a) session_op" where
  "poisoning m s = (case m s of ((d, k), Inl (Failed e)) \<Rightarrow> ((poison d, k), Inl (Failed e)) | r \<Rightarrow> r)"

text \<open>The error of an operation as its value.\<close>

definition settle :: "('v, 'a) dap_op \<Rightarrow> ('v, princess_error + 'a) dap_op" where
  "settle m t = (case m t of (t', Inl (Failed e)) \<Rightarrow> (t', Inr (Inl e)) | (t', Inl stop) \<Rightarrow> (t', Inl stop)
     | (t', Inr x) \<Rightarrow> (t', Inr (Inr x)))"

definition gdb :: "'v session_env \<Rightarrow> 'v transport runner" where
  "gdb env = dap_repl (en_json env) (en_to_string env)"

subsection \<open>The capability layer of a session\<close>

definition session_read_physical :: "'v session_env \<Rightarrow> u64 \<Rightarrow> u64 \<Rightarrow> ('v, 's, u8 list) session_op" where
  "session_read_physical env address count =
     with_ready ''read physical memory'' (read_physical_memory (gdb env) address count)"

definition is_unsupported :: "princess_error \<Rightarrow> bool" where
  "is_unsupported e \<longleftrightarrow>
     (case pe_detail e of
        None \<Rightarrow> False
      | Some txt \<Rightarrow> str_contains ''not supported'' txt \<or> str_contains ''Undefined command'' txt)"

definition hw_changed :: "breakpoint_record \<Rightarrow> breakpoint_changed" where
  "hw_changed b =
     \<lparr>bc_id = ''hw:'' @ show_nat (unat (br_number b)), bc_verified = (\<not> is_pending b),
      bc_location = Some \<lparr>sl_file = br_what b, sl_line = 0, sl_column = None\<rparr>\<rparr>"

definition session_hardware_breakpoint ::
  "'v session_env \<Rightarrow> 's emitter \<Rightarrow> string \<Rightarrow> ('v, 's, breakpoint_record) session_op" where
  "session_hardware_breakpoint env emit spec =
     then_do (with_transport (settle (set_hardware_breakpoint (gdb env) spec))) (\<lambda>answer.
       case answer of
         Inl e \<Rightarrow>
           then_do (change (\<lambda>d. if is_unsupported e then d\<lparr>db_hardware := HwUnsupported\<rparr> else d)) (\<lambda>_. refuse e)
       | Inr b \<Rightarrow>
           then_do (change (\<lambda>d. d\<lparr>db_hardware := HwHardware,
                                   db_hw_breakpoints := db_hw_breakpoints d @ [b]\<rparr>)) (\<lambda>_.
           then_do (emitting (emit (DebugBreakpointChanged (hw_changed b)))) (\<lambda>_. give b)))"

definition prepare_target :: "'v session_env \<Rightarrow> ('v, 's, unit) session_op" where
  "prepare_target env s =
     (let symbols = dc_symbols (db_config (fst s))
      in then_do (with_transport
           (then_do (prepare_session (gdb env)) (\<lambda>_.
            then_do (load_symbols (gdb env) symbols) (\<lambda>_.
            then_do (arch_check_run (gdb env) (en_elf env) symbols) (\<lambda>verdict.
              lift_result (require_consistent verdict symbols))))))
         (\<lambda>verdict. change (\<lambda>d. d\<lparr>db_arch_check := Some verdict\<rparr>)) s)"

subsection \<open>Stops\<close>

definition parse_frame :: "'v json \<Rightarrow> 'v \<Rightarrow> stack_frame" where
  "parse_frame j item =
     \<lparr>sf_id = unwrap_or 0 (get_u64 j item ''id''), sf_name = unwrap_or [] (get_str j item ''name''),
      sf_source = Option.bind (js_get j item ''source'') (\<lambda>source.
        map_option (\<lambda>path.
          \<lparr>sl_file = path, sl_line = as_u32 (unwrap_or 0 (get_u64 j item ''line'')),
           sl_column = (case get_u64 j item ''column'' of
             None \<Rightarrow> None | Some c \<Rightarrow> if c > 0 then Some (as_u32 c) else None)\<rparr>)
          (get_str j source ''path'')),
      sf_instruction_pointer = unwrap_or [] (get_str j item ''instructionPointerReference'')\<rparr>"

definition parse_stack_frames :: "'v json \<Rightarrow> 'v \<Rightarrow> stack_frame list" where
  "parse_stack_frames j response =
     (case body_array j response ''stackFrames'' of None \<Rightarrow> [] | Some items \<Rightarrow> map (parse_frame j) items)"

text \<open>Only a failure of the protocol poisons the session here.\<close>

definition protocol_failure :: "princess_error \<Rightarrow> bool" where
  "protocol_failure e \<longleftrightarrow> pe_code e = Timeout \<or> pe_code e = QemuFailed"

definition stack_trace_answer ::
  "'v session_env \<Rightarrow> 'v session \<times> 's \<Rightarrow> (princess_error + 'v) \<Rightarrow> ('v session \<times> 's) \<times> (dap_stop + stack_frame list)" where
  "stack_trace_answer env s answer =
     (case answer of
        Inl e \<Rightarrow> ((if protocol_failure e then poison (fst s) else fst s, snd s), Inl (Failed e))
      | Inr response \<Rightarrow>
          (case ensure_success (en_json env) ''stackTrace'' response of
             Inl e \<Rightarrow> (s, Inl (Failed e))
           | Inr body \<Rightarrow>
               let frames = parse_stack_frames (en_json env) body
               in (((fst s)\<lparr>db_frames := frames\<rparr>, snd s), Inr frames)))"

definition request_stack_trace ::
  "'v session_env \<Rightarrow> int \<Rightarrow> u64 \<Rightarrow> u64 \<Rightarrow> ('v, 's, stack_frame list) session_op" where
  "request_stack_trace env thread_id start_frame levels s =
     then_do (with_ready ''read the stack trace''
         (settle (request_within (en_to_string env) ''stackTrace''
           (Some (JObj [(''threadId'', JInt thread_id), (''startFrame'', JInt (uint start_frame)),
             (''levels'', JInt (if levels = 0 then 20 else uint levels))]))
           (dc_request_timeout (db_config (fst s))))))
       (\<lambda>answer s. stack_trace_answer env s answer) s"

text \<open>No state is required here, and no open connection: a request to a closed one fails.\<close>

definition try_read_registers :: "'v session_env \<Rightarrow> ('v, 's, register_file option) session_op" where
  "try_read_registers env = (\<lambda>(d, k).
     case db_transport d of
       None \<Rightarrow> ((d, k), Inr None)
     | Some t \<Rightarrow> or_default None
         (then_do (on_live t (read_registers (gdb env) SelectAll)) (\<lambda>(regs, _). give (Some regs))) (d, k))"

definition empty_frame :: stack_frame where
  "empty_frame = \<lparr>sf_id = 0, sf_name = [], sf_source = None, sf_instruction_pointer = []\<rparr>"

definition stopped_payload :: "'v session_env \<Rightarrow> 'v \<Rightarrow> stop_reason \<Rightarrow> ('v, 's, debug_stopped) session_op" where
  "stopped_payload env event reason s =
     (let j = en_json env;
          thread_id = unwrap_or (db_thread_id (fst s)) (Option.bind (in_body j event ''threadId'') (js_i64 j))
      in then_do (change (\<lambda>d. d\<lparr>db_thread_id := thread_id\<rparr>)) (\<lambda>_.
         then_do (or_default [] (request_stack_trace env thread_id 0 1)) (\<lambda>frames.
         then_do (try_read_registers env) (\<lambda>regs.
           give \<lparr>ds_reason = reason, ds_thread_id = thread_id,
                 ds_frame = (if frames = [] then empty_frame else hd frames),
                 ds_regs = unwrap_or Map.empty regs\<rparr>))) s)"

definition stop_reason_of :: "'v json \<Rightarrow> 'v option \<Rightarrow> stop_reason" where
  "stop_reason_of j body =
     (let reason = Option.bind body (\<lambda>b. get_str j b ''reason'')
      in if reason = Some ''breakpoint'' then StopBreakpoint
         else if reason = Some ''step'' then StopStep
         else if reason = Some ''signal'' \<or> reason = Some ''exception'' then StopSignal
         else if reason = Some ''entry'' \<or> reason = Some ''attach'' then StopEntry
         else StopSignal)"

fun debug_reason :: "stop_reason \<Rightarrow> string" where
  "debug_reason StopBreakpoint = ''Breakpoint''"
| "debug_reason StopStep = ''Step''"
| "debug_reason StopSignal = ''Signal''"
| "debug_reason StopEntry = ''Entry''"

definition console :: "'s emitter \<Rightarrow> string \<Rightarrow> ('v, 's, unit) session_op" where
  "console emit txt = emitting (emit (DebugOutput \<lparr>do_category = OutConsole, do_text = txt\<rparr>))"

definition await_stop :: "'v session_env \<Rightarrow> 's emitter \<Rightarrow> string \<Rightarrow> ('v, 's, debug_stopped) session_op" where
  "await_stop env emit what =
     then_do (with_transport (wait_event (en_json env) ''stopped'')) (\<lambda>got.
       case got of
         None \<Rightarrow> refuse (with_detail (new_error Timeout (what @ '': the target never reported a stopped event''))
           (''the engine waited for a `stopped` DAP event; without it there is no '' @
            ''honest answer to give about where the CPU is.''))
       | Some event \<Rightarrow>
           let reason = stop_reason_of (en_json env) (js_get (en_json env) event ''body'')
           in then_do (console emit (''stopped: '' @ debug_reason reason @ [CHR 0x0A]))
                (\<lambda>_. stopped_payload env event reason))"

subsection \<open>Attaching and detaching\<close>

text \<open>The serial log of the configuration takes the place of every \<open>file:\<close> argument.\<close>

definition debug_command :: "session_config \<Rightarrow> qemu_command \<Rightarrow> qemu_command" where
  "debug_command config command =
     command\<lparr>qc_ready_timeout := dc_ready_timeout config,
       qc_argv := (case dc_serial_log config of
         None \<Rightarrow> qc_argv command
       | Some log \<Rightarrow> map (\<lambda>arg. if starts_with ''file:'' arg then ''file:'' @ log else arg) (qc_argv command))\<rparr>"

definition start_machine :: "'v session_env \<Rightarrow> 's emitter \<Rightarrow> ('v, 's, unit) session_op" where
  "start_machine env emit s =
     (case dc_target (db_config (fst s)) of
        AttachTarget \<Rightarrow> give () s
      | LaunchTarget c \<Rightarrow>
          let command = debug_command (db_config (fst s)) c
          in then_do (note_ide emit (''qemu (engine-owned, timeout-wrapped): '' @ qemu_display command @ [CHR 0x0A])) (\<lambda>_.
             then_do (\<lambda>s. (s, qemu_start command (en_machine env))) (\<lambda>_.
             then_do (note_ide emit (''qemu pid '' @ show_nat (en_pid env) @ '' is up; GDB stub listening'' @ [CHR 0x0A])) (\<lambda>_.
               change (\<lambda>d. d\<lparr>db_machine := True\<rparr>)))) s)"

definition open_adapter :: "'v session_env \<Rightarrow> 's emitter \<Rightarrow> ('v, 's, 'v transport) session_op" where
  "open_adapter env emit s =
     (let adapter = dc_adapter (db_config (fst s))
      in then_do (lift_result (transport_spawn [adapter, ''-q'', ''-i=dap''] (en_spawn env) (en_ticks env) (en_writes env)))
         (\<lambda>t. then_do (note_ide emit (''debug adapter: '' @ adapter @ '' -q -i=dap'' @ [CHR 0x0A])) (\<lambda>_. give t)) s)"

text \<open>An operation on a transport the session does not own yet.\<close>

definition on_local :: "'v transport \<Rightarrow> ('v, 'a) dap_op \<Rightarrow> ('v, 's, 'a \<times> 'v transport) session_op" where
  "on_local t m s = (case m t of (t', Inl stop) \<Rightarrow> (s, Inl stop) | (t', Inr x) \<Rightarrow> (s, Inr (x, t')))"

definition initialize_arguments :: json_literal where
  "initialize_arguments =
     JObj [(''clientID'', JStr ''princesside''), (''clientName'', JStr ''PrincessIDE''), (''adapterID'', JStr ''gdb''),
           (''locale'', JStr ''en_US''), (''linesStartAt1'', JBool True), (''columnsStartAt1'', JBool True),
           (''pathFormat'', JStr ''path''), (''supportsRunInTerminalRequest'', JBool False),
           (''supportsVariableType'', JBool True), (''supportsMemoryReferences'', JBool True),
           (''supportsProgressReporting'', JBool False)]"

definition initialize :: "'v session_env \<Rightarrow> nat \<Rightarrow> ('v, 'v) dap_op" where
  "initialize env ms =
     then_do (request_within (en_to_string env) ''initialize'' (Some initialize_arguments) ms)
       (\<lambda>response. lift_result (ensure_success (en_json env) ''initialize'' response))"

definition stopped_thread :: "'v json \<Rightarrow> 'v list \<Rightarrow> int option" where
  "stopped_thread j events = find_map (\<lambda>e. Option.bind (in_body j e ''threadId'') (js_i64 j)) events"

text \<open>From the initialized adapter to the first stop; the reply to \<open>attach\<close> comes last.\<close>

definition handshake :: "'v session_env \<Rightarrow> nat \<Rightarrow> string \<Rightarrow> 'v transport \<Rightarrow> ('v, 's, 'v transport) session_op" where
  "handshake env ms target t0 =
     then_do (on_local t0 (dap_send (en_to_string env) ''attach'' (Some (JObj [(''target'', JStr target)])))) (\<lambda>(attach_seq, t1).
     then_do (on_local t1 (dap_send (en_to_string env) ''configurationDone'' None)) (\<lambda>(config_seq, t2).
     then_do (poisoning (on_local t2 (wait_response config_seq ms))) (\<lambda>(_, t3).
     then_do (poisoning (on_local t3 (wait_response attach_seq ms))) (\<lambda>(attach_response, t4).
     then_do (poisoning (lift_result (ensure_success (en_json env) ''attach'' attach_response))) (\<lambda>_.
     then_do (on_local t4 (wait_event (en_json env) ''stopped'')) (\<lambda>(_, t5).
       case take_events t5 of (t6, events) \<Rightarrow>
         then_do (case stopped_thread (en_json env) events of
             None \<Rightarrow> give () | Some i \<Rightarrow> change (\<lambda>d. d\<lparr>db_thread_id := i\<rparr>))
           (\<lambda>_. give t6)))))))"

definition attach :: "'v session_env \<Rightarrow> 's emitter \<Rightarrow> gdb_stub \<Rightarrow> ('v, 's, unit) session_op" where
  "attach env emit stub s =
     (if db_state (fst s) = Ready then
        refuse (internal_error ''the debug session is already attached; detach first'') s
      else
        let ms = dc_request_timeout (db_config (fst s)); target = stub_endpoint stub
        in then_do (change (\<lambda>d. d\<lparr>db_state := Attaching\<rparr>)) (\<lambda>_.
           then_do (start_machine env emit) (\<lambda>_.
           then_do (open_adapter env emit) (\<lambda>t.
           then_do (on_local t (initialize env ms)) (\<lambda>(initialized, t0).
           then_do (change (\<lambda>d. d\<lparr>db_supports := js_get (en_json env) initialized ''body''\<rparr>)) (\<lambda>_.
           then_do (handshake env ms target t0) (\<lambda>t'.
           then_do (change (\<lambda>d. d\<lparr>db_transport := Some t', db_state := Ready\<rparr>)) (\<lambda>_.
             console emit (''attached to '' @ target @ [CHR 0x0A])))))))) s)"

definition start_session :: "'v session_env \<Rightarrow> 's emitter \<Rightarrow> ('v, 's, unit) session_op" where
  "start_session env emit =
     then_do (attach env emit \<lparr>gs_host = ''127.0.0.1'', gs_port = 1234, gs_mode = StubAttach\<rparr>)
       (\<lambda>_. prepare_target env)"

definition detach :: "'v session_env \<Rightarrow> ('v, 's, unit) session_op" where
  "detach env = (\<lambda>(d, k).
     then_do (case db_transport d of
         None \<Rightarrow> give ()
       | Some t \<Rightarrow>
           then_do (change (\<lambda>d. d\<lparr>db_transport := None\<rparr>)) (\<lambda>_.
             or_default () (then_do (on_local t (request_within (en_to_string env) ''disconnect'' (Some (JObj [])) (3 * 1000)))
               (\<lambda>_. give ()))))
       (\<lambda>_. change (\<lambda>d. d\<lparr>db_machine := False, db_state := Detached\<rparr>)) (d, k))"

definition session_capabilities :: "'v json \<Rightarrow> 'v session \<Rightarrow> debug_capabilities" where
  "session_capabilities j d =
     (let flag = (\<lambda>name fallback. unwrap_or fallback (Option.bind (db_supports d) (\<lambda>a. get_bool j a name)))
      in \<lparr>dc_conditional_breakpoints = flag ''supportsConditionalBreakpoints'' True,
          dc_disassemble_request = flag ''supportsDisassembleRequest'' True, dc_read_memory = True,
          dc_write_memory = flag ''supportsWriteMemoryRequest'' True, dc_restart = False,
          dc_terminate = flag ''supportsTerminateRequest'' True,
          dc_set_variable = flag ''supportsSetVariable'' False\<rparr>)"

subsection \<open>Requests\<close>

text \<open>A request of a ready session, and its successful answer.\<close>

definition ask :: "'v session_env \<Rightarrow> string \<Rightarrow> string \<Rightarrow> json_literal \<Rightarrow> ('v, 's, 'v) session_op" where
  "ask env what command arguments s =
     with_ready what
       (then_do (request_within (en_to_string env) command (Some arguments) (dc_request_timeout (db_config (fst s))))
         (\<lambda>response. lift_result (ensure_success (en_json env) command response))) s"

definition requested_breakpoint :: "breakpoint_spec \<Rightarrow> json_literal" where
  "requested_breakpoint b =
     JObj ((case bp_line b of None \<Rightarrow> [] | Some line \<Rightarrow> [(''line'', JInt (uint line))]) @
           (case bp_condition b of None \<Rightarrow> [] | Some c \<Rightarrow> [(''condition'', JStr c)]))"

definition breakpoint_arguments :: "string \<Rightarrow> breakpoint_spec list \<Rightarrow> json_literal" where
  "breakpoint_arguments file bps =
     JObj [(''source'', JObj [(''path'', JStr file),
              (''name'', case path_file_name file of None \<Rightarrow> JNull | Some n \<Rightarrow> JStr n)]),
           (''breakpoints'', JArr (map requested_breakpoint bps)), (''sourceModified'', JBool False)]"

definition answered_breakpoint :: "'v json \<Rightarrow> string \<Rightarrow> breakpoint_spec option \<Rightarrow> nat \<Rightarrow> 'v \<Rightarrow> breakpoint_spec" where
  "answered_breakpoint j file template index item =
     (let line = (case get_u64 j item ''line'' of
            Some l \<Rightarrow> Some (as_u32 l) | None \<Rightarrow> Option.bind template bp_line)
      in \<lparr>bp_id = (case js_get j item ''id'' of
            Some i \<Rightarrow> js_show j i
          | None \<Rightarrow> (case template of Some t \<Rightarrow> bp_id t | None \<Rightarrow> ''bp-'' @ show_nat index)),
          bp_file = Some file, bp_line = line, bp_address = get_str j item ''instructionReference'',
          bp_condition = Option.bind template bp_condition,
          bp_verified = unwrap_or False (get_bool j item ''verified''),
          bp_location = Option.bind (js_get j item ''source'') (\<lambda>source.
            map_option (\<lambda>path. \<lparr>sl_file = path, sl_line = unwrap_or 0 line,
                               sl_column = map_option as_u32 (get_u64 j item ''column'')\<rparr>)
              (get_str j source ''path''))\<rparr>)"

definition answered_breakpoints :: "'v json \<Rightarrow> string \<Rightarrow> breakpoint_spec list \<Rightarrow> 'v \<Rightarrow> breakpoint_spec list" where
  "answered_breakpoints j file bps body =
     (case body_array j body ''breakpoints'' of
        None \<Rightarrow> []
      | Some items \<Rightarrow>
          map (\<lambda>(i, item). answered_breakpoint j file (if i < length bps then Some (bps ! i) else None) i item)
            (enumerate 0 items))"

definition breakpoint_event :: "breakpoint_spec \<Rightarrow> event_body" where
  "breakpoint_event b =
     DebugBreakpointChanged \<lparr>bc_id = bp_id b, bc_verified = bp_verified b, bc_location = bp_location b\<rparr>"

definition set_breakpoints ::
  "'v session_env \<Rightarrow> 's emitter \<Rightarrow> string \<Rightarrow> breakpoint_spec list \<Rightarrow> ('v, 's, breakpoint_spec list) session_op" where
  "set_breakpoints env emit file bps =
     then_do (ask env ''set breakpoints'' ''setBreakpoints'' (breakpoint_arguments file bps)) (\<lambda>body.
       let result = answered_breakpoints (en_json env) file bps body
       in then_do (each_do (\<lambda>b. emitting (emit (breakpoint_event b))) result) (\<lambda>_. give result))"

definition thread_argument :: "'v session \<Rightarrow> int option \<Rightarrow> json_literal" where
  "thread_argument d thread_id = JInt (unwrap_or (db_thread_id d) thread_id)"

definition continue_run :: "'v session_env \<Rightarrow> 's emitter \<Rightarrow> int option \<Rightarrow> ('v, 's, debug_stopped) session_op" where
  "continue_run env emit thread_id s =
     then_do (ask env ''continue'' ''continue'' (JObj [(''threadId'', thread_argument (fst s) thread_id)]))
       (\<lambda>_. await_stop env emit ''continue'') s"

definition step_over :: "'v session_env \<Rightarrow> 's emitter \<Rightarrow> int option \<Rightarrow> ('v, 's, debug_stopped) session_op" where
  "step_over env emit thread_id s =
     then_do (ask env ''step over'' ''next'' (JObj [(''threadId'', thread_argument (fst s) thread_id)]))
       (\<lambda>_. await_stop env emit ''step over'') s"

definition step_into :: "'v session_env \<Rightarrow> 's emitter \<Rightarrow> int option \<Rightarrow> ('v, 's, debug_stopped) session_op" where
  "step_into env emit thread_id s =
     then_do (ask env ''step into'' ''stepIn''
         (JObj [(''threadId'', thread_argument (fst s) thread_id), (''granularity'', JStr ''instruction'')]))
       (\<lambda>_. await_stop env emit ''step into'') s"

definition stack_trace :: "'v session_env \<Rightarrow> int \<Rightarrow> u64 \<Rightarrow> u64 \<Rightarrow> ('v, 's, stack_frame list) session_op" where
  "stack_trace env thread_id start_frame levels = request_stack_trace env thread_id start_frame levels"

definition REGISTERS_SCOPE_REFERENCE :: int where "REGISTERS_SCOPE_REFERENCE = - 1"

definition parse_scope :: "'v json \<Rightarrow> 'v \<Rightarrow> scope option" where
  "parse_scope j item =
     map_option (\<lambda>name. \<lparr>so_name = name, so_variables_reference = unwrap_or 0 (get_i64 j item ''variablesReference''),
                        so_expensive = unwrap_or False (get_bool j item ''expensive'')\<rparr>)
       (get_str j item ''name'')"

definition registers_scope :: scope where
  "registers_scope =
     \<lparr>so_name = ''Registers'', so_variables_reference = REGISTERS_SCOPE_REFERENCE, so_expensive = False\<rparr>"

definition scopes :: "'v session_env \<Rightarrow> u64 \<Rightarrow> ('v, 's, scope list) session_op" where
  "scopes env frame_id =
     then_do (ask env ''read scopes'' ''scopes'' (JObj [(''frameId'', JInt (uint frame_id))])) (\<lambda>body.
       let found = (case body_array (en_json env) body ''scopes'' of
             None \<Rightarrow> [] | Some items \<Rightarrow> List.map_filter (parse_scope (en_json env)) items)
       in give (if list_ex (\<lambda>sc. so_name sc = ''Registers'') found then found else found @ [registers_scope]))"

definition parse_variable :: "'v json \<Rightarrow> 'v \<Rightarrow> variable_info option" where
  "parse_variable j item =
     map_option (\<lambda>name. \<lparr>vi_name = name, vi_value = unwrap_or [] (get_str j item ''value''),
                        vi_type_name = get_str j item ''type'',
                        vi_variables_reference = unwrap_or 0 (get_i64 j item ''variablesReference'')\<rparr>)
       (get_str j item ''name'')"

definition register_variable :: "register_entry \<Rightarrow> variable_info" where
  "register_variable e =
     \<lparr>vi_name = re_name e, vi_value = re_value e, vi_type_name = re_annotation e, vi_variables_reference = 0\<rparr>"

definition session_variables :: "'v session_env \<Rightarrow> int \<Rightarrow> ('v, 's, variable_info list) session_op" where
  "session_variables env reference =
     (if reference = REGISTERS_SCOPE_REFERENCE then
        then_do (with_ready ''read the register panel'' (read_registers (gdb env) SelectAll))
          (\<lambda>(_, entries). give (map register_variable entries))
      else
        then_do (ask env ''read variables'' ''variables'' (JObj [(''variablesReference'', JInt reference)])) (\<lambda>body.
          give (case body_array (en_json env) body ''variables'' of
            None \<Rightarrow> [] | Some items \<Rightarrow> List.map_filter (parse_variable (en_json env)) items)))"

definition memory_reference :: "u64 \<Rightarrow> json_literal" where
  "memory_reference address = JStr (''0x'' @ show_hex (unat address))"

definition read_answer :: "'v json \<Rightarrow> u64 \<Rightarrow> 'v \<Rightarrow> princess_error + u8 list" where
  "read_answer j byte_count body =
     (case Option.bind (in_body j body ''data'') (js_str j) of
        None \<Rightarrow> Inl (with_detail (internal_error ''readMemory returned no data field'') (js_show j body))
      | Some encoded \<Rightarrow>
          (case base64_decode encoded of
             None \<Rightarrow> Inl (with_detail (internal_error ''readMemory returned data that is not valid base64'')
               (''data: '' @ take_chars 200 encoded))
           | Some bytes \<Rightarrow>
               if length bytes \<noteq> unat byte_count then
                 Inl (with_detail (internal_error (''readMemory returned '' @ show_nat (length bytes) @
                   '' bytes for a '' @ show_nat (unat byte_count) @ '' byte request'')) (js_show j body))
               else Inr bytes))"

definition read_memory :: "'v session_env \<Rightarrow> u64 \<Rightarrow> u64 \<Rightarrow> ('v, 's, u8 list) session_op" where
  "read_memory env address byte_count =
     then_do (ask env ''read memory'' ''readMemory''
         (JObj [(''memoryReference'', memory_reference address), (''count'', JInt (uint byte_count))]))
       (\<lambda>body. lift_result (read_answer (en_json env) byte_count body))"

definition write_memory :: "'v session_env \<Rightarrow> u64 \<Rightarrow> u8 list \<Rightarrow> ('v, 's, unit) session_op" where
  "write_memory env address bytes =
     then_do (ask env ''write memory'' ''writeMemory''
         (JObj [(''memoryReference'', memory_reference address), (''data'', JStr (base64_encode bytes))]))
       (\<lambda>_. give ())"

definition parse_instruction :: "'v json \<Rightarrow> 'v \<Rightarrow> disassembled_instruction option" where
  "parse_instruction j item =
     map_option (\<lambda>t. \<lparr>di_address = unwrap_or [] (get_str j item ''address''),
                     di_bytes = unwrap_or [] (get_str j item ''instructionBytes''), di_text = t,
                     di_symbol = get_str j item ''symbol'',
                     di_source = Option.bind (js_get j item ''location'') (\<lambda>location.
                       map_option (\<lambda>path. \<lparr>sl_file = path, sl_line = as_u32 (unwrap_or 0 (get_u64 j location ''line'')),
                                          sl_column = None\<rparr>)
                         (get_str j location ''path''))\<rparr>)
       (get_str j item ''instruction'')"

definition session_disassemble :: "'v session_env \<Rightarrow> u64 \<Rightarrow> u64 \<Rightarrow> ('v, 's, disassembled_instruction list) session_op" where
  "session_disassemble env address count =
     then_do (ask env ''disassemble'' ''disassemble''
         (JObj [(''memoryReference'', memory_reference address), (''instructionCount'', JInt (uint count)),
                (''resolveSymbols'', JBool True)]))
       (\<lambda>body. give (case body_array (en_json env) body ''instructions'' of
          None \<Rightarrow> [] | Some items \<Rightarrow> List.map_filter (parse_instruction (en_json env)) items))"

definition session_registers :: "'v session_env \<Rightarrow> ('v, 's, register_file) session_op" where
  "session_registers env =
     then_do (with_ready ''read registers'' (read_registers (gdb env) SelectAll)) (\<lambda>(regs, _). give regs)"

end
