(* ===== verification/Debug_Calls.thy ===== *)
theory Debug_Calls
  imports Debug_Session
begin

section \<open>Calls on a debug session\<close>

text \<open>
  The operations of \<^verbatim>\<open>crates/princess-debug/src/backend.rs\<close> as calls in any order: what every one of
  them keeps of the connection, and which of them a session that is not ready refuses.
\<close>

subsection \<open>What the adapter is sent\<close>

text \<open>Everything written is whole frames of requests, numbered upwards, below the next number.\<close>

definition well_spoken :: "(json_literal \<Rightarrow> string + string) \<Rightarrow> 'v transport \<Rightarrow> bool" where
  "well_spoken to_string t \<longleftrightarrow>
     (\<exists>ms. tp_written t = concat (map (\<lambda>(seq, body). encode_frame body) ms) \<and> sorted_wrt (<) (map fst ms) \<and>
        (\<forall>(seq, body) \<in> set ms. 0 < seq \<and> seq < tp_next_seq t \<and>
           (\<exists>command arguments. to_string (request_message seq command arguments) = Inr body)) \<and>
        0 < tp_next_seq t)"

lemma well_spoken_same:
  "tp_written t' = tp_written t \<Longrightarrow> tp_next_seq t' = tp_next_seq t \<Longrightarrow> well_spoken ts t \<Longrightarrow> well_spoken ts t'"
  by (simp add: well_spoken_def)

lemma well_spoken_spawned:
  "transport_spawn argv failure ticks writes = Inr t \<Longrightarrow> well_spoken ts t"
  by (auto simp: transport_spawn_def well_spoken_def split: if_splits option.splits intro!: exI [of _ "[]"])

lemma well_spoken_sent:
  assumes "well_spoken ts t" "ts (request_message (tp_next_seq t) command arguments) = Inr body"
  shows "well_spoken ts (t\<lparr>tp_next_seq := tp_next_seq t + 1, tp_written := tp_written t @ encode_frame body\<rparr>)"
proof -
  obtain ms where "tp_written t = concat (map (\<lambda>(seq, body). encode_frame body) ms)" "sorted_wrt (<) (map fst ms)"
      "\<forall>(seq, body) \<in> set ms. 0 < seq \<and> seq < tp_next_seq t \<and>
         (\<exists>command arguments. ts (request_message seq command arguments) = Inr body)" "0 < tp_next_seq t"
    using assms(1) by (auto simp: well_spoken_def)
  with assms(2) show ?thesis
    unfolding well_spoken_def
    by (intro exI [of _ "ms @ [(tp_next_seq t, body)]"]) (fastforce simp: sorted_wrt_append)
qed

lemma well_spoken_skipped: "well_spoken ts t \<Longrightarrow> well_spoken ts (t\<lparr>tp_next_seq := tp_next_seq t + 1\<rparr>)"
  unfolding well_spoken_def by (elim exE) (rule exI, fastforce)

lemma keeps_send [keeping]: "keeps (well_spoken ts) (dap_send ts command arguments)"
  by (auto simp: yields_def dap_send_def Let_def well_spoken_sent well_spoken_skipped split: option.split sum.split)

text \<open>Waiting sends nothing.\<close>

definition silent :: "('v, 'a) dap_op \<Rightarrow> bool" where
  "silent m \<longleftrightarrow> (\<forall>t. tp_written (fst (m t)) = tp_written t \<and> tp_next_seq (fst (m t)) = tp_next_seq t)"

lemma keeps_silent: "silent m \<Longrightarrow> keeps (well_spoken ts) m"
  by (auto simp: silent_def yields_def intro: well_spoken_same)

lemma silent_keep: "tp_written (keep m t) = tp_written t" "tp_next_seq (keep m t) = tp_next_seq t"
  by (cases m; simp)+

lemma silent_response_loop:
  "tp_written (fst (wait_response_loop seq w ticks t)) = tp_written t \<and>
   tp_next_seq (fst (wait_response_loop seq w ticks t)) = tp_next_seq t"
proof (induction seq w ticks t rule: wait_response_loop.induct)
  case (1 seq w ticks t)
  show ?case
    using 1 unfolding wait_response_loop.simps [of seq w ticks t]
    by (auto simp: close_with_def silent_keep split: option.split list.split tick.split received.split incoming.split)
qed

lemma silent_event_loop:
  "tp_written (fst (wait_event_loop j name ticks t)) = tp_written t \<and>
   tp_next_seq (fst (wait_event_loop j name ticks t)) = tp_next_seq t"
  by (induction j name ticks t rule: wait_event_loop.induct) (auto simp: close_with_def silent_keep)

lemma silent_waits: "silent (wait_response seq w)" "silent (wait_event j name)"
  by (auto simp: silent_def wait_response_def wait_event_def silent_response_loop silent_event_loop split: option.split)

lemmas keeps_waits [keeping] = silent_waits [THEN keeps_silent]

lemma keeps_requests [keeping]:
  "keeps (well_spoken ts) (request_within ts command arguments w)"
  "keeps (well_spoken ts) (request ts command arguments)"
  "keeps (well_spoken ts) (dap_repl j ts expression)"
proof -
  show within: "keeps (well_spoken ts) (request_within ts command arguments w)" for command arguments w
    unfolding request_within_def by (intro keeping)
  show req: "keeps (well_spoken ts) (request ts command arguments)" for command arguments
    unfolding yields_def request_def using within [unfolded yields_def] by blast
  show "keeps (well_spoken ts) (dap_repl j ts expression)"
    unfolding dap_repl_def by (intro keeping req)
qed


subsection \<open>The session\<close>

definition sound :: "(json_literal \<Rightarrow> string + string) \<Rightarrow> 'v session \<times> 's \<Rightarrow> bool" where
  "sound ts s \<longleftrightarrow>
     (db_state (fst s) \<in> {Idle, Detached} \<longrightarrow> db_transport (fst s) = None) \<and>
     (\<forall>t. db_transport (fst s) = Some t \<longrightarrow> well_spoken ts t)"

lemma keeps_change:
  "(\<And>d (k :: 's). sound ts (d, k) \<Longrightarrow> sound ts (f d, k)) \<Longrightarrow>
     keeps (sound ts :: 'v session \<times> 's \<Rightarrow> bool) (change f)"
  by (auto simp: yields_def change_def split: prod.split)

lemma keeps_emitting [keeping]: "keeps (sound ts) (emitting m)"
  by (auto simp: yields_def emitting_def sound_def split: prod.split)

lemma keeps_console [keeping]: "keeps (sound ts) (console emit line)" "keeps (sound ts) (note_ide emit line)"
  unfolding console_def note_ide_def by (intro keeping)+

lemma sound_poison: "sound ts (d, k) \<Longrightarrow> sound ts (poison d, k)"
  by (simp add: sound_def poison_def)

lemma on_live_sound:
  assumes "keeps (well_spoken ts) m" "well_spoken ts t" "db_state d \<notin> {Idle, Detached}"
  shows "sound ts (fst (on_live t m (d, k)))"
  using yieldsD [OF assms(1,2)] assms(3) by (auto simp: sound_def on_live_def split: prod.split)

lemma sound_open: "sound ts (d, k) \<Longrightarrow> db_transport d = Some t \<Longrightarrow> well_spoken ts t \<and> db_state d \<notin> {Idle, Detached}"
  by (auto simp: sound_def)

lemma keeps_with_transport [keeping]:
  fixes m :: "('v, 'a) dap_op"
  assumes m: "keeps (well_spoken ts) m"
  shows "keeps (sound ts :: 'v session \<times> 's \<Rightarrow> bool) (with_transport m)"
  unfolding yields_def
proof (intro allI impI)
  fix s :: "'v session \<times> 's" assume s: "sound ts s"
  obtain d k where [simp]: "s = (d, k)" by (cases s)
  show "sound ts (fst (with_transport m s)) \<and> (\<forall>x. snd (with_transport m s) = Inr x \<longrightarrow> True)"
    using s by (auto simp: with_transport_def refuse_def dest!: sound_open intro!: on_live_sound m split: option.split)
qed

lemma well_spoken_timeout: "well_spoken ts t \<Longrightarrow> well_spoken ts (set_default_timeout w t)"
  by (rule well_spoken_same) (auto simp: set_default_timeout_def)

lemma keeps_with_ready [keeping]:
  fixes m :: "('v, 'a) dap_op"
  assumes m: "keeps (well_spoken ts) m"
  shows "keeps (sound ts :: 'v session \<times> 's \<Rightarrow> bool) (with_ready what m)"
  unfolding yields_def
proof (intro allI impI)
  fix s :: "'v session \<times> 's" assume s: "sound ts s"
  obtain d k where [simp]: "s = (d, k)" by (cases s)
  show "sound ts (fst (with_ready what m s)) \<and> (\<forall>x. snd (with_ready what m s) = Inr x \<longrightarrow> True)"
  proof (cases "db_transport d")
    case None
    with s show ?thesis by (auto simp: with_ready_def refuse_def split: session_state.split)
  next
    case (Some t)
    with s sound_open [of ts d k t] show ?thesis
      by (auto simp: with_ready_def refuse_def sound_poison intro!: on_live_sound m well_spoken_timeout
          split: session_state.split)
  qed
qed

lemma keeps_settle [keeping]: "keeps P m \<Longrightarrow> keeps P (settle m)"
  by (auto simp: yields_def settle_def split: prod.split sum.split dap_stop.split)

lemma keeps_or_default [keeping]: "keeps P m \<Longrightarrow> keeps P (or_default x m)"
  by (auto simp: yields_def or_default_def split: prod.split sum.split dap_stop.split)

lemma keeps_ask [keeping]: "keeps (sound (en_to_string env)) (ask env what command arguments)"
  unfolding ask_def [abs_def]
  by (rule keeps_at [where m = "\<lambda>s. with_ready what (M s)" for M]) (intro keeping)


lemma yields_local:
  assumes "keeps (well_spoken ts) m" "well_spoken ts t"
  shows "yields P (on_local t m) (\<lambda>(x, t'). well_spoken ts t')"
  using assms by (auto simp: yields_def on_local_def split: prod.split sum.split dest: spec [of _ t])

lemma yields_poisoning:
  fixes m :: "('v, 's, 'a) session_op"
  assumes "yields (sound ts) m Q"
  shows "yields (sound ts) (poisoning m) Q"
  using assms by (fastforce simp: yields_def poisoning_def sound_poison split: prod.split sum.split dap_stop.split)

lemma yields_spawn:
  "yields P (lift_result (transport_spawn argv failure ticks writes)) (well_spoken ts)"
  by (auto simp: yields_def lift_result_def res_simps dest: well_spoken_spawned)

lemma yields_open_adapter: "yields (sound ts) (open_adapter env emit) (well_spoken ts)"
  unfolding open_adapter_def [abs_def] Let_def
  by (rule yields_at [where m = "\<lambda>s. then_do (M s) (K s)" for M K], rule yields_then [OF yields_spawn],
      rule yields_then, rule keeping, rule yields_give)

lemma keeps_thread:
  "keeps (sound ts) (change (\<lambda>d. d\<lparr>db_thread_id := i\<rparr>))"
  by (rule keeps_change) (simp add: sound_def)

lemma well_spoken_events: "take_events t = (t', es) \<Longrightarrow> well_spoken ts t \<Longrightarrow> well_spoken ts t'"
  by (auto simp: take_events_def intro: well_spoken_same)

lemma local_step:
  assumes "keeps (well_spoken ts) m" "well_spoken ts t"
    "\<And>x t'. well_spoken ts t' \<Longrightarrow> yields P (k x t') R"
  shows "yields P (then_do (on_local t m) (case_prod k)) R"
  by (rule yields_then [OF yields_local [OF assms(1,2)]]) (auto intro: assms(3))

lemma poisoned_step:
  fixes m :: "('v, 'a) dap_op"
  assumes "keeps (well_spoken ts) m" "well_spoken ts t"
    "\<And>x t'. well_spoken ts t' \<Longrightarrow> yields (sound ts :: 'v session \<times> 's \<Rightarrow> bool) (k x t') R"
  shows "yields (sound ts) (then_do (poisoning (on_local t m)) (case_prod k)) R"
  by (rule yields_then [OF yields_poisoning [OF yields_local [OF assms(1,2)]]]) (auto intro: assms(3))

lemma events_step:
  assumes "well_spoken ts t" "\<And>t' es. well_spoken ts t' \<Longrightarrow> yields P (k t' es) R"
  shows "yields P (case take_events t of (t', es) \<Rightarrow> k t' es) R"
  using assms well_spoken_events [OF _ assms(1)] by (auto split: prod.split)

lemma keeps_lift_poisoned: "keeps (sound ts) (poisoning (lift_result r))"
  by (intro yields_poisoning keeping)

lemma yields_handshake:
  assumes "well_spoken (en_to_string env) t0"
  shows "yields (sound (en_to_string env)) (handshake env ms target t0) (well_spoken (en_to_string env))"
  unfolding handshake_def
  by (rule local_step, rule keeping, rule assms, rule local_step, rule keeping, assumption,
      rule poisoned_step, rule keeping, assumption, rule poisoned_step, rule keeping, assumption,
      rule keeps_step, rule keeps_lift_poisoned, rule local_step, rule keeping, assumption,
      rule events_step, assumption, rule keeps_step, intro keeping keeps_thread, rule yields_give)

lemma sound_attaching: "sound ts (d, k) \<Longrightarrow> sound ts (d\<lparr>db_state := Attaching\<rparr>, k)"
  by (simp add: sound_def)

lemma keeps_change_fields [keeping]:
  "keeps (sound ts) (change (\<lambda>d. d\<lparr>db_supports := x\<rparr>))"
  "keeps (sound ts) (change (\<lambda>d. d\<lparr>db_arch_check := y\<rparr>))"
  "keeps (sound ts) (change (\<lambda>d. d\<lparr>db_hardware := h, db_hw_breakpoints := db_hw_breakpoints d @ [b]\<rparr>))"
  "keeps (sound ts) (change (\<lambda>d. if u then d\<lparr>db_hardware := h\<rparr> else d))"
  "keeps (sound ts) (change (\<lambda>d. d\<lparr>db_thread_id := i\<rparr>))"
  by (rule keeps_change; simp add: sound_def)+


lemma initialize_keeps [keeping]: "keeps (well_spoken (en_to_string env)) (initialize env ms)"
  unfolding initialize_def by (intro keeping)

lemma keeps_change_state [keeping]:
  "keeps (sound ts) (change (\<lambda>d. d\<lparr>db_state := Attaching\<rparr>))"
  "keeps (sound ts) (change (\<lambda>d. d\<lparr>db_machine := b\<rparr>))"
  "well_spoken ts t \<Longrightarrow> keeps (sound ts) (change (\<lambda>d. d\<lparr>db_transport := Some t, db_state := Ready\<rparr>))"
  by (rule keeps_change; simp add: sound_def)+

lemma keeps_qemu: "keeps P (\<lambda>s. (s, qemu_start command machine))"
  by (simp add: yields_def)

lemma keeps_start_machine [keeping]:
  fixes env :: "'v session_env" and emit :: "'s emitter"
  shows "keeps (sound ts) (start_machine env emit)"
proof (rule keepsI)
  fix s :: "'v session \<times> 's" assume s: "sound ts s"
  have "keeps (sound ts :: 'v session \<times> 's \<Rightarrow> bool)
      (then_do (note_ide emit line1) (\<lambda>_.
       then_do (\<lambda>s. (s, qemu_start command (en_machine env))) (\<lambda>_.
       then_do (note_ide emit line2) (\<lambda>_. change (\<lambda>d. d\<lparr>db_machine := True\<rparr>)))))" for line1 line2 command
    by (rule keeps_step, rule keeping, rule keeps_step, rule keeps_qemu, rule keeps_step, (rule keeping)+)
  from keepsD [OF this s] s show "sound ts (fst (start_machine env emit s))"
    unfolding start_machine_def Let_def by (simp add: give_def split: target_mode.split del: append_Cons)
qed

lemma keeps_attach [keeping]:
  fixes env :: "'v session_env" and emit :: "'s emitter"
  shows "keeps (sound (en_to_string env)) (attach env emit stub)"
proof (rule keepsI)
  fix s :: "'v session \<times> 's" assume s: "sound (en_to_string env) s"
  have "keeps (sound (en_to_string env) :: 'v session \<times> 's \<Rightarrow> bool)
      (then_do (change (\<lambda>d. d\<lparr>db_state := Attaching\<rparr>)) (\<lambda>_.
           then_do (start_machine env emit) (\<lambda>_.
           then_do (open_adapter env emit) (\<lambda>t.
           then_do (on_local t (initialize env ms)) (\<lambda>(initialized, t0).
           then_do (change (\<lambda>d. d\<lparr>db_supports := js_get (en_json env) initialized ''body''\<rparr>)) (\<lambda>_.
           then_do (handshake env ms target t0) (\<lambda>t'.
           then_do (change (\<lambda>d. d\<lparr>db_transport := Some t', db_state := Ready\<rparr>)) (\<lambda>_.
             console emit (''attached to '' @ target @ [CHR 0x0A])))))))))" for ms target
    by (rule keeps_step, rule keeping, rule keeps_step, rule keeping, rule yields_then, rule yields_open_adapter,
        rule local_step, rule keeping, assumption, rule keeps_step, rule keeping, rule yields_then,
        rule yields_handshake, assumption, rule keeps_step, rule keeping, assumption, rule keeping)
  from keepsD [OF this s] s show "sound (en_to_string env) (fst (attach env emit stub s))"
    by (simp add: attach_def Let_def refuse_def)
qed


lemma keeps_gdb [keeping]: "keeps (well_spoken (en_to_string env)) (gdb env command)"
  unfolding gdb_def by (rule keeping)

lemma keeps_probe [keeping]: "(\<And>c. keeps P (run c)) \<Longrightarrow> keeps P (probe_pointer run)"
  using yieldsD [of P "run ''p sizeof(void*)''" "\<lambda>_. True"]
  by (intro keepsI) (auto simp: probe_pointer_def split: prod.split sum.split dap_stop.split)

lemma keeps_arch [keeping]: "(\<And>c. keeps P (run c)) \<Longrightarrow> keeps P (arch_check_run run file path)"
  unfolding arch_check_run_def by (intro keeping)

lemma keeps_prepare [keeping]: "keeps (sound (en_to_string env)) (prepare_target env)"
  unfolding prepare_target_def [abs_def] Let_def
  by (rule keeps_at [where m = "\<lambda>s. then_do (M s) K" for M K]) (intro keeping)

lemma keeps_start_session [keeping]: "keeps (sound (en_to_string env)) (start_session env emit)"
  unfolding start_session_def by (intro keeping)

lemma keeps_detach [keeping]:
  fixes env :: "'v session_env"
  shows "keeps (sound (en_to_string env)) (detach env)"
proof (rule keepsI)
  fix s :: "'v session \<times> 's" assume s: "sound (en_to_string env) s"
  obtain d k where [simp]: "s = (d, k)" by (cases s)
  show "sound (en_to_string env) (fst (detach env s))"
  proof (cases "db_transport d")
    case None
    then show ?thesis by (simp add: detach_def then_do_def give_def change_def sound_def)
  next
    case (Some t)
    then show ?thesis
      by (auto simp: detach_def then_do_def give_def change_def sound_def or_default_def on_local_def
          split: prod.split sum.split dap_stop.split)
  qed
qed

lemma keeps_hardware [keeping]: "keeps (sound (en_to_string env)) (session_hardware_breakpoint env emit spec)"
  unfolding session_hardware_breakpoint_def by (intro keeping)

lemma keeps_stack_answer: "keeps (sound ts) (\<lambda>s. stack_trace_answer env s answer)"
  by (rule keepsI) (auto simp: stack_trace_answer_def sound_def poison_def Let_def split: sum.split)

lemma keeps_stack_trace [keeping]:
  "keeps (sound (en_to_string env)) (request_stack_trace env i start levels)"
  unfolding request_stack_trace_def [abs_def]
  by (rule keeps_at [where m = "\<lambda>s. then_do (M s) K" for M K]) (intro keeping keeps_stack_answer)

lemma keeps_try_registers [keeping]:
  fixes env :: "'v session_env"
  shows "keeps (sound (en_to_string env)) (try_read_registers env)"
proof (rule keepsI)
  fix s :: "'v session \<times> 's" assume s: "sound (en_to_string env) s"
  obtain d k where [simp]: "s = (d, k)" by (cases s)
  show "sound (en_to_string env) (fst (try_read_registers env s))"
  proof (cases "db_transport d")
    case None
    with s show ?thesis by (simp add: try_read_registers_def)
  next
    case (Some t)
    have "keeps (well_spoken (en_to_string env)) (read_registers (gdb env) SelectAll)" by (intro keeping)
    with s Some sound_open [of "en_to_string env" d k t]
    have "sound (en_to_string env) (fst (on_live t (read_registers (gdb env) SelectAll) (d, k)))"
      by (intro on_live_sound) auto
    with Some show ?thesis
      by (auto simp: try_read_registers_def or_default_def then_do_def give_def
          split: prod.split sum.split dap_stop.split)
  qed
qed

lemma keeps_stopped [keeping]: "keeps (sound (en_to_string env)) (stopped_payload env event reason)"
  unfolding stopped_payload_def [abs_def] Let_def
  by (rule keeps_at [where m = "\<lambda>s. then_do (M s) (K s)" for M K]) (intro keeping)

lemma keeps_await [keeping]: "keeps (sound (en_to_string env)) (await_stop env emit what)"
  unfolding await_stop_def by (intro keeping)

lemma keeps_motion [keeping]:
  "keeps (sound (en_to_string env)) (continue_run env emit thread)"
  "keeps (sound (en_to_string env)) (step_over env emit thread)"
  "keeps (sound (en_to_string env)) (step_into env emit thread)"
  unfolding continue_run_def [abs_def] step_over_def [abs_def] step_into_def [abs_def]
  by (rule keeps_at [where m = "\<lambda>s. then_do (M s) K" for M K], intro keeping)+

lemma keeps_asked [keeping]:
  "keeps (sound (en_to_string env)) (set_breakpoints env emit file bps)"
  "keeps (sound (en_to_string env)) (stack_trace env i start levels)"
  "keeps (sound (en_to_string env)) (scopes env frame)"
  "keeps (sound (en_to_string env)) (session_variables env reference)"
  "keeps (sound (en_to_string env)) (read_memory env address count)"
  "keeps (sound (en_to_string env)) (write_memory env address bytes)"
  "keeps (sound (en_to_string env)) (session_disassemble env address count)"
  "keeps (sound (en_to_string env)) (session_registers env)"
  "keeps (sound (en_to_string env)) (session_read_physical env address count)"
  unfolding set_breakpoints_def stack_trace_def scopes_def session_variables_def read_memory_def write_memory_def
    session_disassemble_def session_registers_def session_read_physical_def Let_def
  by (intro keeping)+


subsection \<open>Calls\<close>

text \<open>The operations of the backend, and what a caller sees of one: the state left, and how it failed.\<close>

datatype debug_call =
    CallStart | CallAttach gdb_stub | CallDetach | CallPrepare
  | CallBreakpoints string "breakpoint_spec list" | CallHardware string
  | CallContinue "int option" | CallStepOver "int option" | CallStepInto "int option"
  | CallStack int u64 u64 | CallScopes u64 | CallVariables int | CallRegisters
  | CallRead u64 u64 | CallWrite u64 "u8 list" | CallPhysical u64 u64 | CallDisassemble u64 u64

definition dropping :: "('s, 'e, 'a) op \<Rightarrow> ('s, 'e, unit) op" where
  "dropping m = then_do m (\<lambda>_. give ())"

fun run_call :: "'v session_env \<Rightarrow> 's emitter \<Rightarrow> debug_call \<Rightarrow> ('v, 's, unit) session_op" where
  "run_call env emit CallStart = start_session env emit"
| "run_call env emit (CallAttach stub) = attach env emit stub"
| "run_call env emit CallDetach = detach env"
| "run_call env emit CallPrepare = prepare_target env"
| "run_call env emit (CallBreakpoints file bps) = dropping (set_breakpoints env emit file bps)"
| "run_call env emit (CallHardware spec) = dropping (session_hardware_breakpoint env emit spec)"
| "run_call env emit (CallContinue i) = dropping (continue_run env emit i)"
| "run_call env emit (CallStepOver i) = dropping (step_over env emit i)"
| "run_call env emit (CallStepInto i) = dropping (step_into env emit i)"
| "run_call env emit (CallStack i start levels) = dropping (stack_trace env i start levels)"
| "run_call env emit (CallScopes frame) = dropping (scopes env frame)"
| "run_call env emit (CallVariables reference) = dropping (session_variables env reference)"
| "run_call env emit CallRegisters = dropping (session_registers env)"
| "run_call env emit (CallRead address count) = dropping (read_memory env address count)"
| "run_call env emit (CallWrite address bytes) = write_memory env address bytes"
| "run_call env emit (CallPhysical address count) = dropping (session_read_physical env address count)"
| "run_call env emit (CallDisassemble address count) = dropping (session_disassemble env address count)"

lemma keeps_call: "keeps (sound (en_to_string env)) (run_call env emit call)"
  by (cases call) (auto simp: dropping_def intro!: keeping)

text \<open>Calls one after another, each in the world it meets; the serializer is the same for all.\<close>

fun run_calls ::
  "(json_literal \<Rightarrow> string + string) \<Rightarrow> 's emitter \<Rightarrow> ('v session_env \<times> debug_call) list \<Rightarrow>
   'v session \<times> 's \<Rightarrow> 'v session \<times> 's" where
  "run_calls ts emit [] s = s"
| "run_calls ts emit ((env, call) # calls) s =
     run_calls ts emit calls (fst (run_call (env\<lparr>en_to_string := ts\<rparr>) emit call s))"

lemma run_calls_sound: "sound ts s \<Longrightarrow> sound ts (run_calls ts emit calls s)"
proof (induction ts emit calls s rule: run_calls.induct)
  case (2 ts emit env call calls s)
  then show ?case
    using keepsD [OF keeps_call [of "env\<lparr>en_to_string := ts\<rparr>" emit call]] by simp
qed simp


fun needs_ready :: "debug_call \<Rightarrow> bool" where
  "needs_ready CallStart = False"
| "needs_ready (CallAttach stub) = False"
| "needs_ready CallDetach = False"
| "needs_ready CallPrepare = False"
| "needs_ready (CallHardware spec) = False"
| "needs_ready _ = True"

definition refused :: "('s, dap_stop, 'a) op \<Rightarrow> 's \<Rightarrow> bool" where
  "refused m s \<longleftrightarrow> (\<exists>e. m s = (s, Inl (Failed e)))"

lemma refused_then: "refused m s \<Longrightarrow> refused (then_do m f) s"
  by (auto simp: refused_def then_do_def)

lemma refused_ready: "db_state d \<noteq> Ready \<Longrightarrow> refused (with_ready what m) (d, k)"
  by (cases "db_state d") (auto simp: with_ready_def refuse_def refused_def)

lemma refused_ask: "db_state d \<noteq> Ready \<Longrightarrow> refused (ask env what command arguments) (d, k)"
  using refused_ready [of d what _ k] by (simp add: ask_def refused_def)

lemma refused_requests:
  assumes "db_state d \<noteq> Ready"
  shows "refused (continue_run env emit i) (d, k)" "refused (step_over env emit i) (d, k)"
    "refused (step_into env emit i) (d, k)" "refused (stack_trace env j start levels) (d, k)"
    "refused (session_variables env reference) (d, k)"
proof -
  note r = refused_then [OF refused_ask [OF assms], unfolded refused_def]
    refused_then [OF refused_ready [OF assms], unfolded refused_def]
  show "refused (continue_run env emit i) (d, k)" "refused (step_over env emit i) (d, k)"
    "refused (step_into env emit i) (d, k)" "refused (stack_trace env j start levels) (d, k)"
    unfolding refused_def continue_run_def step_over_def step_into_def stack_trace_def request_stack_trace_def
    by (rule r)+
  show "refused (session_variables env reference) (d, k)"
    unfolding refused_def session_variables_def by (cases "reference = REGISTERS_SCOPE_REFERENCE") (simp_all add: r)
qed

lemma refused_call: "db_state d \<noteq> Ready \<Longrightarrow> needs_ready call \<Longrightarrow> refused (run_call env emit call) (d, k)"
  by (cases call)
    (auto simp: dropping_def set_breakpoints_def scopes_def session_registers_def read_memory_def write_memory_def
      session_disassemble_def session_read_physical_def intro!: refused_then refused_ask refused_ready refused_requests)

lemma hardware_talks:
  fixes env :: "'v session_env"
  assumes t: "db_transport d = Some t" "tp_closed t = None" "tp_write t (tp_next_seq t) = None" "tp_ticks t = []"
    "tp_early t (tp_next_seq t) = None"
    and ts: "\<And>seq c a. \<exists>body. en_to_string env (request_message seq c a) = Inr body"
  shows "\<exists>d' t'. fst (session_hardware_breakpoint env emit spec (d, k)) = (d', k) \<and>
     db_transport d' = Some t' \<and> tp_written t' \<noteq> tp_written t"
proof -
  obtain body where "en_to_string env (request_message (tp_next_seq t) ''evaluate''
      (Some (JObj [(''expression'', JStr ''info breakpoints''), (''context'', JStr ''repl'')]))) = Inr body"
    using ts by blast
  then show ?thesis
    using t by (simp add: session_hardware_breakpoint_def then_do_def with_transport_def is_closed_def on_live_def
        settle_def set_hardware_breakpoint_def list_breakpoints_def run_ok_def gdb_def dap_repl_def request_def
        request_within_def dap_send_def Let_def wait_response_def wait_response_loop.simps encode_frame_def)
qed



definition demo_config :: session_config where
  "demo_config = launching ''gdb'' ''kernel.elf'' [''qemu-system-x86_64''] ''/os''"


end
