(* ===== verification/Ai_Config.thy ===== *)
theory Ai_Config
  imports Config
begin

section \<open>The AI provider's settings and errors\<close>

text \<open>
  Models \<^verbatim>\<open>crates/princess-ai/src/config.rs\<close> (which endpoint and model a project uses, from the
  manifest, the environment and the global setting) and \<^verbatim>\<open>error_map.rs\<close> (the error each failure
  of the provider becomes). The environment is an argument.
\<close>

subsection \<open>Resolution\<close>

definition ENV_BASE_URL :: string where "ENV_BASE_URL = ''PRINCESSIDE_AI_BASE_URL''"
definition ENV_MODEL :: string where "ENV_MODEL = ''PRINCESSIDE_AI_MODEL''"
definition ENV_OPENAI_BASE_URLS :: "string list" where
  "ENV_OPENAI_BASE_URLS = [''OPENAI_BASE_URL'', ''OPENAI_API_BASE'']"
definition ENV_OPENAI_MODEL :: string where "ENV_OPENAI_MODEL = ''OPENAI_MODEL''"
definition ENV_API_KEY :: string where "ENV_API_KEY = ''OPENAI_API_KEY''"
definition DEFAULT_CHAT_PATH :: string where "DEFAULT_CHAT_PATH = ''/chat/completions''"

record global_ai_settings =
  gl_base_url :: "string option"
  gl_model :: "string option"

record ai_config =
  ac_base_url :: string
  ac_model :: string
  ac_api_key :: "string option"

definition not_blank :: "string option \<Rightarrow> string option" where
  "not_blank v = (case v of None \<Rightarrow> None | Some s \<Rightarrow> if str_trim s = [] then None else Some s)"

definition global_base_url :: "global_ai_settings \<Rightarrow> string option" where
  "global_base_url g = not_blank (gl_base_url g)"

definition global_model :: "global_ai_settings \<Rightarrow> string option" where
  "global_model g = not_blank (gl_model g)"

definition env_base_url :: "environment \<Rightarrow> string option" where
  "env_base_url env =
     find (\<lambda>v. str_trim v \<noteq> []) (List.map_filter env (ENV_BASE_URL # ENV_OPENAI_BASE_URLS))"

definition env_model :: "environment \<Rightarrow> string option" where
  "env_model env =
     not_blank (case env ENV_MODEL of Some v \<Rightarrow> Some v | None \<Rightarrow> env ENV_OPENAI_MODEL)"

definition pick :: "string option list \<Rightarrow> string option" where
  "pick candidates = find (\<lambda>v. v \<noteq> []) (map str_trim (List.map_filter (\<lambda>v. v) candidates))"

definition normalize_base_url :: "string \<Rightarrow> string" where
  "normalize_base_url raw =
     (let trimmed = trim_end_matches (\<lambda>c. c = CHR ''/'') (str_trim raw)
      in if str_contains ''://'' trimmed then trimmed else ''http://'' @ trimmed)"

definition resolve_ai_config :: "ai_section \<Rightarrow> global_ai_settings \<Rightarrow> environment \<Rightarrow> ai_config option" where
  "resolve_ai_config manifest g env =
     (if as_provider manifest = AiNone then None
      else case pick [Some (as_base_url manifest), env_base_url env, global_base_url g] of
        None \<Rightarrow> None
      | Some base_url \<Rightarrow>
          (case pick [Some (as_model manifest), env_model env, global_model g] of
             None \<Rightarrow> None
           | Some model \<Rightarrow>
               Some \<lparr>ac_base_url = normalize_base_url base_url, ac_model = model, ac_api_key = env ENV_API_KEY\<rparr>))"

definition resolve_from_project :: "project_config \<Rightarrow> global_ai_settings \<Rightarrow> environment \<Rightarrow> ai_config option" where
  "resolve_from_project config g env = resolve_ai_config (cf_ai config) g env"

text \<open>The process environment as a lookup: a blank value counts as unset.\<close>

definition process_env :: "environment \<Rightarrow> environment" where
  "process_env env name = not_blank (env name)"

definition chat_completions_url :: "string \<Rightarrow> string" where
  "chat_completions_url base_url =
     (let base = normalize_base_url base_url
      in if ends_with ''/chat/completions'' base then base else base @ DEFAULT_CHAT_PATH)"

definition unavailable :: "string \<Rightarrow> princess_error" where
  "unavailable message = new_error AiUnavailable message"

definition not_configured :: "string \<Rightarrow> princess_error" where
  "not_configured detail =
     with_detail (unavailable ''no AI provider is configured for this project'') detail"

subsection \<open>Failures\<close>

text \<open>The cut of a text at the last character boundary not after the limit.\<close>

fun boundary_before :: "string \<Rightarrow> nat \<Rightarrow> nat" where
  "boundary_before s 0 = 0"
| "boundary_before s (Suc i) = (if char_boundary s (Suc i) then Suc i else boundary_before s i)"

definition DETAIL_LIMIT :: nat where "DETAIL_LIMIT = 2048"

definition truncate_for_detail :: "string \<Rightarrow> string" where
  "truncate_for_detail body =
     (let trimmed = str_trim body
      in if length trimmed \<le> DETAIL_LIMIT then trimmed
         else take (boundary_before trimmed DETAIL_LIMIT) trimmed @ [CHR 0xE2, CHR 0x80, CHR 0xA6] @
           '' ['' @ show_nat (length trimmed) @ '' bytes total]'')"

definition for_http_status :: "u16 \<Rightarrow> string \<Rightarrow> princess_error" where
  "for_http_status status body =
     (let snippet = truncate_for_detail body;
          n = unat status;
          http = (\<lambda>what. what @ '' (HTTP '' @ show_nat n @ '')'');
          (code, message) =
            (if n = 401 \<or> n = 403 then (AiUnavailable, http ''AI provider rejected the credentials'')
             else if n = 404 then (AiUnavailable, http ''AI provider endpoint not found'' @ ''; check `[ai].base_url`'')
             else if n = 408 then (Timeout, http ''AI provider timed out the request'')
             else if n = 429 then (AiUnavailable, http ''AI provider rate-limited the request'')
             else if 500 \<le> n \<and> n < 600 then (AiUnavailable, http ''AI provider failed server-side'')
             else (AiUnavailable, http ''AI provider returned an unexpected status''));
          err = new_error code message
      in if snippet \<noteq> [] then with_detail err snippet else err)"

definition for_transport :: "string \<Rightarrow> string \<Rightarrow> princess_error" where
  "for_transport ctx err = with_detail (new_error AiUnavailable (''AI provider is unreachable ('' @ ctx @ '')'')) err"

definition for_timeout :: "u64 \<Rightarrow> princess_error" where
  "for_timeout timeout_ms =
     new_error Timeout (''AI request exceeded its '' @ show_nat (unat timeout_ms) @ '' ms deadline'')"

definition for_cancelled :: "string \<Rightarrow> princess_error" where
  "for_cancelled request_id = new_error Cancelled (''AI request '' @ request_id @ '' was cancelled'')"

definition for_malformed :: "string \<Rightarrow> string \<Rightarrow> princess_error" where
  "for_malformed ctx err =
     with_detail (new_error AiUnavailable (''AI provider sent a reply this engine cannot parse ('' @ ctx @ '')'')) err"

text \<open>An I/O error: whether its kind is \<open>TimedOut\<close> or \<open>WouldBlock\<close>, and its text.\<close>

record io_failure =
  if_timed_out :: bool
  if_text :: string

definition for_io :: "string \<Rightarrow> io_failure \<Rightarrow> princess_error" where
  "for_io ctx err =
     (if if_timed_out err
      then with_detail (new_error Timeout (''AI provider '' @ ctx @ '' timed out'')) (if_text err)
      else for_transport ctx (if_text err))"

end
