(* ===== verification/Http.thy ===== *)
theory Http
  imports Ai_Config
begin

section \<open>The HTTP client\<close>

text \<open>
  Models \<^verbatim>\<open>crates/princess-ai/src/http.rs\<close>: URLs, the request, the response with its three
  framings, and the waits of a non-blocking socket. What the system does is a script: each call
  of \<open>read_more\<close> sees the cancellation flag, the deadline and what its reads and polls return. A
  script that ends leaves the client waiting. Positions in a chunked body are machine integers:
  their sums wrap as in a release build, and a slice out of range is a panic.
\<close>

subsection \<open>URLs\<close>

record parsed_url =
  ur_host :: string
  ur_port :: u16
  ur_target :: string
  ur_tls :: bool

definition parse_u16 :: "string \<Rightarrow> u16 option" where
  "parse_u16 s = map_option word_of_nat (parse_unsigned 10 (2 ^ 16) s)"

text \<open>The host and the port of an authority: a bracketed address, or the text before the last colon.\<close>

definition split_authority :: "string \<Rightarrow> string \<times> u16" where
  "split_authority authority =
     (case (if starts_with ''['' authority then split_once CHR '']'' authority else None) of
        Some (before, after) \<Rightarrow>
          (tl before,
           case strip_prefix '':'' after of
             None \<Rightarrow> 80
           | Some p \<Rightarrow> (case parse_u16 p of None \<Rightarrow> 80 | Some port \<Rightarrow> port))
      | None \<Rightarrow>
          (case rsplit_once CHR '':'' authority of
             Some (host, p) \<Rightarrow> (case parse_u16 p of Some port \<Rightarrow> (host, port) | None \<Rightarrow> (authority, 80))
           | None \<Rightarrow> (authority, 80)))"

definition parse_url :: "string \<Rightarrow> princess_error + parsed_url" where
  "parse_url url =
     (case split_once_str ''://'' url of
        None \<Rightarrow> Inl (with_detail
          (new_error InvalidConfig (''AI base_url is not an absolute URL: '' @ debug_str url))
          ''expected `http://host[:port]/path` (this build speaks plain HTTP only)'')
      | Some (scheme, rest) \<Rightarrow>
          let sch = map ascii_lower scheme
          in if sch \<noteq> ''http'' \<and> sch \<noteq> ''https'' then
               Inl (with_detail (new_error InvalidConfig (''unsupported AI endpoint scheme '' @ debug_str sch))
                 (''URL: '' @ url))
             else
               let (authority, target) = (case split_once CHR ''/'' rest of
                     Some (a, t) \<Rightarrow> (a, CHR ''/'' # t) | None \<Rightarrow> (rest, ''/''))
               in if authority = [] then
                    Inl (new_error InvalidConfig (''AI endpoint has no host: '' @ debug_str url))
                  else (case split_authority authority of (host, port) \<Rightarrow>
                    Inr \<lparr>ur_host = host, ur_port = port, ur_target = target, ur_tls = (sch = ''https'')\<rparr>))"

subsection \<open>The request\<close>

definition MAX_RESPONSE_BYTES :: nat where "MAX_RESPONSE_BYTES = 32 * 1024 * 1024"
definition DEFAULT_CONNECT_TIMEOUT_MS :: u64 where "DEFAULT_CONNECT_TIMEOUT_MS = 5000"

record http_request =
  hr_url :: string
  hr_method :: string
  hr_headers :: "(string \<times> string) list"
  hr_body :: string
  hr_connect_timeout_ms :: u64
  hr_budget_ms :: u64

definition post_json :: "string \<Rightarrow> string \<Rightarrow> u64 \<Rightarrow> http_request" where
  "post_json url body timeout_ms =
     \<lparr>hr_url = url, hr_method = ''POST'',
      hr_headers = [(''Content-Type'', ''application/json''), (''Accept'', ''text/event-stream'')],
      hr_body = body, hr_connect_timeout_ms = min timeout_ms DEFAULT_CONNECT_TIMEOUT_MS,
      hr_budget_ms = timeout_ms\<rparr>"

definition crlf :: string where "crlf = [CHR 0x0D, CHR 0x0A]"

definition host_header :: "parsed_url \<Rightarrow> string" where
  "host_header u = (if ur_port u = 80 then ur_host u else ur_host u @ '':'' @ show_nat (unat (ur_port u)))"

definition build_request_bytes :: "http_request \<Rightarrow> parsed_url \<Rightarrow> string" where
  "build_request_bytes r u =
     hr_method r @ '' '' @ ur_target u @ '' HTTP/1.1'' @ crlf @
     ''Host: '' @ host_header u @ crlf @
     ''Connection: close'' @ crlf @
     ''Content-Length: '' @ show_nat (length (hr_body r)) @ crlf @
     concat (map (\<lambda>(name, v). name @ '': '' @ v @ crlf) (hr_headers r)) @
     crlf @ hr_body r"

subsection \<open>Waiting\<close>

text \<open>Why an operation on the socket stopped; \<open>NetWaiting\<close> is the end of the script.\<close>

datatype net_stop = NetError princess_error | NetWaiting | NetPanic

datatype poll_result = PollTimeout | PollReady | PollInterrupted | PollFailed io_failure

record poll_step =
  ps_aborted :: bool
  ps_remaining_ms :: "nat option"
  ps_result :: poll_result

definition poll_timeout :: "nat \<Rightarrow> nat" where
  "poll_timeout remaining_ms = max 1 (min remaining_ms (2 ^ 31 - 1))"

fun wait_readable :: "http_request \<Rightarrow> string \<Rightarrow> poll_step list \<Rightarrow> net_stop + unit" where
  "wait_readable r ctx [] = Inl NetWaiting"
| "wait_readable r ctx (p # ps) =
     (if ps_aborted p then Inl (NetError (for_cancelled (hr_url r)))
      else case ps_remaining_ms p of
        None \<Rightarrow> Inl (NetError (with_detail (for_timeout (hr_budget_ms r)) (''expired while '' @ ctx)))
      | Some ms \<Rightarrow>
          (case ps_result p of
             PollTimeout \<Rightarrow> Inl (NetError (with_detail (for_timeout (hr_budget_ms r))
               (''no data within '' @ show_nat (poll_timeout ms) @ '' ms while '' @ ctx)))
           | PollReady \<Rightarrow> Inr ()
           | PollInterrupted \<Rightarrow> wait_readable r ctx ps
           | PollFailed err \<Rightarrow> Inl (NetError (for_io ctx err))))"

definition ensure_not_expired :: "http_request \<Rightarrow> string \<Rightarrow> bool \<Rightarrow> net_stop + unit" where
  "ensure_not_expired r ctx expired =
     (if expired then Inl (NetError (with_detail (for_timeout (hr_budget_ms r)) (''the deadline expired while '' @ ctx)))
      else Inr ())"

text \<open>One attempt of a read or a write on the socket: for a write, how many bytes it took.\<close>

datatype read_attempt =
    ReadGot string | ReadWouldBlock "poll_step list" | ReadInterrupted | ReadFailed io_failure

datatype write_attempt =
    Wrote nat | WriteWouldBlock "poll_step list" | WriteInterrupted | WriteFailed io_failure

record write_call =
  wc_aborted :: bool
  wc_expired :: bool
  wc_attempt :: write_attempt

fun write_all :: "http_request \<Rightarrow> string \<Rightarrow> write_call list \<Rightarrow> string \<Rightarrow> net_stop + unit" where
  "write_all r ctx calls [] = Inr ()"
| "write_all r ctx [] bytes = Inl NetWaiting"
| "write_all r ctx (c # calls) bytes =
     (if wc_aborted c then Inl (NetError (for_cancelled (hr_url r)))
      else and_then (ensure_not_expired r ctx (wc_expired c)) (\<lambda>_.
        case wc_attempt c of
          Wrote n \<Rightarrow>
            if n = 0 then Inl (NetError (for_transport ctx
              ''the provider closed the connection while the request was being sent''))
            else write_all r ctx calls (drop n bytes)
        | WriteWouldBlock ps \<Rightarrow> and_then (wait_readable r ctx ps) (\<lambda>_. write_all r ctx calls bytes)
        | WriteInterrupted \<Rightarrow> write_all r ctx calls bytes
        | WriteFailed err \<Rightarrow> Inl (NetError (for_io ctx err))))"

record read_call =
  rd_aborted :: bool
  rd_expired :: bool
  rd_attempts :: "read_attempt list"

fun read_attempts :: "http_request \<Rightarrow> string \<Rightarrow> string \<Rightarrow> read_attempt list \<Rightarrow> net_stop + string option" where
  "read_attempts r ctx buf [] = Inl NetWaiting"
| "read_attempts r ctx buf (ReadGot bytes # rest) =
     (if bytes = [] then Inr None
      else if MAX_RESPONSE_BYTES < length buf + length bytes then
        Inl (NetError (for_malformed ctx (''response exceeds the '' @ show_nat MAX_RESPONSE_BYTES @
          ''-byte ceiling this engine allows'')))
      else Inr (Some (buf @ bytes)))"
| "read_attempts r ctx buf (ReadWouldBlock ps # rest) =
     and_then (wait_readable r ctx ps) (\<lambda>_. read_attempts r ctx buf rest)"
| "read_attempts r ctx buf (ReadInterrupted # rest) = read_attempts r ctx buf rest"
| "read_attempts r ctx buf (ReadFailed err # rest) = Inl (NetError (for_io ctx err))"

text \<open>\<open>None\<close>: the peer closed the connection; otherwise the buffer with what was read.\<close>

definition read_more :: "http_request \<Rightarrow> string \<Rightarrow> read_call \<Rightarrow> string \<Rightarrow> net_stop + string option" where
  "read_more r ctx c buf =
     (if rd_aborted c then Inl (NetError (for_cancelled (hr_url r)))
      else and_then (ensure_not_expired r ctx (rd_expired c)) (\<lambda>_. read_attempts r ctx buf (rd_attempts c)))"

subsection \<open>Chunked bodies\<close>

datatype chunked_state =
    ChunkedComplete string | ChunkedNeedMore | ChunkedMalformed string | ChunkedPanic

text \<open>
  The first chunk of the rest of a body at position \<open>pos\<close>. The test for the chunk's bytes compares
  a sum that wraps at 64 bits; past it, the slice is out of range exactly when the sum wrapped.
\<close>

datatype chunk_read =
    NoSizeLine | BadSizeLine string | LastChunk | ShortChunk | WrappedChunk
  | OneChunk string string nat

definition size_of_line :: "string \<Rightarrow> nat option" where
  "size_of_line line = parse_unsigned 16 (2 ^ 64) (str_trim (hd (split_char CHR '';'' line)))"

definition chunk_step :: "nat \<Rightarrow> string \<Rightarrow> chunk_read" where
  "chunk_step pos rest =
     (case split_once_str crlf rest of
        None \<Rightarrow> NoSizeLine
      | Some (raw, after) \<Rightarrow>
          let line = from_utf8_lossy raw
          in case size_of_line line of
            None \<Rightarrow> BadSizeLine line
          | Some sz \<Rightarrow>
              let data_start = pos + length raw + 2; len = pos + length rest
              in if sz = 0 then LastChunk
                 else if len < (data_start + sz + 2) mod 2 ^ 64 then ShortChunk
                 else if 2 ^ 64 \<le> data_start + sz + 2 then WrappedChunk
                 else OneChunk (take sz after) (drop (sz + 2) after) (data_start + sz + 2))"

lemma chunk_step_shorter: "chunk_step pos rest = OneChunk data rest' pos' \<Longrightarrow> length rest' < length rest"
proof -
  assume step: "chunk_step pos rest = OneChunk data rest' pos'"
  then obtain raw after sz where s: "split_once_str crlf rest = Some (raw, after)"
      "rest' = drop (sz + 2) after"
    by (auto simp: chunk_step_def Let_def split: option.splits prod.splits if_splits)
  have "length after + 2 \<le> length rest" if "split_once_str crlf rest = Some (raw, after)" for raw after rest
    using that
  proof (induction rest arbitrary: raw)
    case (Cons c rest)
    then show ?case
      by (auto simp: crlf_def starts_with_iff split: if_splits)
  qed (simp add: crlf_def)
  from this [OF s(1)] show ?thesis by (simp add: s(2))
qed

function decode_chunked_from :: "nat \<Rightarrow> string \<Rightarrow> string \<Rightarrow> chunked_state" where
  "decode_chunked_from pos rest decoded =
     (case chunk_step pos rest of
        NoSizeLine \<Rightarrow> ChunkedNeedMore
      | BadSizeLine line \<Rightarrow> ChunkedMalformed (''bad chunk size line: '' @ debug_str line)
      | LastChunk \<Rightarrow> ChunkedComplete decoded
      | ShortChunk \<Rightarrow> ChunkedNeedMore
      | WrappedChunk \<Rightarrow> ChunkedPanic
      | OneChunk data rest' pos' \<Rightarrow> decode_chunked_from pos' rest' (decoded @ data))"
  by pat_completeness auto
termination
  by (relation "measure (\<lambda>(pos, rest, decoded). length rest)") (auto dest: chunk_step_shorter)

declare decode_chunked_from.simps [simp del]

definition decode_chunked :: "string \<Rightarrow> chunked_state" where
  "decode_chunked body = decode_chunked_from 0 body []"

text \<open>\<open>None\<close> is a panic.\<close>

function decode_partial_from :: "nat \<Rightarrow> string \<Rightarrow> string \<Rightarrow> string option" where
  "decode_partial_from pos rest decoded =
     (case chunk_step pos rest of
        OneChunk data rest' pos' \<Rightarrow> decode_partial_from pos' rest' (decoded @ data)
      | WrappedChunk \<Rightarrow> None
      | _ \<Rightarrow> Some decoded)"
  by pat_completeness auto
termination
  by (relation "measure (\<lambda>(pos, rest, decoded). length rest)") (auto dest: chunk_step_shorter)

declare decode_partial_from.simps [simp del]

definition decode_chunked_partial :: "string \<Rightarrow> string option" where
  "decode_chunked_partial body = decode_partial_from 0 body []"

subsection \<open>The response\<close>

record http_response =
  hp_status :: u16
  hp_reason :: string
  hp_headers :: "(string \<times> string) list"
  hp_body :: string

definition header_of :: "(string \<times> string) list \<Rightarrow> string \<Rightarrow> string option" where
  "header_of headers name = map_option snd (find (\<lambda>(k, v). eq_ignore_ascii_case k name) headers)"

definition body_text :: "http_response \<Rightarrow> string" where
  "body_text p = from_utf8_lossy (hp_body p)"

definition is_success :: "http_response \<Rightarrow> bool" where
  "is_success p \<longleftrightarrow> 200 \<le> hp_status p \<and> hp_status p < 300"

text \<open>\<open>splitn(3, ' ')\<close> of the status line: version, status, reason.\<close>

definition parse_status_line :: "string \<Rightarrow> princess_error + u16 \<times> string" where
  "parse_status_line line =
     (let (version, status, reason) =
        (case split_once CHR '' '' line of
           None \<Rightarrow> (line, [], [])
         | Some (v, rest) \<Rightarrow> (case split_once CHR '' '' rest of
                               None \<Rightarrow> (v, rest, []) | Some (st, r) \<Rightarrow> (v, st, r)))
      in case parse_u16 status of
           Some n \<Rightarrow>
             if starts_with ''HTTP/'' version then Inr (n, reason)
             else Inl (for_malformed ''HTTP status line'' line)
         | None \<Rightarrow> Inl (for_malformed ''HTTP status line'' line))"

definition parse_headers :: "string list \<Rightarrow> (string \<times> string) list" where
  "parse_headers ls =
     List.map_filter (\<lambda>l. case split_once CHR '':'' l of
       None \<Rightarrow> None | Some (name, v) \<Rightarrow> Some (str_trim name, str_trim v)) ls"

definition HEADER_LIMIT :: nat where "HEADER_LIMIT = 256 * 1024"

text \<open>
  A read call and the two cancellation flags as the client's callback sees them after the read.
  The header loop gives the head, the bytes after it, those flags of the last read, and the calls
  that are left.
\<close>

type_synonym client_call = "read_call \<times> bool \<times> bool"

fun header_loop ::
  "http_request \<Rightarrow> client_call list \<Rightarrow> bool \<times> bool \<Rightarrow> string \<Rightarrow> net_stop + string \<times> string \<times> (bool \<times> bool) \<times> client_call list" where
  "header_loop r calls flag buf =
     (case split_once_str (crlf @ crlf) buf of
        Some (head, after) \<Rightarrow> Inr (head, after, flag, calls)
      | None \<Rightarrow>
          if HEADER_LIMIT < length buf then
            Inl (NetError (for_malformed ''response headers'' ''header block exceeds 256 KiB''))
          else (case calls of
            [] \<Rightarrow> Inl NetWaiting
          | (c, fl) # cs \<Rightarrow>
              and_then (read_more r ''reading the response headers'' c buf) (\<lambda>got.
                case got of
                  None \<Rightarrow> Inl (NetError (for_transport ''reading the response headers''
                    ''the provider closed the connection before sending a complete response''))
                | Some buf' \<Rightarrow> header_loop r cs fl buf')))"

declare header_loop.simps [simp del]

type_synonym 't on_body = "bool \<times> bool \<Rightarrow> string \<Rightarrow> ('t, princess_error, unit) op"

text \<open>
  The next read of a body: what to do when the peer closed, and the callback with the bytes the
  read added.
\<close>

definition next_read ::
  "http_request \<Rightarrow> 't on_body \<Rightarrow> client_call \<Rightarrow> string \<Rightarrow> 't \<Rightarrow> 't \<times> (net_stop + string option)" where
  "next_read r on_body c body t =
     (case read_more r ''reading the response body'' (fst c) body of
        Inl e \<Rightarrow> (t, Inl e)
      | Inr None \<Rightarrow> (t, Inr None)
      | Inr (Some body') \<Rightarrow>
          (case on_body (snd c) (drop (length body) body') t of
             (t', Inl e) \<Rightarrow> (t', Inl (NetError e))
           | (t', Inr _) \<Rightarrow> (t', Inr (Some body'))))"

fun chunked_loop :: "http_request \<Rightarrow> 't on_body \<Rightarrow> client_call list \<Rightarrow> string \<Rightarrow> 't \<Rightarrow> 't \<times> (net_stop + string)" where
  "chunked_loop r on_body calls body t =
     (case decode_chunked body of
        ChunkedComplete decoded \<Rightarrow> (t, Inr decoded)
      | ChunkedMalformed detail \<Rightarrow> (t, Inl (NetError (for_malformed ''chunked response body'' detail)))
      | ChunkedPanic \<Rightarrow> (t, Inl NetPanic)
      | ChunkedNeedMore \<Rightarrow>
          (case calls of
             [] \<Rightarrow> (t, Inl NetWaiting)
           | c # cs \<Rightarrow>
               (case next_read r on_body c body t of
                  (t', Inl e) \<Rightarrow> (t', Inl e)
                | (t', Inr None) \<Rightarrow>
                    (t', case decode_chunked_partial body of None \<Rightarrow> Inl NetPanic | Some d \<Rightarrow> Inr d)
                | (t', Inr (Some body')) \<Rightarrow> chunked_loop r on_body cs body' t')))"

fun length_loop :: "http_request \<Rightarrow> 't on_body \<Rightarrow> nat \<Rightarrow> client_call list \<Rightarrow> string \<Rightarrow> 't \<Rightarrow> 't \<times> (net_stop + string)" where
  "length_loop r on_body len calls body t =
     (if len \<le> length body then (t, Inr (take len body))
      else case calls of
        [] \<Rightarrow> (t, Inl NetWaiting)
      | c # cs \<Rightarrow>
          (case next_read r on_body c body t of
             (t', Inl e) \<Rightarrow> (t', Inl e)
           | (t', Inr None) \<Rightarrow>
               (t', Inl (NetError (for_transport ''reading the response body''
                  (''stream ended after '' @ show_nat (length body) @ '' of '' @ show_nat len @ '' declared bytes''))))
           | (t', Inr (Some body')) \<Rightarrow> length_loop r on_body len cs body' t'))"

fun eof_loop :: "http_request \<Rightarrow> 't on_body \<Rightarrow> client_call list \<Rightarrow> string \<Rightarrow> 't \<Rightarrow> 't \<times> (net_stop + string)" where
  "eof_loop r on_body [] body t = (t, Inl NetWaiting)"
| "eof_loop r on_body (c # cs) body t =
     (case next_read r on_body c body t of
        (t', Inl e) \<Rightarrow> (t', Inl e)
      | (t', Inr None) \<Rightarrow> (t', Inr body)
      | (t', Inr (Some body')) \<Rightarrow> eof_loop r on_body cs body' t')"

declare chunked_loop.simps [simp del] length_loop.simps [simp del]

definition is_chunked :: "(string \<times> string) list \<Rightarrow> bool" where
  "is_chunked headers =
     (case header_of headers ''Transfer-Encoding'' of
        None \<Rightarrow> False | Some v \<Rightarrow> str_contains ''chunked'' (map ascii_lower v))"

definition declared_length :: "(string \<times> string) list \<Rightarrow> nat option" where
  "declared_length headers =
     (case header_of headers ''Content-Length'' of
        None \<Rightarrow> None | Some v \<Rightarrow> parse_unsigned 10 (2 ^ 64) (str_trim v))"

definition read_body ::
  "http_request \<Rightarrow> 't on_body \<Rightarrow> (string \<times> string) list \<Rightarrow> client_call list \<Rightarrow> string \<Rightarrow> 't \<Rightarrow> 't \<times> (net_stop + string)" where
  "read_body r on_body headers calls body t =
     (if is_chunked headers then chunked_loop r on_body calls body t
      else case declared_length headers of
        Some len \<Rightarrow> length_loop r on_body len calls body t
      | None \<Rightarrow> eof_loop r on_body calls body t)"

definition check_encoding :: "(string \<times> string) list \<Rightarrow> princess_error + unit" where
  "check_encoding headers =
     (case header_of headers ''Content-Encoding'' of
        None \<Rightarrow> Inr ()
      | Some v \<Rightarrow>
          let encoding = map ascii_lower (str_trim v)
          in if encoding \<noteq> ''identity'' then
               Inl (with_detail (new_error AiUnavailable (''AI provider used an unsupported Content-Encoding: '' @ encoding))
                 ''this build speaks uncompressed HTTP only'')
             else Inr ())"

definition read_response ::
  "http_request \<Rightarrow> 't on_body \<Rightarrow> client_call list \<Rightarrow> 't \<Rightarrow> 't \<times> (net_stop + http_response)" where
  "read_response r on_body calls t =
     (case header_loop r calls (False, False) [] of
        Inl e \<Rightarrow> (t, Inl e)
      | Inr (raw, body, flag, rest) \<Rightarrow>
          let ls = split_crlf (from_utf8_lossy raw)
          in case parse_status_line (hd ls) of
               Inl e \<Rightarrow> (t, Inl (NetError e))
             | Inr (status, reason) \<Rightarrow>
                 let headers = parse_headers (tl ls)
                 in case check_encoding headers of
                      Inl e \<Rightarrow> (t, Inl (NetError e))
                    | Inr _ \<Rightarrow>
                        (case (if body = [] then (t, Inr ()) else on_body flag body t) of
                           (t', Inl e) \<Rightarrow> (t', Inl (NetError e))
                         | (t', Inr _) \<Rightarrow>
                             (case read_body r on_body headers rest body t' of
                                (t'', Inl e) \<Rightarrow> (t'', Inl e)
                              | (t'', Inr b) \<Rightarrow>
                                  (t'', Inr \<lparr>hp_status = status, hp_reason = reason, hp_headers = headers, hp_body = b\<rparr>))))"

subsection \<open>An exchange\<close>

text \<open>
  Addresses: whether IPv4, and the printed address. What resolving, connecting and setting up the
  socket give, the writes, and the reads.
\<close>

record connection =
  cn_resolved :: "string + (bool \<times> string) list"
  cn_connect :: "bool \<times> string \<Rightarrow> string + unit"
  cn_setup :: "io_failure + unit"
  cn_writes :: "write_call list"
  cn_reads :: "client_call list"

definition resolve_host :: "connection \<Rightarrow> http_request \<Rightarrow> parsed_url \<Rightarrow> princess_error + bool \<times> string" where
  "resolve_host cn r u =
     (let resolving = ''resolving '' @ ur_host u
      in case cn_resolved cn of
        Inl err \<Rightarrow> Inl (for_transport resolving err)
      | Inr addrs \<Rightarrow>
          (case find fst addrs of
             Some a \<Rightarrow> Inr a
           | None \<Rightarrow>
               if addrs = [] then
                 Inl (with_detail (for_transport resolving (''no address for '' @ ur_host u)) (hr_url r))
               else Inr (last addrs)))"

definition connect_stream :: "connection \<Rightarrow> http_request \<Rightarrow> net_stop + unit" where
  "connect_stream cn r =
     and_then (map_err NetError (parse_url (hr_url r))) (\<lambda>u.
       if ur_tls u then
         Inl (NetError (with_detail (new_error AiUnavailable ''this build cannot speak HTTPS to an AI provider'')
           (hr_url r @ '' '' @ [CHR 0xE2, CHR 0x80, CHR 0x94] @
            '' link a TLS client and re-point this crate's transport, or use a local http endpoint'')))
       else and_then (map_err NetError (resolve_host cn r u)) (\<lambda>a.
         and_then (map_err (\<lambda>e. NetError (for_transport (''connecting to '' @ snd a) e)) (cn_connect cn a)) (\<lambda>_.
         and_then (map_err (\<lambda>e. NetError (for_io ''socket setup'' e)) (cn_setup cn)) (\<lambda>_.
           write_all r ''writing the request'' (cn_writes cn) (build_request_bytes r u)))))"

definition http_execute :: "connection \<Rightarrow> http_request \<Rightarrow> net_stop + http_response" where
  "http_execute cn r =
     and_then (connect_stream cn r) (\<lambda>_. snd (read_response r (\<lambda>_ _. give ()) (cn_reads cn) ()))"

subsection \<open>Facts: chunked bodies\<close>

definition encode_chunk :: "string \<Rightarrow> string" where
  "encode_chunk d = show_hex (length d) @ crlf @ d @ crlf"

definition encode_chunks :: "string list \<Rightarrow> string" where
  "encode_chunks ds = concat (map encode_chunk ds) @ ''0'' @ crlf @ crlf"

lemma show_hex_clean: "c \<in> set (show_hex n) \<Longrightarrow> ascii_graphic c \<and> c \<noteq> CHR '';'' \<and> c \<noteq> CHR 0x0D \<and> byte_of c < 128"
proof -
  assume "c \<in> set (show_hex n)"
  then obtain d where d: "d < 16" "c = digit_char d" using show_hex_chars by blast
  then have "ascii_graphic c" by (simp add: digit_char_graphic)
  moreover have "byte_of c \<noteq> 59" using byte_of_digit_char [OF d(1)] d(2) by (auto split: if_splits)
  ultimately show ?thesis by (auto simp: ascii_graphic_def byte_of_def)
qed

lemma split_crlf_line:
  "CHR 0x0D \<notin> set a \<Longrightarrow> split_once_str crlf (a @ crlf @ b) = Some (a, b)"
proof (rule split_once_str_first, intro allI impI)
  fix t assume a: "CHR 0x0D \<notin> set a" and t: "t < length a"
  then have "drop t (a @ crlf @ b) = a ! t # drop (Suc t) (a @ crlf @ b)"
    by (simp add: Cons_nth_drop_Suc [symmetric] nth_append)
  moreover have "a ! t \<noteq> CHR 0x0D" using a t by (metis nth_mem)
  ultimately show "\<not> starts_with crlf (drop t (a @ crlf @ b))"
    by (simp add: crlf_def)
qed

lemma no_crlf: "CHR 0x0D \<notin> set a \<Longrightarrow> split_once_str crlf a = None" "CHR 0x0D \<notin> set a \<Longrightarrow> split_once_str crlf (a @ [CHR 0x0D]) = None"
  by (induction a) (auto simp: crlf_def)

lemma size_line:
  assumes "n < 2 ^ 64"
  shows "from_utf8_lossy (show_hex n) = show_hex n" "size_of_line (show_hex n) = Some n" "CHR 0x0D \<notin> set (show_hex n)"
proof -
  show "from_utf8_lossy (show_hex n) = show_hex n"
    using show_hex_clean by (intro from_utf8_lossy_valid valid_utf8_ascii) blast
  have ne: "show_hex n \<noteq> []" by (simp add: show_hex_def)
  have "split_char CHR '';'' (show_hex n) = [show_hex n]"
    using show_hex_clean by (intro split_char_none) blast
  moreover have "str_trim (show_hex n) = show_hex n"
    using show_hex_clean [OF hd_in_set [OF ne]] show_hex_clean [OF last_in_set [OF ne]] ne
    by (intro str_trim_graphic(3)) blast+
  ultimately show "size_of_line (show_hex n) = Some n"
    using parse_show_hex [OF assms] by (simp add: size_of_line_def radix16_u64_def)
  show "CHR 0x0D \<notin> set (show_hex n)"
    using show_hex_clean by blast
qed

text \<open>A whole chunk, and what a body that ends inside one looks like.\<close>

lemma chunk_step_whole:
  assumes "d \<noteq> []" "pos + length (encode_chunk d @ rest) < 2 ^ 64"
  shows "chunk_step pos (encode_chunk d @ rest) = OneChunk d rest (pos + length (encode_chunk d))"
proof -
  have "length d < 2 ^ 64" using assms(2) by (simp add: encode_chunk_def)
  note l = size_line [OF this]
  have "encode_chunk d @ rest = show_hex (length d) @ crlf @ (d @ crlf @ rest)"
    by (simp add: encode_chunk_def)
  moreover have "length crlf = 2" by (simp add: crlf_def)
  ultimately show ?thesis
    using assms
    by (simp add: chunk_step_def split_crlf_line [OF l(3)] l(1,2) Let_def encode_chunk_def)
qed

lemma show_hex_0: "show_hex 0 = ''0''"
  by code_simp

lemma chunk_step_last: "chunk_step pos (''0'' @ crlf @ rest) = LastChunk"
proof -
  have "split_once_str crlf (''0'' @ crlf @ rest) = Some (''0'', rest)"
    by (rule split_crlf_line) simp
  moreover have "from_utf8_lossy ''0'' = ''0''" "size_of_line ''0'' = Some 0"
    using size_line [of 0] show_hex_0 by simp_all
  ultimately show ?thesis by (simp add: chunk_step_def)
qed

lemma chunk_step_prefix:
  assumes "d \<noteq> []" "n < length (encode_chunk d)" "pos + length (encode_chunk d) < 2 ^ 64"
  shows "chunk_step pos (take n (encode_chunk d)) \<in> {NoSizeLine, ShortChunk}"
proof -
  have "length d < 2 ^ 64" using assms(3) by (simp add: encode_chunk_def)
  note l = size_line [OF this]
  let ?h = "show_hex (length d)"
  have two: "length crlf = 2" by (simp add: crlf_def)
  show ?thesis
  proof (cases "n < length ?h + 2")
    case True
    have "split_once_str crlf (take n (encode_chunk d)) = None"
    proof (cases "n \<le> length ?h")
      case True
      then have "CHR 0x0D \<notin> set (take n (encode_chunk d))"
        using l(3) by (auto simp: encode_chunk_def dest: in_set_takeD)
      then show ?thesis by (rule no_crlf)
    next
      case False
      then have "n = length ?h + 1" using True by simp
      then have "take n (encode_chunk d) = ?h @ [CHR 0x0D]" by (simp add: encode_chunk_def crlf_def)
      then show ?thesis using no_crlf(2) [OF l(3)] by simp
    qed
    then show ?thesis by (simp add: chunk_step_def)
  next
    case False
    then have "take n (encode_chunk d) = ?h @ crlf @ take (n - length ?h - 2) (d @ crlf)"
      by (simp add: encode_chunk_def two)
    moreover from False assms(2) have "length (take n (encode_chunk d)) = n" by simp
    ultimately show ?thesis
      using assms(1,2,3) False
      by (simp add: chunk_step_def split_crlf_line [OF l(3)] l(1,2) Let_def encode_chunk_def two)
  qed
qed


lemma encode_chunks_Cons: "encode_chunks (d # ds) = encode_chunk d @ encode_chunks ds"
  by (simp add: encode_chunks_def)

lemma decode_pieces:
  "[] \<notin> set ds \<Longrightarrow> pos + length (concat (map encode_chunk ds) @ ''0'' @ crlf @ extra) < 2 ^ 64 \<Longrightarrow>
     decode_chunked_from pos (concat (map encode_chunk ds) @ ''0'' @ crlf @ extra) acc = ChunkedComplete (acc @ concat ds)"
proof (induction ds arbitrary: pos acc)
  case Nil
  then show ?case
    using chunk_step_last [of pos extra] by (subst decode_chunked_from.simps) simp
next
  case (Cons d ds)
  let ?rest = "concat (map encode_chunk ds) @ ''0'' @ crlf @ extra"
  have "chunk_step pos (encode_chunk d @ ?rest) = OneChunk d ?rest (pos + length (encode_chunk d))"
    using Cons.prems by (intro chunk_step_whole) auto
  moreover have "decode_chunked_from (pos + length (encode_chunk d)) ?rest (acc @ d) = ChunkedComplete ((acc @ d) @ concat ds)"
    using Cons.prems by (intro Cons.IH) (auto simp: add.assoc)
  ultimately show ?case
    by (subst decode_chunked_from.simps) simp
qed

lemma decode_chunks:
  "[] \<notin> set ds \<Longrightarrow> length (encode_chunks ds @ extra) < 2 ^ 64 \<Longrightarrow>
     decode_chunked (encode_chunks ds @ extra) = ChunkedComplete (concat ds)"
  using decode_pieces [of ds 0 "crlf @ extra" "[]"] by (simp add: encode_chunks_def decode_chunked_def)

definition chunks_length :: "string list \<Rightarrow> nat" where
  "chunks_length ds = length (concat (map encode_chunk ds))"

lemma zero_prefix: "n < 3 \<Longrightarrow> chunk_step pos (take n (''0'' @ crlf @ crlf)) = NoSizeLine"
proof -
  assume "n < 3"
  then consider "n = 0" | "n = 1" | "n = 2" by linarith
  then show ?thesis
    by cases (simp_all add: chunk_step_def crlf_def numeral_eq_Suc)
qed

lemma decode_prefix:
  "[] \<notin> set ds \<Longrightarrow> pos + length (encode_chunks ds) < 2 ^ 64 \<Longrightarrow> n < chunks_length ds + 3 \<Longrightarrow>
     decode_chunked_from pos (take n (encode_chunks ds)) acc = ChunkedNeedMore \<and>
     (\<exists>k \<le> length ds. decode_partial_from pos (take n (encode_chunks ds)) acc = Some (acc @ concat (take k ds)))"
proof (induction ds arbitrary: pos acc n)
  case Nil
  then have "chunk_step pos (take n (encode_chunks [])) = NoSizeLine"
    using zero_prefix [of n pos] by (simp add: encode_chunks_def chunks_length_def)
  then show ?case
    by (subst decode_chunked_from.simps, subst decode_partial_from.simps) simp
next
  case (Cons d ds)
  show ?case
  proof (cases "n < length (encode_chunk d)")
    case True
    then have t: "take n (encode_chunks (d # ds)) = take n (encode_chunk d)"
      by (simp add: encode_chunks_Cons)
    have "chunk_step pos (take n (encode_chunk d)) \<in> {NoSizeLine, ShortChunk}"
      using Cons.prems True by (intro chunk_step_prefix) (auto simp: encode_chunks_Cons)
    then show ?thesis
      unfolding t
      by (subst decode_chunked_from.simps, subst decode_partial_from.simps) (auto intro!: exI [of _ 0])
  next
    case False
    let ?m = "n - length (encode_chunk d)" and ?p = "pos + length (encode_chunk d)"
    have t: "take n (encode_chunks (d # ds)) = encode_chunk d @ take ?m (encode_chunks ds)"
      using False by (simp add: encode_chunks_Cons)
    have step: "chunk_step pos (encode_chunk d @ take ?m (encode_chunks ds)) = OneChunk d (take ?m (encode_chunks ds)) ?p"
      using Cons.prems by (intro chunk_step_whole) (auto simp: encode_chunks_Cons)
    have "decode_chunked_from ?p (take ?m (encode_chunks ds)) (acc @ d) = ChunkedNeedMore \<and>
      (\<exists>k \<le> length ds. decode_partial_from ?p (take ?m (encode_chunks ds)) (acc @ d) = Some ((acc @ d) @ concat (take k ds)))"
      using Cons.prems False by (intro Cons.IH) (auto simp: encode_chunks_Cons chunks_length_def)
    then obtain k where k: "k \<le> length ds"
        "decode_chunked_from ?p (take ?m (encode_chunks ds)) (acc @ d) = ChunkedNeedMore"
        "decode_partial_from ?p (take ?m (encode_chunks ds)) (acc @ d) = Some ((acc @ d) @ concat (take k ds))"
      by blast
    show ?thesis
      unfolding t
      by (subst decode_chunked_from.simps, subst decode_partial_from.simps)
        (use k in \<open>auto simp: step intro!: exI [of _ "Suc k"]\<close>)
  qed
qed

lemma huge_size: "size_of_line ''ffffffffffffffff'' = Some (2 ^ 64 - 1)"
proof -
  have "str_trim ''ffffffffffffffff'' = ''ffffffffffffffff''"
    by (intro str_trim_graphic(3)) (simp_all add: ascii_graphic_def byte_of_def)
  then show ?thesis
    by (simp add: size_of_line_def parse_unsigned_def to_digit_def byte_of_def)
qed

lemma huge_chunk_panics: "decode_chunked (''ffffffffffffffff'' @ crlf @ ''x'') = ChunkedPanic"
proof -
  have "split_once_str crlf (''ffffffffffffffff'' @ crlf @ ''x'') = Some (''ffffffffffffffff'', ''x'')"
    by (rule split_crlf_line) simp
  moreover have "from_utf8_lossy ''ffffffffffffffff'' = ''ffffffffffffffff''"
    by (rule from_utf8_lossy_valid [OF valid_utf8_ascii]) (simp add: byte_of_def)
  ultimately have "chunk_step 0 (''ffffffffffffffff'' @ crlf @ ''x'') = WrappedChunk"
    using huge_size by (simp add: chunk_step_def Let_def crlf_def)
  then show ?thesis unfolding decode_chunked_def by (subst decode_chunked_from.simps) simp
qed

text \<open>
  The chunked transfer coding: a body encoded from any non-empty pieces decodes to exactly
  their concatenation, whatever follows; every shorter prefix of it asks for more, and if the
  transfer ends there the partial decoder gives whole leading pieces only. But the size line is
  trusted: a size near \<open>2^64\<close> wraps the test for the chunk's bytes and the slice after it panics,
  so any provider can take the engine's thread down.
\<close>

lemma chunked_coding:
  assumes "[] \<notin> set ds" "length (encode_chunks ds @ extra) < 2 ^ 64"
  shows "decode_chunked (encode_chunks ds @ extra) = ChunkedComplete (concat ds) \<and>
    (\<forall>n < chunks_length ds + 3.
       decode_chunked (take n (encode_chunks ds)) = ChunkedNeedMore \<and>
       (\<exists>k \<le> length ds. decode_chunked_partial (take n (encode_chunks ds)) = Some (concat (take k ds)))) \<and>
    decode_chunked (''ffffffffffffffff'' @ crlf @ ''x'') = ChunkedPanic"
  using assms decode_chunks [of ds extra] decode_prefix [of ds 0 _ "[]"] huge_chunk_panics
  by (simp add: decode_chunked_def decode_chunked_partial_def)

theorem chunked_coding_witness:
  "decode_chunked (encode_chunks [''hello'', '' world'']) = ChunkedComplete ''hello world'' \<and>
   decode_chunked (take 7 (encode_chunks [''hello'', '' world''])) = ChunkedNeedMore"
proof -
  have l: "encode_chunk ''hello'' = ''5'' @ crlf @ ''hello'' @ crlf" "encode_chunk '' world'' = ''6'' @ crlf @ '' world'' @ crlf"
    by code_simp+
  have e: "encode_chunks [''hello'', '' world''] =
      ''5'' @ crlf @ ''hello'' @ crlf @ ''6'' @ crlf @ '' world'' @ crlf @ ''0'' @ crlf @ crlf"
    by (simp add: encode_chunks_def l)
  have n: "chunks_length [''hello'', '' world''] = 21"
    by (simp add: chunks_length_def l crlf_def)
  have ok: "[] \<notin> set [''hello'', '' world'']" "length (encode_chunks [''hello'', '' world''] @ []) < 2 ^ 64"
    by (simp_all add: e crlf_def)
  note whole = chunked_coding [OF ok, THEN conjunct1]
  have "decode_chunked (take 7 (encode_chunks [''hello'', '' world''])) = ChunkedNeedMore"
    using chunked_coding [OF ok, THEN conjunct2, THEN conjunct1, rule_format, of 7] n by simp
  with whole show ?thesis by simp
qed

subsection \<open>Facts: the response however it is cut\<close>

lemma starts_with_append: "starts_with p s \<Longrightarrow> starts_with p (s @ t)"
  by (auto simp: starts_with_iff)

lemma starts_with_short: "starts_with p (s @ t) \<Longrightarrow> length p \<le> length s \<Longrightarrow> starts_with p s"
  by (auto simp: starts_with_iff append_eq_append_conv2)

lemma split_once_str_length: "split_once_str p s = Some (a, b) \<Longrightarrow> length s = length a + length p + length b"
proof (induction s arbitrary: a)
  case (Cons c s)
  show ?case
  proof (cases "starts_with p (c # s)")
    case True
    then have "length p \<le> length (c # s)" by (metis length_append le_add1 starts_with_iff)
    with True Cons.prems show ?thesis by auto
  qed (use Cons in \<open>auto split: prod.splits\<close>)
qed (auto split: if_splits)

lemma split_once_str_mono:
  "p \<noteq> [] \<Longrightarrow> split_once_str p s = Some (a, b) \<Longrightarrow> split_once_str p (s @ t) = Some (a, b @ t)"
proof (induction s arbitrary: a)
  case (Cons c s)
  have len: "length p \<le> length (c # s)"
    using split_once_str_length [OF Cons.prems(2)] by simp
  show ?case
  proof (cases "starts_with p (c # s)")
    case True
    then have "starts_with p (c # s @ t)" using starts_with_append [of p "c # s" t] by simp
    with True Cons.prems len show ?thesis by (cases p) auto
  next
    case False
    then have "\<not> starts_with p (c # s @ t)" using starts_with_short [of p "c # s" t] len by auto
    with False Cons show ?thesis by (auto split: prod.splits)
  qed
qed simp

lemma split_once_str_within:
  "split_once_str p (s @ t) = Some (a, b) \<Longrightarrow> length a + length p \<le> length s \<Longrightarrow> p \<noteq> [] \<Longrightarrow> split_once_str p s \<noteq> None"
proof (induction s arbitrary: a)
  case (Cons c s)
  show ?case
  proof (cases "starts_with p (c # s)")
    case False
    show ?thesis
    proof (cases "starts_with p (c # s @ t)")
      case True
      then have "starts_with p (c # s)"
        using starts_with_short [of p "c # s" t] Cons.prems by auto
      with False show ?thesis by simp
    next
      case False
      then obtain a' where "split_once_str p (s @ t) = Some (a', b)" "a = c # a'"
        using Cons.prems(1) by (auto split: prod.splits)
      with Cons.IH [of a'] Cons.prems show ?thesis by auto
    qed
  qed simp
qed simp

text \<open>A read that gives one piece, and the one that finds the connection closed.\<close>

definition clean_read :: "bool \<times> bool \<Rightarrow> string \<Rightarrow> client_call" where
  "clean_read fl piece = (\<lparr>rd_aborted = False, rd_expired = False, rd_attempts = [ReadGot piece]\<rparr>, fl)"

lemma read_more_clean:
  "piece \<noteq> [] \<Longrightarrow> length buf + length piece \<le> MAX_RESPONSE_BYTES \<Longrightarrow>
     read_more r ctx (fst (clean_read fl piece)) buf = Inr (Some (buf @ piece))"
  "read_more r ctx (fst (clean_read fl [])) buf = Inr None"
  by (simp_all add: read_more_def clean_read_def ensure_not_expired_def)

lemma clean_read_flags [simp]: "snd (clean_read fl piece) = fl"
  by (simp add: clean_read_def)

definition head_end :: string where "head_end = crlf @ crlf"

lemma head_end_length [simp]: "length head_end = 4" "head_end \<noteq> []"
  by (simp_all add: head_end_def crlf_def)

lemma header_loop_cut:
  assumes "split_once_str head_end (buf @ concat ps) = Some (head, after)" "[] \<notin> set ps"
    "length head + 4 \<le> HEADER_LIMIT" "length (buf @ concat ps) \<le> MAX_RESPONSE_BYTES"
    "fl' = fl \<or> split_once_str head_end buf = None"
  shows "\<exists>b rs. header_loop r (map (clean_read fl) ps @ cs) fl' buf = Inr (head, b, fl, map (clean_read fl) rs @ cs) \<and>
    b @ concat rs = after \<and> [] \<notin> set rs"
  using assms
proof (induction ps arbitrary: buf fl')
  case Nil
  then show ?case
    by (intro exI [of _ after] exI [of _ "[]"]) (subst header_loop.simps, auto simp: head_end_def)
next
  case (Cons p ps)
  show ?case
  proof (cases "split_once_str head_end buf")
    case None
    have "length buf \<le> HEADER_LIMIT"
    proof (rule ccontr)
      assume "\<not> length buf \<le> HEADER_LIMIT"
      then have long: "length head + 4 \<le> length buf" using Cons.prems(3) by simp
      have "split_once_str head_end (buf @ concat (p # ps)) = Some (head, after)" using Cons.prems(1) .
      from split_once_str_within [OF this] long show False by (simp add: None)
    qed
    have more: "read_more r ''reading the response headers'' (fst (clean_read fl p)) buf = Inr (Some (buf @ p))"
      using Cons.prems by (intro read_more_clean) auto
    have "\<exists>b rs. header_loop r (map (clean_read fl) ps @ cs) fl (buf @ p) = Inr (head, b, fl, map (clean_read fl) rs @ cs) \<and>
        b @ concat rs = after \<and> [] \<notin> set rs"
      using Cons.prems by (intro Cons.IH) auto
    then obtain b rs where "header_loop r (map (clean_read fl) ps @ cs) fl (buf @ p) = Inr (head, b, fl, map (clean_read fl) rs @ cs)"
        "b @ concat rs = after" "[] \<notin> set rs" by blast
    then show ?thesis
      using None more \<open>length buf \<le> HEADER_LIMIT\<close>
      by (intro exI [of _ b] exI [of _ rs]) (subst header_loop.simps, simp add: head_end_def clean_read_def)
  next
    case (Some hb)
    then obtain h b where hb: "split_once_str head_end buf = Some (h, b)" by (cases hb) auto
    have "split_once_str head_end (buf @ concat (p # ps)) = Some (h, b @ concat (p # ps))"
      using hb by (rule split_once_str_mono [rotated]) (simp add: head_end_def crlf_def)
    with Cons.prems(1) have h: "h = head" "after = b @ concat (p # ps)" by auto
    have "fl' = fl" using Cons.prems(5) hb by simp
    then show ?thesis
      using hb h Cons.prems(2)
      by (intro exI [of _ b] exI [of _ "p # ps"]) (subst header_loop.simps, auto simp: head_end_def)
  qed
qed


text \<open>The client's callback as a tee: it keeps every byte it is given.\<close>

definition tee_body :: "string on_body" where
  "tee_body fl bytes t = (t @ bytes, Inr ())"

lemma next_read_clean:
  "p \<noteq> [] \<Longrightarrow> length buf + length p \<le> MAX_RESPONSE_BYTES \<Longrightarrow>
     next_read r tee_body (clean_read fl p) buf t = (t @ p, Inr (Some (buf @ p)))"
  "next_read r tee_body (clean_read fl []) buf t = (t, Inr None)"
  by (simp_all add: next_read_def read_more_clean tee_body_def)

lemma length_loop_cut:
  "[] \<notin> set ps \<Longrightarrow> length (buf @ concat ps) \<le> MAX_RESPONSE_BYTES \<Longrightarrow> len = length (buf @ concat ps) \<Longrightarrow>
     length_loop r tee_body len (map (clean_read fl) ps @ cs) buf t = (t @ concat ps, Inr (buf @ concat ps))"
proof (induction ps arbitrary: buf t)
  case Nil
  then show ?case by (subst length_loop.simps) simp
next
  case (Cons p ps)
  then have "p \<noteq> []" by auto
  with Cons show ?case by (subst length_loop.simps) (auto simp: next_read_clean)
qed

lemma eof_loop_cut:
  "[] \<notin> set ps \<Longrightarrow> length (buf @ concat ps) \<le> MAX_RESPONSE_BYTES \<Longrightarrow>
     eof_loop r tee_body (map (clean_read fl) ps @ [clean_read fl []]) buf t = (t @ concat ps, Inr (buf @ concat ps))"
proof (induction ps arbitrary: buf t)
  case (Cons p ps)
  then have "p \<noteq> []" by auto
  with Cons show ?case by (simp add: next_read_clean)
qed (simp add: next_read_clean)

lemma decode_cut:
  assumes "[] \<notin> set ds" "buf @ rest = encode_chunks ds" "length (encode_chunks ds) < 2 ^ 64"
  shows "decode_chunked buf = ChunkedComplete (concat ds) \<or> decode_chunked buf = ChunkedNeedMore \<and> rest \<noteq> []"
proof (cases "length buf < chunks_length ds + 3")
  case True
  have "buf = take (length buf) (encode_chunks ds)" using assms(2) by (metis append_eq_conv_conj)
  then have "decode_chunked buf = ChunkedNeedMore"
    using decode_prefix [of ds 0 "length buf" "[]"] assms(1,3) True by (simp add: decode_chunked_def)
  moreover have "rest \<noteq> []"
    using True assms(2) by (auto simp: encode_chunks_def chunks_length_def crlf_def)
  ultimately show ?thesis by simp
next
  case False
  let ?whole = "concat (map encode_chunk ds) @ ''0'' @ crlf"
  have len: "length ?whole \<le> length buf"
    using False by (simp add: chunks_length_def crlf_def)
  have "buf @ rest = ?whole @ crlf" using assms(2) by (simp add: encode_chunks_def)
  then have "take (length ?whole) buf = ?whole"
    using len by (metis append_eq_conv_conj diff_is_0_eq' take0 take_append append_Nil2)
  then obtain x where "buf = ?whole @ x" by (metis append_take_drop_id)
  then have "buf = concat (map encode_chunk ds) @ ''0'' @ crlf @ x" by simp
  moreover have "length buf < 2 ^ 64" using assms(2,3) by (metis length_append add_lessD1)
  ultimately show ?thesis
    using decode_pieces [of ds 0 x "[]"] assms(1) by (simp add: decode_chunked_def)
qed

lemma chunked_loop_cut:
  "[] \<notin> set ds \<Longrightarrow> [] \<notin> set ps \<Longrightarrow> buf @ concat ps = encode_chunks ds \<Longrightarrow>
     length (encode_chunks ds) \<le> MAX_RESPONSE_BYTES \<Longrightarrow>
     \<exists>n. chunked_loop r tee_body (map (clean_read fl) ps @ cs) buf t = (t @ take n (concat ps), Inr (concat ds))"
proof (induction ps arbitrary: buf t)
  case Nil
  then have "decode_chunked buf = ChunkedComplete (concat ds)"
    using decode_cut [of ds buf "[]"] by (simp add: MAX_RESPONSE_BYTES_def)
  then show ?case by (subst chunked_loop.simps) simp
next
  case (Cons p ps)
  have "decode_chunked buf = ChunkedComplete (concat ds) \<or> decode_chunked buf = ChunkedNeedMore"
    using decode_cut [of ds buf "concat (p # ps)"] Cons.prems by (auto simp: MAX_RESPONSE_BYTES_def)
  then show ?case
  proof
    assume "decode_chunked buf = ChunkedComplete (concat ds)"
    then show ?thesis by (intro exI [of _ 0]) (subst chunked_loop.simps, simp)
  next
    assume need: "decode_chunked buf = ChunkedNeedMore"
    obtain n where "chunked_loop r tee_body (map (clean_read fl) ps @ cs) (buf @ p) (t @ p) = ((t @ p) @ take n (concat ps), Inr (concat ds))"
      using Cons.IH [of "buf @ p" "t @ p"] Cons.prems by auto
    moreover have "length buf + length p \<le> MAX_RESPONSE_BYTES"
      using Cons.prems(3,4) by (metis append.assoc concat.simps(2) length_append add_leD1)
    then have "next_read r tee_body (clean_read fl p) buf t = (t @ p, Inr (Some (buf @ p)))"
      using Cons.prems(2) by (intro next_read_clean) auto
    ultimately show ?thesis
      using need by (intro exI [of _ "length p + n"]) (subst chunked_loop.simps, simp)
  qed
qed

text \<open>What a peer that follows the headers it sent puts after them.\<close>

definition framed :: "(string \<times> string) list \<Rightarrow> string \<Rightarrow> string \<Rightarrow> bool" where
  "framed headers body after \<longleftrightarrow>
     (if is_chunked headers then \<exists>ds. [] \<notin> set ds \<and> after = encode_chunks ds \<and> body = concat ds
      else body = after \<and> (case declared_length headers of None \<Rightarrow> True | Some len \<Rightarrow> len = length after))"

lemma read_body_cut:
  assumes "framed headers body (buf @ concat ps)" "[] \<notin> set ps" "length (buf @ concat ps) \<le> MAX_RESPONSE_BYTES"
  shows "\<exists>n. read_body r tee_body headers (map (clean_read fl) ps @ [clean_read fl []]) buf t =
      (t @ take n (concat ps), Inr body) \<and> (\<not> is_chunked headers \<longrightarrow> length (concat ps) \<le> n)"
proof (cases "is_chunked headers")
  case True
  then obtain ds where ds: "[] \<notin> set ds" "buf @ concat ps = encode_chunks ds" "body = concat ds"
    using assms(1) by (auto simp: framed_def)
  have "length (encode_chunks ds) \<le> MAX_RESPONSE_BYTES"
    using assms(3) by (simp add: ds(2) [symmetric])
  from chunked_loop_cut [OF ds(1) assms(2) ds(2) this] True show ?thesis
    by (simp add: read_body_def ds(3))
next
  case False
  then have "read_body r tee_body headers (map (clean_read fl) ps @ [clean_read fl []]) buf t =
      (t @ concat ps, Inr body)"
    using assms length_loop_cut [of ps buf] eof_loop_cut [of ps buf]
    by (auto simp: framed_def read_body_def split: option.splits)
  then show ?thesis by (intro exI [of _ "length (concat ps)"]) simp
qed


text \<open>
  C23. However the network cuts a response, the client reads the same one: if the bytes up to the
  close are a head that parses and a body framed as its headers say - chunked, counted, or ended
  by the close - then any split of them into non-empty reads gives the status, the headers and
  exactly the body. What the client's callback was shown meanwhile is the text on the wire: for a
  counted or closed body all of it, for a chunked one a prefix of the encoded text, chunk size
  lines and all.
\<close>

theorem http_response_any_cut:
  assumes cut: "concat ps = head @ head_end @ after" "[] \<notin> set ps"
    and head: "split_once_str head_end (head @ head_end @ after) = Some (head, after)" "length head + 4 \<le> HEADER_LIMIT"
    and small: "length (concat ps) \<le> MAX_RESPONSE_BYTES"
    and lines: "split_crlf (from_utf8_lossy head) = l # ls" "parse_status_line l = Inr (status, reason)"
      "check_encoding (parse_headers ls) = Inr ()"
    and framed: "framed (parse_headers ls) body after"
  shows "\<exists>seen. read_response r tee_body (map (clean_read (False, False)) ps @ [clean_read (False, False) []]) [] =
      (seen, Inr \<lparr>hp_status = status, hp_reason = reason, hp_headers = parse_headers ls, hp_body = body\<rparr>) \<and>
    seen = take (length seen) after \<and> (\<not> is_chunked (parse_headers ls) \<longrightarrow> seen = after)"
proof -
  let ?fl = "(False, False)"
  have "split_once_str head_end ([] @ concat ps) = Some (head, after)" using cut(1) head(1) by simp
  then obtain b rs where hl: "header_loop r (map (clean_read ?fl) ps @ [clean_read ?fl []]) ?fl [] =
        Inr (head, b, ?fl, map (clean_read ?fl) rs @ [clean_read ?fl []])"
      and rest: "b @ concat rs = after" "[] \<notin> set rs"
    using header_loop_cut [of "[]" ps head after ?fl ?fl r "[clean_read ?fl []]"] cut(2) head(2) small by auto
  have "length (b @ concat rs) \<le> MAX_RESPONSE_BYTES"
    using small cut(1) rest(1) by simp
  with framed rest obtain n where rb:
      "read_body r tee_body (parse_headers ls) (map (clean_read ?fl) rs @ [clean_read ?fl []]) b b =
        (b @ take n (concat rs), Inr body)" "\<not> is_chunked (parse_headers ls) \<longrightarrow> length (concat rs) \<le> n"
    using read_body_cut [of "parse_headers ls" body b rs r ?fl b] by blast
  have first: "(if b = [] then ([], Inr ()) else tee_body ?fl b []) = (b, Inr ())"
    by (simp add: tee_body_def)
  have "read_response r tee_body (map (clean_read ?fl) ps @ [clean_read ?fl []]) [] =
      (b @ take n (concat rs), Inr \<lparr>hp_status = status, hp_reason = reason, hp_headers = parse_headers ls, hp_body = body\<rparr>)"
    by (simp add: read_response_def hl Let_def lines first rb(1))
  moreover have "b @ take n (concat rs) = take (length (b @ take n (concat rs))) after"
    using rest(1) by (auto simp: min_def)
  ultimately show ?thesis using rb(2) rest(1) by auto
qed

theorem http_response_any_cut_witness:
  "\<exists>seen r2. read_response (post_json ''http://localhost/v1'' ''{}'' 1000) tee_body (map (clean_read (False, False))
      [''HTTP/1.1 200 O'', ''K'' @ crlf @ ''Content-Length: 2'' @ crlf @ [CHR 0x0D], [CHR 0x0A] @ ''o'', ''k''] @
      [clean_read (False, False) []]) [] = (seen, Inr r2) \<and> hp_body r2 = ''ok'' \<and> hp_status r2 = 200"
proof -
  let ?r = "post_json ''http://localhost/v1'' ''{}'' 1000"
  let ?head = "''HTTP/1.1 200 OK'' @ crlf @ ''Content-Length: 2''"
  have split: "split_once_str head_end (?head @ head_end @ ''ok'') = Some (?head, ''ok'')"
    by code_simp
  have lines: "split_crlf (from_utf8_lossy ?head) = [''HTTP/1.1 200 OK'', ''Content-Length: 2'']"
    by code_simp
  have status: "parse_status_line ''HTTP/1.1 200 OK'' = Inr (200, ''OK'')"
    by (simp add: parse_status_line_def parse_u16_def parse_unsigned_def to_digit_def byte_of_def)
  have hs: "parse_headers [''Content-Length: 2''] = [(''Content-Length'', ''2'')]"
    by code_simp
  have enc: "check_encoding (parse_headers [''Content-Length: 2'']) = Inr ()"
    unfolding hs by code_simp
  have "str_trim ''2'' = ''2''" by code_simp
  then have "declared_length [(''Content-Length'', ''2'')] = Some 2" "\<not> is_chunked [(''Content-Length'', ''2'')]"
    by (simp_all add: declared_length_def is_chunked_def header_of_def eq_ignore_ascii_case_def ascii_lower_def
        parse_unsigned_def to_digit_def byte_of_def)
  then have fr: "framed (parse_headers [''Content-Length: 2'']) ''ok'' ''ok''"
    by (simp add: framed_def hs)
  have small: "length ?head + 4 \<le> HEADER_LIMIT" "length (?head @ head_end @ ''ok'') \<le> MAX_RESPONSE_BYTES"
    by (simp_all add: HEADER_LIMIT_def MAX_RESPONSE_BYTES_def crlf_def)
  let ?ps = "[''HTTP/1.1 200 O'', ''K'' @ crlf @ ''Content-Length: 2'' @ crlf @ [CHR 0x0D], [CHR 0x0A] @ ''o'', ''k'']"
  have cut: "concat ?ps = ?head @ head_end @ ''ok''"
    by (simp add: head_end_def crlf_def)
  have ne: "[] \<notin> set ?ps" by simp
  have "length (concat ?ps) \<le> MAX_RESPONSE_BYTES" unfolding cut by (rule small(2))
  note ok = http_response_any_cut [OF cut ne split small(1) this lines status enc fr, of ?r]
  then obtain seen where "read_response ?r tee_body (map (clean_read (False, False)) ?ps @ [clean_read (False, False) []]) [] =
      (seen, Inr \<lparr>hp_status = 200, hp_reason = ''OK'', hp_headers = parse_headers [''Content-Length: 2''], hp_body = ''ok''\<rparr>)"
    by (elim exE conjE)
  then show ?thesis by (intro exI conjI) (assumption, simp_all)
qed

end
