(* ===== verification/Sse.thy ===== *)
theory Sse
  imports Core_Types
begin

section \<open>Server-sent events\<close>

text \<open>
  Models \<^verbatim>\<open>crates/princess-ai/src/sse.rs\<close>: the incremental decoder of an event stream, and
  what one decoded chunk contributes to an answer. The JSON parser is a library and not modelled;
  the chunk objects it produces are records. Token counts are 64-bit words.
\<close>

subsection \<open>The decoder\<close>

datatype sse_event = EventData string | EventDone

record sse_decoder =
  sse_buffer :: string
  sse_done :: bool

definition DONE_SENTINEL :: string where "DONE_SENTINEL = ''[DONE]''"

definition sse_new :: sse_decoder where
  "sse_new = \<lparr>sse_buffer = [], sse_done = False\<rparr>"

text \<open>
  One step of the index loop of \<open>find_frame_end\<close>: the length of the frame end that starts here.
\<close>

definition frame_end_here :: "string \<Rightarrow> nat option" where
  "frame_end_here s =
     (if starts_with [CHR 0x0A, CHR 0x0A] s then Some 2
      else if starts_with [CHR 0x0A, CHR 0x0D, CHR 0x0A] s then Some 3
      else if starts_with [CHR 0x0D, CHR 0x0A, CHR 0x0D] s
        then (if starts_with [CHR 0x0D, CHR 0x0A, CHR 0x0D, CHR 0x0A] s then Some 4 else None)
      else if starts_with [CHR 0x0D, CHR 0x0D] s then Some 2
      else None)"

fun frame_end_from :: "nat \<Rightarrow> string \<Rightarrow> (nat \<times> nat) option" where
  "frame_end_from i [] = None"
| "frame_end_from i (c # rest) =
     (case frame_end_here (c # rest) of
        Some n \<Rightarrow> Some (i, i + n)
      | None \<Rightarrow> frame_end_from (i + 1) rest)"

definition find_frame_end :: "string \<Rightarrow> (nat \<times> nat) option" where
  "find_frame_end bytes = frame_end_from 0 bytes"

definition data_of_line :: "string \<Rightarrow> string option" where
  "data_of_line raw =
     (let line = strip_cr raw
      in if line = [] \<or> starts_with '':'' line then None
         else case strip_prefix ''data:'' line of
           None \<Rightarrow> None
         | Some rest \<Rightarrow> Some (case strip_prefix '' '' rest of None \<Rightarrow> rest | Some r \<Rightarrow> r))"

definition decode_event :: "string \<Rightarrow> sse_event option" where
  "decode_event frame =
     (let data = List.map_filter data_of_line (split_char CHR 0x0A (from_utf8_lossy frame))
      in if data = [] then None
         else
           let payload = join [CHR 0x0A] data
           in if str_trim payload = DONE_SENTINEL then Some EventDone else Some (EventData payload))"

lemma frame_end_from_bounds:
  "frame_end_from i s = Some (e, n) \<Longrightarrow> i \<le> e \<and> e + 2 \<le> n \<and> n \<le> i + length s"
proof (induction s arbitrary: i)
  case Nil
  then show ?case by simp
next
  case (Cons c s)
  show ?case
  proof (cases "frame_end_here (c # s)")
    case None
    then show ?thesis
      using Cons.prems Cons.IH [of "i + 1"] by simp
  next
    case (Some k)
    then have "2 \<le> k \<and> k \<le> length (c # s)"
      by (auto simp: frame_end_here_def starts_with_iff split: if_splits)
    with Some show ?thesis
      using Cons.prems by simp
  qed
qed

text \<open>The loop of \<open>push\<close>: the events of the complete frames, the bytes left, and whether it closed.\<close>

function sse_loop :: "string \<Rightarrow> sse_event list \<times> string \<times> bool" where
  "sse_loop buffer =
     (case find_frame_end buffer of
        None \<Rightarrow> ([], buffer, False)
      | Some (frame_end, next_start) \<Rightarrow>
          (case decode_event (take frame_end buffer) of
             Some EventDone \<Rightarrow> ([EventDone], [], True)
           | Some e \<Rightarrow> (case sse_loop (drop next_start buffer) of (es, rest, d) \<Rightarrow> (e # es, rest, d))
           | None \<Rightarrow> sse_loop (drop next_start buffer)))"
  by pat_completeness auto
termination
  by (relation "measure length") (auto simp: find_frame_end_def dest!: frame_end_from_bounds)

declare sse_loop.simps [simp del]

definition sse_push :: "sse_decoder \<Rightarrow> string \<Rightarrow> sse_event list \<times> sse_decoder" where
  "sse_push d bytes =
     (if sse_done d then ([], d)
      else case sse_loop (sse_buffer d @ bytes) of
        (events, rest, closed) \<Rightarrow> (events, \<lparr>sse_buffer = rest, sse_done = closed\<rparr>))"

definition sse_finish :: "sse_decoder \<Rightarrow> sse_event list \<times> sse_decoder" where
  "sse_finish d =
     (if sse_buffer d = [] then ([], d)
      else ((case decode_event (sse_buffer d) of None \<Rightarrow> [] | Some e \<Rightarrow> [e]), d\<lparr>sse_buffer := []\<rparr>))"

subsection \<open>Chunks\<close>

record chunk_delta =
  cd_content :: "string option"
  cd_reasoning_content :: "string option"

record chunk_choice =
  cc_delta :: "chunk_delta option"
  cc_text :: "string option"
  cc_finish_reason :: "string option"

record stream_usage =
  su_prompt_tokens :: u64
  su_completion_tokens :: u64
  su_total_tokens_field :: u64

record chat_completion_chunk =
  ck_id :: "string option"
  ck_model :: "string option"
  ck_choices :: "chunk_choice list"
  ck_usage :: "stream_usage option"

definition usage_total :: "stream_usage \<Rightarrow> u64" where
  "usage_total u =
     (if su_total_tokens_field u \<noteq> 0 then su_total_tokens_field u
      else su_prompt_tokens u + su_completion_tokens u)"

definition to_ai_usage :: "stream_usage \<Rightarrow> ai_usage" where
  "to_ai_usage u =
     \<lparr>au_prompt_tokens = su_prompt_tokens u, au_completion_tokens = su_completion_tokens u,
      au_total_tokens = usage_total u\<rparr>"

definition chunk_text :: "chat_completion_chunk \<Rightarrow> string option" where
  "chunk_text chunk =
     (let out = concat (map (\<lambda>choice.
            (case cc_delta choice of
               Some delta \<Rightarrow> (case cd_content delta of Some content \<Rightarrow> content | None \<Rightarrow> [])
             | None \<Rightarrow> []) @
            (case cc_text choice of Some t \<Rightarrow> t | None \<Rightarrow> [])) (ck_choices chunk))
      in if out = [] then None else Some out)"

subsection \<open>The end of a frame does not depend on what follows\<close>

lemma frame_end_here_append:
  "frame_end_here s = Some n \<Longrightarrow> frame_end_here (s @ t) = Some n"
  by (auto simp: frame_end_here_def starts_with_iff split: if_splits)

text \<open>
  A frame end that the bytes to come will complete begins in the last three bytes, and no other
  frame end begins after it.
\<close>

lemma frame_end_here_later:
  assumes "frame_end_here s = None" and "frame_end_here (s @ t) = Some n"
  shows "frame_end_from i s = None"
proof -
  consider "s = []" | "s = [CHR 0x0A]" | "s = [CHR 0x0D]" | "s = [CHR 0x0A, CHR 0x0D]" | "s = [CHR 0x0D, CHR 0x0A]"
    | "s = [CHR 0x0D, CHR 0x0A, CHR 0x0D]"
    using assms
    by (cases s; cases "tl s"; cases "tl (tl s)"; cases "tl (tl (tl s))")
      (auto simp: frame_end_here_def split: if_splits)
  then show ?thesis
    by cases (auto simp: frame_end_here_def)
qed

lemma frame_end_from_append:
  "frame_end_from i s = Some r \<Longrightarrow> frame_end_from i (s @ t) = Some r"
proof (induction s arbitrary: i)
  case Nil
  then show ?case by simp
next
  case (Cons c s)
  show ?case
  proof (cases "frame_end_here (c # s)")
    case None
    have "frame_end_here ((c # s) @ t) = None"
    proof (rule ccontr)
      assume "frame_end_here ((c # s) @ t) \<noteq> None"
      then obtain n where "frame_end_here ((c # s) @ t) = Some n" by blast
      from frame_end_here_later [OF None this] Cons.prems show False
        by simp
    qed
    with None show ?thesis
      using Cons by simp
  next
    case (Some n)
    then show ?thesis
      using Cons.prems frame_end_here_append [OF Some, of t] by simp
  qed
qed

lemma sse_loop_append:
  "sse_loop (s @ t) =
     (case sse_loop s of
        (es, rest, True) \<Rightarrow> (es, rest, True)
      | (es, rest, False) \<Rightarrow> (case sse_loop (rest @ t) of (es', rest', d) \<Rightarrow> (es @ es', rest', d)))"
proof (induction s rule: sse_loop.induct)
  case (1 s)
  show ?case
  proof (cases "find_frame_end s")
    case None
    then show ?thesis
      by (simp add: sse_loop.simps [of s] split: prod.splits)
  next
    case (Some r)
    obtain e n where r: "r = (e, n)" by (cases r)
    have long: "e \<le> length s" "n \<le> length s"
      using Some r frame_end_from_bounds [of 0 s e n] by (simp_all add: find_frame_end_def)
    have whole: "find_frame_end (s @ t) = Some (e, n)"
      using Some r frame_end_from_append [of 0 s] by (simp add: find_frame_end_def)
    have step: "sse_loop u =
        (case decode_event (take e s) of
           Some EventDone \<Rightarrow> ([EventDone], [], True)
         | Some ev \<Rightarrow> (case sse_loop (drop n s @ v) of (es, rest, d) \<Rightarrow> (ev # es, rest, d))
         | None \<Rightarrow> sse_loop (drop n s @ v))"
      if "u = s @ v" "find_frame_end u = Some (e, n)" for u v
    proof -
      have "take e u = take e s" "drop n u = drop n s @ v"
        using that(1) long by simp_all
      then show ?thesis
        by (subst sse_loop.simps) (simp only: that(2) option.case prod.case)
    qed
    have here: "sse_loop s =
        (case decode_event (take e s) of
           Some EventDone \<Rightarrow> ([EventDone], [], True)
         | Some ev \<Rightarrow> (case sse_loop (drop n s) of (es, rest, d) \<Rightarrow> (ev # es, rest, d))
         | None \<Rightarrow> sse_loop (drop n s))"
      using step [of s "[]"] Some r by (simp only: append_Nil2)
    note there = step [OF refl whole]
    obtain es rest d where rec: "sse_loop (drop n s) = (es, rest, d)"
      by (cases "sse_loop (drop n s)")
    show ?thesis
    proof (cases "decode_event (take e s)")
      case None
      with 1 [OF Some r [symmetric]] show ?thesis
        by (simp only: here there option.case)
    next
      case ev: (Some ev)
      show ?thesis
      proof (cases ev)
        case (EventData p)
        with 1 [OF Some r [symmetric]] ev rec show ?thesis
          by (cases d) (simp_all add: here there split: prod.splits)
      next
        case EventDone
        with ev show ?thesis by (simp add: here there)
      qed
    qed
  qed
qed

lemma sse_new_simps [simp]: "sse_buffer sse_new = []" "sse_done sse_new = False"
  by (simp_all add: sse_new_def)

fun sse_push_all :: "sse_decoder \<Rightarrow> string list \<Rightarrow> sse_event list \<times> sse_decoder" where
  "sse_push_all d [] = ([], d)"
| "sse_push_all d (c # cs) =
     (case sse_push d c of (es, d') \<Rightarrow> (case sse_push_all d' cs of (es', d'') \<Rightarrow> (es @ es', d'')))"

lemma sse_push_append:
  "sse_push d (a @ b) = (case sse_push d a of (es, d') \<Rightarrow> (case sse_push d' b of (es', d'') \<Rightarrow> (es @ es', d'')))"
  using sse_loop_append [of "sse_buffer d @ a" b]
  by (auto simp: sse_push_def split: prod.splits bool.splits)

lemma sse_push_all_whole:
  assumes "cs \<noteq> []"
  shows "sse_push_all d cs = sse_push d (concat cs)"
  using assms
proof (induction cs arbitrary: d)
  case Nil
  then show ?case by simp
next
  case (Cons c cs)
  show ?case
  proof (cases "cs = []")
    case True
    then show ?thesis by (simp split: prod.splits)
  next
    case False
    then show ?thesis
      using Cons.IH by (simp add: sse_push_append split: prod.splits)
  qed
qed

subsection \<open>Events as a server writes them\<close>

definition blank_lines :: "string list" where
  "blank_lines = [[CHR 0x0A, CHR 0x0A], [CHR 0x0D, CHR 0x0A, CHR 0x0D, CHR 0x0A], [CHR 0x0D, CHR 0x0D]]"

definition event_bytes :: "string \<Rightarrow> string \<Rightarrow> string" where
  "event_bytes payload blank = ''data: '' @ payload @ blank"

definition one_line :: "string \<Rightarrow> bool" where
  "one_line payload \<longleftrightarrow> valid_utf8 payload \<and> CHR 0x0A \<notin> set payload \<and> CHR 0x0D \<notin> set payload"

lemma frame_end_from_skip:
  "CHR 0x0A \<notin> set a \<Longrightarrow> CHR 0x0D \<notin> set a \<Longrightarrow> frame_end_from i (a @ b) = frame_end_from (i + length a) b"
  by (induction a arbitrary: i) (auto simp: frame_end_here_def)

lemma frame_end_from_blank:
  assumes "blank \<in> set blank_lines"
  shows "frame_end_from i (blank @ rest) = Some (i, i + length blank)"
  using assms by (auto simp: blank_lines_def frame_end_here_def)

lemma find_event_end:
  assumes "one_line payload" and "blank \<in> set blank_lines"
  shows "find_frame_end (event_bytes payload blank @ rest) = Some (length payload + 6, length payload + 6 + length blank)"
proof -
  have "CHR 0x0A \<notin> set (''data: '' @ payload)" "CHR 0x0D \<notin> set (''data: '' @ payload)"
    using assms(1) by (simp_all add: one_line_def)
  then show ?thesis
    using frame_end_from_skip [of "''data: '' @ payload" 0 "blank @ rest"] frame_end_from_blank [OF assms(2)]
    by (simp add: find_frame_end_def event_bytes_def add.commute)
qed

lemma strip_cr_none: "CHR 0x0D \<notin> set s \<Longrightarrow> strip_cr s = s"
  by (cases s rule: rev_cases) (auto simp: strip_cr_def strip_suffix_def ends_with_def)

lemma data_line:
  assumes "CHR 0x0D \<notin> set payload"
  shows "data_of_line (''data: '' @ payload) = Some payload"
  using assms by (simp add: data_of_line_def strip_cr_none strip_prefix_def)

lemma decode_event_line:
  assumes "one_line payload"
  shows "decode_event (''data: '' @ payload) =
    Some (if str_trim payload = DONE_SENTINEL then EventDone else EventData payload)"
proof -
  have "valid_utf8 (''data: '' @ payload)"
    using assms valid_utf8_append [of "''data: ''" payload] valid_utf8_ascii [of "''data: ''"]
    by (simp add: one_line_def byte_of_def)
  then have "from_utf8_lossy (''data: '' @ payload) = ''data: '' @ payload"
    by (rule from_utf8_lossy_valid)
  moreover have "split_char CHR 0x0A (''data: '' @ payload) = [''data: '' @ payload]"
    by (rule split_char_none) (use assms in \<open>simp add: one_line_def\<close>)
  ultimately show ?thesis
    using assms data_line [of payload]
    by (simp add: decode_event_def one_line_def List.map_filter_simps(1) List.map_filter_simps(2) del: append.simps)
qed

lemma sse_loop_event:
  assumes "one_line payload" and "blank \<in> set blank_lines"
  shows "sse_loop (event_bytes payload blank @ rest) =
    (if str_trim payload = DONE_SENTINEL then ([EventDone], [], True)
     else case sse_loop rest of (es, left, d) \<Rightarrow> (EventData payload # es, left, d))"
proof -
  let ?a = "''data: '' @ payload"
  have t: "take (length xs) (xs @ ys) = xs" "drop (length xs + length zs) (xs @ zs @ ys) = ys" for xs ys zs :: string
    by simp_all
  have e: "event_bytes payload blank @ rest = ?a @ blank @ rest" and l: "length payload + 6 = length ?a"
    by (simp_all add: event_bytes_def)
  have "take (length payload + 6) (event_bytes payload blank @ rest) = ?a"
    "drop (length payload + 6 + length blank) (event_bytes payload blank @ rest) = rest"
    by (simp_all only: e l t)
  then show ?thesis
    using find_event_end [OF assms, of rest] decode_event_line [OF assms(1)]
    by (subst sse_loop.simps) (simp split: prod.splits)
qed

lemma done_one_line: "one_line DONE_SENTINEL" "str_trim DONE_SENTINEL = DONE_SENTINEL"
proof -
  show "one_line DONE_SENTINEL"
    by (simp add: one_line_def DONE_SENTINEL_def valid_utf8_ascii byte_of_def)
  show "str_trim DONE_SENTINEL = DONE_SENTINEL"
    by (rule str_trim_graphic) (simp_all add: DONE_SENTINEL_def ascii_graphic_def byte_of_def)
qed

lemma sse_loop_stream:
  assumes "\<forall>(p, b) \<in> set events. one_line p \<and> str_trim p \<noteq> DONE_SENTINEL \<and> b \<in> set blank_lines"
    and "blank \<in> set blank_lines"
  shows "sse_loop (concat (map (\<lambda>(p, b). event_bytes p b) events) @ event_bytes DONE_SENTINEL blank @ junk) =
    (map (\<lambda>(p, b). EventData p) events @ [EventDone], [], True)"
  using assms(1)
proof (induction events)
  case Nil
  then show ?case
    using sse_loop_event [OF done_one_line(1) assms(2)] done_one_line(2) by simp
next
  case (Cons e events)
  then show ?case
    by (cases e) (simp add: sse_loop_event)
qed

text \<open>
  The events do not depend on how the network cuts the stream: pushing any sequence of chunks
  gives the events, and leaves the decoder, that pushing their concatenation in one piece does.
\<close>

lemma sse_chunk_invariant:
  "sse_push_all sse_new chunks = sse_push sse_new (concat chunks)"
proof (cases "chunks = []")
  case True
  then show ?thesis
    by (simp add: sse_push_def sse_new_def sse_loop.simps [of "[]"] find_frame_end_def)
next
  case False
  then show ?thesis by (rule sse_push_all_whole)
qed

text \<open>
  C10. A whole completion is decoded: for any one-line payloads, each written as a \<open>data:\<close> event with
  any of the three accepted blank lines and followed by the end marker and any further bytes, and
  for any cutting of those bytes into chunks, the decoder returns exactly the payloads in order and
  then the end, closes, and nothing pushed afterwards yields another event.
\<close>

theorem sse_stream_decoded:
  assumes "\<forall>(p, b) \<in> set events. one_line p \<and> str_trim p \<noteq> DONE_SENTINEL \<and> b \<in> set blank_lines"
    and "blank \<in> set blank_lines"
    and "concat chunks = concat (map (\<lambda>(p, b). event_bytes p b) events) @ event_bytes DONE_SENTINEL blank @ junk"
  shows "fst (sse_push_all sse_new chunks) = map (\<lambda>(p, b). EventData p) events @ [EventDone] \<and>
    sse_done (snd (sse_push_all sse_new chunks)) \<and>
    sse_push_all sse_new (chunks @ later) = sse_push_all sse_new chunks"
proof -
  have loop: "sse_loop (concat chunks) = (map (\<lambda>(p, b). EventData p) events @ [EventDone], [], True)"
    using sse_loop_stream [OF assms(1,2)] assms(3) by simp
  have whole: "sse_push_all sse_new cs = sse_push sse_new (concat cs)" for cs
    using sse_push_all_whole [of cs sse_new]
    by (cases "cs = []") (simp_all add: sse_push_def sse_new_def sse_loop.simps [of "[]"] find_frame_end_def)
  have "sse_loop (concat chunks @ concat later) = sse_loop (concat chunks)"
    using loop by (simp add: sse_loop_append)
  then show ?thesis
    using loop by (simp add: whole sse_push_def)
qed

theorem sse_stream_decoded_witness:
  "fst (sse_push_all sse_new [''dat'', ''a: {}'' @ [CHR 0x0A], CHR 0x0A # event_bytes DONE_SENTINEL [CHR 0x0D, CHR 0x0D]]) =
     [EventData ''{}'', EventDone]"
proof -
  have "one_line ''{}''" "str_trim ''{}'' = ''{}''"
    by (simp_all add: one_line_def valid_utf8_ascii byte_of_def str_trim_graphic ascii_graphic_def)
  then show ?thesis
    using sse_stream_decoded [of "[(''{}'', [CHR 0x0A, CHR 0x0A])]" "[CHR 0x0D, CHR 0x0D]"
        "[''dat'', ''a: {}'' @ [CHR 0x0A], CHR 0x0A # event_bytes DONE_SENTINEL [CHR 0x0D, CHR 0x0D]]" "[]"]
    by (simp add: blank_lines_def event_bytes_def DONE_SENTINEL_def)
qed
end
