(* ===== verification/Ai_Provider.thy ===== *)
theory Ai_Provider
  imports Http Sse Event_Sink Json_Access
begin

section \<open>The AI provider\<close>

text \<open>
  Models \<^verbatim>\<open>crates/princess-ai/src/openai.rs\<close> and \<open>report_generation_error\<close> of \<^verbatim>\<open>error_map.rs\<close>: one
  streamed completion as events. The connection of each attempt, what its reads bring and which
  cancellation flags are set at each of them are given (theory Http); the JSON library is a parameter.
\<close>

definition ENGINE_VERSION :: string where "ENGINE_VERSION = ''0.1.0''"
definition DEFAULT_TIMEOUT_MS :: u64 where "DEFAULT_TIMEOUT_MS = 120000"

subsection \<open>Settings and requests\<close>

definition ai_endpoint :: "ai_config \<Rightarrow> string" where
  "ai_endpoint c = chat_completions_url (ac_base_url c)"

definition authorization_header :: "ai_config \<Rightarrow> (string \<times> string) option" where
  "authorization_header c =
     (case ac_api_key c of
        None \<Rightarrow> None
      | Some key \<Rightarrow> if str_trim key = [] then None else Some (''Authorization'', ''Bearer '' @ str_trim key))"

record provider_options =
  po_timeout_ms :: u64
  po_include_usage :: bool

definition provider_options_default :: provider_options where
  "provider_options_default = \<lparr>po_timeout_ms = DEFAULT_TIMEOUT_MS, po_include_usage = True\<rparr>"

text \<open>A live request: its id and whether it was stopped.\<close>

record ai_provider =
  pv_id :: string
  pv_config :: "ai_config option"
  pv_options :: provider_options
  pv_live :: "(string \<times> bool) list"

definition unconfigured :: ai_provider where
  "unconfigured =
     \<lparr>pv_id = ''openai-compatible'', pv_config = None, pv_options = provider_options_default, pv_live = []\<rparr>"

definition provider_new :: "ai_config \<Rightarrow> ai_provider" where
  "provider_new c =
     \<lparr>pv_id = ''openai-compatible'', pv_config = Some c, pv_options = provider_options_default, pv_live = []\<rparr>"

definition with_options :: "provider_options \<Rightarrow> ai_provider \<Rightarrow> ai_provider" where
  "with_options o1 p = p\<lparr>pv_options := o1\<rparr>"

definition provider_from_project :: "ai_section \<Rightarrow> global_ai_settings \<Rightarrow> environment \<Rightarrow> ai_provider option" where
  "provider_from_project manifest g env = map_option provider_new (resolve_ai_config manifest g env)"

definition is_unconfigured :: "ai_provider \<Rightarrow> bool" where
  "is_unconfigured p \<longleftrightarrow> pv_config p = None"

definition unavailable_error :: princess_error where
  "unavailable_error = not_configured
     (''[ai].provider is not '' @ [CHR 0x22] @ ''openai-compatible'' @ [CHR 0x22] @
      '', or no base_url/model was configured '' @
      ''(project manifest, PRINCESSIDE_AI_BASE_URL / OPENAI_BASE_URL, or the global setting)'')"

text \<open>\<open>cq_temperature\<close> is the JSON number of the \<open>f32\<close>.\<close>

record chat_request =
  cq_request_id :: string
  cq_model :: string
  cq_messages :: "chat_message list"
  cq_stream :: bool
  cq_temperature :: "json_literal option"

definition message_literal :: "chat_message \<Rightarrow> json_literal" where
  "message_literal m = JObj [(''role'', JStr (cm_role m)), (''content'', JStr (cm_content m))]"

definition request_body :: "(json_literal \<Rightarrow> string + string) \<Rightarrow> chat_request \<Rightarrow> ai_config \<Rightarrow> bool \<Rightarrow> string" where
  "request_body to_vec q c include_usage =
     (case to_vec (JObj
         ([(''model'', JStr (if str_trim (cq_model q) = [] then ac_model c else cq_model q)),
           (''messages'', JArr (map message_literal (cq_messages q))), (''stream'', JBool True)] @
          (if include_usage then [(''stream_options'', JObj [(''include_usage'', JBool True)])] else []) @
          (case cq_temperature q of None \<Rightarrow> [] | Some t \<Rightarrow> [(''temperature'', t)]))) of
        Inl _ \<Rightarrow> ''{}'' | Inr bytes \<Rightarrow> bytes)"

definition request_headers :: "ai_config \<Rightarrow> (string \<times> string) list" where
  "request_headers c =
     [(''Content-Type'', ''application/json''), (''Accept'', ''text/event-stream''),
      (''User-Agent'', ''PrincessIDE/'' @ ENGINE_VERSION)] @
     (case authorization_header c of None \<Rightarrow> [] | Some h \<Rightarrow> [h])"

subsection \<open>The stream\<close>

record ai_progress =
  xp_decoder :: sse_decoder
  xp_usage :: ai_usage
  xp_content :: bool
  xp_done :: bool

definition no_usage :: ai_usage where
  "no_usage = \<lparr>au_prompt_tokens = 0, au_completion_tokens = 0, au_total_tokens = 0\<rparr>"

definition progress_new :: ai_progress where
  "progress_new = \<lparr>xp_decoder = sse_new, xp_usage = no_usage, xp_content = False, xp_done = False\<rparr>"

type_synonym ('s, 'a) ai_op = "(ai_progress \<times> 's, princess_error, 'a) op"

definition on_events :: "('s, princess_error, unit) op \<Rightarrow> ('s, unit) ai_op" where
  "on_events m = (\<lambda>(x, k). case m k of (k', r) \<Rightarrow> ((x, k'), r))"

definition adjust :: "(ai_progress \<Rightarrow> ai_progress) \<Rightarrow> ('s, unit) ai_op" where
  "adjust f = (\<lambda>(x, k). ((f x, k), Inr ()))"

text \<open>Which of the two ways to cancel was used: the flags are the provider's stop and the token.\<close>

definition abort_error :: "bool \<times> bool \<Rightarrow> string \<Rightarrow> princess_error" where
  "abort_error flags request_id = (if snd flags then cancelled_error request_id else for_cancelled request_id)"

definition aborted_now :: "bool \<times> bool \<Rightarrow> bool" where
  "aborted_now flags \<longleftrightarrow> fst flags \<or> snd flags"

definition take_chunk :: "'s emitter \<Rightarrow> string \<Rightarrow> chat_completion_chunk \<Rightarrow> ('s, unit) ai_op" where
  "take_chunk emit request_id chunk =
     then_do (adjust (\<lambda>x. case ck_usage chunk of None \<Rightarrow> x | Some u \<Rightarrow> x\<lparr>xp_usage := to_ai_usage u\<rparr>)) (\<lambda>_.
       case chunk_text chunk of
         None \<Rightarrow> give ()
       | Some t \<Rightarrow>
           then_do (adjust (\<lambda>x. x\<lparr>xp_content := True\<rparr>)) (\<lambda>_.
             on_events (emit (AiChunk \<lparr>ai_request_id = request_id, ai_text = t\<rparr>))))"

type_synonym chunk_parser = "string \<Rightarrow> string + chat_completion_chunk"

text \<open>The events one read produced; what follows the end marker is not looked at.\<close>

fun stream_events :: "chunk_parser \<Rightarrow> 's emitter \<Rightarrow> string \<Rightarrow> bool \<times> bool \<Rightarrow> sse_event list \<Rightarrow> ('s, unit) ai_op" where
  "stream_events parse emit request_id flags [] = give ()"
| "stream_events parse emit request_id flags (event # rest) =
     (if aborted_now flags then (\<lambda>s. (s, Inl (abort_error flags request_id)))
      else case event of
        EventDone \<Rightarrow> adjust (\<lambda>x. x\<lparr>xp_done := True\<rparr>)
      | EventData payload \<Rightarrow>
          then_do (case parse payload of
              Inl err \<Rightarrow> on_events (sink_log emit StreamIde
                (''ai: skipped an unparseable stream frame: '' @ err @ [CHR 0x0A]))
            | Inr chunk \<Rightarrow> take_chunk emit request_id chunk)
            (\<lambda>_. stream_events parse emit request_id flags rest))"

definition on_stream :: "chunk_parser \<Rightarrow> 's emitter \<Rightarrow> string \<Rightarrow> (ai_progress \<times> 's) on_body" where
  "on_stream parse emit request_id flags bytes = (\<lambda>(x, k).
     case sse_push (xp_decoder x) bytes of
       (events, d) \<Rightarrow> stream_events parse emit request_id flags events (x\<lparr>xp_decoder := d\<rparr>, k))"

text \<open>The frame left without its blank line, after a response that was read to its end.\<close>

fun final_events :: "chunk_parser \<Rightarrow> 's emitter \<Rightarrow> string \<Rightarrow> bool \<times> bool \<Rightarrow> sse_event list \<Rightarrow> ('s, unit) ai_op" where
  "final_events parse emit request_id flags [] = give ()"
| "final_events parse emit request_id flags (event # rest) =
     (if aborted_now flags then (\<lambda>s. (s, Inl (abort_error flags request_id)))
      else
        then_do (case event of
            EventDone \<Rightarrow> give ()
          | EventData payload \<Rightarrow>
              (case parse payload of Inl _ \<Rightarrow> give () | Inr chunk \<Rightarrow> take_chunk emit request_id chunk))
          (\<lambda>_. final_events parse emit request_id flags rest))"

definition final_flush :: "chunk_parser \<Rightarrow> 's emitter \<Rightarrow> string \<Rightarrow> bool \<times> bool \<Rightarrow> ('s, unit) ai_op" where
  "final_flush parse emit request_id flags = (\<lambda>(x, k).
     case sse_finish (xp_decoder x) of
       (events, d) \<Rightarrow> final_events parse emit request_id flags events (x\<lparr>xp_decoder := d\<rparr>, k))"

definition conclude_exchange ::
  "'s emitter \<Rightarrow> string \<Rightarrow> http_response \<Rightarrow> ai_progress \<Rightarrow> ('s, princess_error, ai_usage) op" where
  "conclude_exchange emit request_id response x =
     (if \<not> is_success response then
        then_do (sink_log emit StreamIde
          (''ai: provider answered HTTP '' @ show_nat (unat (hp_status response)) @ '' '' @ hp_reason response @ [CHR 0x0A]))
          (\<lambda>_ s. (s, Inl (for_http_status (hp_status response) (body_text response))))
      else
        then_do (emit (AiFinished \<lparr>an_request_id = request_id, an_usage = xp_usage x\<rparr>)) (\<lambda>_.
        then_do (if \<not> xp_content x \<and> au_total_tokens (xp_usage x) = 0 then
            sink_log emit StreamIde (''ai: provider returned no content for request '' @ request_id @
              '' (done='' @ show_flag (xp_done x) @ '')'' @ [CHR 0x0A])
          else give ())
          (\<lambda>_. give (xp_usage x))))"

text \<open>What one attempt meets: the connection, and the flags set once the response is in.\<close>

record ai_world =
  aw_connection :: connection
  aw_after :: "bool \<times> bool"

definition provider_request :: "(json_literal \<Rightarrow> string + string) \<Rightarrow> provider_options \<Rightarrow> chat_request \<Rightarrow> ai_config \<Rightarrow> bool \<Rightarrow> http_request" where
  "provider_request to_vec o1 q c include_usage =
     (post_json (ai_endpoint c) (request_body to_vec q c include_usage) (po_timeout_ms o1))\<lparr>hr_headers := request_headers c\<rparr>"

definition exchange ::
  "chunk_parser \<Rightarrow> 's emitter \<Rightarrow> chat_request \<Rightarrow> http_request \<Rightarrow> ai_world \<Rightarrow> 's \<Rightarrow> 's \<times> (net_stop + ai_usage)" where
  "exchange parse emit q r w k =
     (case connect_stream (aw_connection w) r of
        Inl stop \<Rightarrow> (k, Inl stop)
      | Inr _ \<Rightarrow>
          (case read_response r (on_stream parse emit (cq_request_id q)) (cn_reads (aw_connection w)) (progress_new, k) of
             ((x, k1), Inl stop) \<Rightarrow> (k1, Inl stop)
           | ((x, k1), Inr response) \<Rightarrow>
               (case final_flush parse emit (cq_request_id q) (aw_after w) (x, k1) of
                  ((x', k2), Inl e) \<Rightarrow> (k2, Inl (NetError e))
                | ((x', k2), Inr _) \<Rightarrow>
                    (case conclude_exchange emit (cq_request_id q) response x' k2 of
                       (k3, result) \<Rightarrow> (k3, map_err NetError result)))))"

subsection \<open>A completion\<close>

definition is_unknown_option_rejection :: "princess_error \<Rightarrow> bool" where
  "is_unknown_option_rejection e \<longleftrightarrow>
     pe_code e = AiUnavailable \<and>
     (case pe_detail e of
        None \<Rightarrow> False
      | Some detail \<Rightarrow>
          let lowered = map ascii_lower detail
          in str_contains ''stream_options'' lowered \<or> str_contains ''unknown field'' lowered \<or>
             str_contains ''unsupported'' lowered)"

definition report_generation_error :: "princess_error \<Rightarrow> 's emitter \<Rightarrow> ('s, princess_error, unit) op" where
  "report_generation_error e emit =
     sink_note emit (case pe_detail e of
       Some detail \<Rightarrow> ''ai '' @ code_str (pe_code e) @ '': '' @ pe_message e @ '' ('' @ detail @ '')'' @ [CHR 0x0A]
     | None \<Rightarrow> ''ai '' @ code_str (pe_code e) @ '': '' @ pe_message e @ [CHR 0x0A])"

definition finish_with_error :: "string \<Rightarrow> princess_error \<Rightarrow> 's emitter \<Rightarrow> 's \<Rightarrow> 's" where
  "finish_with_error request_id e emit s =
     fst (emit (AiFinished \<lparr>an_request_id = request_id, an_usage = no_usage\<rparr>) (fst (report_generation_error e emit s)))"

definition provider_guards :: "ai_provider \<Rightarrow> chat_request \<Rightarrow> cancel_token \<Rightarrow> princess_error + ai_config" where
  "provider_guards p q token =
     and_then (token_check token (cq_request_id q)) (\<lambda>_.
       case pv_config p of
         None \<Rightarrow> Inl unavailable_error
       | Some c \<Rightarrow>
           if str_trim (ac_base_url c) = [] \<or> str_trim (ac_model c) = [] then
             Inl (not_configured (''base_url='' @ debug_str (ac_base_url c) @ '' model='' @ debug_str (ac_model c)))
           else if \<not> cq_stream q then
             Inl (with_detail (new_error AiUnavailable ''this provider implements streaming chat/completions only'')
               (''set `stream = true` on the request (contract '' @ [CHR 0xC2, CHR 0xA7] @ ''5: v1 always streams)''))
           else Inr c)"

definition live_push :: "string \<Rightarrow> ai_provider \<Rightarrow> ai_provider" where
  "live_push request_id p = p\<lparr>pv_live := pv_live p @ [(request_id, False)]\<rparr>"

definition remove_live_request :: "string \<Rightarrow> ai_provider \<Rightarrow> ai_provider" where
  "remove_live_request request_id p = p\<lparr>pv_live := filter (\<lambda>(i, _). i \<noteq> request_id) (pv_live p)\<rparr>"

definition provider_cancel :: "string \<Rightarrow> ai_provider \<Rightarrow> ai_provider" where
  "provider_cancel request_id p =
     p\<lparr>pv_live := map (\<lambda>(i, stopped). (i, if i = request_id then True else stopped)) (pv_live p)\<rparr>"

text \<open>The end of the attempts: a failure is reported as a note and a terminal event.\<close>

fun settle_attempts :: "'s emitter \<Rightarrow> string \<Rightarrow> 's \<times> (net_stop + ai_usage) \<Rightarrow> 's \<times> (net_stop + ai_usage)" where
  "settle_attempts emit request_id (k, Inl (NetError e)) = (finish_with_error request_id e emit k, Inl (NetError e))"
| "settle_attempts emit request_id other = other"

text \<open>
  The first attempt, and the one retry without the option a server may not know. A sink that refuses
  the line about the retry ends the call at once.
\<close>

definition run_attempts ::
  "(bool \<Rightarrow> http_request) \<Rightarrow> chunk_parser \<Rightarrow> 's emitter \<Rightarrow> provider_options \<Rightarrow> chat_request \<Rightarrow>
   ai_world \<Rightarrow> ai_world \<Rightarrow> 's \<Rightarrow> 's \<times> (net_stop + ai_usage)" where
  "run_attempts req parse emit o1 q w1 w2 k =
     (case exchange parse emit q (req (po_include_usage o1)) w1 k of
        (k1, Inl (NetError e)) \<Rightarrow>
          if po_include_usage o1 \<and> is_unknown_option_rejection e then
            (case sink_log emit StreamIde (''ai: provider rejected `stream_options`; retrying without it'' @ [CHR 0x0A]) k1 of
               (k2, Inl e') \<Rightarrow> (k2, Inl (NetError e'))
             | (k2, Inr _) \<Rightarrow> settle_attempts emit (cq_request_id q) (exchange parse emit q (req False) w2 k2))
          else settle_attempts emit (cq_request_id q) (k1, Inl (NetError e))
      | other \<Rightarrow> settle_attempts emit (cq_request_id q) other)"

definition chat_completions ::
  "(json_literal \<Rightarrow> string + string) \<Rightarrow> chunk_parser \<Rightarrow> 's emitter \<Rightarrow> chat_request \<Rightarrow> cancel_token \<Rightarrow>
   ai_world \<Rightarrow> ai_world \<Rightarrow> ai_provider \<times> 's \<Rightarrow> (ai_provider \<times> 's) \<times> (net_stop + ai_usage)" where
  "chat_completions to_vec parse emit q token w1 w2 = (\<lambda>(p, k).
     case provider_guards p q token of
       Inl e \<Rightarrow> ((p, k), Inl (NetError e))
     | Inr c \<Rightarrow>
         (case run_attempts (provider_request to_vec (pv_options p) q c) parse emit (pv_options p) q w1 w2 k of
            (k', Inl NetWaiting) \<Rightarrow> ((live_push (cq_request_id q) p, k'), Inl NetWaiting)
          | (k', result) \<Rightarrow> ((remove_live_request (cq_request_id q) p, k'), result)))"

record ai_status =
  at_available :: bool
  at_provider :: string
  at_base_url :: "string option"
  at_model :: "string option"
  at_has_api_key :: bool
  at_timeout_ms :: u64

definition provider_status :: "ai_provider \<Rightarrow> ai_status" where
  "provider_status p =
     (case pv_config p of
        Some c \<Rightarrow> \<lparr>at_available = True, at_provider = pv_id p, at_base_url = Some (ac_base_url c), at_model = Some (ac_model c),
                   at_has_api_key = (authorization_header c \<noteq> None), at_timeout_ms = po_timeout_ms (pv_options p)\<rparr>
      | None \<Rightarrow> \<lparr>at_available = False, at_provider = pv_id p, at_base_url = None, at_model = None,
                  at_has_api_key = False, at_timeout_ms = po_timeout_ms (pv_options p)\<rparr>)"

subsection \<open>Facts: one terminal event\<close>

text \<open>What a completion emits on the way: pieces of its own text, and lines of the log.\<close>

definition on_the_way :: "string \<Rightarrow> event_body \<Rightarrow> bool" where
  "on_the_way request_id b \<longleftrightarrow>
     (case b of AiChunk c \<Rightarrow> ai_request_id c = request_id | LogAppend l \<Rightarrow> la_stream l = StreamIde | _ \<Rightarrow> False)"

abbreviation streamed :: "('s \<Rightarrow> event_body list) \<Rightarrow> event_body list \<Rightarrow> string \<Rightarrow> 's \<Rightarrow> bool" where
  "streamed bodies base request_id \<equiv> grown (on_the_way request_id) bodies base"

definition completed :: "('s \<Rightarrow> event_body list) \<Rightarrow> event_body list \<Rightarrow> string \<Rightarrow> ai_usage \<Rightarrow> 's \<Rightarrow> bool" where
  "completed bodies base request_id usage s \<longleftrightarrow>
     (\<exists>mid logs. bodies s = base @ mid @ AiFinished \<lparr>an_request_id = request_id, an_usage = usage\<rparr> # logs \<and>
        list_all (on_the_way request_id) mid \<and> list_all (on_the_way request_id) logs)"

lemma keeps_log:
  "accepting emit bodies \<Longrightarrow> keeps (streamed bodies base request_id) (sink_log emit StreamIde line)"
  by (rule keeps_grown_log) (simp_all add: on_the_way_def)

abbreviation streaming :: "('s \<Rightarrow> event_body list) \<Rightarrow> event_body list \<Rightarrow> string \<Rightarrow> ai_progress \<times> 's \<Rightarrow> bool" where
  "streaming bodies base request_id s \<equiv> streamed bodies base request_id (snd s)"

lemma keeps_adjust: "keeps (streaming bodies base request_id) (adjust f)"
  by (rule keepsI) (auto simp: adjust_def)

lemma keeps_on_events: "keeps (streamed bodies base request_id) m \<Longrightarrow> keeps (streaming bodies base request_id) (on_events m)"
  by (auto simp: yields_def on_events_def split: prod.split)

lemma keeps_chunk:
  assumes "accepting emit bodies"
  shows "keeps (streaming bodies base request_id) (take_chunk emit request_id chunk)"
proof -
  have "keeps (streamed bodies base request_id) (emit (AiChunk \<lparr>ai_request_id = request_id, ai_text = t\<rparr>))" for t
    by (rule keeps_grown [OF assms]) (simp add: on_the_way_def)
  then show ?thesis
    unfolding take_chunk_def by (intro keeping keeps_adjust keeps_on_events)
qed

lemma keeps_stream_events:
  assumes "accepting emit bodies"
  shows "keeps (streaming bodies base request_id) (stream_events parse emit request_id flags events)"
proof (induction events)
  case (Cons event rest)
  note parts = keeps_chunk [OF assms] keeps_on_events [OF keeps_log [OF assms]] keeps_adjust Cons
  show ?case
    by (cases event) (auto intro!: keeping parts simp: aborted_now_def)
qed (auto intro: keeping)

lemma keeps_on_stream:
  assumes "accepting emit bodies"
  shows "keeps (streaming bodies base request_id) (on_stream parse emit request_id flags bytes)"
proof (rule keepsI)
  fix s assume s: "streaming bodies base request_id s"
  obtain x k events d where [simp]: "s = (x, k)" "sse_push (xp_decoder x) bytes = (events, d)"
    by (cases s, cases "sse_push (xp_decoder (fst s)) bytes") auto
  show "streaming bodies base request_id (fst (on_stream parse emit request_id flags bytes s))"
    using keepsD [OF keeps_stream_events [OF assms], of request_id base "(x\<lparr>xp_decoder := d\<rparr>, k)" parse flags events] s
    by (simp add: on_stream_def)
qed

lemma keeps_final_events:
  assumes "accepting emit bodies"
  shows "keeps (streaming bodies base request_id) (final_events parse emit request_id flags events)"
proof (induction events)
  case (Cons event rest)
  note parts = keeps_chunk [OF assms] Cons
  show ?case
    by (cases event) (auto intro!: keeping parts simp: aborted_now_def)
qed (auto intro: keeping)

lemma keeps_final:
  assumes "accepting emit bodies"
  shows "keeps (streaming bodies base request_id) (final_flush parse emit request_id flags)"
proof (rule keepsI)
  fix s assume s: "streaming bodies base request_id s"
  obtain x k events d where [simp]: "s = (x, k)" "sse_finish (xp_decoder x) = (events, d)"
    by (cases s, cases "sse_finish (xp_decoder (fst s))") auto
  show "streaming bodies base request_id (fst (final_flush parse emit request_id flags s))"
    using keepsD [OF keeps_final_events [OF assms], of request_id base "(x\<lparr>xp_decoder := d\<rparr>, k)" parse flags events] s
    by (simp add: final_flush_def)
qed

text \<open>Reading a response keeps what its callback keeps.\<close>

lemma next_read_keeps:
  assumes "\<And>fl bytes. keeps P (on_body fl bytes)" "P t" "next_read r on_body c body t = (t', x)"
  shows "P t'"
proof (cases "read_more r ''reading the response body'' (fst c) body")
  case (Inr got)
  show ?thesis
  proof (cases got)
    case (Some body')
    have "P (fst (on_body (snd c) (drop (length body) body') t))" using keepsD [OF assms(1,2)] .
    with Inr Some assms(3) show ?thesis by (auto simp: next_read_def split: prod.splits sum.splits)
  qed (use Inr assms(2,3) in \<open>simp add: next_read_def\<close>)
qed (use assms(2,3) in \<open>simp add: next_read_def\<close>)

lemma chunked_loop_keeps:
  assumes "\<And>fl bytes. keeps P (on_body fl bytes)"
  shows "P t \<Longrightarrow> P (fst (chunked_loop r on_body calls body t))"
proof (induction calls arbitrary: body t)
  case Nil
  then show ?case by (subst chunked_loop.simps) (simp split: chunked_state.split)
next
  case (Cons c cs)
  obtain t' x where n: "next_read r on_body c body t = (t', x)" by (cases "next_read r on_body c body t")
  have "P t'" by (rule next_read_keeps [OF assms Cons.prems n])
  with Cons n show ?case
    by (subst chunked_loop.simps) (simp split: chunked_state.split sum.split option.split)
qed

lemma length_loop_keeps:
  assumes "\<And>fl bytes. keeps P (on_body fl bytes)"
  shows "P t \<Longrightarrow> P (fst (length_loop r on_body len calls body t))"
proof (induction calls arbitrary: body t)
  case Nil
  then show ?case by (subst length_loop.simps) simp
next
  case (Cons c cs)
  obtain t' x where n: "next_read r on_body c body t = (t', x)" by (cases "next_read r on_body c body t")
  have "P t'" by (rule next_read_keeps [OF assms Cons.prems n])
  with Cons n show ?case
    by (subst length_loop.simps) (simp split: sum.split option.split)
qed

lemma eof_loop_keeps:
  assumes "\<And>fl bytes. keeps P (on_body fl bytes)"
  shows "P t \<Longrightarrow> P (fst (eof_loop r on_body calls body t))"
proof (induction calls arbitrary: body t)
  case (Cons c cs)
  obtain t' x where n: "next_read r on_body c body t = (t', x)" by (cases "next_read r on_body c body t")
  have "P t'" by (rule next_read_keeps [OF assms Cons.prems n])
  with Cons n show ?case by (simp split: sum.split option.split)
qed simp

lemma read_response_keeps:
  assumes "\<And>fl bytes. keeps P (on_body fl bytes)" "P t"
  shows "P (fst (read_response r on_body calls t))"
proof -
  have body: "P (fst (read_body r on_body headers rest body t'))" if "P t'" for headers rest body t'
    using that chunked_loop_keeps [of P on_body] length_loop_keeps [of P on_body] eof_loop_keeps [of P on_body] assms(1)
    by (auto simp: read_body_def split: option.split)
  have first: "P (fst (if b = [] then (t, Inr ()) else on_body flag b t))" for b flag
    using assms keepsD [OF assms(1,2)] by simp
  show ?thesis
  proof (cases "header_loop r calls (False, False) []")
    case (Inr got)
    obtain raw b flag rest where got: "got = (raw, b, flag, rest)" by (cases got) auto
    obtain t' y where f: "(if b = [] then (t, Inr ()) else on_body flag b t) = (t', y)"
      by (cases "if b = [] then (t, Inr ()) else on_body flag b t")
    then have t': "P t'" using first [of b flag] by simp
    obtain t'' z where rb: "read_body r on_body (parse_headers (tl (split_crlf (from_utf8_lossy raw)))) rest b t' = (t'', z)"
      by (cases "read_body r on_body (parse_headers (tl (split_crlf (from_utf8_lossy raw)))) rest b t'")
    then have "P t''" using body [OF t'] by (metis fst_conv)
    with t' assms(2) show ?thesis
      unfolding read_response_def Inr got sum.case prod.case Let_def f
      by (simp add: rb split: sum.split prod.split)
  qed (simp add: read_response_def assms(2))
qed

subsection \<open>The end of a completion\<close>

lemma completed_end:
  assumes acc: "accepting emit bodies" and st: "streamed bodies base request_id s"
    and e: "emit (AiFinished \<lparr>an_request_id = request_id, an_usage = usage\<rparr>) s = (s', x)"
  shows "completed bodies base request_id usage s'"
proof -
  obtain mid where "bodies s = base @ mid" "list_all (on_the_way request_id) mid"
    using st by (auto simp: grown_def)
  moreover have "bodies s' = bodies s @ [AiFinished \<lparr>an_request_id = request_id, an_usage = usage\<rparr>]"
    using acc e unfolding accepting_def by (metis fst_conv)
  ultimately show ?thesis
    unfolding completed_def by (intro exI [of _ mid] exI [of _ "[]"]) simp
qed

lemma completed_log:
  assumes acc: "accepting emit bodies" and c: "completed bodies base request_id usage s"
    and e: "sink_log emit StreamIde line s = (s', x)"
  shows "completed bodies base request_id usage s'"
proof -
  obtain mid logs where "bodies s = base @ mid @ AiFinished \<lparr>an_request_id = request_id, an_usage = usage\<rparr> # logs"
      "list_all (on_the_way request_id) mid" "list_all (on_the_way request_id) logs"
    using c by (auto simp: completed_def)
  moreover have "bodies s' = bodies s @ [LogAppend \<lparr>la_stream = StreamIde, la_chunk = line, la_encoding = EncUtf8\<rparr>]"
    using acc e unfolding accepting_def sink_log_def by (metis fst_conv)
  ultimately show ?thesis
    unfolding completed_def
    by (intro exI [of _ mid] exI [of _ "logs @ [LogAppend \<lparr>la_stream = StreamIde, la_chunk = line, la_encoding = EncUtf8\<rparr>]"])
      (simp add: on_the_way_def)
qed

lemma conclude_ends:
  assumes acc: "accepting emit bodies" and st: "streamed bodies base request_id s"
    and c: "conclude_exchange emit request_id response x s = (s', result)"
  shows "case result of Inl e \<Rightarrow> streamed bodies base request_id s' | Inr u \<Rightarrow> completed bodies base request_id u s'"
proof (cases "is_success response")
  case False
  obtain s1 where l: "sink_log emit StreamIde (''ai: provider answered HTTP '' @ show_nat (unat (hp_status response)) @ '' '' @
      hp_reason response @ [CHR 0x0A]) s = (s1, Inr ())"
    using log_accepted [OF acc] by blast
  with keepsD [OF keeps_log [OF acc] st] have "streamed bodies base request_id s1" by (metis fst_conv)
  with False c l show ?thesis by (auto simp: conclude_exchange_def then_do_def)
next
  case True
  obtain s1 where e: "emit (AiFinished \<lparr>an_request_id = request_id, an_usage = xp_usage x\<rparr>) s = (s1, Inr ())"
    using accepted [OF acc] by blast
  have s1: "completed bodies base request_id (xp_usage x) s1" by (rule completed_end [OF acc st e])
  show ?thesis
  proof (cases "\<not> xp_content x \<and> au_total_tokens (xp_usage x) = 0")
    case True
    obtain s2 where l: "sink_log emit StreamIde (''ai: provider returned no content for request '' @ request_id @
        '' (done='' @ show_flag (xp_done x) @ '')'' @ [CHR 0x0A]) s1 = (s2, Inr ())"
      using log_accepted [OF acc] by blast
    have "completed bodies base request_id (xp_usage x) s2" by (rule completed_log [OF acc s1 l])
    with True \<open>is_success response\<close> c e l show ?thesis
      by (auto simp: conclude_exchange_def then_do_def give_def simp del: append_Cons append_assoc)
  next
    case False
    with \<open>is_success response\<close> c e s1 show ?thesis
      by (auto simp: conclude_exchange_def then_do_def give_def)
  qed
qed


definition ended :: "('s \<Rightarrow> event_body list) \<Rightarrow> event_body list \<Rightarrow> string \<Rightarrow> 's \<times> (net_stop + ai_usage) \<Rightarrow> bool" where
  "ended bodies base request_id out \<longleftrightarrow>
     (case out of
        (s, Inl _) \<Rightarrow> streamed bodies base request_id s
      | (s, Inr u) \<Rightarrow> completed bodies base request_id u s)"

lemma exchange_ends:
  assumes acc: "accepting emit bodies" and st: "streamed bodies base (cq_request_id q) s"
  shows "ended bodies base (cq_request_id q) (exchange parse emit q r w s)"
proof (cases "connect_stream (aw_connection w) r")
  case (Inl stop)
  with st show ?thesis by (simp add: exchange_def ended_def)
next
  case (Inr u)
  let ?id = "cq_request_id q"
  obtain x s1 result where r: "read_response r (on_stream parse emit ?id) (cn_reads (aw_connection w)) (progress_new, s) = ((x, s1), result)"
    by (cases "read_response r (on_stream parse emit ?id) (cn_reads (aw_connection w)) (progress_new, s)") auto
  have "streaming bodies base ?id (fst (read_response r (on_stream parse emit ?id) (cn_reads (aw_connection w)) (progress_new, s)))"
    by (rule read_response_keeps [OF keeps_on_stream [OF acc]]) (simp add: st)
  then have s1: "streamed bodies base ?id s1" by (simp add: r)
  show ?thesis
  proof (cases result)
    case (Inl stop)
    with Inr r s1 show ?thesis by (simp add: exchange_def ended_def)
  next
    case (Inr response)
    obtain x' s2 flushed where f: "final_flush parse emit ?id (aw_after w) (x, s1) = ((x', s2), flushed)"
      by (cases "final_flush parse emit ?id (aw_after w) (x, s1)") auto
    have "streaming bodies base ?id (fst (final_flush parse emit ?id (aw_after w) (x, s1)))"
      by (rule keepsD [OF keeps_final [OF acc]]) (simp add: s1)
    then have s2: "streamed bodies base ?id s2" by (simp add: f)
    obtain s3 done' where c: "conclude_exchange emit ?id response x' s2 = (s3, done')"
      by (cases "conclude_exchange emit ?id response x' s2")
    from conclude_ends [OF acc s2 c] s2 \<open>connect_stream (aw_connection w) r = Inr u\<close> r Inr f c show ?thesis
      by (cases flushed; cases done') (simp_all add: exchange_def ended_def)
  qed
qed

lemma report_log: "\<exists>line. report_generation_error e emit = sink_log emit StreamIde line"
  by (auto simp: report_generation_error_def sink_note_def)

lemma finished_with_error:
  assumes acc: "accepting emit bodies" and st: "streamed bodies base request_id s"
  shows "completed bodies base request_id no_usage (finish_with_error request_id e emit s)"
proof -
  obtain line where "report_generation_error e emit = sink_log emit StreamIde line" using report_log by blast
  with keepsD [OF keeps_log [OF acc] st] have "streamed bodies base request_id (fst (report_generation_error e emit s))"
    by simp
  then show ?thesis
    unfolding finish_with_error_def using completed_end [OF acc] by (metis prod.collapse)
qed

definition settled :: "('s \<Rightarrow> event_body list) \<Rightarrow> event_body list \<Rightarrow> string \<Rightarrow> 's \<times> (net_stop + ai_usage) \<Rightarrow> bool" where
  "settled bodies base request_id out \<longleftrightarrow>
     (case out of
        (s, Inl (NetError e)) \<Rightarrow> completed bodies base request_id no_usage s
      | (s, Inl _) \<Rightarrow> streamed bodies base request_id s
      | (s, Inr u) \<Rightarrow> completed bodies base request_id u s)"

lemma settle_ends:
  assumes acc: "accepting emit bodies" and e: "ended bodies base request_id out"
  shows "settled bodies base request_id (settle_attempts emit request_id out)"
proof -
  obtain s r where out: "out = (s, r)" by (cases out)
  show ?thesis
  proof (cases r)
    case (Inl stop)
    with e out have "streamed bodies base request_id s" by (simp add: ended_def)
    with Inl out finished_with_error [OF acc] show ?thesis by (cases stop) (simp_all add: settled_def)
  next
    case (Inr u)
    with e out show ?thesis by (simp add: ended_def settled_def)
  qed
qed

lemma attempts_settle:
  assumes acc: "accepting emit bodies"
  shows "settled bodies (bodies s) (cq_request_id q) (run_attempts req parse emit o1 q w1 w2 s)"
proof -
  let ?id = "cq_request_id q" and ?r1 = "req (po_include_usage o1)"
  obtain s1 r1 where x: "exchange parse emit q ?r1 w1 s = (s1, r1)" by (cases "exchange parse emit q ?r1 w1 s")
  have e: "ended bodies (bodies s) ?id (s1, r1)"
    using exchange_ends [OF acc grown_start, where s = s and q = q and parse = parse and r = ?r1 and w = w1] x by simp
  note first = settle_ends [OF acc e]
  show ?thesis
  proof (cases "\<exists>err. r1 = Inl (NetError err) \<and> po_include_usage o1 \<and> is_unknown_option_rejection err")
    case True
    then obtain err where err: "r1 = Inl (NetError err)" "po_include_usage o1" "is_unknown_option_rejection err" by blast
    then have s1: "streamed bodies (bodies s) ?id s1" using e by (simp add: ended_def)
    obtain s2 where l: "sink_log emit StreamIde (''ai: provider rejected `stream_options`; retrying without it'' @ [CHR 0x0A]) s1 = (s2, Inr ())"
      using log_accepted [OF acc] by blast
    have "streamed bodies (bodies s) ?id s2" using keepsD [OF keeps_log [OF acc] s1] l by (metis fst_conv)
    from settle_ends [OF acc exchange_ends [OF acc this]] x err l show ?thesis
      by (simp add: run_attempts_def del: append_Cons append_assoc)
  next
    case False
    then show ?thesis
      using first x by (auto simp: run_attempts_def split: sum.split net_stop.split)
  qed
qed


definition demo_provider :: ai_provider where
  "demo_provider = provider_new \<lparr>ac_base_url = ''http://localhost/v1'', ac_model = ''m'', ac_api_key = None\<rparr>"

definition demo_request :: chat_request where
  "demo_request = \<lparr>cq_request_id = ''r1'', cq_model = [], cq_messages = [\<lparr>cm_role = ''user'', cm_content = ''hi''\<rparr>],
     cq_stream = True, cq_temperature = None\<rparr>"

definition no_host :: ai_world where
  "no_host = \<lparr>aw_connection = \<lparr>cn_resolved = Inl ''no such host'', cn_connect = \<lambda>_. Inr (), cn_setup = Inr (), cn_writes = [],
     cn_reads = []\<rparr>, aw_after = (False, False)\<rparr>"



subsection \<open>Facts: the text of a completion\<close>

text \<open>What the payload of one frame puts on the event stream, and the usage after some of them.\<close>

definition payload_events :: "chunk_parser \<Rightarrow> string \<Rightarrow> string \<Rightarrow> event_body list" where
  "payload_events parse request_id payload =
     (case parse payload of
        Inl err \<Rightarrow> [LogAppend \<lparr>la_stream = StreamIde,
          la_chunk = ''ai: skipped an unparseable stream frame: '' @ err @ [CHR 0x0A], la_encoding = EncUtf8\<rparr>]
      | Inr chunk \<Rightarrow>
          (case chunk_text chunk of None \<Rightarrow> [] | Some t \<Rightarrow> [AiChunk \<lparr>ai_request_id = request_id, ai_text = t\<rparr>]))"

definition usage_after :: "chunk_parser \<Rightarrow> string \<Rightarrow> ai_usage \<Rightarrow> ai_usage" where
  "usage_after parse payload u =
     (case parse payload of
        Inl err \<Rightarrow> u
      | Inr chunk \<Rightarrow> (case ck_usage chunk of None \<Rightarrow> u | Some v \<Rightarrow> to_ai_usage v))"

definition payloads :: "sse_event list \<Rightarrow> string list" where
  "payloads es = List.map_filter (\<lambda>e. case e of EventData p \<Rightarrow> Some p | EventDone \<Rightarrow> None) (takeWhile (\<lambda>e. e \<noteq> EventDone) es)"

lemma payloads_simps [simp]:
  "payloads [] = []" "payloads (EventDone # es) = []" "payloads (EventData p # es) = p # payloads es"
  by (simp_all add: payloads_def map_filter_simps)

lemma payloads_append: "payloads (es @ es') = payloads es @ (if EventDone \<in> set es then [] else payloads es')"
proof (induction es)
  case (Cons e es)
  then show ?case by (cases e) auto
qed simp

text \<open>The state after some payloads: the decoder aside.\<close>

definition absorbed :: "chunk_parser \<Rightarrow> ('s \<Rightarrow> event_body list) \<Rightarrow> string \<Rightarrow> string list \<Rightarrow> ai_progress \<times> 's \<Rightarrow> ai_progress \<times> 's \<Rightarrow> bool" where
  "absorbed parse bodies request_id ps s s' \<longleftrightarrow>
     bodies (snd s') = bodies (snd s) @ concat (map (payload_events parse request_id) ps) \<and>
     xp_usage (fst s') = fold (usage_after parse) ps (xp_usage (fst s))"

lemma absorbed_trans:
  "absorbed parse bodies request_id ps s s' \<Longrightarrow> absorbed parse bodies request_id ps' s' s'' \<Longrightarrow>
     absorbed parse bodies request_id (ps @ ps') s s''"
  by (simp add: absorbed_def)

lemma chunk_absorbed:
  assumes "accepting emit bodies" "parse payload = Inr chunk"
  shows "\<exists>s'. take_chunk emit request_id chunk s = (s', Inr ()) \<and> absorbed parse bodies request_id [payload] s s' \<and>
    xp_decoder (fst s') = xp_decoder (fst s)"
proof -
  obtain x k where [simp]: "s = (x, k)" by (cases s)
  show ?thesis
  proof (cases "chunk_text chunk")
    case None
    then show ?thesis using assms(2)
      by (auto simp: take_chunk_def then_do_def adjust_def give_def absorbed_def payload_events_def usage_after_def
          split: option.split)
  next
    case (Some t)
    obtain k' where "emit (AiChunk \<lparr>ai_request_id = request_id, ai_text = t\<rparr>) k = (k', Inr ())"
        "bodies k' = bodies k @ [AiChunk \<lparr>ai_request_id = request_id, ai_text = t\<rparr>]"
      using accepted [OF assms(1)] by blast
    with Some assms(2) show ?thesis
      by (auto simp: take_chunk_def then_do_def adjust_def give_def absorbed_def payload_events_def usage_after_def
          on_events_def split: option.split)
  qed
qed

lemma skip_absorbed:
  assumes "accepting emit bodies" "parse payload = Inl err"
  shows "\<exists>s'. on_events (sink_log emit StreamIde (''ai: skipped an unparseable stream frame: '' @ err @ [CHR 0x0A])) s = (s', Inr ()) \<and>
    absorbed parse bodies request_id [payload] s s' \<and> xp_decoder (fst s') = xp_decoder (fst s)"
proof -
  obtain x k where [simp]: "s = (x, k)" by (cases s)
  obtain k' where "emit (LogAppend \<lparr>la_stream = StreamIde, la_chunk = ''ai: skipped an unparseable stream frame: '' @ err @ [CHR 0x0A],
        la_encoding = EncUtf8\<rparr>) k = (k', Inr ())"
      "bodies k' = bodies k @ [LogAppend \<lparr>la_stream = StreamIde,
        la_chunk = ''ai: skipped an unparseable stream frame: '' @ err @ [CHR 0x0A], la_encoding = EncUtf8\<rparr>]"
    using accepted [OF assms(1)] by blast
  with assms(2) show ?thesis
    by (auto simp: on_events_def sink_log_def absorbed_def payload_events_def usage_after_def simp del: append_Cons append_assoc)
qed

lemma events_absorbed:
  assumes "accepting emit bodies"
  shows "\<exists>s'. stream_events parse emit request_id (False, False) es s = (s', Inr ()) \<and>
    absorbed parse bodies request_id (payloads es) s s' \<and> xp_decoder (fst s') = xp_decoder (fst s)"
proof (induction es arbitrary: s)
  case Nil
  then show ?case by (simp add: give_def absorbed_def)
next
  case (Cons e es)
  show ?case
  proof (cases e)
    case EventDone
    then show ?thesis by (cases s) (simp add: aborted_now_def adjust_def absorbed_def)
  next
    case (EventData p)
    let ?op = "case parse p of
        Inl err \<Rightarrow> on_events (sink_log emit StreamIde (''ai: skipped an unparseable stream frame: '' @ err @ [CHR 0x0A]))
      | Inr chunk \<Rightarrow> take_chunk emit request_id chunk"
    have "\<exists>s1. ?op s = (s1, Inr ()) \<and> absorbed parse bodies request_id [p] s s1 \<and> xp_decoder (fst s1) = xp_decoder (fst s)"
    proof (cases "parse p")
      case (Inl err)
      show ?thesis unfolding Inl sum.case by (rule skip_absorbed [where parse = parse and payload = p, OF assms Inl])
    next
      case (Inr chunk)
      show ?thesis unfolding Inr sum.case by (rule chunk_absorbed [where parse = parse and payload = p, OF assms Inr])
    qed
    then obtain s1 where 1: "?op s = (s1, Inr ())" "absorbed parse bodies request_id [p] s s1"
        "xp_decoder (fst s1) = xp_decoder (fst s)" by blast
    obtain s2 where 2: "stream_events parse emit request_id (False, False) es s1 = (s2, Inr ())"
        "absorbed parse bodies request_id (payloads es) s1 s2" "xp_decoder (fst s2) = xp_decoder (fst s1)"
      using Cons by blast
    have "stream_events parse emit request_id (False, False) (e # es) s = (s2, Inr ())"
      by (simp only: EventData stream_events.simps aborted_now_def fst_conv snd_conv simp_thms if_False sse_event.case
          then_do_def 1(1) prod.case sum.case 2(1))
    with absorbed_trans [OF 1(2) 2(2)] 1(3) 2(3) EventData show ?thesis by auto
  qed
qed


lemma loop_done: "sse_loop buffer = (es, rest, closed) \<Longrightarrow> (EventDone \<in> set es \<longleftrightarrow> closed)"
proof (induction buffer arbitrary: es rest closed rule: sse_loop.induct)
  case (1 buffer)
  then show ?case
    by (subst (asm) (3) sse_loop.simps) (auto split: option.splits prod.splits sse_event.splits)
qed

lemma push_done: "sse_push d bytes = (es, d') \<Longrightarrow> EventDone \<in> set es \<Longrightarrow> sse_done d'"
  using loop_done [of "sse_buffer d @ bytes"] by (auto simp: sse_push_def split: if_splits prod.splits)

lemma pushed_after_done: "sse_done d \<Longrightarrow> sse_push_all d cs = ([], d)"
  by (induction cs) (simp_all add: sse_push_def)

lemma stream_absorbed:
  assumes "accepting emit bodies" "sse_push (xp_decoder (fst s)) bytes = (es, d)"
  shows "\<exists>s'. on_stream parse emit request_id (False, False) bytes s = (s', Inr ()) \<and>
    absorbed parse bodies request_id (payloads es) s s' \<and> xp_decoder (fst s') = d"
proof -
  obtain x k where [simp]: "s = (x, k)" by (cases s)
  from events_absorbed [OF assms(1), of parse request_id es "(x\<lparr>xp_decoder := d\<rparr>, k)"] assms(2)
  show ?thesis by (auto simp: on_stream_def absorbed_def)
qed

text \<open>A callback fed pieces one by one, none of them refused.\<close>

definition fed :: "'t on_body \<Rightarrow> string list \<Rightarrow> 't \<Rightarrow> 't" where
  "fed on_body ps t = fold (\<lambda>p t. fst (on_body (False, False) p t)) ps t"

lemma fed_absorbed:
  assumes "accepting emit bodies"
  shows "sse_push_all (xp_decoder (fst s)) ps = (es, d) \<Longrightarrow>
    absorbed parse bodies request_id (payloads es) s (fed (on_stream parse emit request_id) ps s) \<and>
    xp_decoder (fst (fed (on_stream parse emit request_id) ps s)) = d"
proof (induction ps arbitrary: s es)
  case Nil
  then show ?case by (simp add: fed_def absorbed_def)
next
  case (Cons p ps)
  obtain e1 d1 where 1: "sse_push (xp_decoder (fst s)) p = (e1, d1)" by (cases "sse_push (xp_decoder (fst s)) p")
  obtain e2 d2 where 2: "sse_push_all d1 ps = (e2, d2)" by (cases "sse_push_all d1 ps")
  obtain s1 where s1: "on_stream parse emit request_id (False, False) p s = (s1, Inr ())"
      "absorbed parse bodies request_id (payloads e1) s s1" "xp_decoder (fst s1) = d1"
    using stream_absorbed [OF assms 1] by blast
  have es: "es = e1 @ e2" "d = d2" using Cons.prems 1 2 by simp_all
  have "payloads es = payloads e1 @ payloads e2"
    using pushed_after_done [OF push_done [OF 1]] 2 by (auto simp: es payloads_append)
  with Cons.IH [of s1 e2] s1 2 es absorbed_trans [OF s1(2)] show ?case by (simp add: fed_def)
qed

definition never_refuses :: "'t on_body \<Rightarrow> bool" where
  "never_refuses on_body \<longleftrightarrow> (\<forall>bytes t. snd (on_body (False, False) bytes t) = Inr ())"

lemma fed_read:
  assumes "never_refuses on_body" "p \<noteq> []" "length buf + length p \<le> MAX_RESPONSE_BYTES"
  shows "next_read r on_body (clean_read (False, False) p) buf t = (fst (on_body (False, False) p t), Inr (Some (buf @ p)))"
proof -
  obtain t' where "on_body (False, False) p t = (t', Inr ())"
    using assms(1) unfolding never_refuses_def by (metis prod.collapse)
  then show ?thesis using assms(2,3) by (simp add: next_read_def read_more_clean)
qed

lemma length_loop_fed:
  assumes "never_refuses on_body"
  shows "[] \<notin> set ps \<Longrightarrow> length (buf @ concat ps) \<le> MAX_RESPONSE_BYTES \<Longrightarrow> len = length (buf @ concat ps) \<Longrightarrow>
     length_loop r on_body len (map (clean_read (False, False)) ps @ cs) buf t = (fed on_body ps t, Inr (buf @ concat ps))"
proof (induction ps arbitrary: buf t)
  case Nil
  then show ?case by (subst length_loop.simps) (simp add: fed_def)
next
  case (Cons p ps)
  then have "p \<noteq> []" by auto
  with Cons show ?case by (subst length_loop.simps) (auto simp: fed_read [OF assms] fed_def)
qed

lemma eof_loop_fed:
  assumes "never_refuses on_body"
  shows "[] \<notin> set ps \<Longrightarrow> length (buf @ concat ps) \<le> MAX_RESPONSE_BYTES \<Longrightarrow>
     eof_loop r on_body (map (clean_read (False, False)) ps @ [clean_read (False, False) []]) buf t =
       (fed on_body ps t, Inr (buf @ concat ps))"
proof (induction ps arbitrary: buf t)
  case Nil
  then show ?case by (simp add: next_read_def read_more_clean fed_def)
next
  case (Cons p ps)
  then have "p \<noteq> []" by auto
  with Cons show ?case by (simp add: fed_read [OF assms] fed_def)
qed


lemma response_fed:
  assumes nr: "never_refuses on_body"
    and cut: "concat ps = head @ head_end @ after" "[] \<notin> set ps"
    and head: "split_once_str head_end (head @ head_end @ after) = Some (head, after)" "length head + 4 \<le> HEADER_LIMIT"
    and small: "length (concat ps) \<le> MAX_RESPONSE_BYTES"
    and lines: "split_crlf (from_utf8_lossy head) = l # ls" "parse_status_line l = Inr (status, reason)"
      "check_encoding (parse_headers ls) = Inr ()"
    and framed: "framed (parse_headers ls) after after" "\<not> is_chunked (parse_headers ls)"
  shows "\<exists>qs. concat qs = after \<and>
    read_response r on_body (map (clean_read (False, False)) ps @ [clean_read (False, False) []]) t =
      (fed on_body qs t, Inr \<lparr>hp_status = status, hp_reason = reason, hp_headers = parse_headers ls, hp_body = after\<rparr>)"
proof -
  let ?fl = "(False, False)"
  have "split_once_str head_end ([] @ concat ps) = Some (head, after)" using cut(1) head(1) by simp
  then obtain b rs where hl: "header_loop r (map (clean_read ?fl) ps @ [clean_read ?fl []]) ?fl [] =
        Inr (head, b, ?fl, map (clean_read ?fl) rs @ [clean_read ?fl []])"
      and rest: "b @ concat rs = after" "[] \<notin> set rs"
    using header_loop_cut [of "[]" ps head after ?fl ?fl r "[clean_read ?fl []]"] cut(2) head(2) small by auto
  have len: "length (b @ concat rs) \<le> MAX_RESPONSE_BYTES"
    using small cut(1) rest(1) by simp
  define t1 where "t1 = (if b = [] then t else fst (on_body ?fl b t))"
  have first: "(if b = [] then (t, Inr ()) else on_body ?fl b t) = (t1, Inr ())"
  proof (cases "b = []")
    case False
    obtain t' where "on_body ?fl b t = (t', Inr ())"
      using nr unfolding never_refuses_def by (metis prod.collapse)
    with False show ?thesis by (simp add: t1_def)
  qed (simp add: t1_def)
  have body: "read_body r on_body (parse_headers ls) (map (clean_read ?fl) rs @ [clean_read ?fl []]) b t1 =
      (fed on_body rs t1, Inr after)"
    using framed rest len length_loop_fed [OF nr rest(2) len] eof_loop_fed [OF nr rest(2) len]
    by (auto simp: framed_def read_body_def split: option.splits)
  have "concat (filter (\<lambda>p. p \<noteq> []) [b] @ rs) = after" using rest(1) by (cases "b = []") auto
  moreover have "fed on_body (filter (\<lambda>p. p \<noteq> []) [b] @ rs) t = fed on_body rs t1"
    by (cases "b = []") (simp_all add: fed_def t1_def)
  moreover have "read_response r on_body (map (clean_read ?fl) ps @ [clean_read ?fl []]) t =
      (fed on_body rs t1, Inr \<lparr>hp_status = status, hp_reason = reason, hp_headers = parse_headers ls, hp_body = after\<rparr>)"
    unfolding read_response_def hl sum.case prod.case Let_def lines list.sel first body by simp
  ultimately show ?thesis by metis
qed

lemma on_stream_never_refuses:
  fixes emit :: "'s emitter"
  assumes acc: "accepting emit bodies"
  shows "never_refuses (on_stream parse emit request_id)"
  unfolding never_refuses_def
proof (intro allI)
  fix bytes and s :: "ai_progress \<times> 's"
  obtain es d where p: "sse_push (xp_decoder (fst s)) bytes = (es, d)" by (cases "sse_push (xp_decoder (fst s)) bytes")
  obtain s' where "on_stream parse emit request_id (False, False) bytes s = (s', Inr ())"
    using stream_absorbed [OF acc p, of parse request_id] by blast
  then show "snd (on_stream parse emit request_id (False, False) bytes s) = Inr ()"
    by simp
qed


lemma concluded:
  assumes "accepting emit bodies" "is_success response"
  shows "\<exists>s' logs. conclude_exchange emit request_id response x s = (s', Inr (xp_usage x)) \<and>
    bodies s' = bodies s @ AiFinished \<lparr>an_request_id = request_id, an_usage = xp_usage x\<rparr> # logs \<and>
    list_all (\<lambda>b. body_kind b = KLogAppend) logs"
proof -
  let ?line = "''ai: provider returned no content for request '' @ request_id @
    '' (done='' @ show_flag (xp_done x) @ '')'' @ [CHR 0x0A]"
  obtain s1 where e: "emit (AiFinished \<lparr>an_request_id = request_id, an_usage = xp_usage x\<rparr>) s = (s1, Inr ())"
      "bodies s1 = bodies s @ [AiFinished \<lparr>an_request_id = request_id, an_usage = xp_usage x\<rparr>]"
    using accepted [OF assms(1)] by blast
  obtain s2 where l: "sink_log emit StreamIde ?line s1 = (s2, Inr ())"
      "bodies s2 = bodies s1 @ [LogAppend \<lparr>la_stream = StreamIde, la_chunk = ?line, la_encoding = EncUtf8\<rparr>]"
    unfolding sink_log_def using accepted [OF assms(1)] by blast
  show ?thesis
  proof (cases "\<not> xp_content x \<and> au_total_tokens (xp_usage x) = 0")
    case True
    with assms(2) e(1) l(1) have "conclude_exchange emit request_id response x s = (s2, Inr (xp_usage x))"
      by (simp add: conclude_exchange_def then_do_def give_def del: append_Cons append_assoc)
    with e(2) l(2) show ?thesis by (simp del: append_Cons append_assoc) (simp add: append_assoc)
  next
    case False
    then show ?thesis using assms(2) e
      by (auto simp: conclude_exchange_def then_do_def give_def)
  qed
qed


definition demo_net :: connection where
  "demo_net = \<lparr>cn_resolved = Inr [(True, ''127.0.0.1:80'')], cn_connect = \<lambda>_. Inr (), cn_setup = Inr (),
     cn_writes = [\<lparr>wc_aborted = False, wc_expired = False, wc_attempt = Wrote 137\<rparr>],
     cn_reads = map (clean_read (False, False)) [''HTTP/1.1 200 O'', ''K'' @ crlf @ ''Connection: close'' @ crlf @ [CHR 0x0D],
       [CHR 0x0A] @ ''dat'', ''a: {}'' @ [CHR 0x0A, CHR 0x0A] @ ''data: [DON'', ''E]'' @ [CHR 0x0A, CHR 0x0A]] @
       [clean_read (False, False) []]\<rparr>"

definition hi_chunk :: chat_completion_chunk where
  "hi_chunk = \<lparr>ck_id = None, ck_model = None,
     ck_choices = [\<lparr>cc_delta = None, cc_text = Some ''hi'', cc_finish_reason = None\<rparr>],
     ck_usage = Some \<lparr>su_prompt_tokens = 1, su_completion_tokens = 2, su_total_tokens_field = 3\<rparr>\<rparr>"


end
