(* ===== verification/Language.thy ===== *)
theory Language
  imports Config
begin

section \<open>Language packages\<close>

text \<open>
  Models \<^verbatim>\<open>crates/princess-lang/src\<close>: the manifest of a language and its validation
  (\<^verbatim>\<open>manifest.rs\<close>), the adapters of the language C (\<^verbatim>\<open>adapter.rs\<close>), and the registry that loads
  manifests from directories (\<^verbatim>\<open>registry.rs\<close>). The TOML parser and the file system are parameters; the
  order in which a hash map is walked is one too. An adapter is the record of what its trait gives.
\<close>

subsection \<open>Errors\<close>

datatype language_error_code =
    MissingField | UnknownField | InvalidValue | DuplicateId | AdapterNotFound | LangIoError | LangParseError

record language_error =
  le_code :: language_error_code
  le_message :: string

definition language_error :: "language_error_code \<Rightarrow> string \<Rightarrow> language_error" where
  "language_error code message = \<lparr>le_code = code, le_message = message\<rparr>"

fun debug_language_code :: "language_error_code \<Rightarrow> string" where
  "debug_language_code MissingField = ''MissingField''"
| "debug_language_code UnknownField = ''UnknownField''"
| "debug_language_code InvalidValue = ''InvalidValue''"
| "debug_language_code DuplicateId = ''DuplicateId''"
| "debug_language_code AdapterNotFound = ''AdapterNotFound''"
| "debug_language_code LangIoError = ''IoError''"
| "debug_language_code LangParseError = ''ParseError''"

definition show_language_error :: "language_error \<Rightarrow> string" where
  "show_language_error e = ''['' @ debug_language_code (le_code e) @ ''] '' @ le_message e"

subsection \<open>The manifest\<close>

record lsp_section =
  lp_command :: string
  lp_args :: "string list"
  lp_dot_clangd_strategy :: "string option"
  lp_compile_commands_strategy :: "string option"

record lang_build_section =
  lb_backend :: string
  lb_cdb_generation :: bool
  lb_dot_clangd_generation :: bool
  lb_clean_before_cdb :: bool

record lang_run_section =
  ln_backend :: string
  ln_serial_args :: "string list"
  ln_triple_fault_args :: "string list"

text \<open>
  The \<open>[language]\<close> section and the validated manifest have the same fields; the debug section is the
  name of its backend.
\<close>

record language_manifest =
  lm_id :: string
  lm_display_name :: string
  lm_extensions :: "string list"
  lm_description :: "string option"
  lm_lsp :: lsp_section
  lm_build :: lang_build_section
  lm_run :: lang_run_section
  lm_debug :: "string option"

definition VALID_EXTENSIONS :: "string list" where
  "VALID_EXTENSIONS = [''.c'', ''.h'', ''.S'', ''.s'', ''.asm'', ''.java'', ''.kt'', ''.rs'', ''.cpp'', ''.cc'',
     ''.cxx'', ''.hpp'', ''.zig'']"

definition KNOWN_BACKENDS :: "string list" where
  "KNOWN_BACKENDS = [''make'', ''javac'', ''qemu-multiboot2'', ''jvm'', ''gdb-dap'', ''jdwp'']"

definition require :: "bool \<Rightarrow> language_error_code \<Rightarrow> string \<Rightarrow> language_error + unit" where
  "require b code message = (if b then Inr () else Inl (language_error code message))"

definition validate_backend :: "string \<Rightarrow> language_error + unit" where
  "validate_backend backend = require (backend \<noteq> []) MissingField ''backend must not be empty''"

fun check_extensions :: "string list \<Rightarrow> language_error + unit" where
  "check_extensions [] = Inr ()"
| "check_extensions (ext # rest) =
     (if \<not> starts_with ''.'' ext
      then Inl (language_error InvalidValue (''extension '' @ [CHR 0x27] @ ext @ [CHR 0x27] @ '' must start with a dot''))
      else check_extensions rest)"

fun check_distinct :: "string set \<Rightarrow> string list \<Rightarrow> language_error + unit" where
  "check_distinct seen [] = Inr ()"
| "check_distinct seen (ext # rest) =
     (if ext \<in> seen
      then Inl (language_error InvalidValue (''duplicate extension '' @ [CHR 0x27] @ ext @ [CHR 0x27]))
      else check_distinct (insert ext seen) rest)"

definition validate_and_convert :: "language_manifest \<Rightarrow> language_error + language_manifest" where
  "validate_and_convert m =
     and_then (require (lm_id m \<noteq> []) MissingField ''language.id must not be empty'') (\<lambda>_.
     and_then (require (lm_display_name m \<noteq> []) MissingField ''language.displayName must not be empty'') (\<lambda>_.
     and_then (require (lm_extensions m \<noteq> []) MissingField ''language.extensions must not be empty'') (\<lambda>_.
     and_then (require (lp_command (lm_lsp m) \<noteq> []) MissingField ''language.lsp.command must not be empty'') (\<lambda>_.
     and_then (require (lb_backend (lm_build m) \<noteq> []) MissingField ''language.build.backend must not be empty'') (\<lambda>_.
     and_then (require (ln_backend (lm_run m) \<noteq> []) MissingField ''language.run.backend must not be empty'') (\<lambda>_.
     and_then (check_extensions (lm_extensions m)) (\<lambda>_.
     and_then (validate_backend (lb_backend (lm_build m))) (\<lambda>_.
     and_then (validate_backend (ln_backend (lm_run m))) (\<lambda>_.
     and_then (case lm_debug m of None \<Rightarrow> Inr () | Some backend \<Rightarrow> validate_backend backend) (\<lambda>_.
     and_then (check_distinct {} (lm_extensions m)) (\<lambda>_. Inr m)))))))))))"

definition lang_from_toml :: "(string \<Rightarrow> string + language_manifest) \<Rightarrow> string \<Rightarrow> language_error + language_manifest" where
  "lang_from_toml toml txt =
     (case toml txt of
        Inl err \<Rightarrow> Inl (language_error LangParseError (''failed to parse manifest TOML: '' @ err))
      | Inr m \<Rightarrow> validate_and_convert m)"

definition lang_from_file ::
  "(string \<Rightarrow> string + language_manifest) \<Rightarrow> (string \<Rightarrow> string + string) \<Rightarrow> string \<Rightarrow> language_error + language_manifest" where
  "lang_from_file toml read path =
     (case read path of
        Inl err \<Rightarrow> Inl (language_error LangIoError (''failed to read manifest '' @ path @ '': '' @ err))
      | Inr txt \<Rightarrow> lang_from_toml toml txt)"

definition handles_extension :: "language_manifest \<Rightarrow> string \<Rightarrow> bool" where
  "handles_extension m ext \<longleftrightarrow> ext \<in> set (lm_extensions m)"

subsection \<open>Adapters\<close>

record lsp_adapter =
  al_command :: string
  al_args :: "string list"

record build_adapter =
  ab_backend_id :: string
  ab_generate_compile_commands :: bool
  ab_generate_dot_clangd :: bool
  ab_clean_before_cdb :: bool

record run_adapter =
  ar_backend_id :: string
  ar_serial_args :: "string list"
  ar_triple_fault_args :: "string list"

record language_adapter =
  lg_language_id :: string
  lg_lsp :: "lsp_adapter option"
  lg_build :: "build_adapter option"
  lg_run :: "run_adapter option"
  lg_debug :: "string option"

definition c_lsp_adapter :: lsp_adapter where
  "c_lsp_adapter = \<lparr>al_command = ''clangd-16'', al_args = [''--background-index'', ''--clang-tidy=false'']\<rparr>"

definition c_build_adapter :: build_adapter where
  "c_build_adapter =
     \<lparr>ab_backend_id = ''make'', ab_generate_compile_commands = True, ab_generate_dot_clangd = True,
      ab_clean_before_cdb = True\<rparr>"

definition c_run_adapter :: run_adapter where
  "c_run_adapter =
     \<lparr>ar_backend_id = ''qemu-multiboot2'',
      ar_serial_args = [''-display'', ''none'', ''-serial'', ''stdio'', ''-monitor'', ''none''],
      ar_triple_fault_args = [''-d'', ''cpu_reset'']\<rparr>"

definition c_debug_adapter :: string where
  "c_debug_adapter = ''gdb-dap''"

definition c_adapter :: language_adapter where
  "c_adapter =
     \<lparr>lg_language_id = ''c'', lg_lsp = Some c_lsp_adapter, lg_build = Some c_build_adapter,
      lg_run = Some c_run_adapter, lg_debug = Some c_debug_adapter\<rparr>"

subsection \<open>The registry\<close>

record language_registry =
  lr_manifests :: "string \<rightharpoonup> language_manifest"
  lr_adapters :: "string \<rightharpoonup> language_adapter"
  lr_scanned :: "string list"

definition registry_new :: language_registry where
  "registry_new = \<lparr>lr_manifests = Map.empty, lr_adapters = Map.empty, lr_scanned = []\<rparr>"

text \<open>
  The file system: whether a path is a directory, what listing it gives (each entry a path or an error),
  and the text of a file.
\<close>

record lang_fs =
  lf_is_dir :: "string \<Rightarrow> bool"
  lf_read_dir :: "string \<Rightarrow> string + (string + string) list"
  lf_read :: "string \<Rightarrow> string + string"

type_synonym 'a registry_op = "(language_registry, language_error, 'a) op"

definition load_from_file :: "(string \<Rightarrow> string + language_manifest) \<Rightarrow> lang_fs \<Rightarrow> string \<Rightarrow> unit registry_op" where
  "load_from_file toml fs path r =
     (case lang_from_file toml (lf_read fs) path of
        Inl e \<Rightarrow> (r, Inl e)
      | Inr m \<Rightarrow>
          if lm_id m \<in> dom (lr_manifests r) then
            (r, Inl (language_error DuplicateId (''duplicate language id '' @ [CHR 0x27] @ lm_id m @ [CHR 0x27] @
               '' (already registered from another manifest)'')))
          else
            (r\<lparr>lr_manifests := (lr_manifests r)(lm_id m \<mapsto> m),
               lr_adapters := (if lm_id m = ''c'' then (lr_adapters r)(''c'' \<mapsto> c_adapter) else lr_adapters r)\<rparr>,
             Inr ()))"

fun load_entries :: "(string \<Rightarrow> string + language_manifest) \<Rightarrow> lang_fs \<Rightarrow> (string + string) list \<Rightarrow> unit registry_op" where
  "load_entries toml fs [] = give ()"
| "load_entries toml fs (Inl err # rest) =
     (\<lambda>r. (r, Inl (language_error LangIoError (''failed to read directory entry: '' @ err))))"
| "load_entries toml fs (Inr path # rest) =
     then_do (if path_extension path = Some ''toml'' then load_from_file toml fs path else give ())
       (\<lambda>_. load_entries toml fs rest)"

definition load_from_dir :: "(string \<Rightarrow> string + language_manifest) \<Rightarrow> lang_fs \<Rightarrow> string \<Rightarrow> unit registry_op" where
  "load_from_dir toml fs dir r =
     (if \<not> lf_is_dir fs dir then (r, Inl (language_error LangIoError (dir @ '' is not a directory'')))
      else
        let r1 = r\<lparr>lr_scanned := lr_scanned r @ [dir]\<rparr>
        in case lf_read_dir fs dir of
             Inl err \<Rightarrow> (r1, Inl (language_error LangIoError (''failed to read directory '' @ dir @ '': '' @ err)))
           | Inr entries \<Rightarrow> load_entries toml fs entries r1)"

definition lang_get :: "language_registry \<Rightarrow> string \<Rightarrow> language_manifest option" where
  "lang_get r i = lr_manifests r i"

definition get_adapter :: "language_registry \<Rightarrow> string \<Rightarrow> language_adapter option" where
  "get_adapter r i = lr_adapters r i"

text \<open>\<open>order\<close> is the order in which the hash map gives its keys.\<close>

definition by_extension :: "string list \<Rightarrow> language_registry \<Rightarrow> string \<Rightarrow> language_manifest option" where
  "by_extension order r ext =
     find (\<lambda>m. handles_extension m ext) (List.map_filter (lr_manifests r) order)"

definition list_ids :: "string list \<Rightarrow> language_registry \<Rightarrow> string list" where
  "list_ids order r = filter (\<lambda>i. i \<in> dom (lr_manifests r)) order"

definition registry_len :: "language_registry \<Rightarrow> nat" where
  "registry_len r = card (dom (lr_manifests r))"

definition registry_is_empty :: "language_registry \<Rightarrow> bool" where
  "registry_is_empty r \<longleftrightarrow> lr_manifests r = Map.empty"

subsection \<open>Facts: what a registry holds\<close>

definition valid_manifest :: "language_manifest \<Rightarrow> bool" where
  "valid_manifest m \<longleftrightarrow>
     lm_id m \<noteq> [] \<and> lm_display_name m \<noteq> [] \<and> lp_command (lm_lsp m) \<noteq> [] \<and> lb_backend (lm_build m) \<noteq> [] \<and>
     ln_backend (lm_run m) \<noteq> [] \<and> lm_debug m \<noteq> Some [] \<and>
     lm_extensions m \<noteq> [] \<and> distinct (lm_extensions m) \<and> (\<forall>ext \<in> set (lm_extensions m). starts_with ''.'' ext)"

lemma require_Inr [simp]: "require b code message = Inr x \<longleftrightarrow> b"
  by (simp add: require_def)

lemma check_extensions_Inr [simp]: "check_extensions exts = Inr x \<longleftrightarrow> (\<forall>ext \<in> set exts. starts_with ''.'' ext)"
  by (induction exts) auto

lemma check_distinct_Inr [simp]: "check_distinct seen exts = Inr x \<longleftrightarrow> distinct exts \<and> set exts \<inter> seen = {}"
  by (induction seen exts rule: check_distinct.induct) auto

lemma validate_Inr: "validate_and_convert m = Inr m' \<longleftrightarrow> valid_manifest m \<and> m' = m"
  by (auto simp: validate_and_convert_def validate_backend_def valid_manifest_def res_simps split: option.splits)

lemma from_file_valid: "lang_from_file toml read path = Inr m \<Longrightarrow> valid_manifest m"
  by (auto simp: lang_from_file_def lang_from_toml_def validate_Inr split: sum.splits)

definition registry_ok :: "language_registry \<Rightarrow> bool" where
  "registry_ok r \<longleftrightarrow>
     (\<forall>i m. lr_manifests r i = Some m \<longrightarrow> lm_id m = i \<and> valid_manifest m) \<and>
     lr_adapters r = (if ''c'' \<in> dom (lr_manifests r) then [''c'' \<mapsto> c_adapter] else Map.empty)"

lemma load_from_file_ok:
  assumes "registry_ok r" "load_from_file toml fs path r = (r', x)"
  shows "registry_ok r' \<and> lr_manifests r \<subseteq>\<^sub>m lr_manifests r'"
  using assms from_file_valid [of toml "lf_read fs" path]
  by (auto simp: load_from_file_def registry_ok_def map_le_def split: sum.splits if_splits)

lemma load_entries_ok:
  "registry_ok r \<Longrightarrow> load_entries toml fs entries r = (r', x) \<Longrightarrow> registry_ok r' \<and> lr_manifests r \<subseteq>\<^sub>m lr_manifests r'"
proof (induction toml fs entries arbitrary: r r' x rule: load_entries.induct)
  case (3 toml fs path rest)
  obtain r1 y where 1: "(if path_extension path = Some ''toml'' then load_from_file toml fs path else give ()) r = (r1, y)"
    by (cases "(if path_extension path = Some ''toml'' then load_from_file toml fs path else give ()) r")
  then have ok: "registry_ok r1" "lr_manifests r \<subseteq>\<^sub>m lr_manifests r1"
    using load_from_file_ok [OF "3.prems"(1), of toml fs path r1 y] "3.prems"(1)
    by (auto simp: give_def split: if_splits)
  show ?case
  proof (cases y)
    case (Inl e)
    with 1 "3.prems"(2) ok show ?thesis by (auto simp: then_do_def)
  next
    case (Inr u)
    with 1 "3.prems"(2) have "load_entries toml fs rest r1 = (r', x)" by (simp add: then_do_def)
    with "3.IH" [OF ok(1)] ok(2) show ?thesis by (auto intro: map_le_trans)
  qed
qed (auto simp: give_def)

lemma load_from_dir_ok:
  assumes "registry_ok r" "load_from_dir toml fs dir r = (r', x)"
  shows "registry_ok r' \<and> lr_manifests r \<subseteq>\<^sub>m lr_manifests r'"
proof -
  let ?r1 = "r\<lparr>lr_scanned := lr_scanned r @ [dir]\<rparr>"
  have ok: "registry_ok ?r1" "lr_manifests ?r1 = lr_manifests r" using assms(1) by (simp_all add: registry_ok_def)
  show ?thesis
  proof (cases "lf_is_dir fs dir")
    case False
    with assms show ?thesis by (simp add: load_from_dir_def)
  next
    case True
    show ?thesis
    proof (cases "lf_read_dir fs dir")
      case (Inl err)
      with True assms(2) ok show ?thesis by (auto simp: load_from_dir_def Let_def)
    next
      case (Inr entries)
      with True assms(2) have "load_entries toml fs entries ?r1 = (r', x)" by (simp add: load_from_dir_def Let_def)
      from load_entries_ok [OF ok(1) this] show ?thesis by (simp add: ok(2))
    qed
  qed
qed

fun load_dirs :: "(string \<Rightarrow> string + language_manifest) \<Rightarrow> (lang_fs \<times> string) list \<Rightarrow> language_registry \<Rightarrow> language_registry" where
  "load_dirs toml [] r = r"
| "load_dirs toml ((fs, dir) # rest) r = load_dirs toml rest (fst (load_from_dir toml fs dir r))"

lemma load_dirs_ok: "registry_ok r \<Longrightarrow> registry_ok (load_dirs toml dirs r)"
proof (induction toml dirs r rule: load_dirs.induct)
  case (2 toml fs dir rest r)
  then show ?case using load_from_dir_ok [of r toml fs dir] by (cases "load_from_dir toml fs dir r") auto
qed simp

lemma found_in_order:
  "find P (List.map_filter f xs) = Some m \<Longrightarrow> \<exists>x \<in> set xs. f x = Some m \<and> P m"
  by (induction xs) (auto simp: map_filter_simps split: option.splits if_splits)

lemma by_extension_Some:
  "by_extension order r ext = Some m \<Longrightarrow> \<exists>i \<in> set order. lr_manifests r i = Some m \<and> handles_extension m ext"
  unfolding by_extension_def by (rule found_in_order)

text \<open>Two languages may list the same extension; which one is found depends on the hash map's order.\<close>

lemma shared_extension_ambiguous:
  assumes "lr_manifests r i = Some m" "lr_manifests r k = Some n" "handles_extension m ext" "handles_extension n ext"
  shows "by_extension [i, k] r ext = Some m" "by_extension [k, i] r ext = Some n"
  using assms by (simp_all add: by_extension_def map_filter_simps)

text \<open>
  C32. Whatever directories are loaded into a new registry, with whatever failures on the way, it holds
  only validated manifests, each under its own id: the fields a client needs are not empty, the
  extensions are distinct and dotted. A lookup by extension gives a registered language that lists it,
  whatever the order of the hash map. Only the language \<open>c\<close> has an adapter, once its manifest is
  loaded. Loading more never changes or removes a manifest that is there.
\<close>

theorem registry_holds_valid_manifests:
  "let r = load_dirs toml dirs registry_new
   in (case lang_get r i of None \<Rightarrow> True | Some m \<Rightarrow> lm_id m = i \<and> valid_manifest m) \<and>
      (case by_extension order r ext of None \<Rightarrow> True
       | Some m \<Rightarrow> lang_get r (lm_id m) = Some m \<and> lm_id m \<in> set order \<and> handles_extension m ext) \<and>
      get_adapter r i = (if i = ''c'' \<and> lang_get r i \<noteq> None then Some c_adapter else None) \<and>
      lr_manifests r \<subseteq>\<^sub>m lr_manifests (fst (load_from_dir toml fs dir r))"
proof -
  let ?r = "load_dirs toml dirs registry_new"
  have "registry_ok registry_new" by (simp add: registry_ok_def registry_new_def)
  then have ok: "registry_ok ?r" by (rule load_dirs_ok)
  then have "case lang_get ?r i of None \<Rightarrow> True | Some m \<Rightarrow> lm_id m = i \<and> valid_manifest m"
    "get_adapter ?r i = (if i = ''c'' \<and> lang_get ?r i \<noteq> None then Some c_adapter else None)"
    by (auto simp: registry_ok_def lang_get_def get_adapter_def split: option.split)
  moreover have "case by_extension order ?r ext of None \<Rightarrow> True
     | Some m \<Rightarrow> lang_get ?r (lm_id m) = Some m \<and> lm_id m \<in> set order \<and> handles_extension m ext"
    using ok by (auto simp: registry_ok_def lang_get_def dest!: by_extension_Some split: option.split)
  moreover have "lr_manifests ?r \<subseteq>\<^sub>m lr_manifests (fst (load_from_dir toml fs dir ?r))"
    using load_from_dir_ok [OF ok, of toml fs dir] by (cases "load_from_dir toml fs dir ?r") auto
  ultimately show ?thesis by (simp add: Let_def)
qed

end
