(* ===== verification/Toolchain.thy ===== *)
theory Toolchain
  imports Config Utf8 Language
begin

section \<open>Toolchain detection\<close>

text \<open>
  Models \<^verbatim>\<open>crates/princess-build/src/toolchain.rs\<close> and \<open>which\<close> of \<^verbatim>\<open>process.rs\<close>: the tools a build
  needs, under every name they may have, and the one that is found. The environment, which paths are
  files and executable ones, and what running a tool prints are parameters.
\<close>

datatype tool_role = RoleDriver | RoleCompiler | RoleLinker | RoleAssembler | RoleCompileDb | RoleLanguageService

fun role_required :: "tool_role \<Rightarrow> bool" where
  "role_required RoleDriver = True"
| "role_required RoleCompiler = True"
| "role_required RoleLinker = True"
| "role_required _ = False"

fun role_str :: "tool_role \<Rightarrow> string" where
  "role_str RoleDriver = ''driver''"
| "role_str RoleCompiler = ''compiler''"
| "role_str RoleLinker = ''linker''"
| "role_str RoleAssembler = ''assembler''"
| "role_str RoleCompileDb = ''compile-db''"
| "role_str RoleLanguageService = ''language-service''"

record tool_spec =
  ts_name :: string
  ts_role :: tool_role
  ts_candidates :: "string list"
  ts_version_args :: "string list"
  ts_required :: bool
  ts_purpose :: string

definition spec_from_owned :: "string \<Rightarrow> tool_role \<Rightarrow> string list \<Rightarrow> string list \<Rightarrow> string \<Rightarrow> tool_spec" where
  "spec_from_owned name role candidates version_args purpose =
     \<lparr>ts_name = name, ts_role = role, ts_candidates = candidates, ts_version_args = version_args,
      ts_required = role_required role, ts_purpose = purpose\<rparr>"

definition CC_PREFIXES :: "string list" where
  "CC_PREFIXES = [''x86_64-elf-'', ''x86_64-linux-gnu-'', ''x86_64-pc-elf-'', '''']"

definition LD_PREFIXES :: "string list" where
  "LD_PREFIXES = [''x86_64-elf-'', ''x86_64-linux-gnu-'', ''x86_64-pc-elf-'', '''']"

definition compiler_candidates :: "string list" where
  "compiler_candidates = map (\<lambda>prefix. prefix @ ''gcc'') CC_PREFIXES @ [''clang'', ''cc'']"

definition linker_candidates :: "string list" where
  "linker_candidates = map (\<lambda>prefix. prefix @ ''ld'') LD_PREFIXES @ [''ld.lld'', ''ld'']"

definition make_spec :: tool_spec where
  "make_spec = spec_from_owned ''make'' RoleDriver [''make'', ''gmake''] [''--version'']
     (''runs the project'' @ [CHR 0x27] @ ''s Makefile; without it the make backend cannot build anything'')"

definition gcc_spec :: tool_spec where
  "gcc_spec = spec_from_owned ''gcc'' RoleCompiler compiler_candidates [''--version'']
     ''compiles the C sources (host gcc is fine unless [toolchain] cc pins a cross compiler)''"

definition ld_spec :: tool_spec where
  "ld_spec = spec_from_owned ''ld'' RoleLinker linker_candidates [''--version'']
     (''links the ELF image with the project'' @ [CHR 0x27] @ ''s linker script'')"

definition nasm_spec :: tool_spec where
  "nasm_spec = spec_from_owned ''nasm'' RoleAssembler [''nasm'', ''yasm''] [''-v'']
     ''assembles .s/.asm sources; only required for projects that list NASM sources''"

definition bear_spec :: tool_spec where
  "bear_spec = spec_from_owned ''bear'' RoleCompileDb [''bear''] [''--version'']
     ''produces compile_commands.json for clangd (D8); the engine has a wrapper-shim fallback''"

definition clangd_spec :: tool_spec where
  "clangd_spec = spec_from_owned ''clangd-16'' RoleLanguageService [''clangd-16''] [''--version'']
     ''the C language service (D6/D18); the engine refuses to fall back to clangd-14''"

definition kernel_tool_specs :: "tool_spec list" where
  "kernel_tool_specs = [make_spec, gcc_spec, ld_spec, nasm_spec, bear_spec, clangd_spec]"

text \<open>The specifications of a language; \<open>loaded\<close> is what reading its manifest gives.\<close>

definition tool_specs_from_manifest :: "language_error + language_manifest \<Rightarrow> tool_spec list" where
  "tool_specs_from_manifest loaded =
     (case loaded of
        Inl _ \<Rightarrow> kernel_tool_specs
      | Inr m \<Rightarrow>
          [make_spec, gcc_spec, ld_spec, nasm_spec] @
          (if lb_cdb_generation (lm_build m) then [bear_spec] else []) @
          [spec_from_owned (lp_command (lm_lsp m)) RoleLanguageService [lp_command (lm_lsp m)] [''--version'']
             (''the language service specified in manifest ('' @ lm_id m @ '')'')])"

subsection \<open>Tools found\<close>

record tool_status =
  tu_name :: string
  tu_role :: tool_role
  tu_path :: "string option"
  tu_version :: "string option"
  tu_available :: bool
  tu_required :: bool
  tu_purpose :: string
  tu_detail :: "string option"

definition to_tool_info :: "tool_status \<Rightarrow> tool_info" where
  "to_tool_info t =
     \<lparr>ti_name = tu_name t, ti_path = tu_path t, ti_version = tu_version t,
      ti_available = tu_available t, ti_required = tu_required t\<rparr>"

record toolchain =
  tc_tools :: "tool_status list"
  tc_host_triple :: "string option"

definition toolchain_find :: "toolchain \<Rightarrow> string \<Rightarrow> tool_status option" where
  "toolchain_find tc name = find (\<lambda>t. tu_name t = name) (tc_tools tc)"

definition path_of :: "toolchain \<Rightarrow> string \<Rightarrow> string option" where
  "path_of tc name = Option.bind (toolchain_find tc name) tu_path"

definition missing_tools :: "toolchain \<Rightarrow> tool_status list" where
  "missing_tools tc = filter (\<lambda>t. tu_required t \<and> \<not> tu_available t) (tc_tools tc)"

definition toolchain_report_of :: "toolchain \<Rightarrow> toolchain_report" where
  "toolchain_report_of tc =
     \<lparr>tr_tools = map to_tool_info (tc_tools tc), tr_ok = (missing_tools tc = [])\<rparr>"

definition first_two_words :: "string \<Rightarrow> string" where
  "first_two_words txt = map ascii_lower (replace_char CHR '' '' ''-'' (join '' '' (take 2 (split_whitespace txt))))"

definition toolchain_id :: "toolchain \<Rightarrow> string" where
  "toolchain_id tc =
     unwrap_or ''host'' (tc_host_triple tc) @ ''/'' @
     (case Option.bind (toolchain_find tc ''gcc'') tu_version of
        Some version \<Rightarrow> first_two_words version
      | None \<Rightarrow> ''unknown-cc'')"

subsection \<open>Detection\<close>

text \<open>
  The world: the variable \<open>PATH\<close>, the files, the executable ones, and the two outputs of a tool that
  could be started; its exit status is not looked at.
\<close>

record tool_world =
  tw_path :: "string option"
  tw_is_file :: "string \<Rightarrow> bool"
  tw_executable :: "string \<Rightarrow> bool"
  tw_run :: "string \<Rightarrow> string list \<Rightarrow> (string \<times> string) option"

definition build_which :: "tool_world \<Rightarrow> string \<Rightarrow> string option" where
  "build_which w exe =
     (if CHR ''/'' \<in> set exe then (if tw_executable w exe then Some exe else None)
      else case tw_path w of
        None \<Rightarrow> None
      | Some dirs \<Rightarrow> find (tw_executable w) (map (\<lambda>dir. path_join dir exe) (split_char CHR '':'' dirs)))"

record tool_detector =
  td_overrides :: "string \<Rightarrow> string option"
  td_search_path :: "string list"

definition detector_new :: tool_detector where
  "detector_new = \<lparr>td_overrides = Map.empty, td_search_path = []\<rparr>"

definition with_overrides :: "(string \<Rightarrow> string option) \<Rightarrow> tool_detector \<Rightarrow> tool_detector" where
  "with_overrides m d = d\<lparr>td_overrides := m\<rparr>"

definition with_search_path :: "string list \<Rightarrow> tool_detector \<Rightarrow> tool_detector" where
  "with_search_path dirs d = d\<lparr>td_search_path := dirs\<rparr>"

definition resolve_tool :: "tool_world \<Rightarrow> tool_detector \<Rightarrow> string \<Rightarrow> string option" where
  "resolve_tool w d candidate =
     (if CHR ''/'' \<in> set candidate then build_which w candidate
      else case find (\<lambda>p. tw_is_file w p \<and> tw_executable w p) (map (\<lambda>dir. path_join dir candidate) (td_search_path d)) of
        Some path \<Rightarrow> Some path
      | None \<Rightarrow> build_which w candidate)"

definition tool_version :: "tool_world \<Rightarrow> string \<Rightarrow> string list \<Rightarrow> string option" where
  "tool_version w path args =
     (case tw_run w path args of
        None \<Rightarrow> None
      | Some (out, err) \<Rightarrow>
          let txt = from_utf8_lossy out;
              shown = (if str_trim txt = [] then from_utf8_lossy err else txt)
          in map_option str_trim (find (\<lambda>l. str_trim l \<noteq> []) (str_lines shown)))"

definition override_key :: "tool_spec \<Rightarrow> string" where
  "override_key spec = (if ts_role spec = RoleAssembler then ''as'' else ts_name spec)"

definition tool_candidates :: "tool_detector \<Rightarrow> tool_spec \<Rightarrow> string list" where
  "tool_candidates d spec =
     (case td_overrides d (override_key spec) of None \<Rightarrow> [] | Some chosen \<Rightarrow> [chosen]) @ ts_candidates spec"

fun try_candidates :: "tool_world \<Rightarrow> tool_detector \<Rightarrow> tool_spec \<Rightarrow> string list \<Rightarrow> string list \<Rightarrow> tool_status" where
  "try_candidates w d spec [] failures =
     \<lparr>tu_name = ts_name spec, tu_role = ts_role spec, tu_path = None, tu_version = None, tu_available = False,
      tu_required = ts_required spec, tu_purpose = ts_purpose spec, tu_detail = Some (join ''; '' failures)\<rparr>"
| "try_candidates w d spec (candidate # rest) failures =
     (case resolve_tool w d candidate of
        None \<Rightarrow> try_candidates w d spec rest (failures @ [candidate @ '': not found on PATH''])
      | Some path \<Rightarrow>
          (case tool_version w path (ts_version_args spec) of
             None \<Rightarrow> try_candidates w d spec rest (failures @ [path @ '' exists but `'' @ path @ '' '' @
               join '' '' (ts_version_args spec) @ ''` failed to run''])
           | Some version \<Rightarrow>
               \<lparr>tu_name = ts_name spec, tu_role = ts_role spec, tu_path = Some path, tu_version = Some version,
                tu_available = True, tu_required = ts_required spec, tu_purpose = ts_purpose spec, tu_detail = None\<rparr>))"

definition detect_one :: "tool_world \<Rightarrow> tool_detector \<Rightarrow> tool_spec \<Rightarrow> tool_status" where
  "detect_one w d spec = try_candidates w d spec (tool_candidates d spec) []"

definition host_triple_from_version :: "string \<Rightarrow> string option" where
  "host_triple_from_version version = map_option (\<lambda>(_, rest). str_trim rest) (split_once_str ''Target:'' version)"

definition detect_tools :: "tool_world \<Rightarrow> tool_detector \<Rightarrow> tool_spec list \<Rightarrow> toolchain" where
  "detect_tools w d specs =
     (let tools = map (detect_one w d) specs
      in \<lparr>tc_tools = tools,
          tc_host_triple = Option.bind (Option.bind (find (\<lambda>t. tu_name t = ''gcc'') tools) tu_version)
            host_triple_from_version\<rparr>)"

definition detect_toolchain :: "tool_world \<Rightarrow> (string \<Rightarrow> string option) \<Rightarrow> toolchain" where
  "detect_toolchain w overrides = detect_tools w (with_overrides overrides detector_new) kernel_tool_specs"

subsection \<open>Repairs\<close>

definition repair_command :: "string \<Rightarrow> string" where
  "repair_command name =
     (if name = ''make'' then ''sudo apt-get install -y make    # or: apt-get install build-essential''
      else if name = ''gcc'' then
        ''sudo apt-get install -y gcc    # a cross compiler also works; then set [toolchain] cc = '' @
        [CHR 0x22] @ ''x86_64-elf-gcc'' @ [CHR 0x22]
      else if name = ''ld'' then
        ''sudo apt-get install -y binutils    # or set [toolchain] ld = '' @ [CHR 0x22] @ ''ld.lld'' @ [CHR 0x22] @
        '' and install lld''
      else if name = ''nasm'' then
        ''sudo apt-get install -y nasm    # or remove the NASM sources from the project (the engine only needs nasm when the Makefile calls it)''
      else if name = ''bear'' then
        ''bash scripts/bootstrap-toolchain.sh    # unpacks bear 3.1.1 into .toolchain/, then: source scripts/env.sh''
      else if name = ''clangd-16'' then
        ''bash scripts/bootstrap-toolchain.sh    # installs clangd-16 into .toolchain/ (D6: clangd-14 is not enough)''
      else ''sudo apt-get install -y <package>    # then re-run scripts/doctor.sh'')"

definition repair_suggestions :: "tool_status list \<Rightarrow> string list" where
  "repair_suggestions missing =
     map (\<lambda>t. tu_name t @ '' is missing ('' @ tu_purpose t @ '') '' @ [CHR 0xE2, CHR 0x80, CHR 0x94] @ '' '' @
       unwrap_or ''not found'' (tu_detail t) @ '' '' @ [CHR 0xE2, CHR 0x86, CHR 0x92] @ '' fix: '' @
       repair_command (tu_name t)) missing"

subsection \<open>Facts: the first candidate that answers\<close>

definition tool_answer :: "tool_world \<Rightarrow> tool_detector \<Rightarrow> tool_spec \<Rightarrow> string \<Rightarrow> (string \<times> string) option" where
  "tool_answer w d spec candidate =
     Option.bind (resolve_tool w d candidate) (\<lambda>path. map_option (\<lambda>v. (path, v)) (tool_version w path (ts_version_args spec)))"

lemma try_candidates_first:
  "(case find_map (tool_answer w d spec) cs of
      None \<Rightarrow> \<not> tu_available (try_candidates w d spec cs fs) \<and> tu_path (try_candidates w d spec cs fs) = None \<and>
        tu_version (try_candidates w d spec cs fs) = None
    | Some (path, v) \<Rightarrow> tu_available (try_candidates w d spec cs fs) \<and>
        tu_path (try_candidates w d spec cs fs) = Some path \<and> tu_version (try_candidates w d spec cs fs) = Some v) \<and>
   tu_name (try_candidates w d spec cs fs) = ts_name spec \<and>
   tu_required (try_candidates w d spec cs fs) = ts_required spec"
  by (induction cs arbitrary: fs) (auto simp: tool_answer_def split: option.splits)

lemmas detect_one_first = try_candidates_first [of w d spec "tool_candidates d spec" "[]" for w d spec, folded detect_one_def]

lemma build_which_executable: "build_which w exe = Some p \<Longrightarrow> tw_executable w p"
  by (auto simp: build_which_def find_Some_iff split: if_splits option.splits)

lemma resolve_tool_executable: "resolve_tool w d c = Some p \<Longrightarrow> tw_executable w p"
  by (auto simp: resolve_tool_def find_Some_iff dest: build_which_executable split: if_splits option.splits)

lemma tool_answer_ran:
  "tool_answer w d spec c = Some (p, v) \<Longrightarrow> tw_executable w p \<and> tw_run w p (ts_version_args spec) \<noteq> None"
  by (auto simp: tool_answer_def tool_version_def bind_eq_Some_conv dest: resolve_tool_executable split: option.splits)

text \<open>A tool that cannot load its libraries, and says so, is taken for one that answers.\<close>

lemma complaint_is_version:
  "tu_version (detect_one \<lparr>tw_path = Some ''/bin'', tw_is_file = \<lambda>_. True, tw_executable = \<lambda>p. p = ''/bin/bear'',
       tw_run = \<lambda>_ _. Some ([], ''bear: cannot open shared object file'')\<rparr> detector_new bear_spec) =
     Some ''bear: cannot open shared object file''"
  by code_simp


end
