(* ===== verification/Build_Process.thy ===== *)
theory Build_Process
  imports Config Stream_Chunker Toolchain
begin

section \<open>Running a build command\<close>

text \<open>
  Models \<^verbatim>\<open>crates/princess-build/src/process.rs\<close>: the readers of the two pipes, and the loop that
  supervises the child with its deadline, cancellation and the tail of its output. Threads, pipes, the
  clock and the kernel are observations, as in the emulator's runner: a script that ends leaves the
  loop running.
\<close>

datatype stdio_stream = Stdout | Stderr

definition stdio_log_stream :: "stdio_stream \<Rightarrow> log_stream" where
  "stdio_log_stream s = StreamBuild"

record stdio_chunk =
  so_stream :: stdio_stream
  so_text :: string
  so_encoding :: text_encoding
  so_at_eof :: bool

record command_output =
  cd_exit_code :: "int option"
  cd_signal :: "int option"
  cd_timed_out :: bool
  cd_cancelled :: bool
  cd_combined_tail :: string

definition command_success :: "command_output \<Rightarrow> bool" where
  "command_success c \<longleftrightarrow> cd_exit_code c = Some 0 \<and> \<not> cd_timed_out c \<and> \<not> cd_cancelled c"

subsection \<open>Readers\<close>

definition stdio_chunk_of :: "stdio_stream \<Rightarrow> bool \<Rightarrow> string \<times> text_encoding \<Rightarrow> stdio_chunk" where
  "stdio_chunk_of st eof c = \<lparr>so_stream = st, so_text = fst c, so_encoding = snd c, so_at_eof = eof\<rparr>"

datatype stdio_event = StdioBytes string | StdioTimeout

function stdio_lines :: "stdio_stream \<Rightarrow> chunker \<Rightarrow> stdio_chunk list \<times> chunker" where
  "stdio_lines st c =
     (case take_lines c of
        (None, c') \<Rightarrow> ([], c')
      | (Some chunk, c') \<Rightarrow> (case stdio_lines st c' of (cs, c'') \<Rightarrow> (stdio_chunk_of st False chunk # cs, c'')))"
  by pat_completeness auto
termination
  by (relation "measure (\<lambda>(st, c). length (uc_pending c))") (auto dest: take_lines_shorter [OF sym])

declare stdio_lines.simps [simp del]

fun stdio_loop :: "stdio_stream \<Rightarrow> stdio_event list \<Rightarrow> chunker \<Rightarrow> stdio_chunk list \<times> chunker" where
  "stdio_loop st [] c = ([], c)"
| "stdio_loop st (StdioBytes bytes # rest) c =
     (case stdio_lines st (chunker_push bytes c) of (cs, c') \<Rightarrow>
      case stdio_loop st rest c' of (ds, c'') \<Rightarrow> (cs @ ds, c''))"
| "stdio_loop st (StdioTimeout # rest) c =
     (case take_available c of
        (None, c') \<Rightarrow> stdio_loop st rest c'
      | (Some chunk, c') \<Rightarrow> (case stdio_loop st rest c' of (ds, c'') \<Rightarrow> (stdio_chunk_of st False chunk # ds, c'')))"

definition stdio_reader :: "stdio_stream \<Rightarrow> stdio_event list \<Rightarrow> stdio_chunk list" where
  "stdio_reader st events =
     (case stdio_loop st events chunker_new of (cs, c) \<Rightarrow>
        cs @ (case take_remainder c of (None, _) \<Rightarrow> [] | (Some chunk, _) \<Rightarrow> [stdio_chunk_of st True chunk]))"

subsection \<open>Signals\<close>

text \<open>The answer of \<open>kill(2)\<close>: 0, or the error with its number and text.\<close>

definition build_kill_group :: "u32 \<Rightarrow> (int \<times> string) option \<Rightarrow> princess_error + unit" where
  "build_kill_group pgid rc =
     (case rc of
        None \<Rightarrow> Inr ()
      | Some (errno, err) \<Rightarrow>
          if errno = 3 then Inr ()
          else Inl (internal_error (''cannot signal process group '' @ show_nat (unat pgid) @ '': '' @ err)))"

subsection \<open>The loop\<close>

record child_status =
  cs_code :: "int option"
  cs_signal :: "int option"

datatype stdio_recv = GotChunk stdio_chunk | GotTimeout | GotDisconnected

text \<open>
  One iteration: the answer of \<open>try_wait\<close>, the cancellation flag, whether the deadline has passed, what
  was received within 20 ms, and whether the grace period since the last end of a pipe is over.
\<close>

record build_tick =
  bt_try_wait :: "string + child_status option"
  bt_cancelled :: bool
  bt_past_deadline :: bool
  bt_recv :: stdio_recv
  bt_drained :: bool

record build_run =
  br_status :: "child_status option"
  br_timed_out :: bool
  br_cancelled :: bool
  br_eof_seen :: nat
  br_kills :: nat
  br_tail :: "string list"
  br_delivered :: "stdio_chunk list"

definition build_run_start :: build_run where
  "build_run_start =
     \<lparr>br_status = None, br_timed_out = False, br_cancelled = False, br_eof_seen = 0, br_kills = 0, br_tail = [],
      br_delivered = []\<rparr>"

definition build_poll :: "build_tick \<Rightarrow> build_run \<Rightarrow> princess_error + build_run" where
  "build_poll t s =
     (if br_status s \<noteq> None then Inr s
      else case bt_try_wait t of
        Inl err \<Rightarrow> Inl (internal_error (''cannot wait for build child: '' @ err))
      | Inr None \<Rightarrow> Inr s
      | Inr (Some st) \<Rightarrow> Inr (s\<lparr>br_status := Some st\<rparr>))"

text \<open>\<open>br_kills\<close> counts the pairs of signals sent to the group.\<close>

definition build_enforce :: "bool \<Rightarrow> build_tick \<Rightarrow> build_run \<Rightarrow> build_run" where
  "build_enforce has_deadline t s =
     (if br_status s \<noteq> None then s
      else
        let s1 = (if bt_cancelled t \<and> \<not> br_cancelled s
                  then s\<lparr>br_cancelled := True, br_kills := br_kills s + 1\<rparr> else s)
        in if has_deadline \<and> bt_past_deadline t \<and> \<not> br_timed_out s1
           then s1\<lparr>br_timed_out := True, br_kills := br_kills s1 + 1\<rparr> else s1)"

definition TAIL_CHUNKS :: nat where "TAIL_CHUNKS = 512"
definition TAIL_CHARS :: nat where "TAIL_CHARS = 8192"

definition push_tail :: "string \<Rightarrow> string list \<Rightarrow> string list" where
  "push_tail txt tail = (let t = tail @ [txt] in drop (length t - TAIL_CHUNKS) t)"

text \<open>\<open>None\<close> when every reader has ended.\<close>

definition build_receive :: "build_tick \<Rightarrow> build_run \<Rightarrow> build_run option" where
  "build_receive t s =
     (case bt_recv t of
        GotTimeout \<Rightarrow> Some s
      | GotDisconnected \<Rightarrow> None
      | GotChunk c \<Rightarrow>
          let s1 = (if so_at_eof c then s\<lparr>br_eof_seen := br_eof_seen s + 1\<rparr> else s);
              s2 = (if so_text c = [] then s1 else s1\<lparr>br_tail := push_tail (so_text c) (br_tail s1)\<rparr>)
          in Some (s2\<lparr>br_delivered := br_delivered s2 @ [c]\<rparr>))"

datatype build_loop = BuildRunning build_run | BuildDone build_run | BuildFailed princess_error build_run

fun build_supervise :: "bool \<Rightarrow> nat \<Rightarrow> build_tick list \<Rightarrow> build_run \<Rightarrow> build_loop" where
  "build_supervise has_deadline readers [] s = BuildRunning s"
| "build_supervise has_deadline readers (t # ts) s =
     (case build_poll t s of
        Inl e \<Rightarrow> BuildFailed e (s\<lparr>br_kills := br_kills s + 1\<rparr>)
      | Inr s1 \<Rightarrow>
          let s2 = build_enforce has_deadline t s1
          in case build_receive t s2 of
               None \<Rightarrow> BuildDone s2
             | Some s3 \<Rightarrow>
                 if readers \<le> br_eof_seen s3 \<and> br_status s3 \<noteq> None \<and> bt_drained t then BuildDone s3
                 else build_supervise has_deadline readers ts s3)"

text \<open>The last characters of a text: what \<open>rev().take(n)\<close> keeps.\<close>

definition char_count :: "string \<Rightarrow> nat" where
  "char_count s = length (filter (\<lambda>c. \<not> continuation c) s)"

definition last_chars :: "nat \<Rightarrow> string \<Rightarrow> string" where
  "last_chars n s = drop (length (take_chars (char_count s - n) s)) s"

definition build_finish :: "build_run \<Rightarrow> string + child_status \<Rightarrow> princess_error + command_output" where
  "build_finish s waited =
     and_then (case br_status s of
         Some st \<Rightarrow> Inr st
       | None \<Rightarrow> map_err (\<lambda>err. internal_error (''cannot reap build child: '' @ err)) waited) (\<lambda>st.
       Inr \<lparr>cd_exit_code = cs_code st, cd_signal = cs_signal st, cd_timed_out = br_timed_out s,
            cd_cancelled = br_cancelled s, cd_combined_tail = last_chars TAIL_CHARS (concat (br_tail s))\<rparr>)"

definition display_argv :: "string list \<Rightarrow> string" where
  "display_argv argv = join '' '' (map (\<lambda>part. if CHR '' '' \<in> set part then debug_str part else part) argv)"

definition build_spawn :: "build_plan \<Rightarrow> string + unit \<Rightarrow> princess_error + unit" where
  "build_spawn plan spawned =
     (if bl_argv plan = [] then Inl (internal_error ''build plan has an empty argv: nothing to execute'')
      else map_err (\<lambda>err. with_detail (internal_error (''cannot execute '' @ display_argv (bl_argv plan) @ '': '' @ err))
             (''cwd: '' @ bl_cwd plan)) spawned)"

text \<open>
  A whole run: the chunks handed to the callback and the result; \<open>None\<close> while the loop is running.
  \<open>readers\<close> is 2, one for each pipe.
\<close>

definition system_run ::
  "build_plan \<Rightarrow> string + unit \<Rightarrow> build_tick list \<Rightarrow> string + child_status \<Rightarrow>
   (stdio_chunk list \<times> (princess_error + command_output)) option" where
  "system_run plan spawned ticks waited =
     (case build_spawn plan spawned of
        Inl e \<Rightarrow> Some ([], Inl e)
      | Inr _ \<Rightarrow>
          (case build_supervise (bl_timeout_ms plan \<noteq> None) 2 ticks build_run_start of
             BuildRunning s \<Rightarrow> None
           | BuildFailed e s \<Rightarrow> Some (br_delivered s, Inl e)
           | BuildDone s \<Rightarrow> Some (br_delivered s, build_finish s waited)))"

text \<open>The double of the tests: the canned chunks and output, and the plans it was asked to run.\<close>

definition fake_run ::
  "stdio_chunk list \<Rightarrow> command_output option \<Rightarrow> build_plan \<Rightarrow> build_plan list \<Rightarrow>
   build_plan list \<times> stdio_chunk list \<times> (princess_error + command_output)" where
  "fake_run chunks canned plan seen =
     (seen @ [plan], chunks,
      Inr (unwrap_or \<lparr>cd_exit_code = Some 0, cd_signal = None, cd_timed_out = False, cd_cancelled = False,
                      cd_combined_tail = []\<rparr> canned))"

end
