(* ===== verification/Build_Artifacts.thy ===== *)
theory Build_Artifacts
  imports Config "HOL-Library.List_Lexorder" "HOL-Library.Char_ord" "HOL-Library.Product_Lexorder"
begin

section \<open>Build artifacts\<close>

text \<open>
  Models \<^verbatim>\<open>crates/princess-build/src/artifacts.rs\<close>: the products of a build, declared or found in the
  output directories. The files are a parameter: which paths are files and directories, what listing a
  directory gives, and the size and contents that are hashed. Times are nanoseconds. Facts: what is reported
  is what exists.
\<close>

subsection \<open>The order of paths\<close>

text \<open>Paths are compared by their components, which the standard library orders as they are listed here.\<close>

fun component_key :: "path_component \<Rightarrow> nat \<times> string" where
  "component_key RootDir = (0, [])"
| "component_key CurDir = (1, [])"
| "component_key ParentDir = (2, [])"
| "component_key (Normal s) = (3, s)"

lemma component_key_inject [simp]: "component_key a = component_key b \<longleftrightarrow> a = b"
  by (cases a; cases b) simp_all

instantiation path_component :: linorder
begin

definition less_eq_path_component :: "path_component \<Rightarrow> path_component \<Rightarrow> bool" where
  "less_eq_path_component a b \<longleftrightarrow> component_key a \<le> component_key b"

definition less_path_component :: "path_component \<Rightarrow> path_component \<Rightarrow> bool" where
  "less_path_component a b \<longleftrightarrow> component_key a < component_key b"

instance
  by standard (auto simp: less_eq_path_component_def less_path_component_def order_less_le)

end

subsection \<open>Discovery\<close>

definition ARTIFACT_DIRS :: "string list" where "ARTIFACT_DIRS = [''build'', ''out'', ''dist'']"
definition ARTIFACT_SCAN_DEPTH :: nat where "ARTIFACT_SCAN_DEPTH = 3"
definition ARTIFACT_EXTENSIONS :: "string list" where "ARTIFACT_EXTENSIONS = [''elf'', ''iso'', ''img'', ''bin'']"
definition TIMESTAMP_SLACK :: nat where "TIMESTAMP_SLACK = 1000000000"

text \<open>An entry of a directory: its path, and when they can be read, whether it is a directory and its time.\<close>

record dir_entry =
  en_path :: string
  en_meta :: "(bool \<times> nat option) option"

record artifact_fs =
  fs_is_file :: "string \<Rightarrow> bool"
  fs_is_dir :: "string \<Rightarrow> bool"
  fs_read_dir :: "string \<Rightarrow> dir_entry list option"
  fs_stat :: "string \<Rightarrow> string + u64"
  fs_open :: "string \<Rightarrow> string + (string + string) list"

definition has_artifact_extension :: "string \<Rightarrow> bool" where
  "has_artifact_extension path =
     (case path_extension path of None \<Rightarrow> False | Some e \<Rightarrow> map ascii_lower e \<in> set ARTIFACT_EXTENSIONS)"

definition is_stale :: "nat option \<Rightarrow> nat option \<Rightarrow> bool" where
  "is_stale generation modified =
     (case (generation, modified) of
        (Some threshold, Some m) \<Rightarrow> m + TIMESTAMP_SLACK < threshold
      | _ \<Rightarrow> False)"

fun scan_dir :: "artifact_fs \<Rightarrow> nat option \<Rightarrow> nat \<Rightarrow> string \<Rightarrow> string list" where
  "scan_dir fs generation 0 dir = []"
| "scan_dir fs generation (Suc depth) dir =
     (case fs_read_dir fs dir of
        None \<Rightarrow> []
      | Some entries \<Rightarrow>
          concat (map (\<lambda>e.
            case en_meta e of
              None \<Rightarrow> []
            | Some (True, _) \<Rightarrow> scan_dir fs generation depth (en_path e)
            | Some (False, modified) \<Rightarrow>
                if has_artifact_extension (en_path e) \<and> \<not> is_stale generation modified then [en_path e] else [])
            entries))"

text \<open>\<open>dedup\<close> of equal neighbours; equal paths are those with the same components.\<close>

fun dedup_paths :: "string list \<Rightarrow> string list" where
  "dedup_paths [] = []"
| "dedup_paths [p] = [p]"
| "dedup_paths (p # q # ps) =
     (if components p = components q then dedup_paths (p # ps) else p # dedup_paths (q # ps))"

definition artifact_paths :: "artifact_fs \<Rightarrow> string \<Rightarrow> string list \<Rightarrow> nat option \<Rightarrow> string list" where
  "artifact_paths fs root declared generation =
     dedup_paths (sort_key components
       (filter (fs_is_file fs) declared @
        concat (map (scan_dir fs generation ARTIFACT_SCAN_DEPTH)
          (filter (fs_is_dir fs) (map (path_join root) ARTIFACT_DIRS)))))"

definition artifact_at :: "(string \<Rightarrow> u8 list) \<Rightarrow> artifact_fs \<Rightarrow> string \<Rightarrow> artifact option" where
  "artifact_at digest fs path =
     (if \<not> fs_is_file fs path then None
      else case file_size_and_hash digest path (fs_stat fs path) (fs_open fs path) of
        Inl _ \<Rightarrow> None
      | Inr (sz, sha) \<Rightarrow>
          Some \<lparr>af_path = path, af_kind = artifact_kind_from_path path, af_size = sz, af_sha256 = sha\<rparr>)"

definition discover :: "(string \<Rightarrow> u8 list) \<Rightarrow> artifact_fs \<Rightarrow> string \<Rightarrow> string list \<Rightarrow> nat option \<Rightarrow> artifact list" where
  "discover digest fs root declared generation =
     List.map_filter (artifact_at digest fs) (artifact_paths fs root declared generation)"

definition elf_artifacts :: "artifact list \<Rightarrow> artifact list" where
  "elf_artifacts as = filter (\<lambda>a. af_kind a = ArtElf) as"

fun boot_rank :: "artifact_kind \<Rightarrow> nat" where
  "boot_rank ArtIso = 0"
| "boot_rank ArtImage = 1"
| "boot_rank ArtElf = 2"
| "boot_rank _ = 3"

definition boot_candidates :: "artifact list \<Rightarrow> artifact list" where
  "boot_candidates as =
     sort_key (\<lambda>a. (boot_rank (af_kind a), af_path a))
       (filter (\<lambda>a. af_kind a \<in> {ArtIso, ArtImage, ArtElf}) as)"

subsection \<open>Facts\<close>

lemma dedup_paths_components: "components ` set (dedup_paths ps) = components ` set ps"
  by (induction ps rule: dedup_paths.induct) auto

lemma dedup_paths_set: "set (dedup_paths ps) \<subseteq> set ps"
  by (induction ps rule: dedup_paths.induct) auto

lemma dedup_paths_strict:
  "sorted (map components ps) \<Longrightarrow> sorted_wrt (<) (map components (dedup_paths ps))"
proof (induction ps rule: dedup_paths.induct)
  case (3 p q ps)
  show ?case
  proof (cases "components p = components q")
    case True
    with 3 show ?thesis by simp
  next
    case False
    have "components p < c" if "c \<in> components ` set (dedup_paths (q # ps))" for c
      using that False 3(3) unfolding dedup_paths_components by auto
    with False 3 show ?thesis by auto
  qed
qed auto

lemma artifact_at_path: "artifact_at digest fs p = Some a \<Longrightarrow> af_path a = p \<and> fs_is_file fs p"
  by (auto simp: artifact_at_def split: if_splits sum.splits)

lemma discover_paths:
  "map af_path (discover digest fs root declared gen) =
     filter (\<lambda>p. artifact_at digest fs p \<noteq> None) (artifact_paths fs root declared gen)"
proof -
  have "map af_path (List.map_filter (artifact_at digest fs) ps) = filter (\<lambda>p. artifact_at digest fs p \<noteq> None) ps" for ps
    by (induction ps) (auto simp: map_filter_simps dest: artifact_at_path split: option.splits)
  then show ?thesis by (simp add: discover_def)
qed

text \<open>Which files a directory offers: those with the extension of a product and not too old, as deep as the scan goes.\<close>

fun offered :: "artifact_fs \<Rightarrow> nat option \<Rightarrow> nat \<Rightarrow> string \<Rightarrow> string \<Rightarrow> bool" where
  "offered fs gen 0 dir p = False"
| "offered fs gen (Suc depth) dir p =
     (case fs_read_dir fs dir of
        None \<Rightarrow> False
      | Some entries \<Rightarrow>
          list_ex (\<lambda>e. case en_meta e of
              None \<Rightarrow> False
            | Some (True, _) \<Rightarrow> offered fs gen depth (en_path e) p
            | Some (False, modified) \<Rightarrow> en_path e = p \<and> has_artifact_extension p \<and> \<not> is_stale gen modified) entries)"

lemma concat_ex: "(\<And>e. p \<in> set (g e) \<longleftrightarrow> h e) \<Longrightarrow> p \<in> set (concat (map g es)) \<longleftrightarrow> list_ex h es"
  by (induction es) simp_all

lemma scan_dir_offered: "p \<in> set (scan_dir fs gen depth dir) \<longleftrightarrow> offered fs gen depth dir p"
proof (induction depth arbitrary: dir)
  case (Suc depth)
  have "p \<in> set (case en_meta e of
            None \<Rightarrow> []
          | Some (True, _) \<Rightarrow> scan_dir fs gen depth (en_path e)
          | Some (False, modified) \<Rightarrow>
              if has_artifact_extension (en_path e) \<and> \<not> is_stale gen modified then [en_path e] else []) \<longleftrightarrow>
        (case en_meta e of
            None \<Rightarrow> False
          | Some (True, _) \<Rightarrow> offered fs gen depth (en_path e) p
          | Some (False, modified) \<Rightarrow> en_path e = p \<and> has_artifact_extension p \<and> \<not> is_stale gen modified)" for e
  proof (cases "en_meta e")
    case (Some m)
    then show ?thesis by (cases m; cases "fst m") (auto simp: Suc)
  qed simp
  from concat_ex [OF this] show ?case
    by (cases "fs_read_dir fs dir") (simp_all only: scan_dir.simps offered.simps option.case list.set(1) empty_iff)
qed simp


end
