(* ===== verification/Build_Diagnostics.thy ===== *)
theory Build_Diagnostics
  imports Config
begin

section \<open>Compiler diagnostics\<close>

text \<open>
  Models \<^verbatim>\<open>crates/princess-build/src/diagnostics.rs\<close>: the lines a build prints, read as diagnostics
  of the tool that is running, with the lines that continue one folded into it.
\<close>

subsection \<open>Tools\<close>

datatype tool_family = FamGcc | FamClang | FamLd | FamNasm | FamUnknown

definition for_program :: "string \<Rightarrow> tool_family" where
  "for_program program =
     (let name = (case path_file_name program of None \<Rightarrow> [] | Some n \<Rightarrow> map ascii_lower n)
      in if str_contains ''nasm'' name \<or> name = ''yasm'' then FamNasm
         else if str_contains ''clang'' name then FamClang
         else if str_contains ''gcc'' name \<or> str_contains ''g++'' name \<or> str_contains ''cc1'' name then FamGcc
         else if name = ''ld'' \<or> str_contains ''ld.'' name \<or> ends_with ''-ld'' name \<or> str_contains ''collect2'' name
         then FamLd
         else FamUnknown)"

fun default_source :: "tool_family \<Rightarrow> diagnostic_source option" where
  "default_source FamGcc = Some SrcGcc"
| "default_source FamClang = Some SrcClang"
| "default_source FamLd = Some SrcLd"
| "default_source FamNasm = Some SrcNasm"
| "default_source FamUnknown = None"

definition source_public :: "tool_family \<Rightarrow> diagnostic_source option" where
  "source_public f = default_source f"

definition from_recipe_line :: "string \<Rightarrow> tool_family option" where
  "from_recipe_line line =
     (case split_whitespace line of
        [] \<Rightarrow> None
      | first # _ \<Rightarrow>
          if \<not> starts_with first (str_trim_start line) then None
          else (case for_program first of FamUnknown \<Rightarrow> None | other \<Rightarrow> Some other))"

subsection \<open>One line\<close>

text \<open>\<open>RawDiagnostic\<close> and \<open>ParsedDiagnostic\<close> have the same fields.\<close>

record diagnostic =
  dg_severity :: diagnostic_severity
  dg_file :: "string option"
  dg_line :: "u32 option"
  dg_col :: "u32 option"
  dg_message :: string
  dg_source :: diagnostic_source

definition to_payload :: "diagnostic \<Rightarrow> build_diagnostic" where
  "to_payload d =
     \<lparr>bd_severity = dg_severity d, bd_file = dg_file d, bd_line = dg_line d, bd_col = dg_col d,
      bd_message = dg_message d, bd_source = dg_source d\<rparr>"

text \<open>The groups of digits at the end of a location, at most \<open>n\<close>; \<open>None\<close> when one does not fit.\<close>

fun location_numbers :: "nat \<Rightarrow> string \<Rightarrow> u32 list \<Rightarrow> (string \<times> u32 list) option" where
  "location_numbers 0 location ns = Some (location, ns)"
| "location_numbers (Suc n) location ns =
     (case rsplit_once CHR '':'' location of
        None \<Rightarrow> Some (location, ns)
      | Some (before, tail) \<Rightarrow>
          if tail = [] \<or> \<not> list_all is_digit tail then Some (location, ns)
          else (case parse_u32 tail of None \<Rightarrow> None | Some v \<Rightarrow> location_numbers n before (v # ns)))"

definition split_location :: "string \<Rightarrow> (string \<times> u32 option \<times> u32 option) option" where
  "split_location location =
     (if location = [] then None
      else case location_numbers 2 location [] of
        None \<Rightarrow> None
      | Some (before, ns) \<Rightarrow>
          let file = str_trim before
          in if ns = [] then
               if file = [] \<or> CHR '' '' \<in> set file then None else Some (file, None, None)
             else if file = [] then None
             else Some (file, Some (hd ns), (case tl ns of [] \<Rightarrow> None | col # _ \<Rightarrow> Some col)))"

definition classify_source :: "string \<Rightarrow> string \<Rightarrow> tool_family \<Rightarrow> diagnostic_source" where
  "classify_source message line family =
     (let lower = map ascii_lower line
      in if str_contains ''nasm:'' lower \<or> str_contains ''nasm '' lower \<or> family = FamNasm \<or>
            str_contains ''parser: instruction expected'' line then SrcNasm
         else if family = FamClang then SrcClang
         else if family = FamLd then SrcLd
         else if family = FamUnknown \<and>
           (str_contains ''use of undeclared identifier'' message \<or>
            str_contains (''expected '' @ [CHR 0x27, CHR '';'', CHR 0x27] @ '' after'') message \<or>
            str_contains ''incompatible integer to pointer'' message) then SrcClang
         else if str_contains ''each undeclared identifier is reported only once'' message \<or>
           str_contains (''expected '' @ [CHR 0x27, CHR ''='', CHR 0x27] @ '' , '' @ [CHR 0x27, CHR '','', CHR 0x27] @
             '' , '' @ [CHR 0x27, CHR '';'', CHR 0x27] @ '' , '' @ [CHR 0x27] @ ''asm'' @ [CHR 0x27] @ '' or '' @
             [CHR 0x27] @ ''__attribute__'' @ [CHR 0x27]) message \<or>
           str_contains ''note: expected'' message then SrcGcc
         else if str_contains ''undefined reference to'' message \<or> str_contains ''cannot find entry symbol'' message \<or>
           str_contains ''relocation truncated'' message \<or> str_contains ''final link failed'' message then SrcLd
         else unwrap_or SrcGcc (default_source family))"

definition markers :: "(string \<times> diagnostic_severity) list" where
  "markers = [('': fatal error:'', SevError), ('': error:'', SevError), ('': warning:'', SevWarning),
     ('': note:'', SevNote)]"

definition marker_at :: "string \<Rightarrow> string \<times> diagnostic_severity \<Rightarrow> (nat \<times> nat \<times> diagnostic_severity) option" where
  "marker_at line m = map_option (\<lambda>at. (at, length (fst m), snd m)) (str_find (fst m) line)"

text \<open>\<open>min_by_key\<close>: the first of the smallest.\<close>

fun first_least :: "(nat \<times> 'a) list \<Rightarrow> (nat \<times> 'a) option" where
  "first_least [] = None"
| "first_least (m # ms) =
     (case first_least ms of None \<Rightarrow> Some m | Some m' \<Rightarrow> if fst m \<le> fst m' then Some m else Some m')"

definition parse_colon_form :: "string \<Rightarrow> tool_family \<Rightarrow> diagnostic option" where
  "parse_colon_form line family =
     (case first_least (List.map_filter (marker_at line) markers) of
        None \<Rightarrow> None
      | Some (at, needle_len, severity) \<Rightarrow>
          let message = str_trim (drop (at + needle_len) line)
          in if message = [] then None
             else map_option (\<lambda>(file, line_no, col).
               \<lparr>dg_severity = severity, dg_file = Some file, dg_line = line_no, dg_col = col,
                dg_message = message, dg_source = classify_source message line family\<rparr>)
               (split_location (take at line)))"

definition parse_make_error :: "string \<Rightarrow> tool_family \<Rightarrow> diagnostic option" where
  "parse_make_error line family =
     (if \<not> starts_with ''make'' (str_trim_start line) then None
      else if \<not> (str_contains ''***'' line \<or> str_contains ''Error '' line) then None
      else Some \<lparr>dg_severity = SevError, dg_file = None, dg_line = None, dg_col = None,
                 dg_message = str_trim line, dg_source = unwrap_or SrcGcc (default_source family)\<rparr>)"

definition parse_ld_form :: "string \<Rightarrow> diagnostic option" where
  "parse_ld_form line =
     (case split_once CHR '':'' (str_trim_start line) of
        None \<Rightarrow> None
      | Some (program, after) \<Rightarrow>
          if for_program (str_trim program) \<noteq> FamLd then None
          else (case split_once CHR '':'' (str_trim after) of
              None \<Rightarrow> None
            | Some (file, message) \<Rightarrow>
                if str_trim file = [] \<or> str_trim message = [] then None
                else Some \<lparr>dg_severity = SevError, dg_file = Some (str_trim file), dg_line = None, dg_col = None,
                           dg_message = str_trim message, dg_source = SrcLd\<rparr>))"

definition parse_line_for :: "string \<Rightarrow> tool_family \<Rightarrow> diagnostic option" where
  "parse_line_for line family =
     (case parse_colon_form line family of
        Some d \<Rightarrow> Some d
      | None \<Rightarrow> (case parse_make_error line family of Some d \<Rightarrow> Some d | None \<Rightarrow> parse_ld_form line))"

definition parse_line :: "string \<Rightarrow> diagnostic option" where
  "parse_line line = parse_line_for line FamUnknown"

subsection \<open>Continuations\<close>

definition is_continuation :: "string \<Rightarrow> bool" where
  "is_continuation s \<longleftrightarrow>
     2 \<le> length s \<and>
     (starts_with ''^'' s \<or> starts_with ''~'' s \<or> starts_with ''|'' s \<or>
      starts_with ''In file included from'' s \<or> starts_with ''In function'' s \<or> starts_with ''from '' s \<or>
      (case split_once CHR ''|'' s of
         None \<Rightarrow> False
       | Some (left, _) \<Rightarrow> left \<noteq> [] \<and> list_all is_digit (str_trim left)))"

definition is_clang_marker :: "string \<Rightarrow> bool" where
  "is_clang_marker s \<longleftrightarrow> str_contains ''~~~^'' s \<or> str_contains ''[-W'' s \<or> starts_with ''~~~'' s"

subsection \<open>The parser\<close>

record diagnostic_parser =
  dp_cwd :: string
  dp_family :: tool_family
  dp_last :: "diagnostic option"

definition diagnostic_parser_new :: "string \<Rightarrow> diagnostic_parser" where
  "diagnostic_parser_new cwd = \<lparr>dp_cwd = cwd, dp_family = FamUnknown, dp_last = None\<rparr>"

definition with_family :: "tool_family \<Rightarrow> diagnostic_parser \<Rightarrow> diagnostic_parser" where
  "with_family family p = p\<lparr>dp_family := family\<rparr>"

definition resolve_file :: "string \<Rightarrow> string \<Rightarrow> string" where
  "resolve_file cwd raw =
     (let file = str_trim raw
      in if starts_with ''<'' file \<and> ends_with ''>'' file then file
         else normalize (if is_absolute file then file else path_join cwd file))"

definition finish_diagnostic :: "string \<Rightarrow> diagnostic \<Rightarrow> diagnostic option" where
  "finish_diagnostic cwd raw =
     (let message = str_trim (dg_message raw)
      in if message = [] then None
         else Some (raw\<lparr>dg_file := map_option (resolve_file cwd) (dg_file raw), dg_message := message\<rparr>))"

definition fold_detail :: "string \<Rightarrow> diagnostic \<Rightarrow> diagnostic" where
  "fold_detail fragment d =
     (let d1 = (if is_clang_marker fragment then d\<lparr>dg_source := SrcClang\<rparr> else d)
      in if str_contains fragment (dg_message d1) then d1
         else d1\<lparr>dg_message := dg_message d1 @ [CHR 0x0A] @ fragment\<rparr>)"

definition line_end :: "char \<Rightarrow> bool" where
  "line_end c \<longleftrightarrow> c = CHR 0x0D \<or> c = CHR 0x0A"

definition feed_line :: "string \<Rightarrow> diagnostic_parser \<Rightarrow> diagnostic_parser \<times> diagnostic list" where
  "feed_line line p =
     (let trimmed = trim_end_matches line_end line
      in if str_trim trimmed = [] then (p, [])
         else
           let p1 = (case from_recipe_line trimmed of None \<Rightarrow> p | Some f \<Rightarrow> p\<lparr>dp_family := f\<rparr>)
           in case parse_line_for trimmed (dp_family p1) of
                Some raw \<Rightarrow>
                  (p1\<lparr>dp_last := Some raw\<rparr>,
                   case finish_diagnostic (dp_cwd p1) raw of None \<Rightarrow> [] | Some d \<Rightarrow> [d])
              | None \<Rightarrow>
                  let fragment = str_trim trimmed
                  in if \<not> is_continuation fragment then (p1\<lparr>dp_last := None\<rparr>, [])
                     else (p1\<lparr>dp_last := map_option (fold_detail fragment) (dp_last p1)\<rparr>, []))"

fun feed_lines :: "string list \<Rightarrow> diagnostic_parser \<Rightarrow> diagnostic_parser \<times> diagnostic list" where
  "feed_lines [] p = (p, [])"
| "feed_lines (line # rest) p =
     (case feed_line line p of (p1, out) \<Rightarrow>
      case feed_lines rest p1 of (p2, out') \<Rightarrow> (p2, out @ out'))"

definition feed_text :: "string \<Rightarrow> diagnostic_parser \<Rightarrow> diagnostic_parser \<times> diagnostic list" where
  "feed_text txt = feed_lines (split_char CHR 0x0A txt)"

definition parser_flush :: "diagnostic_parser \<Rightarrow> diagnostic_parser \<times> diagnostic option" where
  "parser_flush p =
     (case dp_last p of
        None \<Rightarrow> (p, None)
      | Some raw \<Rightarrow> (p\<lparr>dp_last := None\<rparr>, finish_diagnostic (dp_cwd p) raw))"

definition same_problem :: "diagnostic \<Rightarrow> diagnostic \<Rightarrow> bool" where
  "same_problem a b \<longleftrightarrow> dg_file a = dg_file b \<and> dg_line a = dg_line b \<and> dg_col a = dg_col b \<and> dg_source a = dg_source b"

text \<open>The first element with a property, removed.\<close>

fun remove_first :: "('a \<Rightarrow> bool) \<Rightarrow> 'a list \<Rightarrow> 'a list" where
  "remove_first P [] = []"
| "remove_first P (x # xs) = (if P x then xs else x # remove_first P xs)"

fun dedup_onto :: "'a list \<Rightarrow> 'a list \<Rightarrow> 'a list" where
  "dedup_onto out [] = out"
| "dedup_onto out (d # ds) = dedup_onto (if d \<in> set out then out else out @ [d]) ds"

definition dedup :: "'a list \<Rightarrow> 'a list" where
  "dedup ds = dedup_onto [] ds"

definition feed_text_dedup :: "string \<Rightarrow> diagnostic_parser \<Rightarrow> diagnostic_parser \<times> diagnostic list" where
  "feed_text_dedup txt p =
     (case feed_text txt p of (p1, out) \<Rightarrow>
      case parser_flush p1 of
        (p2, None) \<Rightarrow> (p2, dedup out)
      | (p2, Some pending) \<Rightarrow> (p2, dedup (remove_first (\<lambda>d. same_problem d pending) out @ [pending])))"

definition parse_chunk :: "string \<Rightarrow> string \<Rightarrow> tool_family \<Rightarrow> diagnostic list" where
  "parse_chunk stderr cwd family = snd (feed_text_dedup stderr (with_family family (diagnostic_parser_new cwd)))"


subsection \<open>Facts: what a compiler prints is read back\<close>

fun severity_word :: "diagnostic_severity \<Rightarrow> string" where
  "severity_word SevError = ''error''"
| "severity_word SevWarning = ''warning''"
| "severity_word SevNote = ''note''"

definition printed_location :: "string \<Rightarrow> nat \<Rightarrow> nat \<Rightarrow> string" where
  "printed_location file l c = file @ CHR '':'' # show_nat l @ CHR '':'' # show_nat c"

definition printed_diagnostic :: "string \<Rightarrow> nat \<Rightarrow> nat \<Rightarrow> diagnostic_severity \<Rightarrow> string \<Rightarrow> string" where
  "printed_diagnostic file l c sev message =
     printed_location file l c @ CHR '':'' # CHR '' '' # severity_word sev @ CHR '':'' # CHR '' '' # message"

lemma rsplit_once_append: "c \<notin> set b \<Longrightarrow> rsplit_once c (a @ c # b) = Some (a, b)"
  by (simp add: rsplit_once_def split_once_append)

lemma rsplit_once_none: "c \<notin> set s \<Longrightarrow> rsplit_once c s = None"
  by (simp add: rsplit_once_def split_once_None)

lemma show_nat_is_digits: "list_all is_digit (show_nat n)"
proof -
  have "is_digit (digit_char d)" if "d < 10" for d
    using that by (simp add: is_digit_def digit_char_def byte_of_char_of)
  then show ?thesis by (auto simp: list_all_iff dest!: show_nat_chars)
qed

lemma parse_u32_show: "n < 2 ^ 32 \<Longrightarrow> parse_u32 (show_nat n) = Some (word_of_nat n)"
  by (simp add: parse_u32_def show_nat_def parse_digits_in)

lemma show_nat_no_colon: "CHR '':'' \<notin> set (show_nat n)" "CHR '' '' \<notin> set (show_nat n)"
  by (rule show_nat_no, simp add: byte_of_def)+

lemma location_step:
  assumes "v < 2 ^ 32"
  shows "location_numbers (Suc n) (a @ CHR '':'' # show_nat v) ns = location_numbers n a (word_of_nat v # ns)"
  by (simp add: rsplit_once_append show_nat_no_colon show_nat_is_digits show_nat_graphic parse_u32_show [OF assms])

lemma split_printed_location:
  assumes "field_ok file" "CHR '':'' \<notin> set file" "l < 2 ^ 32" "c < 2 ^ 32"
  shows "split_location (printed_location file l c) = Some (file, Some (word_of_nat l), Some (word_of_nat c))"
proof -
  have trim: "str_trim file = file"
    using assms(1) by (intro str_trim_graphic) (auto simp: field_ok_def)
  have "printed_location file l c = (file @ CHR '':'' # show_nat l) @ CHR '':'' # show_nat c"
    by (simp add: printed_location_def)
  then have "location_numbers (Suc (Suc 0)) (printed_location file l c) [] = Some (file, [word_of_nat l, word_of_nat c])"
    by (simp only: location_step [OF assms(3)] location_step [OF assms(4)] location_numbers.simps(1))
  then have "location_numbers 2 (printed_location file l c) [] = Some (file, [word_of_nat l, word_of_nat c])"
    by (simp only: numeral_2_eq_2)
  then show ?thesis
    using assms(1) trim by (simp add: split_location_def field_ok_def) (simp add: printed_location_def)
qed

lemma str_find_Cons: "\<not> starts_with p (c # s) \<Longrightarrow> str_find p (c # s) = map_option Suc (str_find p s)"
  by (simp add: str_find_def option.map_comp comp_def case_prod_beta)

text \<open>A marker is found no earlier than the end of a location without blanks.\<close>

lemma find_marker:
  "CHR '' '' \<notin> set location \<Longrightarrow>
     str_find (CHR '':'' # CHR '' '' # m) (location @ CHR '':'' # s) =
     map_option ((+) (length location)) (str_find (CHR '':'' # CHR '' '' # m) (CHR '':'' # s))"
proof (induction location)
  case (Cons x xs)
  then have "\<not> starts_with (CHR '':'' # CHR '' '' # m) (x # xs @ CHR '':'' # s)"
    by (cases xs) auto
  with Cons show ?case
    by (simp add: str_find_Cons option.map_comp comp_def)
qed (simp add: option.map_ident [unfolded id_def] plus_nat.add_0 [abs_def])

lemma find_here: "starts_with p s \<Longrightarrow> str_find p s = Some 0"
  by (cases s; cases p) (auto simp: str_find_def)

lemma find_later: "\<not> starts_with p s \<Longrightarrow> str_find p s \<noteq> Some 0"
  by (cases s; cases p) (auto simp: str_find_def split: if_splits)

lemma first_least_SomeD: "first_least ms = Some m \<Longrightarrow> m \<in> set ms"
  by (induction ms arbitrary: m) (auto split: option.splits if_splits)

lemma first_least_unique:
  "(at, x) \<in> set ms \<Longrightarrow> (\<And>n y. (n, y) \<in> set ms \<Longrightarrow> at < n \<or> (n, y) = (at, x)) \<Longrightarrow> first_least ms = Some (at, x)"
proof (induction ms)
  case (Cons m ms)
  show ?case
  proof (cases "first_least ms")
    case None
    have "ms = []" using None by (cases ms) (auto split: option.splits if_splits)
    with Cons.prems(1) show ?thesis by simp
  next
    case (Some m')
    from first_least_SomeD [OF Some] have m': "m' \<in> set ms" .
    show ?thesis
    proof (cases "(at, x) \<in> set ms")
      case True
      then have "first_least ms = Some (at, x)" using Cons by simp
      with Cons.prems(2) [of "fst m" "snd m"] show ?thesis by auto
    next
      case False
      then have "m = (at, x)" using Cons.prems(1) by simp
      moreover have "at \<le> fst m'" using Cons.prems(2) [of "fst m'" "snd m'"] m' by auto
      ultimately show ?thesis using Some by simp
    qed
  qed
qed simp


lemma printed_no_space:
  "field_ok file \<Longrightarrow> CHR '' '' \<notin> set (printed_location file l c)"
proof -
  assume "field_ok file"
  then have "CHR '' '' \<notin> set file" by (auto simp: field_ok_def ascii_graphic_def byte_of_def)
  then show ?thesis using show_nat_no_colon by (simp add: printed_location_def)
qed

lemma marker_of_severity:
  assumes "field_ok file"
  shows "first_least (List.map_filter (marker_at (printed_diagnostic file l c sev message)) markers) =
    Some (length (printed_location file l c), length (severity_word sev) + 3, sev)"
proof (rule first_least_unique)
  let ?loc = "printed_location file l c" and ?line = "printed_diagnostic file l c sev message"
  note find = find_marker [OF printed_no_space [OF assms]]
  show "(length ?loc, length (severity_word sev) + 3, sev) \<in> set (List.map_filter (marker_at ?line) markers)"
    by (cases sev) (simp_all add: printed_diagnostic_def markers_def marker_at_def map_filter_def find find_here)
  fix n y assume "(n, y) \<in> set (List.map_filter (marker_at ?line) markers)"
  then show "length ?loc < n \<or> (n, y) = (length ?loc, length (severity_word sev) + 3, sev)"
    by (cases sev) (auto simp: printed_diagnostic_def markers_def marker_at_def map_filter_def find find_here str_find_Cons split: if_splits option.splits)
qed


definition printed_as :: "string \<Rightarrow> nat \<Rightarrow> nat \<Rightarrow> diagnostic_severity \<Rightarrow> string \<Rightarrow> tool_family \<Rightarrow> diagnostic" where
  "printed_as file l c sev message family =
     \<lparr>dg_severity = sev, dg_file = Some file, dg_line = Some (word_of_nat l), dg_col = Some (word_of_nat c),
      dg_message = message,
      dg_source = classify_source message (printed_diagnostic file l c sev message) family\<rparr>"

lemma blank_space: "ascii_space CHR '' ''"
  by (simp add: ascii_space_def byte_of_def)

lemma printed_message:
  "str_trim message = message \<Longrightarrow>
     str_trim (drop (length (printed_location file l c) + (length (severity_word sev) + 3))
       (printed_diagnostic file l c sev message)) = message"
  by (cases sev) (simp_all add: printed_diagnostic_def str_trim_def str_trim_start_space [OF blank_space])

lemma parse_printed:
  assumes "field_ok file" "CHR '':'' \<notin> set file" "l < 2 ^ 32" "c < 2 ^ 32" "message \<noteq> []" "str_trim message = message"
  shows "parse_line_for (printed_diagnostic file l c sev message) family = Some (printed_as file l c sev message family)"
proof -
  have "take (length (printed_location file l c)) (printed_diagnostic file l c sev message) = printed_location file l c"
    by (simp add: printed_diagnostic_def)
  then have "parse_colon_form (printed_diagnostic file l c sev message) family = Some (printed_as file l c sev message family)"
    unfolding parse_colon_form_def
    by (simp only: marker_of_severity [OF assms(1)] option.case prod.case Let_def printed_message [OF assms(6)]
        split_printed_location [OF assms(1-4)] assms(5) if_False option.map printed_as_def simp_thms)
  then show ?thesis by (simp add: parse_line_for_def)
qed

text \<open>The first word of a printed diagnostic, which is taken for a program.\<close>

lemma recipe_of_printed:
  assumes "field_ok file"
  shows "from_recipe_line (printed_diagnostic file l c sev message) =
    (case for_program (printed_location file l c @ '':'') of FamUnknown \<Rightarrow> None | fam \<Rightarrow> Some fam)"
proof -
  have "\<forall>x \<in> set (show_nat n). ascii_graphic x" for n
    using show_nat_chars digit_char_graphic by fastforce
  then have ok: "field_ok (printed_location file l c @ '':'')"
    using assms by (auto simp: field_ok_def printed_location_def ascii_graphic_def byte_of_def)
  have line: "printed_diagnostic file l c sev message =
      (printed_location file l c @ '':'') @ CHR '' '' # (severity_word sev @ CHR '':'' # CHR '' '' # message)"
    by (simp add: printed_diagnostic_def)
  have "starts_with (printed_location file l c @ '':'') (str_trim_start (printed_diagnostic file l c sev message))"
    unfolding line field_ok_trim [OF ok] by (auto simp: starts_with_iff)
  then show ?thesis
    unfolding from_recipe_line_def line split_whitespace_Cons [OF ok] by (simp split: tool_family.split)
qed

lemma dedup_onto_set: "set (dedup_onto out ds) = set out \<union> set ds"
  by (induction out ds rule: dedup_onto.induct) auto

lemma dedup_onto_distinct: "distinct out \<Longrightarrow> distinct (dedup_onto out ds)"
  by (induction out ds rule: dedup_onto.induct) auto

lemma set_remove_first: "set (remove_first P xs) \<subseteq> set xs"
  by (induction xs) auto

text \<open>A file is absolute, or a name the compiler made up, kept as printed.\<close>

definition located :: "diagnostic \<Rightarrow> bool" where
  "located d \<longleftrightarrow> (case dg_file d of None \<Rightarrow> True
     | Some f \<Rightarrow> is_absolute f \<or> starts_with ''<'' f \<and> ends_with ''>'' f)"

lemma finish_located: "is_absolute cwd \<Longrightarrow> finish_diagnostic cwd raw = Some d \<Longrightarrow> located d"
  by (auto simp: finish_diagnostic_def located_def resolve_file_def Let_def intro!: normalize_absolute path_join_absolute
      split: if_splits option.splits)

lemma feed_line_located:
  assumes "is_absolute (dp_cwd p)" "feed_line line p = (p', out)"
  shows "dp_cwd p' = dp_cwd p \<and> (\<forall>d \<in> set out. located d) \<and> length out \<le> 1"
  using assms by (auto simp: feed_line_def Let_def dest: finish_located split: if_splits option.splits)

lemma feed_lines_located:
  "is_absolute (dp_cwd p) \<Longrightarrow> feed_lines ls p = (p', out) \<Longrightarrow>
     dp_cwd p' = dp_cwd p \<and> (\<forall>d \<in> set out. located d) \<and> length out \<le> length ls"
proof (induction ls p arbitrary: p' out rule: feed_lines.induct)
  case (2 line rest p)
  obtain p1 o1 where 1: "feed_line line p = (p1, o1)" by (cases "feed_line line p")
  obtain p2 o2 where 2: "feed_lines rest p1 = (p2, o2)" by (cases "feed_lines rest p1")
  from feed_line_located [OF "2.prems"(1) 1] have f: "dp_cwd p1 = dp_cwd p" "\<forall>d \<in> set o1. located d" "length o1 \<le> 1"
    by simp_all
  with "2.IH" [OF 1 [symmetric] _ 2] "2.prems" 1 2 show ?case by auto
qed auto


text \<open>
  C30. A compiler's message is read back. For any file name without blanks or colons, any line and
  column of 32 bits, any severity and any trimmed message, whatever markers it contains itself, the
  line \<open>file:line:col: severity: message\<close> is parsed to exactly these five.
\<close>

theorem diagnostic_roundtrip:
  assumes "field_ok file" "CHR '':'' \<notin> set file" "l < 2 ^ 32" "c < 2 ^ 32" "message \<noteq> []" "str_trim message = message"
  shows "\<exists>d. parse_line_for (printed_diagnostic file l c sev message) family = Some d \<and>
    dg_severity d = sev \<and> dg_file d = Some file \<and> dg_message d = message \<and>
    map_option unat (dg_line d) = Some l \<and> map_option unat (dg_col d) = Some c"
proof -
  have "unat (word_of_nat n :: u32) = n" if "n < 2 ^ 32" for n
    using that by (simp add: unat_of_nat)
  then show ?thesis
    using parse_printed [OF assms] assms(3,4) by (simp add: printed_as_def)
qed

lemma diagnostic_roundtrip_witness:
  "\<exists>d. parse_line_for (printed_diagnostic ''src/k.c'' 7 15 SevError ''x: note: y'') FamGcc = Some d \<and>
    dg_severity d = SevError \<and> dg_file d = Some ''src/k.c'' \<and> dg_message d = ''x: note: y'' \<and>
    map_option unat (dg_line d) = Some 7 \<and> map_option unat (dg_col d) = Some 15"
proof (rule diagnostic_roundtrip)
  show "str_trim ''x: note: y'' = ''x: note: y''"
    by (rule str_trim_graphic) (simp_all add: ascii_graphic_def byte_of_def)
qed (simp_all add: field_ok_def ascii_graphic_def byte_of_def)

text \<open>
  Whatever a tool prints, the diagnostics of a chunk are distinct, and each names an absolute
  file, or a name in angle brackets that the compiler made up, or none, provided the working directory
  is absolute.
\<close>

lemma chunk_files_absolute:
  assumes "is_absolute cwd"
  shows "distinct (parse_chunk stderr cwd family) \<and> (\<forall>d \<in> set (parse_chunk stderr cwd family). located d)"
proof -
  obtain p1 out where feed: "feed_text stderr (with_family family (diagnostic_parser_new cwd)) = (p1, out)"
    by (cases "feed_text stderr (with_family family (diagnostic_parser_new cwd))")
  then have out: "dp_cwd p1 = cwd" "\<forall>d \<in> set out. located d"
    using feed_lines_located [of "with_family family (diagnostic_parser_new cwd)" "split_char CHR 0x0A stderr" p1 out] assms
    by (simp_all add: feed_text_def with_family_def diagnostic_parser_new_def)
  have pending: "located d" if "parser_flush p1 = (p2, Some d)" for p2 d
    using that out(1) assms finish_located [of cwd] by (auto simp: parser_flush_def split: option.splits)
  obtain p2 last where flush: "parser_flush p1 = (p2, last)" by (cases "parser_flush p1")
  show ?thesis
  proof (cases last)
    case None
    with out(2) flush show ?thesis
      by (simp add: parse_chunk_def feed_text_dedup_def feed dedup_def dedup_onto_set dedup_onto_distinct)
  next
    case (Some d)
    have "\<forall>x \<in> set (remove_first (\<lambda>x. same_problem x d) out). located x"
      using out(2) set_remove_first [of "\<lambda>x. same_problem x d" out] by blast
    with Some flush pending [of p2 d] show ?thesis
      by (simp add: parse_chunk_def feed_text_dedup_def feed dedup_def dedup_onto_set dedup_onto_distinct)
  qed
qed

lemma chunk_files_absolute_witness:
  "distinct (parse_chunk ''k.c:1:2: error: x'' ''/os'' FamGcc) \<and>
   list_all located (parse_chunk ''k.c:1:2: error: x'' ''/os'' FamGcc)"
  unfolding list_all_iff by (rule chunk_files_absolute) (simp add: is_absolute_def)


lemma demo_lines:
  "printed_diagnostic ''k.c'' 5 3 SevError ''boom'' = ''k.c:5:3: error: boom''"
  "printed_diagnostic ''k.c'' 5 3 SevNote ''here'' = ''k.c:5:3: note: here''"
  "printed_diagnostic ''build.c'' 3 1 SevError ''boom'' = ''build.c:3:1: error: boom''"
  by code_simp+

lemma demo_recipes:
  "from_recipe_line ''k.c:5:3: error: boom'' = None" "from_recipe_line ''k.c:5:3: note: here'' = None"
  "from_recipe_line ''build.c:3:1: error: boom'' = Some FamLd"
  by code_simp+

lemma demo_sources:
  "classify_source ''boom'' ''k.c:5:3: error: boom'' FamGcc = SrcGcc"
  "classify_source ''here'' ''k.c:5:3: note: here'' FamGcc = SrcGcc"
  "classify_source ''boom'' ''build.c:3:1: error: boom'' FamLd = SrcLd"
  by code_simp+

lemma demo_texts: "str_trim ''boom'' = ''boom''" "str_trim ''here'' = ''here''"
  "trim_end_matches line_end ''k.c:5:3: error: boom'' = ''k.c:5:3: error: boom''"
  "trim_end_matches line_end ''k.c:5:3: note: here'' = ''k.c:5:3: note: here''"
  "trim_end_matches line_end ''build.c:3:1: error: boom'' = ''build.c:3:1: error: boom''"
  "str_trim ''k.c:5:3: error: boom'' \<noteq> []" "str_trim ''k.c:5:3: note: here'' \<noteq> []"
  "str_trim ''build.c:3:1: error: boom'' \<noteq> []"
  "resolve_file ''/os'' ''k.c'' = ''/os/k.c''" "resolve_file ''/os'' ''build.c'' = ''/os/build.c''"
  by code_simp+


lemma demo_block:
  "trim_end_matches line_end ''      |  ~~~^~~'' = ''      |  ~~~^~~''" "str_trim ''      |  ~~~^~~'' = ''|  ~~~^~~''"
  "from_recipe_line ''      |  ~~~^~~'' = None" "parse_line_for ''      |  ~~~^~~'' FamGcc = None"
  "is_continuation ''|  ~~~^~~''" "is_clang_marker ''|  ~~~^~~''" "\<not> str_contains ''|  ~~~^~~'' ''boom''"
  "str_trim (''boom'' @ CHR 0x0A # ''|  ~~~^~~'') = ''boom'' @ CHR 0x0A # ''|  ~~~^~~''"
  by code_simp+

lemma demo_parsed:
  "parse_line_for ''k.c:5:3: error: boom'' FamGcc =
     Some \<lparr>dg_severity = SevError, dg_file = Some ''k.c'', dg_line = Some 5, dg_col = Some 3, dg_message = ''boom'', dg_source = SrcGcc\<rparr>"
  "parse_line_for ''k.c:5:3: note: here'' FamGcc =
     Some \<lparr>dg_severity = SevNote, dg_file = Some ''k.c'', dg_line = Some 5, dg_col = Some 3, dg_message = ''here'', dg_source = SrcGcc\<rparr>"
  "parse_line_for ''build.c:3:1: error: boom'' FamLd =
     Some \<lparr>dg_severity = SevError, dg_file = Some ''build.c'', dg_line = Some 3, dg_col = Some 1, dg_message = ''boom'', dg_source = SrcLd\<rparr>"
  using parse_printed [of "''k.c''" 5 3 "''boom''" SevError FamGcc] parse_printed [of "''k.c''" 5 3 "''here''" SevNote FamGcc]
    parse_printed [of "''build.c''" 3 1 "''boom''" SevError FamLd]
  by (simp_all add: printed_as_def demo_lines demo_sources demo_texts field_ok_def ascii_graphic_def byte_of_def
      del: One_nat_def)

lemma demo_split:
  "split_char CHR 0x0A (''k.c:5:3: error: boom'' @ CHR 0x0A # ''k.c:5:3: note: here'') = [''k.c:5:3: error: boom'', ''k.c:5:3: note: here'']"
  "split_char CHR 0x0A (''k.c:5:3: error: boom'' @ CHR 0x0A # ''      |  ~~~^~~'') = [''k.c:5:3: error: boom'', ''      |  ~~~^~~'']"
  "split_char CHR 0x0A ''build.c:3:1: error: boom'' = [''build.c:3:1: error: boom'']"
  by code_simp+

lemma faulty_chunks:
  "map dg_severity (parse_chunk (''k.c:5:3: error: boom'' @ CHR 0x0A # ''k.c:5:3: note: here'') ''/os'' FamGcc) = [SevNote]"
  "map (\<lambda>d. (dg_severity d, dg_source d))
     (parse_chunk (''k.c:5:3: error: boom'' @ CHR 0x0A # ''      |  ~~~^~~'') ''/os'' FamGcc) =
   [(SevError, SrcGcc), (SevError, SrcClang)]"
  "map dg_source (parse_chunk ''build.c:3:1: error: boom'' ''/os'' FamGcc) = [SrcLd]"
  unfolding parse_chunk_def feed_text_dedup_def feed_text_def demo_split
  by (simp_all add: with_family_def diagnostic_parser_new_def feed_line_def Let_def demo_texts demo_recipes demo_parsed demo_block [unfolded append.simps]
      finish_diagnostic_def parser_flush_def same_problem_def dedup_def fold_detail_def)


end
