(* ===== verification/Rust_Path.thy ===== *)
theory Rust_Path
  imports Config
begin

section \<open>Parents of a path\<close>

text \<open>\<open>Path::parent\<close> of the standard library, and the directories a walk upwards visits.\<close>

text \<open>The text before the last component; a root and the empty path have none.\<close>

definition trim_back :: "string list \<Rightarrow> string list" where
  "trim_back ps = rev (dropWhile (\<lambda>c. c = [] \<or> c = ''.'') (rev ps))"

definition path_parent :: "string \<Rightarrow> string option" where
  "path_parent path =
     (let ps = split_char CHR ''/'' path; rest = trim_back (tl ps)
      in if rest \<noteq> [] then
           (let above = trim_back (butlast rest)
            in Some (if above = [] \<and> hd ps = [] then ''/'' else join ''/'' (hd ps # above)))
         else if hd ps = [] then None else Some [])"

lemma trim_back_prefix: "\<exists>more. ps = trim_back ps @ more"
proof -
  have "ps = rev (takeWhile (\<lambda>c. c = [] \<or> c = ''.'') (rev ps) @ dropWhile (\<lambda>c. c = [] \<or> c = ''.'') (rev ps))"
    by simp
  then show ?thesis unfolding trim_back_def by (metis rev_append)
qed

lemma last_trim_back: "trim_back ps \<noteq> [] \<Longrightarrow> last (trim_back ps) \<noteq> []"
  unfolding trim_back_def using hd_dropWhile [of "\<lambda>c. c = [] \<or> c = ''.''" "rev ps"] by (auto simp: last_rev)

lemma length_join_Cons: "length (join [c] (x # ys)) = length x + (\<Sum>y\<leftarrow>ys. Suc (length y))"
  by (induction ys arbitrary: x) simp_all

lemma join_split: "join [c] (split_char c s) = s"
proof (induction s)
  case (Cons a s)
  show ?case
  proof (cases "split_char c s")
    case Nil
    with Cons show ?thesis by simp
  next
    case (Cons p ps)
    have "join [c] ((a # p) # ps) = a # join [c] (p # ps)" by (cases ps) simp_all
    with Cons Cons.IH show ?thesis by (cases "a = c") (auto split: list.splits)
  qed
qed simp

lemma path_parent_shorter:
  assumes "path_parent path = Some up"
  shows "length up < length path"
proof -
  define ps where "ps = split_char CHR ''/'' path"
  define rest where "rest = trim_back (tl ps)"
  define above where "above = trim_back (butlast rest)"
  have "ps \<noteq> []" unfolding ps_def by (cases path) (auto split: list.splits)
  then have "length (join ''/'' ps) = length (hd ps) + (\<Sum>y\<leftarrow>tl ps. Suc (length y))"
    using length_join_Cons [of _ "hd ps" "tl ps"] by simp
  then have path: "length path = length (hd ps) + (\<Sum>y\<leftarrow>tl ps. Suc (length y))"
    using join_split [of "CHR ''/''" path] by (simp add: ps_def)
  obtain more where more: "tl ps = rest @ more" using trim_back_prefix unfolding rest_def by blast
  obtain less where less: "butlast rest = above @ less" using trim_back_prefix unfolding above_def by blast
  have up: "up = (if rest \<noteq> [] then (if above = [] \<and> hd ps = [] then ''/'' else join ''/'' (hd ps # above)) else [])"
      "rest \<noteq> [] \<or> hd ps \<noteq> []"
    using assms unfolding path_parent_def Let_def ps_def [symmetric] rest_def [symmetric] above_def [symmetric]
    by (auto split: if_splits)
  show ?thesis
  proof (cases "rest = []")
    case True
    with up path show ?thesis by simp
  next
    case False
    then have rest: "rest = above @ less @ [last rest]" using less by (metis append.assoc append_butlast_last_id)
    have "last rest \<noteq> []" using False last_trim_back unfolding rest_def by blast
    then have "Suc 0 < Suc (length (last rest))" by simp
    moreover have "length path = length (hd ps) + (\<Sum>y\<leftarrow>above. Suc (length y)) + (\<Sum>y\<leftarrow>less. Suc (length y)) +
        Suc (length (last rest)) + (\<Sum>y\<leftarrow>more. Suc (length y))"
      unfolding path more by (subst rest) simp
    ultimately show ?thesis
      using False up(1) length_join_Cons [of "CHR ''/''" "hd ps" above] by (auto split: if_splits)
  qed
qed

lemma path_parent_absolute: "is_absolute p \<Longrightarrow> path_parent p = Some up \<Longrightarrow> is_absolute up"
  by (cases p) (auto simp: is_absolute_def path_parent_def Let_def neq_Nil_conv split: if_splits list.splits)

text \<open>A path and the directories above it, the nearest first: what \<open>pop\<close> leads through.\<close>

function parents :: "string \<Rightarrow> string list" where
  "parents path = path # (case path_parent path of None \<Rightarrow> [] | Some up \<Rightarrow> parents up)"
  by pat_completeness auto
termination
  by (relation "measure length") (auto dest: path_parent_shorter)

declare parents.simps [simp del]

end
