(* ===== verification/Compile_Database.thy ===== *)
theory Compile_Database
  imports Rust_Path Language Json_Access
begin

section \<open>The files of the language service\<close>

text \<open>
  Models \<^verbatim>\<open>crates/princess-build/src/clangd.rs\<close> and \<^verbatim>\<open>manifest.rs\<close>: the generated \<^verbatim>\<open>.clangd\<close> and its
  check, the compile database with its normalisation and check, the compiler wrapper that records
  one, and the command of the language service. JSON, the files and the environment are parameters;
  what is written and removed is kept in the state.
\<close>

definition DEFAULT_TRIPLE :: string where "DEFAULT_TRIPLE = ''x86_64-unknown-none''"
definition LANG_SERVICE_TOOL :: string where "LANG_SERVICE_TOOL = ''clangd-16''"
definition NOSTD_INCLUDE_FLAG :: string where "NOSTD_INCLUDE_FLAG = ''-nostdlibinc''"

definition GCC_ONLY_FLAG_BLACKLIST :: "string list" where
  "GCC_ONLY_FLAG_BLACKLIST =
    [''-fno-tree-loop-distribute-patterns'', ''-fconserve-stack'', ''-mpreferred-stack-boundary=*'',
     ''-fno-var-tracking-assignments'', ''-fno-ipa-icf'', ''-mno-direct-extern-access'']"

subsection \<open>Files written\<close>

text \<open>Whether a directory can be created and a file written; the error is the text of the failure.\<close>

record disk =
  dk_create_dir :: "string \<Rightarrow> string + unit"
  dk_write :: "string \<Rightarrow> string + unit"

datatype file_action = FileWritten string string | FileRemoved string

type_synonym 'a disk_op = "(file_action list, princess_error, 'a) op"

definition put_file :: "disk \<Rightarrow> string \<Rightarrow> string \<Rightarrow> string \<Rightarrow> unit disk_op" where
  "put_file dk purpose path txt files =
     (case (case path_parent path of
              None \<Rightarrow> Inr ()
            | Some parent \<Rightarrow>
                map_err (\<lambda>err. internal_error (''cannot create '' @ parent @ '' for '' @ purpose @ '': '' @ err))
                  (dk_create_dir dk parent)) of
        Inl e \<Rightarrow> (files, Inl e)
      | Inr _ \<Rightarrow>
          (case dk_write dk path of
             Inl err \<Rightarrow> (files, Inl (internal_error (''cannot write '' @ path @ '': '' @ err)))
           | Inr _ \<Rightarrow> (files @ [FileWritten path txt], Inr ())))"

subsection \<open>The configuration of clangd\<close>

record dot_clangd =
  dc_text :: string
  dc_path :: string

definition unlines :: "string list \<Rightarrow> string" where
  "unlines ls = concat (map (\<lambda>l. l @ [CHR 0x0A]) ls)"

definition clangd_head :: "string list" where
  "clangd_head = [
     ''# Generated by princess-build (D7/D17). Do not edit by hand.'',
     ''#'',
     ''# Regenerate with: princess tools sync-clangd'',
     ''# Why each line exists: crates/princess-build/src/clangd.rs'',
     ''#'',
     (''# NOTE clangd'' @ [CHR 0x27] @ ''s schema: `CompileFlags` is a *dictionary*, not a list.''),
     ''# `CompileFlags: [ ... ]` makes clangd log'',
     (''#   '' @ [CHR 0x22] @ ''CompileFlags should be a dictionary'' @ [CHR 0x22]),
     ''# and then ignore the whole file, silently falling back to the host'',
     (''# triple with glibc include paths '' @ [CHR 0xE2, CHR 0x80, CHR 0x94] @ '' exactly what D7 exists to prevent.''),
     ''CompileFlags:'',
     ''  # D7: pin the target instead of relying on --query-driver.'',
     ''  CompilationDatabase: .'',
     ''  Add:'']"

definition clangd_remove :: "string list" where
  "clangd_remove = [
     ''  # D7: GCC-only flags, by exact name. A `-W*` wildcard here would'',
     ''  # also delete -Wall/-Wextra and silently hide every warning.'',
     ''  Remove:'']"

definition clangd_lines :: "string \<Rightarrow> string list \<Rightarrow> string list" where
  "clangd_lines triple extra_includes =
     clangd_head @ [''    - --target='' @ triple, ''    - '' @ NOSTD_INCLUDE_FLAG] @
     map (\<lambda>include. ''    - -I'' @ include) extra_includes @ clangd_remove @
     map (\<lambda>flag. ''    - '' @ [CHR 0x22] @ flag @ [CHR 0x22]) GCC_ONLY_FLAG_BLACKLIST"

definition dot_clangd_new :: "string \<Rightarrow> string \<Rightarrow> string list \<Rightarrow> dot_clangd" where
  "dot_clangd_new root triple extra_includes =
     \<lparr>dc_text = unlines (clangd_lines triple extra_includes), dc_path = path_join root ''.clangd''\<rparr>"

definition for_kernel :: "string \<Rightarrow> string \<Rightarrow> dot_clangd" where
  "for_kernel root triple = dot_clangd_new root triple []"

definition dot_clangd_write :: "disk \<Rightarrow> dot_clangd \<Rightarrow> unit disk_op" where
  "dot_clangd_write dk d = put_file dk ''.clangd'' (dc_path d) (dc_text d)"

text \<open>The block of \<open>CompileFlags:\<close>: whether it has a key of its own, and a sequence entry that it must not have.\<close>

definition is_flags_line :: "string \<Rightarrow> bool" where
  "is_flags_line l \<longleftrightarrow> starts_with ''CompileFlags:'' (str_trim_start l) \<and> \<not> starts_with ''#'' (str_trim_start l)"

fun flags_block :: "nat \<Rightarrow> string list \<Rightarrow> bool \<Rightarrow> bool \<times> string list" where
  "flags_block indent [] seen = (seen, [])"
| "flags_block indent (line # rest) seen =
     (let trimmed = str_trim line; here = length line - length (str_trim_start line)
      in if trimmed = [] \<or> starts_with ''#'' trimmed then flags_block indent rest seen
         else if here \<le> indent then (seen, [])
         else if here = indent + 2 \<and> starts_with ''- '' trimmed then
           (seen, [''`CompileFlags:` directly contains the sequence entry `'' @ trimmed @ ''`; clangd '' @
             ''requires a dictionary with `Add:`/`Remove:` keys (otherwise it logs '' @ [CHR 0x22] @
             ''CompileFlags should be a dictionary'' @ [CHR 0x22] @ '' and ignores the entire .clangd, D7)''])
         else flags_block indent rest (seen \<or> here = indent + 2 \<and> ends_with '':'' trimmed))"

definition block_problems :: "string list \<Rightarrow> string list" where
  "block_problems ls =
     (case dropWhile (\<lambda>l. \<not> is_flags_line (str_trim_end l)) ls of
        [] \<Rightarrow> [''no `CompileFlags:` key: clangd has nothing to add or remove (D7)'']
      | flags # _ \<Rightarrow>
          let indent = length (str_trim_end flags) - length (str_trim_start (str_trim_end flags))
          in case flags_block indent (drop 1 (dropWhile (\<lambda>l. \<not> is_flags_line l) ls)) False of
               (seen, problems) \<Rightarrow>
                 problems @ (if seen then [] else [''`CompileFlags:` has no `Add:`/`Remove:` child key (D7)'']))"

definition entry_value :: "string \<Rightarrow> string option" where
  "entry_value line =
     (let trimmed = str_trim line
      in if \<not> starts_with ''- '' trimmed then None
         else Some (str_trim (trim_matches (\<lambda>c. c = CHR 0x22) (strip_all ''- '' trimmed))))"

definition is_wildcard :: "string \<Rightarrow> bool" where
  "is_wildcard v \<longleftrightarrow> v \<noteq> [] \<and> str_contains ''*'' v \<and> v \<noteq> ''-mpreferred-stack-boundary=*''"

definition validate_dot_clangd :: "string \<Rightarrow> string list" where
  "validate_dot_clangd txt =
     block_problems (str_lines txt) @
     (if str_contains ''--target='' txt then []
      else [''missing `--target=<triple>` (D7: the triple must be pinned)'']) @
     (if str_contains NOSTD_INCLUDE_FLAG txt then [] else [''missing `'' @ NOSTD_INCLUDE_FLAG @ ''`'']) @
     (if str_contains ''-nostdinc'' txt then
        [''contains `-nostdinc`; use `-nostdlibinc` instead (D7: `-nostdinc` also deletes              clang'' @
         [CHR 0x27] @ ''s own freestanding stddef.h/stdint.h/stdarg.h)'']
      else []) @
     map (\<lambda>flag. ''missing GCC-only flag removal `'' @ flag @ ''` (D7)'')
       (filter (\<lambda>flag. \<not> str_contains flag txt) GCC_ONLY_FLAG_BLACKLIST) @
     map (\<lambda>v. ''wildcard entry `'' @ v @ ''` in .clangd: a flag-name glob (e.g. `-W*`) would also                  '' @
         ''delete -Wall/-Wextra and hide every warning (D7)'')
       (filter is_wildcard (List.map_filter entry_value (str_lines txt)))"

definition load_and_validate :: "(string \<Rightarrow> string + string) \<Rightarrow> string \<Rightarrow> princess_error + string list" where
  "load_and_validate read path =
     (case read path of
        Inl err \<Rightarrow> Inl (new_error NotFound (''cannot read '' @ path @ '': '' @ err))
      | Inr txt \<Rightarrow> Inr (validate_dot_clangd txt))"

subsection \<open>The command of the language service\<close>

definition lang_service_command :: "string list" where
  "lang_service_command = [LANG_SERVICE_TOOL, ''--background-index'', ''--clang-tidy=false'']"

definition lang_service_command_from_manifest :: "language_error + language_manifest \<Rightarrow> string list" where
  "lang_service_command_from_manifest loaded =
     (case loaded of
        Inr m \<Rightarrow> lp_command (lm_lsp m) # lp_args (lm_lsp m)
      | Inl _ \<Rightarrow> lang_service_command)"

definition lang_service_command_with_fallback ::
  "environment \<Rightarrow> (string \<Rightarrow> language_error + language_manifest) \<Rightarrow> string option \<Rightarrow> string list" where
  "lang_service_command_with_fallback env read_manifest manifest_path =
     (case env ''PRINCESSIDE_LANG_SERVICE_CLANGD'' of
        Some (c # cmd) \<Rightarrow> [c # cmd, ''--background-index'', ''--clang-tidy=false'']
      | _ \<Rightarrow>
          (case manifest_path of
             Some path \<Rightarrow> lang_service_command_from_manifest (read_manifest path)
           | None \<Rightarrow> lang_service_command))"

definition should_generate_compile_commands :: "language_error + language_manifest \<Rightarrow> bool" where
  "should_generate_compile_commands loaded = (case loaded of Inr m \<Rightarrow> lb_cdb_generation (lm_build m) | Inl _ \<Rightarrow> True)"

definition should_generate_dot_clangd :: "language_error + language_manifest \<Rightarrow> bool" where
  "should_generate_dot_clangd loaded = (case loaded of Inr m \<Rightarrow> lb_dot_clangd_generation (lm_build m) | Inl _ \<Rightarrow> True)"

definition should_clean_before_cdb :: "language_error + language_manifest \<Rightarrow> bool" where
  "should_clean_before_cdb loaded = (case loaded of Inr m \<Rightarrow> lb_clean_before_cdb (lm_build m) | Inl _ \<Rightarrow> True)"

subsection \<open>The compile database\<close>

record compile_command =
  co_directory :: string
  co_arguments :: "string list"
  co_file :: string
  co_output :: "string option"

text \<open>
  The JSON library on a database: parsing an array of values, and printing entries; the result or the
  text of the failure.
\<close>

record 'v cdb_json =
  cj_value :: "'v json"
  cj_parse :: "string \<Rightarrow> string + 'v list"
  cj_print :: "compile_command list \<Rightarrow> string + string"

definition cdb_to_json :: "'v cdb_json \<Rightarrow> compile_command list \<Rightarrow> princess_error + string" where
  "cdb_to_json j entries =
     map_err (\<lambda>err. internal_error (''cannot serialize compile_commands.json: '' @ err)) (cj_print j entries)"

definition cdb_entries :: "'v cdb_json \<Rightarrow> string \<Rightarrow> princess_error + 'v list" where
  "cdb_entries j txt =
     map_err (\<lambda>err. new_error InvalidConfig (''compile_commands.json is not valid JSON: '' @ err)) (cj_parse j txt)"

definition string_items :: "'v json \<Rightarrow> 'v \<Rightarrow> string list" where
  "string_items j v =
     (case Option.bind (js_get j v ''arguments'') (js_array j) of
        None \<Rightarrow> [] | Some argv \<Rightarrow> List.map_filter (js_str j) argv)"

definition entry_of :: "'v json \<Rightarrow> 'v \<Rightarrow> compile_command" where
  "entry_of j v =
     \<lparr>co_directory = unwrap_or [] (get_str j v ''directory''), co_arguments = string_items j v,
      co_file = unwrap_or [] (get_str j v ''file''), co_output = get_str j v ''output''\<rparr>"

definition cdb_from_json :: "'v cdb_json \<Rightarrow> string \<Rightarrow> princess_error + compile_command list" where
  "cdb_from_json j txt = and_then (cdb_entries j txt) (\<lambda>raw. Inr (map (entry_of (cj_value j)) raw))"

definition cdb_write :: "'v cdb_json \<Rightarrow> disk \<Rightarrow> string \<Rightarrow> compile_command list \<Rightarrow> unit disk_op" where
  "cdb_write j dk path entries files =
     (case (case path_parent path of
              None \<Rightarrow> Inr ()
            | Some parent \<Rightarrow>
                map_err (\<lambda>err. internal_error (''cannot create '' @ parent @ '' for compile_commands.json: '' @ err))
                  (dk_create_dir dk parent)) of
        Inl e \<Rightarrow> (files, Inl e)
      | Inr _ \<Rightarrow>
          (case cdb_to_json j entries of
             Inl e \<Rightarrow> (files, Inl e)
           | Inr json \<Rightarrow>
               (case dk_write dk path of
                  Inl err \<Rightarrow> (files, Inl (internal_error (''cannot write '' @ path @ '': '' @ err)))
                | Inr _ \<Rightarrow> (files @ [FileWritten path json], Inr ()))))"

definition nth_entry :: "nat \<Rightarrow> string" where
  "nth_entry i = ''entry['' @ show_nat i @ '']''"

definition entry_problems :: "'v json \<Rightarrow> (string \<Rightarrow> bool) \<Rightarrow> nat \<Rightarrow> 'v \<Rightarrow> string list" where
  "entry_problems j is_dir i v =
     (if js_get j v ''command'' \<noteq> None
      then [nth_entry i @ '' uses `command` (a shell string); D8 requires `arguments`''] else []) @
     (case Option.bind (js_get j v ''arguments'') (js_array j) of
        Some (a # argv) \<Rightarrow>
          (if list_ex (\<lambda>x. js_str j x = None) (a # argv)
           then [nth_entry i @ '' has non-string items in `arguments`''] else [])
      | _ \<Rightarrow> [nth_entry i @ '' has no non-empty `arguments` array (D8)'']) @
     (case get_str j v ''directory'' of
        Some (c # dir) \<Rightarrow>
          if \<not> is_absolute (c # dir) then
            [nth_entry i @ '' `directory` is relative (`'' @ (c # dir) @ ''`); D8 requires an absolute path'']
          else if \<not> is_dir (c # dir) then
            [nth_entry i @ '' `directory` does not exist: '' @ (c # dir) @ '' (clangd would drop the entry)'']
          else []
      | _ \<Rightarrow> [nth_entry i @ '' has no `directory` (D8)'']) @
     (case get_str j v ''file'' of
        Some (c # file) \<Rightarrow>
          if \<not> is_absolute (c # file) then [nth_entry i @ '' `file` is relative (`'' @ (c # file) @ ''`)''] else []
      | _ \<Rightarrow> [nth_entry i @ '' has no `file`''])"

definition validate_compile_commands :: "'v cdb_json \<Rightarrow> (string \<Rightarrow> bool) \<Rightarrow> string \<Rightarrow> princess_error + string list" where
  "validate_compile_commands j is_dir txt =
     and_then (cdb_entries j txt) (\<lambda>raw. Inr (
       (if raw = [] then
          [''compile_commands.json is an empty array: clangd would have no TU to index '' @
           ''(D18: run `make clean` before bear, otherwise bear overwrites existing entries with `[]`)'']
        else []) @
       concat (map (\<lambda>(i, v). entry_problems (cj_value j) is_dir i v) (enumerate 0 raw))))"

definition compile_commands_usable :: "'v cdb_json \<Rightarrow> (string \<Rightarrow> bool) \<Rightarrow> string + string \<Rightarrow> bool" where
  "compile_commands_usable j is_dir txt =
     (case txt of
        Inl _ \<Rightarrow> False
      | Inr s \<Rightarrow> (case validate_compile_commands j is_dir s of Inr problems \<Rightarrow> problems = [] | Inl _ \<Rightarrow> False))"

definition looks_like_c_compilation :: "compile_command \<Rightarrow> bool" where
  "looks_like_c_compilation e \<longleftrightarrow>
     co_arguments e \<noteq> [] \<and>
     list_ex (\<lambda>a. a = ''-c'' \<or> a = ''-S'' \<or> starts_with ''-o'' a) (co_arguments e) \<and>
     list_ex (\<lambda>suffix. ends_with suffix (co_file e)) [''.c'', ''.cc'', ''.cpp'', ''.cxx'', ''.h'']"

definition absolutise :: "string \<Rightarrow> string \<Rightarrow> string" where
  "absolutise path base = normalize (if is_absolute path then path else path_join base path)"

definition normalised_entry :: "string \<Rightarrow> compile_command \<Rightarrow> compile_command" where
  "normalised_entry build_cwd e =
     (let directory = absolutise (co_directory e) build_cwd
      in e\<lparr>co_directory := directory, co_file := absolutise (co_file e) directory\<rparr>)"

fun add_new :: "'a list \<Rightarrow> 'a list \<Rightarrow> 'a list" where
  "add_new out [] = out"
| "add_new out (x # xs) = add_new (if x \<in> set out then out else out @ [x]) xs"

definition normalise_bear_output :: "'v cdb_json \<Rightarrow> string \<Rightarrow> string \<Rightarrow> princess_error + compile_command list" where
  "normalise_bear_output j raw build_cwd =
     and_then (cdb_from_json j raw) (\<lambda>es.
       Inr (add_new [] (map (normalised_entry build_cwd) (filter looks_like_c_compilation es))))"

definition VALUE_TAKING_FLAGS :: "string list" where
  "VALUE_TAKING_FLAGS = [''-o'', ''-MF'', ''-MT'', ''-MQ'', ''-I'', ''-isystem'', ''-include'', ''-x'']"

fun unit_after :: "(string \<Rightarrow> bool) \<Rightarrow> string \<Rightarrow> string list \<Rightarrow> string" where
  "unit_after is_file cwd [] = []"
| "unit_after is_file cwd (a # rest) =
     (if starts_with ''-'' a then
        unit_after is_file cwd (if a \<in> set VALUE_TAKING_FLAGS then drop 1 rest else rest)
      else
        let path = (if is_absolute a then a else path_join cwd a)
        in if is_file path then path else unit_after is_file cwd rest)"

definition translation_unit :: "(string \<Rightarrow> bool) \<Rightarrow> string list \<Rightarrow> string \<Rightarrow> string" where
  "translation_unit is_file arguments cwd = unit_after is_file cwd (drop 1 arguments)"

subsection \<open>The compiler wrapper\<close>

record wrapper_shim =
  ws_script :: string
  ws_ndjson :: string

definition shim_new :: "string \<Rightarrow> wrapper_shim" where
  "shim_new build_dir =
     \<lparr>ws_script = path_join build_dir ''.princesside-cc-shim'',
      ws_ndjson = path_join build_dir ''.princesside-compile-commands.ndjson''\<rparr>"

definition shim_script :: "string \<Rightarrow> string \<Rightarrow> string" where
  "shim_script real_cc ndjson = unlines [
     ''#!/bin/sh'',
     ''# Generated by princess-build (D8 wrapper-shim fallback for `bear`).'',
     ''# Records one NDJSON line per compile invocation, then delegates to the real'',
     ''# compiler.  Never edit by hand.'',
     ''#'',
     ''# The arguments are embedded as real JSON strings: a naive'',
     (''# `'' @ [CHR 0x27, CHR 0x22] @ ''%s'' @ [CHR 0x22] @ '','' @ [CHR 0x27] @ ''` loop emits shell-quoted text such as '' @ [CHR 0x27] @ ''-m64'' @ [CHR 0x27] @ '', which is *not* valid''),
     ''# JSON and would make every line silently unparseable downstream.'',
     (''real_cc='' @ [CHR 0x22] @ ''${PRINCESSIDE_REAL_CC:-'' @ real_cc @ ''}'' @ [CHR 0x22]),
     (''out='' @ [CHR 0x22] @ ''${PRINCESSIDE_CDB_NDJSON:-'' @ ndjson @ ''}'' @ [CHR 0x22]),
     (''cwd='' @ [CHR 0x22] @ ''$(pwd)'' @ [CHR 0x22]),
     '''',
     ''json_escape() {'',
     ''  # Escape backslash and double quote, then drop control characters: enough for'',
     ''  # the paths and flags a compiler is invoked with.'',
     (''  printf '' @ [CHR 0x27] @ ''%s'' @ [CHR 0x27] @ '' '' @ [CHR 0x22] @ ''$1'' @ [CHR 0x22] @ '' | sed -e '' @ [CHR 0x27] @ ''s/'' @ [CHR 0x5C, CHR 0x5C] @ ''/'' @ [CHR 0x5C, CHR 0x5C, CHR 0x5C, CHR 0x5C] @ ''/g'' @ [CHR 0x27] @ '' -e '' @ [CHR 0x27] @ ''s/'' @ [CHR 0x22] @ ''/'' @ [CHR 0x5C, CHR 0x5C, CHR 0x22] @ ''/g'' @ [CHR 0x27] @ '' | tr -d '' @ [CHR 0x27, CHR 0x5C] @ ''000-'' @ [CHR 0x5C] @ ''037'' @ [CHR 0x27]),
     ''}'',
     '''',
     ''# `args` holds the JSON array body *after* the driver, so it starts with the'',
     ''# comma that separates them; empty when there are no extra arguments.'',
     (''args='' @ [CHR 0x27, CHR 0x27]),
     (''for a in '' @ [CHR 0x22] @ ''$@'' @ [CHR 0x22] @ ''; do''),
     (''  esc='' @ [CHR 0x22] @ ''$(json_escape '' @ [CHR 0x22] @ ''$a'' @ [CHR 0x22] @ '')'' @ [CHR 0x22]),
     (''  args='' @ [CHR 0x22] @ ''$args,'' @ [CHR 0x5C, CHR 0x22] @ ''$esc'' @ [CHR 0x5C, CHR 0x22, CHR 0x22]),
     ''done'',
     (''printf '' @ [CHR 0x27] @ ''{'' @ [CHR 0x22] @ ''directory'' @ [CHR 0x22] @ '':'' @ [CHR 0x22] @ ''%s'' @ [CHR 0x22] @ '','' @ [CHR 0x22] @ ''arguments'' @ [CHR 0x22] @ '':['' @ [CHR 0x22] @ ''%s'' @ [CHR 0x22] @ ''%s],'' @ [CHR 0x22] @ ''file'' @ [CHR 0x22] @ '':'' @ [CHR 0x22, CHR 0x22] @ ''}'' @ [CHR 0x5C] @ ''n'' @ [CHR 0x27] @ '' '' @ [CHR 0x5C]),
     (''  '' @ [CHR 0x22] @ ''$(json_escape '' @ [CHR 0x22] @ ''$cwd'' @ [CHR 0x22] @ '')'' @ [CHR 0x22] @ '' '' @ [CHR 0x22] @ ''$(json_escape '' @ [CHR 0x22] @ ''$real_cc'' @ [CHR 0x22] @ '')'' @ [CHR 0x22] @ '' '' @ [CHR 0x22] @ ''$args'' @ [CHR 0x22] @ '' >> '' @ [CHR 0x22] @ ''$out'' @ [CHR 0x22]),
     (''exec '' @ [CHR 0x22] @ ''$real_cc'' @ [CHR 0x22] @ '' '' @ [CHR 0x22] @ ''$@'' @ [CHR 0x22])]"

definition shim_install ::
  "disk \<Rightarrow> string + unit \<Rightarrow> wrapper_shim \<Rightarrow> string \<Rightarrow> string \<Rightarrow> (string \<times> string) list disk_op" where
  "shim_install dk chmod ws real_cc build_cwd files =
     (case (case path_parent (ws_script ws) of
              None \<Rightarrow> Inr ()
            | Some parent \<Rightarrow> map_err (\<lambda>err. internal_error (''cannot create '' @ parent @ '': '' @ err)) (dk_create_dir dk parent)) of
        Inl e \<Rightarrow> (files, Inl e)
      | Inr _ \<Rightarrow>
          (case dk_write dk (ws_script ws) of
             Inl err \<Rightarrow> (files @ [FileRemoved (ws_ndjson ws)], Inl (internal_error (''cannot write '' @ ws_script ws @ '': '' @ err)))
           | Inr _ \<Rightarrow>
               (files @ [FileRemoved (ws_ndjson ws), FileWritten (ws_script ws) (shim_script real_cc (ws_ndjson ws))],
                and_then (map_err (\<lambda>err. internal_error (''cannot chmod '' @ ws_script ws @ '': '' @ err)) chmod) (\<lambda>_.
                  Inr [(''CC'', ws_script ws), (''PRINCESSIDE_REAL_CC'', real_cc),
                       (''PRINCESSIDE_CDB_NDJSON'', ws_ndjson ws), (''PRINCESSIDE_SHIM_CWD'', build_cwd)]))))"

definition shim_entry :: "'v json \<Rightarrow> (string \<Rightarrow> bool) \<Rightarrow> string \<Rightarrow> compile_command option" where
  "shim_entry j is_file line =
     (if str_trim line = [] then None
      else case js_parse j (str_trim line) of
        Inl _ \<Rightarrow> None
      | Inr v \<Rightarrow>
          let directory = unwrap_or [] (get_str j v ''directory''); arguments = string_items j v;
              file = translation_unit is_file arguments directory;
              e = \<lparr>co_directory = directory, co_arguments = arguments, co_file = file, co_output = None\<rparr>
          in if file = [] \<or> \<not> is_file file \<or> \<not> looks_like_c_compilation e then None else Some e)"

definition shim_collect :: "'v json \<Rightarrow> (string \<Rightarrow> bool) \<Rightarrow> string \<Rightarrow> string \<Rightarrow> compile_command list" where
  "shim_collect j is_file txt build_cwd =
     map (\<lambda>e. e\<lparr>co_directory := absolutise (co_directory e) build_cwd\<rparr>)
       (add_new [] (List.map_filter (shim_entry j is_file) (str_lines txt)))"

definition shim_env :: "wrapper_shim \<Rightarrow> (string \<times> string) list" where
  "shim_env ws = [(''CC'', ws_script ws), (''HOSTCC'', ws_script ws)]"

end
