(* ===== verification/Build_Backend.thy ===== *)
theory Build_Backend
  imports Build_Process Build_Artifacts Build_Diagnostics Compile_Database Event_Sink
begin

section \<open>The build backends\<close>

text \<open>
  Models \<^verbatim>\<open>crates/princess-build/src/backend.rs\<close> and \<^verbatim>\<open>javac.rs\<close>: how a resolved project becomes a
  command line, and a whole build with its events, its compile database and its artifacts. The state is
  the event sink, the world that running a command changes, and the files written; the runner, the
  JSON library, the hash function and the clock are parameters.
\<close>

definition DEFAULT_BUILD_TIMEOUT_MS :: u64 where "DEFAULT_BUILD_TIMEOUT_MS = 10 * 60 * 1000"

subsection \<open>Outcomes\<close>

datatype build_outcome_error = ToolsMissing "string list" "string list" | OtherError princess_error

fun outcome_to_error :: "build_outcome_error \<Rightarrow> princess_error" where
  "outcome_to_error (ToolsMissing missing suggestions) =
     with_detail (new_error ToolchainMissing (''required toolchain tool(s) missing: '' @ join '', '' missing))
       (join [CHR 0x0A] suggestions)"
| "outcome_to_error (OtherError e) = e"

definition show_outcome_error :: "build_outcome_error \<Rightarrow> string" where
  "show_outcome_error e = pe_message (outcome_to_error e)"

record make_backend =
  mk_toolchain :: toolchain
  mk_generate_cdb :: bool
  mk_artifact_root :: string
  mk_timeout_ms :: u64
  mk_last_cdb :: "string option"
  mk_jobs :: "u32 option"

definition make_backend_new :: "toolchain \<Rightarrow> make_backend" where
  "make_backend_new tc =
     \<lparr>mk_toolchain = tc, mk_generate_cdb = True, mk_artifact_root = ''.'', mk_timeout_ms = DEFAULT_BUILD_TIMEOUT_MS,
      mk_last_cdb = None, mk_jobs = None\<rparr>"

definition with_jobs :: "u32 option \<Rightarrow> make_backend \<Rightarrow> make_backend" where
  "with_jobs jobs k = k\<lparr>mk_jobs := jobs\<rparr>"

subsection \<open>Paths and words\<close>

text \<open>
  The environment of the engine: variables, the working directory, and which paths are directories.
\<close>

record engine_env =
  ge_var :: environment
  ge_cwd :: "string option"
  ge_is_dir :: "string \<Rightarrow> bool"

definition launcher_dir :: "engine_env \<Rightarrow> string option" where
  "launcher_dir g =
     (case (case ge_var g ''PRINCESSIDE_BIN'' of
              Some dir \<Rightarrow> if ge_is_dir g dir then Some dir else None
            | None \<Rightarrow> None) of
        Some dir \<Rightarrow> Some dir
      | None \<Rightarrow>
          (case ge_cwd g of
             None \<Rightarrow> None
           | Some cwd \<Rightarrow>
               find (ge_is_dir g) (map (\<lambda>dir. path_join dir ''.toolchain/bin'') (parents cwd))))"

text \<open>
  \<open>shell_split\<close>: the open quote, the current word, what is left. A byte of a longer character is neither
  a quote, nor a backslash, nor the start of a blank.
\<close>

function shell_loop :: "char option \<Rightarrow> string \<Rightarrow> string \<Rightarrow> string list" where
  "shell_loop q cur [] = (if cur = [] then [] else [cur])"
| "shell_loop (Some q) cur (c # s) =
     (if c = CHR 0x5C then (case s of [] \<Rightarrow> shell_loop (Some q) cur [] | d # s' \<Rightarrow> shell_loop (Some q) (cur @ [d]) s')
      else if c = q then shell_loop None cur s
      else shell_loop (Some q) (cur @ [c]) s)"
| "shell_loop None cur (c # s) =
     (if c = CHR 0x27 \<or> c = CHR 0x22 then shell_loop (Some c) cur s
      else if c = CHR 0x5C then (case s of [] \<Rightarrow> shell_loop None cur [] | d # s' \<Rightarrow> shell_loop None (cur @ [d]) s')
      else if 0 < space_width (c # s) then
        (if cur = [] then [] else [cur]) @ shell_loop None [] (drop (space_width (c # s) - 1) s)
      else shell_loop None (cur @ [c]) s)"
  by pat_completeness auto
termination
  by (relation "measure (\<lambda>(q, cur, s). length s)") auto

definition shell_split :: "string \<Rightarrow> string list" where
  "shell_split command = shell_loop None [] command"

subsection \<open>Planning\<close>

definition walk_skip :: "string list" where "walk_skip = [''build'', ''out'', ''dist'', ''target'']"

fun walk_files :: "(string \<Rightarrow> dir_entry list option) \<Rightarrow> nat \<Rightarrow> string \<Rightarrow> string list" where
  "walk_files read_dir 0 root = []"
| "walk_files read_dir (Suc depth) root =
     (case read_dir root of
        None \<Rightarrow> []
      | Some entries \<Rightarrow>
          concat (map (\<lambda>e.
            case en_meta e of
              None \<Rightarrow> []
            | Some (True, _) \<Rightarrow>
                let name = unwrap_or [] (path_file_name (en_path e))
                in if name \<in> set walk_skip \<or> starts_with ''.'' name then []
                   else walk_files read_dir depth (en_path e)
            | Some (False, _) \<Rightarrow> [en_path e]) entries))"

definition project_needs_nasm :: "(string \<Rightarrow> dir_entry list option) \<Rightarrow> resolved_project \<Rightarrow> bool" where
  "project_needs_nasm read_dir p \<longleftrightarrow>
     (case Option.bind (tc_assembler (cf_toolchain (rp_config p))) path_file_name of
        Some name \<Rightarrow> str_contains ''nasm'' (map ascii_lower name)
      | None \<Rightarrow> False) \<or>
     list_ex (\<lambda>path. case path_extension path of
         Some e \<Rightarrow> map ascii_lower e = ''asm'' \<or> map ascii_lower e = ''nasm'' | None \<Rightarrow> False)
       (walk_files read_dir 4 (rp_root p))"

definition require_tools :: "make_backend \<Rightarrow> build_outcome_error + unit" where
  "require_tools k =
     (let missing = missing_tools (mk_toolchain k)
      in if missing = [] then Inr () else Inl (ToolsMissing (map tu_name missing) (repair_suggestions missing)))"

definition require_tools_for :: "(string \<Rightarrow> dir_entry list option) \<Rightarrow> make_backend \<Rightarrow> resolved_project \<Rightarrow> build_outcome_error + unit" where
  "require_tools_for read_dir k p =
     (let required = missing_tools (mk_toolchain k);
          missing = required @
            (if project_needs_nasm read_dir p then
               (case toolchain_find (mk_toolchain k) ''nasm'' of
                  Some nasm \<Rightarrow> if \<not> tu_available nasm \<and> \<not> list_ex (\<lambda>t. tu_name t = ''nasm'') required then [nasm] else []
                | None \<Rightarrow> [])
             else [])
      in if missing = [] then Inr () else Inl (ToolsMissing (map tu_name missing) (repair_suggestions missing)))"

definition env_if :: "string \<Rightarrow> string option \<Rightarrow> environment \<Rightarrow> environment" where
  "env_if key v m = (case v of None \<Rightarrow> m | Some x \<Rightarrow> m(key \<mapsto> x))"

definition build_env :: "engine_env \<Rightarrow> make_backend \<Rightarrow> resolved_project \<Rightarrow> environment" where
  "build_env g k p =
     env_if ''LD'' (tc_ld (cf_toolchain (rp_config p)))
       (env_if ''CC'' (tc_cc (cf_toolchain (rp_config p)))
         (env_if ''CARGO_BUILD_JOBS'' (map_option (\<lambda>n. show_nat (unat n)) (mk_jobs k))
           (env_if ''MAKEFLAGS'' (map_option (\<lambda>n. ''-j'' @ show_nat (unat n)) (mk_jobs k))
             (env_if ''PATH'' (map_option (\<lambda>bin. bin @ '':'' @ unwrap_or [] (ge_var g ''PATH'')) (launcher_dir g))
               Map.empty))))"

definition make_argv :: "make_backend \<Rightarrow> resolved_project \<Rightarrow> string list" where
  "make_argv k p = unwrap_or ''make'' (path_of (mk_toolchain k) ''make'') # rp_targets p"

definition plan_argv_of :: "make_backend \<Rightarrow> resolved_project \<Rightarrow> princess_error + string list" where
  "plan_argv_of k p =
     (case rp_build_command p of
        None \<Rightarrow> Inr (make_argv k p)
      | Some command \<Rightarrow>
          if str_trim command = [] then Inr (make_argv k p)
          else (case shell_split command of
              [] \<Rightarrow> Inl (new_error InvalidConfig ''[build] command is empty'')
            | driver # args \<Rightarrow>
                Inr ((if driver = ''make'' then unwrap_or driver (path_of (mk_toolchain k) ''make'') else driver) #
                  args @ rp_targets p)))"

definition make_plan ::
  "engine_env \<Rightarrow> (string \<Rightarrow> dir_entry list option) \<Rightarrow> make_backend \<Rightarrow> resolved_project \<Rightarrow> princess_error + build_plan" where
  "make_plan g read_dir k p =
     and_then (map_err outcome_to_error (require_tools_for read_dir k p)) (\<lambda>_.
     and_then (plan_argv_of k p) (\<lambda>argv.
       Inr \<lparr>bl_backend = BackMake, bl_toolchain_id = toolchain_id (mk_toolchain k), bl_argv = argv,
            bl_cwd = rp_build_cwd p, bl_env = build_env g k p, bl_declared_artifacts = rp_declared_artifacts p,
            bl_timeout_ms = Some (mk_timeout_ms k)\<rparr>))"

definition cdb_target :: "resolved_project \<Rightarrow> string" where
  "cdb_target p = unwrap_or (path_join (rp_build_cwd p) ''compile_commands.json'') (rp_compile_commands p)"

definition bear_plan :: "engine_env \<Rightarrow> make_backend \<Rightarrow> resolved_project \<Rightarrow> string \<Rightarrow> build_plan" where
  "bear_plan g k p bear =
     \<lparr>bl_backend = BackMake, bl_toolchain_id = toolchain_id (mk_toolchain k),
      bl_argv = [bear, ''--output'', cdb_target p, ''--''] @ make_argv k p, bl_cwd = rp_build_cwd p,
      bl_env = build_env g k p, bl_declared_artifacts = [], bl_timeout_ms = Some (mk_timeout_ms k)\<rparr>"

text \<open>The project that \<open>execute\<close> makes up from a plan.\<close>

definition project_from :: "engine_env \<Rightarrow> build_plan \<Rightarrow> string \<Rightarrow> resolved_project" where
  "project_from g plan root =
     (resolve_project (ge_var g) (ge_cwd g) project_config_default root)
       \<lparr>rp_build_cwd := bl_cwd plan, rp_declared_artifacts := bl_declared_artifacts plan\<rparr>"

subsection \<open>The state of a build\<close>

record ('s, 'w) build_state =
  bk_sink :: 's
  bk_world :: 'w
  bk_files :: "file_action list"

type_synonym ('s, 'w, 'a) build_op = "(('s, 'w) build_state, princess_error, 'a) op"

text \<open>The world: running a plan changes it; the files are what it gives at the moment.\<close>

record 'w build_world =
  wd_run :: "build_plan \<Rightarrow> cancel_token \<Rightarrow> 'w \<Rightarrow> 'w \<times> stdio_chunk list \<times> (princess_error + command_output)"
  wd_disk :: "'w \<Rightarrow> disk"
  wd_chmod :: "'w \<Rightarrow> string + unit"
  wd_read :: "'w \<Rightarrow> string \<Rightarrow> string + string"
  wd_fs :: "'w \<Rightarrow> artifact_fs"

definition at_sink :: "('s, princess_error, 'a) op \<Rightarrow> ('s, 'w, 'a) build_op" where
  "at_sink m b = (case m (bk_sink b) of (s, r) \<Rightarrow> (b\<lparr>bk_sink := s\<rparr>, r))"

definition at_disk :: "('w \<Rightarrow> 'a disk_op) \<Rightarrow> ('s, 'w, 'a) build_op" where
  "at_disk m b = (case m (bk_world b) (bk_files b) of (fs, r) \<Rightarrow> (b\<lparr>bk_files := fs\<rparr>, r))"

definition of_result :: "princess_error + 'a \<Rightarrow> ('s, 'w, 'a) build_op" where
  "of_result r b = (b, r)"

definition collect_run :: "'w build_world \<Rightarrow> build_plan \<Rightarrow> ('s, 'w, command_output \<times> stdio_chunk list) build_op" where
  "collect_run W plan b =
     (case wd_run W plan (CancelToken False) (bk_world b) of
        (w, chunks, r) \<Rightarrow> (b\<lparr>bk_world := w\<rparr>, and_then r (\<lambda>out. Inr (out, chunks))))"

definition stream_chunks :: "'s emitter \<Rightarrow> stdio_chunk list \<Rightarrow> ('s, 'w, unit) build_op" where
  "stream_chunks emit chunks =
     at_sink (each_do (\<lambda>c. sink_log emit (stdio_log_stream (so_stream c)) (so_text c)) chunks)"

subsection \<open>The compile database of a build\<close>

definition run_clean_step ::
  "'w build_world \<Rightarrow> engine_env \<Rightarrow> 's emitter \<Rightarrow> make_backend \<Rightarrow> resolved_project \<Rightarrow> ('s, 'w, unit) build_op" where
  "run_clean_step W g emit k p =
     then_do (\<lambda>b. of_result (make_plan g (fs_read_dir (wd_fs W (bk_world b))) k p) b) (\<lambda>plan.
     then_do (collect_run W (plan\<lparr>bl_argv := bl_argv plan @ [''clean''], bl_timeout_ms := Some 60000,
                                 bl_declared_artifacts := []\<rparr>)) (\<lambda>(out, chunks).
     then_do (at_sink (sink_note emit
         (if command_success out then ''princess: make clean before the compile-db run (D18)'' @ [CHR 0x0A]
          else ''princess: `make clean` did not succeed (no clean goal?); continuing '' @
            [CHR 0xE2, CHR 0x80, CHR 0x94] @ '' the web of D18 corruption is handled by overwriting the database'' @ [CHR 0x0A])))
       (\<lambda>_. stream_chunks emit chunks)))"

definition debug_int_option :: "int option \<Rightarrow> string" where
  "debug_int_option x = (case x of None \<Rightarrow> ''None'' | Some i \<Rightarrow> ''Some('' @ show_int i @ '')'')"

definition generate_with_shim ::
  "'w build_world \<Rightarrow> 'v cdb_json \<Rightarrow> engine_env \<Rightarrow> 's emitter \<Rightarrow> make_backend \<Rightarrow> resolved_project \<Rightarrow>
   ('s, 'w, string option) build_op" where
  "generate_with_shim W j g emit k p =
     (let shim = shim_new (rp_build_cwd p); real_cc = unwrap_or ''gcc'' (path_of (mk_toolchain k) ''gcc'')
      in then_do (at_disk (\<lambda>w. shim_install (wd_disk W w) (wd_chmod W w) shim real_cc (rp_build_cwd p))) (\<lambda>_.
         then_do (run_clean_step W g emit k p) (\<lambda>_.
         then_do (\<lambda>b. of_result (make_plan g (fs_read_dir (wd_fs W (bk_world b))) k p) b) (\<lambda>plan.
         then_do (collect_run W (plan\<lparr>bl_env := bl_env plan ++ map_of (shim_env shim)\<rparr>)) (\<lambda>(out, chunks).
         then_do (stream_chunks emit chunks) (\<lambda>_.
         then_do (\<lambda>b. (b, Inr (shim_collect (cj_value j) (fs_is_file (wd_fs W (bk_world b)))
             (case wd_read W (bk_world b) (ws_ndjson shim) of Inl _ \<Rightarrow> [] | Inr txt \<Rightarrow> txt) (rp_build_cwd p)))) (\<lambda>db.
           if db = [] then
             then_do (at_sink (sink_note emit
                 (''princess: the wrapper shim recorded no compiles; compile_commands.json left untouched'' @ [CHR 0x0A])))
               (\<lambda>_. give None)
           else
             then_do (at_disk (\<lambda>w. cdb_write j (wd_disk W w) (cdb_target p) db)) (\<lambda>_.
             then_do (at_sink (sink_note emit (''princess: wrote '' @ cdb_target p @ '' from the wrapper shim ('' @
                 show_nat (length db) @ '' entries, exit='' @ debug_int_option (cd_exit_code out) @ '')'' @ [CHR 0x0A])))
               (\<lambda>_. give (Some (cdb_target p)))))))))))"

definition generate_compile_commands ::
  "'w build_world \<Rightarrow> 'v cdb_json \<Rightarrow> engine_env \<Rightarrow> 's emitter \<Rightarrow> make_backend \<Rightarrow> resolved_project \<Rightarrow>
   ('s, 'w, string option) build_op" where
  "generate_compile_commands W j g emit k p =
     (case path_of (mk_toolchain k) ''bear'' of
        None \<Rightarrow>
          then_do (at_sink (sink_note emit
              (''princess: bear is unavailable; using the D8 wrapper shim for compile_commands.json'' @ [CHR 0x0A])))
            (\<lambda>_. generate_with_shim W j g emit k p)
      | Some bear \<Rightarrow>
          then_do (at_sink (sink_note emit (''princess: generating compile_commands.json with '' @ bear @ '' (D8)'' @ [CHR 0x0A]))) (\<lambda>_.
          then_do (run_clean_step W g emit k p) (\<lambda>_.
          then_do (collect_run W (bear_plan g k p bear)) (\<lambda>(out, chunks).
          then_do (stream_chunks emit chunks) (\<lambda>_.
            if \<not> command_success out then
              then_do (at_sink (sink_note emit (''princess: bear failed; falling back to the D8 wrapper shim'' @ [CHR 0x0A])))
                (\<lambda>_. generate_with_shim W j g emit k p)
            else
              then_do (\<lambda>b. of_result (normalise_bear_output j
                  (case wd_read W (bk_world b) (cdb_target p) of Inl _ \<Rightarrow> [] | Inr txt \<Rightarrow> txt) (rp_build_cwd p)) b) (\<lambda>db.
                if db = [] then
                  then_do (at_sink (sink_note emit
                      (''princess: compile database is empty after a successful producer run; '' @
                       ''not overwriting the previous file (D18)'' @ [CHR 0x0A])))
                    (\<lambda>_. give None)
                else
                  then_do (at_disk (\<lambda>w. cdb_write j (wd_disk W w) (cdb_target p) db)) (\<lambda>_.
                  then_do (at_sink (sink_note emit (''princess: wrote '' @ cdb_target p @ '' ('' @ show_nat (length db) @
                      '' entries)'' @ [CHR 0x0A])))
                    (\<lambda>_. give (Some (cdb_target p))))))))))"

definition sync_dot_clangd :: "'w build_world \<Rightarrow> resolved_project \<Rightarrow> ('s, 'w, string) build_op" where
  "sync_dot_clangd W p =
     (let dot = for_kernel (rp_root p) DEFAULT_TRIPLE
      in then_do (at_disk (\<lambda>w. dot_clangd_write (wd_disk W w) dot)) (\<lambda>_. give (dc_path dot)))"

subsection \<open>A build\<close>

definition family_for :: "build_plan \<Rightarrow> tool_family" where
  "family_for plan = (case bl_argv plan of [] \<Rightarrow> FamUnknown | program # _ \<Rightarrow> for_program program)"

text \<open>
  The callback of the runner cannot fail: the first refusal of the sink is kept and the rest of the
  chunk is skipped, but the chunks after it are still handed on.
\<close>

record 's chunk_state =
  ch_sink :: 's
  ch_parser :: diagnostic_parser
  ch_found :: "diagnostic list"
  ch_error :: "princess_error option"

definition keep_error :: "princess_error \<Rightarrow> 's chunk_state \<Rightarrow> 's chunk_state" where
  "keep_error e x = (if ch_error x = None then x\<lparr>ch_error := Some e\<rparr> else x)"

fun publish :: "'s emitter \<Rightarrow> diagnostic list \<Rightarrow> 's chunk_state \<Rightarrow> 's chunk_state" where
  "publish emit [] x = x"
| "publish emit (d # ds) x =
     (case emit (BuildDiagnostic (to_payload d)) (ch_sink x) of
        (s, Inl e) \<Rightarrow> keep_error e (x\<lparr>ch_sink := s\<rparr>)
      | (s, Inr _) \<Rightarrow> publish emit ds (x\<lparr>ch_sink := s, ch_found := ch_found x @ [d]\<rparr>))"

definition on_build_chunk :: "'s emitter \<Rightarrow> stdio_chunk \<Rightarrow> 's chunk_state \<Rightarrow> 's chunk_state" where
  "on_build_chunk emit c x =
     (case sink_log emit (stdio_log_stream (so_stream c)) (so_text c) (ch_sink x) of
        (s, Inl e) \<Rightarrow> keep_error e (x\<lparr>ch_sink := s\<rparr>)
      | (s, Inr _) \<Rightarrow>
          (case feed_text (so_text c) (ch_parser x) of
             (parser, produced) \<Rightarrow> publish emit produced (x\<lparr>ch_sink := s, ch_parser := parser\<rparr>)))"

definition run_build ::
  "'w build_world \<Rightarrow> 's emitter \<Rightarrow> build_plan \<Rightarrow> cancel_token \<Rightarrow> ('s, 'w, command_output \<times> diagnostic list) build_op" where
  "run_build W emit plan token b =
     (case wd_run W plan token (bk_world b) of
        (w, chunks, result) \<Rightarrow>
          let x = fold (on_build_chunk emit) chunks
                \<lparr>ch_sink = bk_sink b, ch_parser = with_family (family_for plan) (diagnostic_parser_new (bl_cwd plan)),
                 ch_found = [], ch_error = None\<rparr>
          in (b\<lparr>bk_sink := ch_sink x, bk_world := w\<rparr>,
              case ch_error x of
                Some e \<Rightarrow> Inl e
              | None \<Rightarrow> and_then result (\<lambda>out. Inr (out, ch_found x))))"

definition status_of :: "command_output \<Rightarrow> build_status" where
  "status_of out =
     (if cd_cancelled out then BuildCancelled else if command_success out then BuildOk else BuildFailedStatus)"

definition all_diagnostics :: "build_plan \<Rightarrow> command_output \<Rightarrow> diagnostic list \<Rightarrow> diagnostic list" where
  "all_diagnostics plan out found =
     dedup (found @ snd (feed_text_dedup (cd_combined_tail out)
       (with_family (family_for plan) (diagnostic_parser_new (bl_cwd plan)))))"

definition last_lines :: "nat \<Rightarrow> string \<Rightarrow> string" where
  "last_lines n txt = concat (map (\<lambda>l. l @ [CHR 0x0A]) (rev (take n (rev (str_lines txt)))))"

definition report_failure :: "'s emitter \<Rightarrow> build_plan \<Rightarrow> command_output \<Rightarrow> diagnostic list \<Rightarrow> ('s, princess_error, unit) op" where
  "report_failure emit plan out ds =
     then_do (sink_note emit
         (if cd_timed_out out then
            ''princess: build timed out after '' @ show_nat (unat (unwrap_or 0 (bl_timeout_ms plan))) @
            '' ms and the process group was killed'' @ [CHR 0x0A]
          else if cd_cancelled out then
            ''princess: build cancelled by the user; the process group was killed'' @ [CHR 0x0A]
          else ''princess: build failed (exit='' @ debug_int_option (cd_exit_code out) @ '', signal='' @
            debug_int_option (cd_signal out) @ '') with '' @
            show_nat (length (filter (\<lambda>d. dg_severity d = SevError) ds)) @ '' error diagnostic(s)'' @ [CHR 0x0A])) (\<lambda>_.
       if ds = [] \<and> \<not> cd_timed_out out \<and> str_trim (last_lines 15 (cd_combined_tail out)) \<noteq> [] then
         then_do (sink_note emit (''princess: last output lines:'' @ [CHR 0x0A])) (\<lambda>_.
           sink_log emit StreamBuild (last_lines 15 (cd_combined_tail out)))
       else give ())"

text \<open>A failure of the database is noted and the build goes on.\<close>

definition database_step ::
  "'w build_world \<Rightarrow> 'v cdb_json \<Rightarrow> engine_env \<Rightarrow> 's emitter \<Rightarrow> make_backend \<Rightarrow> resolved_project \<Rightarrow>
   ('s, 'w, string option) build_op" where
  "database_step W j g emit k p b =
     (case generate_compile_commands W j g emit k p b of
        (b', Inr path) \<Rightarrow> (b', Inr path)
      | (b', Inl e) \<Rightarrow>
          then_do (at_sink (sink_note emit (''princess: compile_commands.json generation failed ('' @ show_error e @
              ''); the build is still ok'' @ [CHR 0x0A]))) (\<lambda>_. give None) b')"

definition announce_artifacts :: "'s emitter \<Rightarrow> artifact list \<Rightarrow> ('s, princess_error, unit) op" where
  "announce_artifacts emit arts =
     then_do (each_do (\<lambda>a. emit (ArtifactChanged \<lparr>ac_path = af_path a, ac_kind = af_kind a\<rparr>)) arts) (\<lambda>_.
       if arts = [] then
         sink_note emit (''princess: the build succeeded but no artifact was discovered; '' @
           ''check [build] artifacts or the project'' @ [CHR 0x27] @ ''s output directory'' @ [CHR 0x0A])
       else give ())"

text \<open>\<open>generation\<close> is the time before the build in nanoseconds, \<open>duration_ms\<close> what it took.\<close>

definition build_root :: "make_backend \<Rightarrow> build_plan \<Rightarrow> string" where
  "build_root k plan = (if mk_artifact_root k = [] then bl_cwd plan else mk_artifact_root k)"

definition finish_build ::
  "'w build_world \<Rightarrow> 'v cdb_json \<Rightarrow> (string \<Rightarrow> u8 list) \<Rightarrow> engine_env \<Rightarrow> 's emitter \<Rightarrow> make_backend \<Rightarrow> build_plan \<Rightarrow>
   nat \<Rightarrow> u64 \<Rightarrow> command_output \<Rightarrow> diagnostic list \<Rightarrow> ('s, 'w, build_finished \<times> string option) build_op" where
  "finish_build W j digest g emit k plan generation duration_ms out ds =
     (let status = status_of out; p = project_from g plan (build_root k plan)
      in then_do (if status \<noteq> BuildOk then at_sink (report_failure emit plan out ds) else give ()) (\<lambda>_.
         then_do (if status = BuildOk \<and> mk_generate_cdb k then database_step W j g emit k p else give None) (\<lambda>cdb.
         then_do (\<lambda>b. (b, Inr (if status = BuildOk
             then discover digest (wd_fs W (bk_world b)) (rp_root p) (rp_declared_artifacts p) (Some generation) else []))) (\<lambda>arts.
         then_do (if status = BuildOk then at_sink (announce_artifacts emit arts) else give ()) (\<lambda>_.
           let payload = \<lparr>bn_status = status, bn_exit_code = cd_exit_code out, bn_duration_ms = duration_ms, bn_artifacts = arts\<rparr>
           in then_do (at_sink (emit (BuildFinished payload))) (\<lambda>_. give (payload, cdb)))))))"

definition execute_build ::
  "'w build_world \<Rightarrow> 'v cdb_json \<Rightarrow> (string \<Rightarrow> u8 list) \<Rightarrow> engine_env \<Rightarrow> 's emitter \<Rightarrow> make_backend \<Rightarrow> build_plan \<Rightarrow>
   cancel_token \<Rightarrow> nat \<Rightarrow> u64 \<Rightarrow> ('s, 'w, build_finished \<times> string option) build_op" where
  "execute_build W j digest g emit k plan token generation duration_ms =
     then_do (at_sink (emit (BuildStarted (started_event plan)))) (\<lambda>_.
     then_do (run_build W emit plan token) (\<lambda>(out, found).
       finish_build W j digest g emit k plan generation duration_ms out (all_diagnostics plan out found)))"

subsection \<open>From a project to its build\<close>

definition tool_overrides :: "resolved_project \<Rightarrow> string \<Rightarrow> string option" where
  "tool_overrides p =
     env_if ''as'' (tc_assembler (cf_toolchain (rp_config p)))
       (env_if ''ld'' (tc_ld (cf_toolchain (rp_config p)))
         (env_if ''gcc'' (tc_cc (cf_toolchain (rp_config p))) Map.empty))"

definition backend_for_project :: "tool_world \<Rightarrow> engine_env \<Rightarrow> resolved_project \<Rightarrow> make_backend" where
  "backend_for_project tw g p =
     (make_backend_new (detect_tools tw
        (with_search_path (case launcher_dir g of None \<Rightarrow> [] | Some bin \<Rightarrow> [bin])
          (with_overrides (tool_overrides p) detector_new)) kernel_tool_specs))
       \<lparr>mk_artifact_root := rp_root p, mk_timeout_ms := DEFAULT_BUILD_TIMEOUT_MS\<rparr>"

record build_outcome =
  bo_finished :: build_finished
  bo_diagnostics :: "diagnostic list"
  bo_command :: command_output
  bo_artifacts :: "artifact list"
  bo_compile_commands :: "string option"

definition outcome_of :: "build_finished \<times> string option \<Rightarrow> build_outcome" where
  "outcome_of r =
     (case r of (payload, cdb) \<Rightarrow>
        \<lparr>bo_finished = payload, bo_diagnostics = [],
         bo_command = \<lparr>cd_exit_code = bn_exit_code payload, cd_signal = None, cd_timed_out = False,
                       cd_cancelled = (bn_status payload = BuildCancelled), cd_combined_tail = []\<rparr>,
         bo_artifacts = bn_artifacts payload, bo_compile_commands = cdb\<rparr>)"

definition build_project ::
  "'w build_world \<Rightarrow> 'v cdb_json \<Rightarrow> (string \<Rightarrow> u8 list) \<Rightarrow> tool_world \<Rightarrow> engine_env \<Rightarrow> 's emitter \<Rightarrow> resolved_project \<Rightarrow>
   cancel_token \<Rightarrow> nat \<Rightarrow> u64 \<Rightarrow> (('s, 'w) build_state, build_outcome_error, build_outcome) op" where
  "build_project W j digest tw g emit p token generation duration_ms b =
     (let k = backend_for_project tw g p; read_dir = fs_read_dir (wd_fs W (bk_world b))
      in case require_tools_for read_dir k p of
           Inl e \<Rightarrow> (b, Inl e)
         | Inr _ \<Rightarrow>
             (case make_plan g read_dir k p of
                Inl e \<Rightarrow> (b, Inl (OtherError e))
              | Inr plan \<Rightarrow>
                  (case execute_build W j digest g emit k plan token generation duration_ms b of
                     (b', Inl e) \<Rightarrow> (b', Inl (OtherError e))
                   | (b', Inr r) \<Rightarrow> (b', Inr (outcome_of r)))))"

definition describe_tool :: "tool_status \<Rightarrow> string" where
  "describe_tool t =
     tu_name t @ replicate (10 - char_count (tu_name t)) CHR '' '' @ '' '' @
     (case (tu_path t, tu_available t) of
        (Some path, True) \<Rightarrow> ''ok        '' @ path @ '' '' @ unwrap_or ''(no version)'' (tu_version t)
      | _ \<Rightarrow> ''MISSING   '' @ tu_name t @ '' ('' @ unwrap_or ''not found'' (tu_detail t) @ '')'') @ [CHR 0x0A]"

definition describe_toolchain :: "toolchain \<Rightarrow> string" where
  "describe_toolchain tc = concat (map describe_tool (tc_tools tc))"

definition diagnostics_in :: "string \<Rightarrow> string \<Rightarrow> tool_family \<Rightarrow> diagnostic list" where
  "diagnostics_in transcript cwd family = parse_chunk transcript cwd family"

definition source_for_tool :: "string \<Rightarrow> diagnostic_source option" where
  "source_for_tool program = source_public (for_program program)"

subsection \<open>The Java backend\<close>

definition DEFAULT_JAVAC_TIMEOUT_MS :: u64 where "DEFAULT_JAVAC_TIMEOUT_MS = 5 * 60 * 1000"

record javac_backend =
  jb_toolchain :: toolchain
  jb_artifact_root :: string
  jb_timeout_ms :: u64
  jb_jobs :: "u32 option"

definition javac_backend_new :: "toolchain \<Rightarrow> javac_backend" where
  "javac_backend_new tc =
     \<lparr>jb_toolchain = tc, jb_artifact_root = [], jb_timeout_ms = DEFAULT_JAVAC_TIMEOUT_MS, jb_jobs = None\<rparr>"

definition detect_javac :: "javac_backend \<Rightarrow> toolchain_report" where
  "detect_javac k =
     (case toolchain_find (jb_toolchain k) ''javac'' of
        Some t \<Rightarrow> \<lparr>tr_tools = [to_tool_info t], tr_ok = tu_available t\<rparr>
      | None \<Rightarrow>
          \<lparr>tr_tools = [\<lparr>ti_name = ''javac'', ti_path = None, ti_version = None, ti_available = False, ti_required = True\<rparr>],
           tr_ok = False\<rparr>)"

definition plan_javac :: "(string \<Rightarrow> bool) \<Rightarrow> javac_backend \<Rightarrow> resolved_project \<Rightarrow> princess_error + build_plan" where
  "plan_javac exists k p =
     (case path_of (jb_toolchain k) ''javac'' of
        None \<Rightarrow> Inl (new_error ToolchainMissing ''javac not found in toolchain'')
      | Some javac \<Rightarrow>
          Inr \<lparr>bl_backend = BackJavac, bl_toolchain_id = ''javac'',
               bl_argv = [javac, ''-d'', path_join (rp_root p) ''build''] @
                 (if exists (path_join (rp_root p) ''Main.java'') then [path_join (rp_root p) ''Main.java''] else []),
               bl_cwd = rp_root p, bl_env = Map.empty, bl_declared_artifacts = [],
               bl_timeout_ms = Some (jb_timeout_ms k)\<rparr>)"

definition parse_javac :: "string \<Rightarrow> string \<Rightarrow> diagnostic list" where
  "parse_javac stderr cwd =
     (case feed_lines (str_lines stderr) (with_family FamGcc (diagnostic_parser_new cwd)) of
        (parser, out) \<Rightarrow> dedup (out @ (case snd (parser_flush parser) of None \<Rightarrow> [] | Some d \<Rightarrow> [d])))"

text \<open>The class files directly under the output directory; a size that cannot be read is 0.\<close>

definition class_files :: "artifact_fs \<Rightarrow> (string \<Rightarrow> bool) \<Rightarrow> string \<Rightarrow> artifact list" where
  "class_files fs exists root =
     (if \<not> exists (path_join root ''build'') then []
      else case fs_read_dir fs (path_join root ''build'') of
        None \<Rightarrow> []
      | Some entries \<Rightarrow>
          map (\<lambda>e. \<lparr>af_path = en_path e, af_kind = ArtOther,
                    af_size = (case fs_stat fs (en_path e) of Inl _ \<Rightarrow> 0 | Inr n \<Rightarrow> n), af_sha256 = []\<rparr>)
            (filter (\<lambda>e. path_extension (en_path e) = Some ''class'') entries))"

definition execute_javac ::
  "'w build_world \<Rightarrow> ('w \<Rightarrow> string \<Rightarrow> bool) \<Rightarrow> ('w \<Rightarrow> string \<Rightarrow> princess_error + unit) \<Rightarrow> 's emitter \<Rightarrow> build_plan \<Rightarrow>
   cancel_token \<Rightarrow> u64 \<Rightarrow> ('s, 'w, build_finished) build_op" where
  "execute_javac W exists mkdir emit plan token duration_ms =
     then_do (at_sink (emit (BuildStarted (started_event plan)))) (\<lambda>_.
     then_do (\<lambda>b. of_result (mkdir (bk_world b) (path_join (bl_cwd plan) ''build'')) b) (\<lambda>_.
     then_do (\<lambda>b. case wd_run W plan token (bk_world b) of
         (w, chunks, r) \<Rightarrow> (b\<lparr>bk_world := w\<rparr>, and_then r (\<lambda>out. Inr (out, chunks)))) (\<lambda>(out, chunks).
     then_do (stream_chunks emit chunks) (\<lambda>_.
     then_do (at_sink (each_do (\<lambda>d. emit (BuildDiagnostic (to_payload d)))
         (parse_javac (concat (map so_text (filter (\<lambda>c. so_stream c = Stderr) chunks))) (bl_cwd plan)))) (\<lambda>_.
     then_do (\<lambda>b. (b, Inr (class_files (wd_fs W (bk_world b)) (exists (bk_world b)) (bl_cwd plan)))) (\<lambda>arts.
     then_do (at_sink (each_do (\<lambda>a. emit (ArtifactChanged \<lparr>ac_path = af_path a, ac_kind = af_kind a\<rparr>)) arts)) (\<lambda>_.
       let payload = \<lparr>bn_status = (if command_success out then BuildOk else BuildFailedStatus),
                      bn_exit_code = cd_exit_code out, bn_duration_ms = duration_ms, bn_artifacts = arts\<rparr>
       in then_do (at_sink (emit (BuildFinished payload))) (\<lambda>_. give payload))))))))"

subsection \<open>Facts: words\<close>

text \<open>A word in double quotes, with quotes and backslashes escaped.\<close>

definition quoted_word :: "string \<Rightarrow> string" where
  "quoted_word w = CHR 0x22 # concat (map (\<lambda>c. if c = CHR 0x22 \<or> c = CHR 0x5C then [CHR 0x5C, c] else [c]) w) @ [CHR 0x22]"

lemma shell_in_quotes:
  "shell_loop (Some CHR 0x22) cur
     (concat (map (\<lambda>c. if c = CHR 0x22 \<or> c = CHR 0x5C then [CHR 0x5C, c] else [c]) w) @ CHR 0x22 # rest) =
   shell_loop None (cur @ w) rest"
  by (induction w arbitrary: cur) auto

lemma shell_quoted: "shell_loop None [] (quoted_word w @ rest) = shell_loop None w rest"
  using shell_in_quotes [of "[]" w rest] by (simp add: quoted_word_def)

lemma shell_blank: "shell_loop None w (CHR '' '' # s) = (if w = [] then [] else [w]) @ shell_loop None [] s"
  by (simp add: space_width_def ascii_space_def byte_of_def)

text \<open>
  A command line is split at the words it was made of: for every list of words, quoted and joined with blanks,
  whatever bytes they hold, splitting gives these words back, but for the empty ones, which are lost.
\<close>

lemma shell_split_words: "shell_split (join '' '' (map quoted_word ws)) = filter (\<lambda>w. w \<noteq> []) ws"
proof (induction ws rule: induct_list012)
  case (3 w v ws)
  have "join '' '' (map quoted_word (w # v # ws)) = quoted_word w @ CHR '' '' # join '' '' (map quoted_word (v # ws))"
    by simp
  then have "shell_split (join '' '' (map quoted_word (w # v # ws))) =
      (if w = [] then [] else [w]) @ shell_split (join '' '' (map quoted_word (v # ws)))"
    by (simp only: shell_split_def shell_quoted shell_blank)
  with 3 show ?case by simp
next
  case (2 w)
  show ?case using shell_quoted [of w "[]"] by (simp add: shell_split_def)
qed (simp add: shell_split_def)

subsection \<open>Facts: the events of a build\<close>

text \<open>What a build says while it works: lines and diagnostics.\<close>

definition at_work :: "event_body \<Rightarrow> bool" where
  "at_work b \<longleftrightarrow> body_kind b = KLogAppend \<or> body_kind b = KBuildDiagnostic"

lemma at_work_simps [simp]:
  "at_work (LogAppend l)" "at_work (BuildDiagnostic d)" "\<not> at_work (BuildFinished f)" "\<not> at_work (ArtifactChanged a)"
  by (simp_all add: at_work_def)

abbreviation working :: "('s \<Rightarrow> event_body list) \<Rightarrow> event_body list \<Rightarrow> ('s, 'w) build_state \<Rightarrow> bool" where
  "working bodies base b \<equiv> grown at_work bodies base (bk_sink b)"

lemma keeps_at_sink: "keeps (grown at_work bodies base) m \<Longrightarrow> keeps (working bodies base) (at_sink m)"
  by (auto simp: yields_def at_sink_def split: prod.split)

lemma keeps_at_disk: "keeps (working bodies base) (at_disk m)"
  by (rule keepsI) (simp add: at_disk_def split: prod.split)

lemma keeps_of_result: "keeps (working bodies base) (\<lambda>b. of_result (r b) b)"
  by (rule keepsI) (simp add: of_result_def)

lemma keeps_value: "keeps P (\<lambda>b. (b, r b))"
  by (rule keepsI) simp

lemma keeps_collect: "keeps (working bodies base) (collect_run W plan)"
  by (rule keepsI) (simp add: collect_run_def split: prod.split)

lemma keeps_log_line:
  "accepting emit bodies \<Longrightarrow> keeps (grown at_work bodies base) (sink_log emit stream line)"
  by (rule keeps_grown_log) simp_all

lemma keeps_note: "accepting emit bodies \<Longrightarrow> keeps (grown at_work bodies base) (sink_note emit line)"
  unfolding sink_note_def by (rule keeps_log_line)

lemmas work_keeping = keeps_at_sink keeps_at_disk keeps_of_result keeps_value keeps_collect keeps_log_line keeps_note

lemma keeps_stream:
  "accepting emit bodies \<Longrightarrow> keeps (working bodies base) (stream_chunks emit chunks)"
  unfolding stream_chunks_def by (intro keeping work_keeping)

lemma keeps_clean: "accepting emit bodies \<Longrightarrow> keeps (working bodies base) (run_clean_step W g emit k p)"
  unfolding run_clean_step_def by (intro keeping work_keeping keeps_stream)

lemma keeps_shim: "accepting emit bodies \<Longrightarrow> keeps (working bodies base) (generate_with_shim W j g emit k p)"
  unfolding generate_with_shim_def by (intro keeping work_keeping keeps_stream keeps_clean)

lemma keeps_generate:
  "accepting emit bodies \<Longrightarrow> keeps (working bodies base) (generate_compile_commands W j g emit k p)"
  unfolding generate_compile_commands_def by (intro keeping work_keeping keeps_stream keeps_clean keeps_shim)

lemma keeps_report: "accepting emit bodies \<Longrightarrow> keeps (grown at_work bodies base) (report_failure emit plan out ds)"
  unfolding report_failure_def by (intro keeping keeps_note keeps_log_line)

lemma never_fails_at_sink: "never_fails m \<Longrightarrow> never_fails (at_sink m)"
  unfolding never_fails_def at_sink_def by (auto split: prod.split) (metis snd_conv)

lemma database_step_ends:
  fixes W :: "'w build_world" and emit :: "'s emitter"
  assumes acc: "accepting emit bodies"
  shows "keeps (working bodies base) (database_step W j g emit k p)" (is "?keeps")
    and "never_fails (database_step W j g emit k p)" (is "?fine")
proof -
  have told: "keeps (working bodies base) (then_do (at_sink (sink_note emit line)) (\<lambda>_. give None) :: ('s, 'w, string option) build_op)" for line
    by (intro keeping work_keeping acc)
  show ?keeps
  proof (rule keepsI)
    fix b :: "('s, 'w) build_state"
    assume b: "working bodies base b"
    obtain b' r where g: "generate_compile_commands W j g emit k p b = (b', r)"
      by (cases "generate_compile_commands W j g emit k p b")
    then have "working bodies base b'" using keepsD [OF keeps_generate [OF acc] b] by (metis fst_conv)
    with g keepsD [OF told] show "working bodies base (fst (database_step W j g emit k p b))"
      unfolding database_step_def by (cases r) auto
  qed
  have "never_fails (then_do (at_sink (sink_note emit line)) (\<lambda>_. give None) :: ('s, 'w, string option) build_op)" for line
    by (intro never_fails_then never_fails_at_sink never_fails_give note_accepted [OF acc])
  then show ?fine
    unfolding never_fails_def database_step_def by (auto split: prod.split sum.split)
qed


lemma publish_works:
  assumes acc: "accepting emit bodies"
  shows "grown at_work bodies base (ch_sink x) \<Longrightarrow>
    grown at_work bodies base (ch_sink (publish emit ds x)) \<and> ch_error (publish emit ds x) = ch_error x"
proof (induction ds arbitrary: x)
  case (Cons d ds)
  obtain s where e: "emit (BuildDiagnostic (to_payload d)) (ch_sink x) = (s, Inr ())"
    using accepted [OF acc] by blast
  have "grown at_work bodies base s"
    using keepsD [OF keeps_grown [OF acc, where P = at_work and b = "BuildDiagnostic (to_payload d)"] Cons.prems] e
    by simp
  with Cons.IH [of "x\<lparr>ch_sink := s, ch_found := ch_found x @ [d]\<rparr>"] e show ?case by simp
qed simp

lemma chunk_works:
  assumes acc: "accepting emit bodies" and x: "grown at_work bodies base (ch_sink x)"
  shows "grown at_work bodies base (ch_sink (on_build_chunk emit c x)) \<and> ch_error (on_build_chunk emit c x) = ch_error x"
proof -
  obtain s where l: "sink_log emit (stdio_log_stream (so_stream c)) (so_text c) (ch_sink x) = (s, Inr ())"
    using log_accepted [OF acc] by blast
  have "grown at_work bodies base s"
    using keepsD [OF keeps_log_line [OF acc] x] l by (metis fst_conv)
  with l publish_works [OF acc] show ?thesis
    by (simp add: on_build_chunk_def split: prod.split)
qed

lemma chunks_work:
  assumes acc: "accepting emit bodies"
  shows "grown at_work bodies base (ch_sink x) \<Longrightarrow>
    grown at_work bodies base (ch_sink (fold (on_build_chunk emit) cs x)) \<and> ch_error (fold (on_build_chunk emit) cs x) = ch_error x"
proof (induction cs arbitrary: x)
  case (Cons c cs)
  show ?case using Cons.IH [of "on_build_chunk emit c x"] chunk_works [OF acc Cons.prems, of c] by simp
qed simp

text \<open>With a sink that accepts events a run of the command fails only as the runner does.\<close>

lemma run_build_works:
  assumes acc: "accepting emit bodies" and b: "working bodies base b"
    and r: "wd_run W plan token (bk_world b) = (w, chunks, result)"
  shows "\<exists>s found. run_build W emit plan token b =
      (b\<lparr>bk_sink := s, bk_world := w\<rparr>, and_then result (\<lambda>out. Inr (out, found))) \<and> grown at_work bodies base s"
proof -
  let ?x0 = "\<lparr>ch_sink = bk_sink b, ch_parser = with_family (family_for plan) (diagnostic_parser_new (bl_cwd plan)),
    ch_found = [], ch_error = None\<rparr>"
  have "grown at_work bodies base (ch_sink (fold (on_build_chunk emit) chunks ?x0))"
      "ch_error (fold (on_build_chunk emit) chunks ?x0) = None"
    using chunks_work [OF acc, of base ?x0 chunks] b by simp_all
  then show ?thesis by (auto simp: run_build_def r Let_def)
qed

lemma announced:
  assumes acc: "accepting emit bodies"
  shows "\<exists>s'. each_do (\<lambda>a. emit (ArtifactChanged \<lparr>ac_path = af_path a, ac_kind = af_kind a\<rparr>)) arts s = (s', Inr ()) \<and>
    bodies s' = bodies s @ map (\<lambda>a. ArtifactChanged \<lparr>ac_path = af_path a, ac_kind = af_kind a\<rparr>) arts"
proof (induction arts arbitrary: s)
  case (Cons a arts)
  obtain s1 where "emit (ArtifactChanged \<lparr>ac_path = af_path a, ac_kind = af_kind a\<rparr>) s = (s1, Inr ())"
      "bodies s1 = bodies s @ [ArtifactChanged \<lparr>ac_path = af_path a, ac_kind = af_kind a\<rparr>]"
    using accepted [OF acc] by blast
  with Cons [of s1] show ?case by (auto simp: then_do_def)
qed (simp add: give_def)

definition announcements :: "artifact list \<Rightarrow> event_body list" where
  "announcements arts = map (\<lambda>a. ArtifactChanged \<lparr>ac_path = af_path a, ac_kind = af_kind a\<rparr>) arts"

lemma announce_artifacts_says:
  assumes acc: "accepting emit bodies"
  shows "\<exists>s' remarks. announce_artifacts emit arts s = (s', Inr ()) \<and>
    bodies s' = bodies s @ announcements arts @ remarks \<and> list_all at_work remarks"
proof -
  obtain s1 where s1: "each_do (\<lambda>a. emit (ArtifactChanged \<lparr>ac_path = af_path a, ac_kind = af_kind a\<rparr>)) arts s = (s1, Inr ())"
      "bodies s1 = bodies s @ announcements arts"
    using announced [OF acc, of arts s] unfolding announcements_def by blast
  show ?thesis
  proof (cases "arts = []")
    case True
    let ?note = "''princess: the build succeeded but no artifact was discovered; '' @
      ''check [build] artifacts or the project'' @ [CHR 0x27] @ ''s output directory'' @ [CHR 0x0A]"
    obtain s2 where "sink_note emit ?note s1 = (s2, Inr ())"
        "bodies s2 = bodies s1 @ [LogAppend \<lparr>la_stream = StreamIde, la_chunk = ensure_newline ?note, la_encoding = EncUtf8\<rparr>]"
      unfolding sink_note_def sink_log_def using accepted [OF acc] by blast
    with True s1 have "announce_artifacts emit arts s = (s2, Inr ())"
        "bodies s2 = bodies s @ announcements arts @ [LogAppend \<lparr>la_stream = StreamIde, la_chunk = ensure_newline ?note, la_encoding = EncUtf8\<rparr>]"
      unfolding announce_artifacts_def by (simp_all add: then_do_def del: append_Cons append_assoc)
    moreover have "list_all at_work [LogAppend \<lparr>la_stream = StreamIde, la_chunk = ensure_newline ?note, la_encoding = EncUtf8\<rparr>]"
      by simp
    ultimately show ?thesis by blast
  next
    case False
    with s1 have "announce_artifacts emit arts s = (s1, Inr ())"
      unfolding announce_artifacts_def by (simp add: then_do_def give_def)
    with s1 show ?thesis by (intro exI [of _ s1] exI [of _ "[]"]) simp
  qed
qed


lemma report_never_fails:
  assumes acc: "accepting emit bodies"
  shows "never_fails (report_failure emit plan out ds)"
  unfolding report_failure_def
  by (rule never_fails_then [OF note_accepted [OF acc]])
    (intro never_fails_if never_fails_then note_accepted [OF acc] log_accepts [OF acc] never_fails_give)

lemma finish_build_ends:
  fixes emit :: "'s emitter" and W :: "'w build_world" and b :: "('s, 'w) build_state"
  assumes acc: "accepting emit bodies" and b: "working bodies base b"
  shows "\<exists>b' payload cdb work remarks. finish_build W j digest g emit k plan generation ms out ds b = (b', Inr (payload, cdb)) \<and>
    bn_status payload = status_of out \<and> bn_exit_code payload = cd_exit_code out \<and>
    (bn_status payload = BuildOk \<or> bn_artifacts payload = []) \<and>
    bodies (bk_sink b') = base @ work @ announcements (bn_artifacts payload) @ remarks @ [BuildFinished payload] \<and>
    list_all at_work work \<and> list_all at_work remarks"
proof -
  let ?ok = "status_of out = BuildOk" and ?p = "project_from g plan (build_root k plan)"
  let ?report = "if \<not> ?ok then at_sink (report_failure emit plan out ds) else give () :: ('s, 'w, unit) build_op"
  let ?data = "if ?ok \<and> mk_generate_cdb k then database_step W j g emit k ?p else give None :: ('s, 'w, string option) build_op"
  have "never_fails ?report"
    by (auto intro: never_fails_at_sink never_fails_give report_never_fails [OF acc])
  then obtain b1 where b1: "?report b = (b1, Inr ())" by (rule never_failsE) auto
  have "keeps (working bodies base) ?report"
    by (intro keeping keeps_at_sink keeps_report [OF acc])
  from keepsD [OF this b] b1 have w1: "working bodies base b1" by simp
  have "never_fails ?data"
    by (auto intro: never_fails_give database_step_ends(2) [OF acc])
  then obtain b2 cdb where b2: "?data b1 = (b2, Inr cdb)" by (rule never_failsE)
  have "keeps (working bodies base) ?data"
    by (intro keeping database_step_ends(1) [OF acc])
  from keepsD [OF this w1] b2 obtain work where work: "bodies (bk_sink b2) = base @ work" "list_all at_work work"
    by (auto simp: grown_def)
  define arts where "arts = (if ?ok then discover digest (wd_fs W (bk_world b2)) (rp_root ?p) (rp_declared_artifacts ?p) (Some generation) else [])"
  let ?tell = "if ?ok then at_sink (announce_artifacts emit arts) else give () :: ('s, 'w, unit) build_op"
  obtain s3 remarks where s3: "announce_artifacts emit arts (bk_sink b2) = (s3, Inr ())"
      "bodies s3 = bodies (bk_sink b2) @ announcements arts @ remarks" "list_all at_work remarks"
    using announce_artifacts_says [OF acc] by blast
  have "\<exists>b3 remarks. ?tell b2 = (b3, Inr ()) \<and> bodies (bk_sink b3) = base @ work @ announcements arts @ remarks \<and> list_all at_work remarks"
  proof (cases ?ok)
    case True
    with s3 work show ?thesis by (auto simp: at_sink_def)
  next
    case False
    with work show ?thesis by (auto simp: give_def arts_def announcements_def intro: exI [of _ "[]"])
  qed
  then obtain b3 remarks where b3: "?tell b2 = (b3, Inr ())" "bodies (bk_sink b3) = base @ work @ announcements arts @ remarks" "list_all at_work remarks"
    by blast
  let ?payload = "\<lparr>bn_status = status_of out, bn_exit_code = cd_exit_code out, bn_duration_ms = ms, bn_artifacts = arts\<rparr>"
  obtain s4 where s4: "emit (BuildFinished ?payload) (bk_sink b3) = (s4, Inr ())" "bodies s4 = bodies (bk_sink b3) @ [BuildFinished ?payload]"
    using accepted [OF acc] by blast
  have "finish_build W j digest g emit k plan generation ms out ds b = (b3\<lparr>bk_sink := s4\<rparr>, Inr (?payload, cdb))"
    unfolding finish_build_def Let_def arts_def [symmetric]
    using b1 b2 b3(1) s4(1) by (simp add: then_do_def at_sink_def give_def arts_def [symmetric] cong: if_cong)
  moreover have "bn_artifacts ?payload = [] \<or> ?ok" by (simp add: arts_def)
  ultimately show ?thesis using b3 s4 work(2)
    by (intro exI [of _ "b3\<lparr>bk_sink := s4\<rparr>"] exI [of _ ?payload] exI [of _ cdb] exI [of _ work] exI [of _ remarks]) auto
qed

text \<open>
  C33. A build ends as its command does. With a sink that accepts events, whatever the command prints,
  whatever happens to the compile database, and however the files change: the build fails exactly when the
  runner does, and then it has said nothing after its start but lines and diagnostics, no \<open>build.finished\<close> among
  them; otherwise it is one start, work, the artifacts it returns, in order, and one \<open>build.finished\<close> at the
  very end with the status of the command. A build that was not successful reports no artifacts.
\<close>

theorem build_ends_as_its_command:
  fixes emit :: "'s emitter" and W :: "'w build_world" and b :: "('s, 'w) build_state"
  assumes acc: "accepting emit bodies"
  shows "case (wd_run W plan token (bk_world b), execute_build W j digest g emit k plan token generation ms b) of
     ((_, _, Inl e), (b', Inr _)) \<Rightarrow> False
   | ((_, _, Inl e), (b', Inl e')) \<Rightarrow>
       e' = e \<and> (\<exists>work. bodies (bk_sink b') = bodies (bk_sink b) @ BuildStarted (started_event plan) # work \<and>
         list_all at_work work)
   | ((_, _, Inr out), (b', Inl e')) \<Rightarrow> False
   | ((_, _, Inr out), (b', Inr (payload, _))) \<Rightarrow>
       bn_status payload = status_of out \<and> bn_exit_code payload = cd_exit_code out \<and>
       (bn_status payload = BuildOk \<or> bn_artifacts payload = []) \<and>
       (\<exists>work remarks. bodies (bk_sink b') = bodies (bk_sink b) @ BuildStarted (started_event plan) # work @
          announcements (bn_artifacts payload) @ remarks @ [BuildFinished payload] \<and>
          list_all at_work work \<and> list_all at_work remarks)"
proof -
  let ?base = "bodies (bk_sink b) @ [BuildStarted (started_event plan)]"
  obtain s0 where s0: "emit (BuildStarted (started_event plan)) (bk_sink b) = (s0, Inr ())" "bodies s0 = ?base"
    using accepted [OF acc] by blast
  let ?b0 = "b\<lparr>bk_sink := s0\<rparr>"
  obtain w chunks result where run: "wd_run W plan token (bk_world b) = (w, chunks, result)"
    by (cases "wd_run W plan token (bk_world b)")
  have "working bodies ?base ?b0" using s0(2) grown_start [of at_work bodies s0] by simp
  then obtain s1 found where build: "run_build W emit plan token ?b0 =
        (b\<lparr>bk_sink := s1, bk_world := w\<rparr>, and_then result (\<lambda>out. Inr (out, found)))" "grown at_work bodies ?base s1"
    using run_build_works [OF acc, of ?base ?b0 W plan token w chunks result] run by auto
  show ?thesis
  proof (cases result)
    case (Inl e)
    with s0(1) build run show ?thesis
      by (auto simp: execute_build_def then_do_def at_sink_def grown_def res_simps)
  next
    case (Inr out)
    let ?b1 = "b\<lparr>bk_sink := s1, bk_world := w\<rparr>"
    have "working bodies ?base ?b1" using build(2) by simp
    from finish_build_ends [OF acc this, of W j digest g k plan generation ms out "all_diagnostics plan out found"]
    obtain b' payload cdb work remarks where
        "finish_build W j digest g emit k plan generation ms out (all_diagnostics plan out found) ?b1 = (b', Inr (payload, cdb))"
        "bn_status payload = status_of out" "bn_exit_code payload = cd_exit_code out"
        "bn_status payload = BuildOk \<or> bn_artifacts payload = []"
        "bodies (bk_sink b') = ?base @ work @ announcements (bn_artifacts payload) @ remarks @ [BuildFinished payload]"
        "list_all at_work work" "list_all at_work remarks"
      by auto
    with Inr s0(1) build run show ?thesis
      by (auto simp: execute_build_def then_do_def at_sink_def res_simps)
  qed
qed

text \<open>A command that prints one line and ends with code 2.\<close>

definition failing_world :: "unit build_world" where
  "failing_world =
     \<lparr>wd_run = (\<lambda>plan token w. (w, [\<lparr>so_stream = Stderr, so_text = ''make: stop'', so_encoding = EncUtf8, so_at_eof = True\<rparr>],
        Inr \<lparr>cd_exit_code = Some 2, cd_signal = None, cd_timed_out = False, cd_cancelled = False, cd_combined_tail = ''make: stop''\<rparr>)),
      wd_disk = (\<lambda>_. \<lparr>dk_create_dir = (\<lambda>_. Inr ()), dk_write = (\<lambda>_. Inr ())\<rparr>), wd_chmod = (\<lambda>_. Inr ()),
      wd_read = (\<lambda>_ path. Inl path),
      wd_fs = (\<lambda>_. \<lparr>fs_is_file = (\<lambda>_. False), fs_is_dir = (\<lambda>_. False), fs_read_dir = (\<lambda>_. None), fs_stat = Inl, fs_open = Inl\<rparr>)\<rparr>"

definition demo_database :: "unit cdb_json" where
  "demo_database =
     \<lparr>cj_value = \<lparr>js_parse = Inl, js_get = (\<lambda>_ _. None), js_str = (\<lambda>_. None), js_i64 = (\<lambda>_. None), js_u64 = (\<lambda>_. None),
        js_bool = (\<lambda>_. None), js_array = (\<lambda>_. None), js_show = (\<lambda>_. []), js_pretty = (\<lambda>_. None)\<rparr>,
      cj_parse = Inl, cj_print = (\<lambda>_. Inr ''[]'')\<rparr>"

definition demo_plan :: build_plan where
  "demo_plan =
     \<lparr>bl_backend = BackMake, bl_toolchain_id = ''gnu'', bl_argv = [''make''], bl_cwd = ''/k'', bl_env = Map.empty,
      bl_declared_artifacts = [], bl_timeout_ms = None\<rparr>"

theorem build_ends_as_its_command_witness:
  "case execute_build failing_world demo_database (\<lambda>_. []) \<lparr>ge_var = Map.empty, ge_cwd = None, ge_is_dir = (\<lambda>_. False)\<rparr> list_sink
       (make_backend_new \<lparr>tc_tools = [], tc_host_triple = None\<rparr>) demo_plan (CancelToken False) 7 5
       \<lparr>bk_sink = [], bk_world = (), bk_files = []\<rparr> of
     (b', Inl e) \<Rightarrow> False
   | (b', Inr (payload, cdb)) \<Rightarrow>
       bn_status payload = BuildFailedStatus \<and> bn_exit_code payload = Some 2 \<and>
       hd (bk_sink b') = BuildStarted (started_event demo_plan) \<and> last (bk_sink b') = BuildFinished payload"
proof -
  let ?out = "\<lparr>cd_exit_code = Some 2, cd_signal = None, cd_timed_out = False, cd_cancelled = False, cd_combined_tail = ''make: stop''\<rparr>"
  have "wd_run failing_world demo_plan (CancelToken False) () =
      ((), [\<lparr>so_stream = Stderr, so_text = ''make: stop'', so_encoding = EncUtf8, so_at_eof = True\<rparr>], Inr ?out)"
    by (simp add: failing_world_def)
  moreover have "status_of ?out = BuildFailedStatus" by (simp add: status_of_def command_success_def)
  ultimately show ?thesis
    using build_ends_as_its_command [OF list_sink_accepts, where W = failing_world and j = demo_database and
      digest = "\<lambda>_. []" and g = "\<lparr>ge_var = Map.empty, ge_cwd = None, ge_is_dir = (\<lambda>_. False)\<rparr>" and
      k = "make_backend_new \<lparr>tc_tools = [], tc_host_triple = None\<rparr>" and plan = demo_plan and token = "CancelToken False" and
      generation = 7 and ms = 5 and b = "\<lparr>bk_sink = [], bk_world = (), bk_files = []\<rparr>"]
    by (simp split: prod.splits sum.splits) auto
qed

end
