(* ===== verification/Cli_Args.thy ===== *)
theory Cli_Args
  imports Rust_Str
begin

section \<open>The command line\<close>

text \<open>
  Models \<^verbatim>\<open>crates/princess-cli/src/args.rs\<close>: the subcommands, their options, and the hand-written
  parser. Facts: a command line printed from parsed arguments is parsed back, in both spellings of a value.
\<close>

record build_args =
  ba_targets :: "string list"
  ba_timeout_ms :: "u64 option"

definition build_args_default :: build_args where
  "build_args_default = \<lparr>ba_targets = [], ba_timeout_ms = None\<rparr>"

record run_args =
  ra_timeout_ms :: "u64 option"
  ra_cancel_after_ms :: "u64 option"
  ra_no_build :: bool
  ra_keep_qemu_log :: bool

definition run_args_default :: run_args where
  "run_args_default = \<lparr>ra_timeout_ms = None, ra_cancel_after_ms = None, ra_no_build = False, ra_keep_qemu_log = False\<rparr>"

record symbolicate_args =
  sa_rip :: "string option"
  sa_from_log :: "string option"
  sa_elf :: "string option"

definition symbolicate_args_default :: symbolicate_args where
  "symbolicate_args_default = \<lparr>sa_rip = None, sa_from_log = None, sa_elf = None\<rparr>"

record events_args =
  va_file :: "string option"

definition events_args_default :: events_args where "events_args_default = \<lparr>va_file = None\<rparr>"

datatype cli_command =
    CmdDoctor
  | CmdBuild build_args
  | CmdRun run_args
  | CmdSymbolicate symbolicate_args
  | CmdEvents events_args

fun command_str :: "cli_command \<Rightarrow> string" where
  "command_str CmdDoctor = ''doctor''"
| "command_str (CmdBuild b) = ''build''"
| "command_str (CmdRun r) = ''run''"
| "command_str (CmdSymbolicate s) = ''symbolicate''"
| "command_str (CmdEvents e) = ''events''"

record cli_args =
  ca_command :: "cli_command option"
  ca_project :: string
  ca_record :: "string option"
  ca_op_id :: "string option"
  ca_quiet :: bool
  ca_strict :: bool
  ca_help :: bool

definition cli_args_default :: cli_args where
  "cli_args_default =
     \<lparr>ca_command = None, ca_project = ''.'', ca_record = None, ca_op_id = None, ca_quiet = False, ca_strict = False,
      ca_help = False\<rparr>"

datatype usage_error = UsageError string

fun show_usage_error :: "usage_error \<Rightarrow> string" where
  "show_usage_error (UsageError s) = s"

subsection \<open>Parsing\<close>

definition split_value :: "string \<Rightarrow> string \<times> string option" where
  "split_value token =
     (case split_once CHR ''='' token of Some (flag, v) \<Rightarrow> (flag, Some v) | None \<Rightarrow> (token, None))"

definition command_of_token :: "string \<Rightarrow> cli_command option" where
  "command_of_token token =
     (if token = ''doctor'' then Some CmdDoctor
      else if token = ''build'' then Some (CmdBuild build_args_default)
      else if token = ''run'' then Some (CmdRun run_args_default)
      else if token = ''symbolicate'' then Some (CmdSymbolicate symbolicate_args_default)
      else if token = ''events'' then Some (CmdEvents events_args_default)
      else None)"

text \<open>The value of an option: what follows the equals sign, else the next token; and the tokens left.\<close>

definition option_value :: "string \<Rightarrow> string option \<Rightarrow> string list \<Rightarrow> usage_error + string \<times> string list" where
  "option_value flag inline rest =
     (case inline of
        Some v \<Rightarrow> Inr (v, rest)
      | None \<Rightarrow>
          (case rest of
             [] \<Rightarrow> Inl (UsageError (''`'' @ flag @ ''` needs a value''))
           | v # rest' \<Rightarrow> Inr (v, rest')))"

definition number_value :: "string \<Rightarrow> string option \<Rightarrow> string list \<Rightarrow> usage_error + u64 \<times> string list" where
  "number_value flag inline rest =
     and_then (option_value flag inline rest) (\<lambda>(raw, rest').
       case parse_u64 raw of
         None \<Rightarrow> Inl (UsageError (''`'' @ flag @ '' '' @ raw @ ''` is not a number''))
       | Some n \<Rightarrow> Inr (word_of_nat n, rest'))"

definition only_valid_for :: "string \<Rightarrow> string \<Rightarrow> usage_error" where
  "only_valid_for flag names = UsageError (''`'' @ flag @ ''` is only valid for '' @ names)"

text \<open>What the parser holds: the arguments, the subcommand, and the tokens it has not looked at.\<close>

type_synonym parser_state = "cli_args \<times> cli_command option \<times> string list"

definition command_option ::
  "string \<Rightarrow> string option \<Rightarrow> cli_command option \<Rightarrow> string list \<Rightarrow> usage_error + cli_command option \<times> string list" where
  "command_option flag inline command rest =
     (let text = option_value flag inline rest; number = number_value flag inline rest
      in if flag = ''--target'' then
           (case command of
              Some (CmdBuild b) \<Rightarrow>
                and_then text (\<lambda>(v, rest'). Inr (Some (CmdBuild (b\<lparr>ba_targets := ba_targets b @ [v]\<rparr>)), rest'))
            | _ \<Rightarrow> Inl (only_valid_for flag ''`build`''))
         else if flag = ''--timeout-ms'' then
           and_then number (\<lambda>(n, rest').
             case command of
               Some (CmdBuild b) \<Rightarrow> Inr (Some (CmdBuild (b\<lparr>ba_timeout_ms := Some n\<rparr>)), rest')
             | Some (CmdRun r) \<Rightarrow> Inr (Some (CmdRun (r\<lparr>ra_timeout_ms := Some n\<rparr>)), rest')
             | _ \<Rightarrow> Inl (only_valid_for flag ''`build` and `run`''))
         else if flag = ''--cancel-after-ms'' then
           and_then number (\<lambda>(n, rest').
             case command of
               Some (CmdRun r) \<Rightarrow> Inr (Some (CmdRun (r\<lparr>ra_cancel_after_ms := Some n\<rparr>)), rest')
             | _ \<Rightarrow> Inl (only_valid_for flag ''`run`''))
         else if flag = ''--no-build'' then
           (case command of
              Some (CmdRun r) \<Rightarrow> Inr (Some (CmdRun (r\<lparr>ra_no_build := True\<rparr>)), rest)
            | _ \<Rightarrow> Inl (only_valid_for flag ''`run`''))
         else if flag = ''--keep-qemu-log'' then
           (case command of
              Some (CmdRun r) \<Rightarrow> Inr (Some (CmdRun (r\<lparr>ra_keep_qemu_log := True\<rparr>)), rest)
            | _ \<Rightarrow> Inl (only_valid_for flag ''`run`''))
         else if flag = ''--rip'' then
           (case command of
              Some (CmdSymbolicate y) \<Rightarrow>
                and_then text (\<lambda>(v, rest'). Inr (Some (CmdSymbolicate (y\<lparr>sa_rip := Some v\<rparr>)), rest'))
            | _ \<Rightarrow> Inl (only_valid_for flag ''`symbolicate`''))
         else if flag = ''--from-log'' then
           (case command of
              Some (CmdSymbolicate y) \<Rightarrow>
                and_then text (\<lambda>(v, rest'). Inr (Some (CmdSymbolicate (y\<lparr>sa_from_log := Some v\<rparr>)), rest'))
            | _ \<Rightarrow> Inl (only_valid_for flag ''`symbolicate`''))
         else if flag = ''--elf'' then
           (case command of
              Some (CmdSymbolicate y) \<Rightarrow>
                and_then text (\<lambda>(v, rest'). Inr (Some (CmdSymbolicate (y\<lparr>sa_elf := Some v\<rparr>)), rest'))
            | _ \<Rightarrow> Inl (only_valid_for flag ''`symbolicate`''))
         else if flag = ''--file'' then
           (case command of
              Some (CmdEvents e) \<Rightarrow>
                and_then text (\<lambda>(v, rest'). Inr (Some (CmdEvents (e\<lparr>va_file := Some v\<rparr>)), rest'))
            | _ \<Rightarrow> Inl (only_valid_for flag ''`events`''))
         else Inl (UsageError (''unknown option `'' @ flag @ ''`'')))"

definition parse_option :: "string \<Rightarrow> string option \<Rightarrow> parser_state \<Rightarrow> usage_error + parser_state" where
  "parse_option flag inline st =
     (case st of (a, command, rest) \<Rightarrow>
        let text = option_value flag inline rest
        in if flag = ''--project'' then and_then text (\<lambda>(v, rest'). Inr (a\<lparr>ca_project := v\<rparr>, command, rest'))
           else if flag = ''--record'' then and_then text (\<lambda>(v, rest'). Inr (a\<lparr>ca_record := Some v\<rparr>, command, rest'))
           else if flag = ''--op-id'' then and_then text (\<lambda>(v, rest'). Inr (a\<lparr>ca_op_id := Some v\<rparr>, command, rest'))
           else if flag = ''--quiet'' then Inr (a\<lparr>ca_quiet := True\<rparr>, command, rest)
           else if flag = ''--strict'' then Inr (a\<lparr>ca_strict := True\<rparr>, command, rest)
           else and_then (command_option flag inline command rest) (\<lambda>(command', rest'). Inr (a, command', rest')))"

definition parse_token :: "string \<Rightarrow> parser_state \<Rightarrow> usage_error + parser_state" where
  "parse_token token st =
     (case st of (a, command, rest) \<Rightarrow>
        if token = ''-h'' \<or> token = ''--help'' then Inr (a\<lparr>ca_help := True\<rparr>, command, rest)
        else if \<not> starts_with ''-'' token then
          (case command of
             Some c \<Rightarrow> Inl (UsageError (''unexpected argument `'' @ token @ ''` (subcommand `'' @ command_str c @ ''` already given)''))
           | None \<Rightarrow>
               (case command_of_token token of
                  None \<Rightarrow> Inl (UsageError (''unknown subcommand `'' @ token @ ''` (expected doctor|build|run|symbolicate|events)''))
                | Some c \<Rightarrow> Inr (a, Some c, rest)))
        else (case split_value token of (flag, inline) \<Rightarrow> parse_option flag inline st))"

lemma option_value_rest: "option_value flag inline rest = Inr (v, rest') \<Longrightarrow> length rest' \<le> length rest"
  by (auto simp: option_value_def split: option.splits list.splits)

lemma number_value_rest: "number_value flag inline rest = Inr (n, rest') \<Longrightarrow> length rest' \<le> length rest"
  by (auto simp: number_value_def and_then_def dest: option_value_rest split: sum.splits option.splits)

lemma command_option_rest: "command_option flag inline command rest = Inr (c, rest') \<Longrightarrow> length rest' \<le> length rest"
  unfolding command_option_def Let_def
  by (auto simp: and_then_def dest: option_value_rest number_value_rest
      split: if_splits sum.splits option.splits cli_command.splits)

lemma parse_token_rest: "parse_token token (a, command, rest) = Inr (a', command', rest') \<Longrightarrow> length rest' \<le> length rest"
  unfolding parse_token_def parse_option_def Let_def
  by (auto simp: and_then_def dest: option_value_rest command_option_rest
      split: if_splits sum.splits option.splits prod.splits)

function parse_loop :: "parser_state \<Rightarrow> usage_error + cli_args" where
  "parse_loop (a, command, []) = Inr (a\<lparr>ca_command := command\<rparr>)"
| "parse_loop (a, command, token # rest) =
     (case parse_token token (a, command, rest) of
        Inl e \<Rightarrow> Inl e
      | Inr st \<Rightarrow> parse_loop st)"
  by pat_completeness auto
termination
  by (relation "measure (\<lambda>(a, command, rest). length rest)") (auto dest: parse_token_rest)

definition parse_args :: "string list \<Rightarrow> usage_error + cli_args" where
  "parse_args tokens = parse_loop (cli_args_default, None, tokens)"

subsection \<open>Facts\<close>

text \<open>A command line that gives the arguments; \<open>style\<close> chooses how the value of an option is spelled.\<close>

definition spell :: "(string \<Rightarrow> bool) \<Rightarrow> string \<Rightarrow> string \<Rightarrow> string list" where
  "spell style flag v = (if style flag then [flag @ ''='' @ v] else [flag, v])"

definition spell_opt :: "(string \<Rightarrow> bool) \<Rightarrow> string \<Rightarrow> string option \<Rightarrow> string list" where
  "spell_opt style flag v = (case v of None \<Rightarrow> [] | Some x \<Rightarrow> spell style flag x)"

definition spell_number :: "(string \<Rightarrow> bool) \<Rightarrow> string \<Rightarrow> u64 option \<Rightarrow> string list" where
  "spell_number style flag v = spell_opt style flag (map_option (\<lambda>n. show_nat (unat n)) v)"

definition spell_flag :: "string \<Rightarrow> bool \<Rightarrow> string list" where
  "spell_flag flag b = (if b then [flag] else [])"

fun print_command :: "(string \<Rightarrow> bool) \<Rightarrow> cli_command \<Rightarrow> string list" where
  "print_command style CmdDoctor = []"
| "print_command style (CmdBuild b) =
     concat (map (spell style ''--target'') (ba_targets b)) @ spell_number style ''--timeout-ms'' (ba_timeout_ms b)"
| "print_command style (CmdRun r) =
     spell_number style ''--timeout-ms'' (ra_timeout_ms r) @
     spell_number style ''--cancel-after-ms'' (ra_cancel_after_ms r) @
     spell_flag ''--no-build'' (ra_no_build r) @ spell_flag ''--keep-qemu-log'' (ra_keep_qemu_log r)"
| "print_command style (CmdSymbolicate y) =
     spell_opt style ''--rip'' (sa_rip y) @ spell_opt style ''--from-log'' (sa_from_log y) @ spell_opt style ''--elf'' (sa_elf y)"
| "print_command style (CmdEvents e) = spell_opt style ''--file'' (va_file e)"

definition print_common :: "(string \<Rightarrow> bool) \<Rightarrow> cli_args \<Rightarrow> string list" where
  "print_common style a =
     spell style ''--project'' (ca_project a) @ spell_opt style ''--record'' (ca_record a) @
     spell_opt style ''--op-id'' (ca_op_id a) @ spell_flag ''--quiet'' (ca_quiet a) @
     spell_flag ''--strict'' (ca_strict a) @ spell_flag ''--help'' (ca_help a)"

definition print_args :: "(string \<Rightarrow> bool) \<Rightarrow> cli_args \<Rightarrow> string list" where
  "print_args style a =
     print_common style a @
     (case ca_command a of None \<Rightarrow> [] | Some c \<Rightarrow> command_str c # print_command style c)"

text \<open>An option takes its value in both spellings, and leaves the rest.\<close>

lemma loop_spell:
  assumes flag: "CHR ''='' \<notin> set flag" "starts_with ''-'' flag" "flag \<noteq> ''-h''" "flag \<noteq> ''--help''"
    and option: "\<And>rest. parse_option flag (Some v) (a, c, rest) = Inr (a', c', rest)"
      "\<And>rest. parse_option flag None (a, c, v # rest) = Inr (a', c', rest)"
  shows "parse_loop (a, c, spell style flag v @ rest) = parse_loop (a', c', rest)"
proof -
  have eq: "split_once CHR ''='' (flag @ CHR ''='' # v) = Some (flag, v)"
    using flag(1) by (induction flag) auto
  have none: "split_once CHR ''='' flag = None"
    using flag(1) by (induction flag) auto
  obtain f where f: "flag = CHR ''-'' # f"
    using flag(2) by (auto simp: starts_with_iff)
  have ne: "flag @ CHR ''='' # v \<noteq> w" if "CHR ''='' \<notin> set w" for w
    using that by auto
  have start: "starts_with ''-'' (flag @ CHR ''='' # v)"
    using f by simp
  show ?thesis
    unfolding spell_def using flag(2-4) option start ne [of "''-h''"] ne [of "''--help''"]
    by (simp add: parse_token_def split_value_def eq none)
qed

lemma loop_flag:
  assumes "CHR ''='' \<notin> set flag" "starts_with ''-'' flag" "flag \<noteq> ''-h''" "flag \<noteq> ''--help''"
    and "\<And>rest. parse_option flag None (a, c, rest) = Inr (a', c', rest)"
  shows "parse_loop (a, c, flag # rest) = parse_loop (a', c', rest)"
proof -
  have none: "split_once CHR ''='' flag = None"
    using assms(1) by (induction flag) auto
  show ?thesis using assms by (simp add: parse_token_def split_value_def none)
qed

lemma loop_help: "parse_loop (a, c, ''--help'' # rest) = parse_loop (a\<lparr>ca_help := True\<rparr>, c, rest)"
  by (simp add: parse_token_def)

lemma loop_command:
  "parse_loop (a, None, command_str c # rest) = parse_loop (a, command_of_token (command_str c), rest)"
  by (cases c) (simp_all add: parse_token_def command_of_token_def)

lemmas option_defs = parse_option_def command_option_def option_value_def number_value_def Let_def

declare parse_loop.simps(2) [simp del]

lemma loop_common:
  "parse_loop (a, c, spell style ''--project'' v @ rest) = parse_loop (a\<lparr>ca_project := v\<rparr>, c, rest)"
  "parse_loop (a, c, spell style ''--record'' v @ rest) = parse_loop (a\<lparr>ca_record := Some v\<rparr>, c, rest)"
  "parse_loop (a, c, spell style ''--op-id'' v @ rest) = parse_loop (a\<lparr>ca_op_id := Some v\<rparr>, c, rest)"
  "parse_loop (a, c, ''--quiet'' # rest) = parse_loop (a\<lparr>ca_quiet := True\<rparr>, c, rest)"
  "parse_loop (a, c, ''--strict'' # rest) = parse_loop (a\<lparr>ca_strict := True\<rparr>, c, rest)"
  by (rule loop_spell loop_flag; simp add: option_defs)+

lemma loop_text:
  "parse_loop (a, Some (CmdBuild b), spell style ''--target'' v @ rest) =
     parse_loop (a, Some (CmdBuild (b\<lparr>ba_targets := ba_targets b @ [v]\<rparr>)), rest)"
  "parse_loop (a, Some (CmdRun r), ''--no-build'' # rest) = parse_loop (a, Some (CmdRun (r\<lparr>ra_no_build := True\<rparr>)), rest)"
  "parse_loop (a, Some (CmdRun r), ''--keep-qemu-log'' # rest) =
     parse_loop (a, Some (CmdRun (r\<lparr>ra_keep_qemu_log := True\<rparr>)), rest)"
  "parse_loop (a, Some (CmdSymbolicate y), spell style ''--rip'' v @ rest) =
     parse_loop (a, Some (CmdSymbolicate (y\<lparr>sa_rip := Some v\<rparr>)), rest)"
  "parse_loop (a, Some (CmdSymbolicate y), spell style ''--from-log'' v @ rest) =
     parse_loop (a, Some (CmdSymbolicate (y\<lparr>sa_from_log := Some v\<rparr>)), rest)"
  "parse_loop (a, Some (CmdSymbolicate y), spell style ''--elf'' v @ rest) =
     parse_loop (a, Some (CmdSymbolicate (y\<lparr>sa_elf := Some v\<rparr>)), rest)"
  "parse_loop (a, Some (CmdEvents e), spell style ''--file'' v @ rest) =
     parse_loop (a, Some (CmdEvents (e\<lparr>va_file := Some v\<rparr>)), rest)"
  by (rule loop_spell loop_flag; simp add: option_defs)+

lemma number_read: "parse_u64 (show_nat (unat (n::u64))) = Some (unat n)"
  using unsigned_less [of n] by (intro parse_show_nat) simp

lemma loop_numbers:
  "parse_loop (a, Some (CmdBuild b), spell style ''--timeout-ms'' (show_nat (unat n)) @ rest) =
     parse_loop (a, Some (CmdBuild (b\<lparr>ba_timeout_ms := Some n\<rparr>)), rest)"
  "parse_loop (a, Some (CmdRun r), spell style ''--timeout-ms'' (show_nat (unat n)) @ rest) =
     parse_loop (a, Some (CmdRun (r\<lparr>ra_timeout_ms := Some n\<rparr>)), rest)"
  "parse_loop (a, Some (CmdRun r), spell style ''--cancel-after-ms'' (show_nat (unat n)) @ rest) =
     parse_loop (a, Some (CmdRun (r\<lparr>ra_cancel_after_ms := Some n\<rparr>)), rest)"
  by (rule loop_spell; simp add: option_defs number_read)+

lemma loop_targets:
  "parse_loop (a, Some (CmdBuild b), concat (map (spell style ''--target'') ts) @ rest) =
     parse_loop (a, Some (CmdBuild (b\<lparr>ba_targets := ba_targets b @ ts\<rparr>)), rest)"
  by (induction ts arbitrary: b) (simp_all add: loop_text)

lemmas loop_spelled = loop_help loop_common loop_text loop_numbers loop_targets

lemma parse_print_command:
  "(case command_of_token (command_str c) of None \<Rightarrow> False
    | Some c0 \<Rightarrow> parse_loop (a, Some c0, print_command style c) = Inr (a\<lparr>ca_command := Some c\<rparr>))"
proof (cases c)
  case (CmdBuild b)
  show ?thesis
    unfolding CmdBuild
    by (cases b; cases "ba_timeout_ms b")
      (simp_all add: command_of_token_def build_args_default_def spell_number_def spell_opt_def loop_spelled
        loop_numbers [where rest = "[]", simplified] loop_targets [where rest = "[]", simplified])
next
  case (CmdRun r)
  show ?thesis
    unfolding CmdRun
    by (cases r; cases "ra_timeout_ms r"; cases "ra_cancel_after_ms r")
      (simp_all add: command_of_token_def run_args_default_def spell_number_def spell_opt_def spell_flag_def loop_spelled
        loop_numbers [where rest = "[]", simplified])
next
  case (CmdSymbolicate y)
  show ?thesis
    unfolding CmdSymbolicate
    by (cases y; cases "sa_rip y"; cases "sa_from_log y"; cases "sa_elf y")
      (simp_all add: command_of_token_def symbolicate_args_default_def spell_opt_def loop_spelled
        loop_text [where rest = "[]", simplified])
next
  case (CmdEvents e)
  show ?thesis
    unfolding CmdEvents
    by (cases e; cases "va_file e")
      (simp_all add: command_of_token_def events_args_default_def spell_opt_def loop_text [where rest = "[]", simplified])
qed (simp add: command_of_token_def)

lemma parse_print_common:
  "parse_loop (cli_args_default, None, print_common style a @ rest) = parse_loop (a\<lparr>ca_command := None\<rparr>, None, rest)"
  by (cases a; cases "ca_record a"; cases "ca_op_id a")
    (simp_all add: print_common_def spell_opt_def spell_flag_def loop_spelled cli_args_default_def)

text \<open>
  C36. Every command line is what it says: for all arguments and all values in them, whatever they hold, the
  line that spells them, each option with an equals sign or with a token of its own, is parsed back to exactly
  these arguments. So every combination of the subcommands and their options can be given.
\<close>

theorem command_line_roundtrip: "parse_args (print_args style a) = Inr a"
proof (cases "ca_command a")
  case None
  then show ?thesis using parse_print_common [of style a "[]"] by (cases a) (simp add: parse_args_def print_args_def)
next
  case (Some c)
  then show ?thesis
    using parse_print_command [where c = c and a = "a\<lparr>ca_command := None\<rparr>" and style = style]
    by (cases a) (simp add: parse_args_def print_args_def parse_print_common loop_command split: option.splits)
qed

end
