(* ===== verification/Cli_Env.thy ===== *)
theory Cli_Env
  imports Rust_Path
begin

section \<open>The environment of the command line\<close>

text \<open>
  Models \<^verbatim>\<open>crates/princess-cli/src/env.rs\<close>: where the tools of the workspace are, and the variables the
  processes it starts are given. The host is a parameter: its variables, the working directory, the
  files, and what running a program prints. Facts: the search path handed on.
\<close>

record cli_tool =
  ct_name :: string
  ct_exe :: string
  ct_version_args :: "string list"
  ct_required :: bool

definition tool_row :: "string \<Rightarrow> string \<Rightarrow> string \<Rightarrow> bool \<Rightarrow> cli_tool" where
  "tool_row name exe arg required = \<lparr>ct_name = name, ct_exe = exe, ct_version_args = [arg], ct_required = required\<rparr>"

definition TOOLS :: "cli_tool list" where
  "TOOLS =
     [tool_row ''cargo'' ''cargo'' ''--version'' True,
      tool_row ''rustc'' ''rustc'' ''--version'' True,
      tool_row ''rustfmt'' ''rustfmt'' ''--version'' True,
      tool_row ''clippy'' ''cargo-clippy'' ''--version'' True,
      tool_row ''qemu-system-x86_64'' ''qemu-system-x86_64'' ''--version'' True,
      tool_row ''nasm'' ''nasm'' ''-v'' True,
      tool_row ''clang'' ''clang'' ''--version'' True,
      tool_row ''clangd'' ''clangd'' ''--version'' True,
      tool_row ''ld.lld'' ''ld.lld'' ''--version'' True,
      tool_row ''gdb'' ''gdb'' ''--version'' True,
      tool_row ''xorriso'' ''xorriso'' ''--version'' True,
      tool_row ''mtools'' ''mformat'' ''--version'' True,
      tool_row ''grub-mkrescue'' ''grub-mkrescue'' ''--version'' True,
      tool_row ''gcc'' ''gcc'' ''--version'' True,
      tool_row ''ld'' ''ld'' ''--version'' True,
      tool_row ''objdump'' ''objdump'' ''--version'' True,
      tool_row ''addr2line'' ''addr2line'' ''--version'' True,
      tool_row ''readelf'' ''readelf'' ''--version'' True,
      tool_row ''nm'' ''nm'' ''--version'' True,
      tool_row ''make'' ''make'' ''--version'' True,
      tool_row ''cmake'' ''cmake'' ''--version'' False]"

text \<open>
  What a program that could be started gave. It is started with the variables given, or with those of the
  engine itself.
\<close>

record reply =
  ry_success :: bool
  ry_code :: "int option"
  ry_stdout :: string
  ry_stderr :: string

record child_env =
  ce_path :: string
  ce_ld_library_path :: "string option"

record cli_host =
  ho_var :: environment
  ho_cwd :: "string option"
  ho_manifest_dir :: string
  ho_is_file :: "string \<Rightarrow> bool"
  ho_is_dir :: "string \<Rightarrow> bool"
  ho_executable :: "string \<Rightarrow> bool"
  ho_run :: "child_env option \<Rightarrow> string \<Rightarrow> string list \<Rightarrow> string + reply"

record cli_toolchain =
  cx_workspace_root :: "string option"
  cx_env :: child_env
  cx_qemu_data :: "string option"

subsection \<open>Search paths\<close>

text \<open>Paths are equal when their components are.\<close>

fun keep_once :: "path_component list list \<Rightarrow> string list \<Rightarrow> string list" where
  "keep_once seen [] = []"
| "keep_once seen (dir # dirs) =
     (if components dir \<in> set seen then keep_once seen dirs
      else dir # keep_once (seen @ [components dir]) dirs)"

definition join_paths :: "string list \<Rightarrow> string \<Rightarrow> string" where
  "join_paths prefix inherited =
     (let parts = keep_once [] (prefix @ split_char CHR '':'' inherited)
      in if list_ex (\<lambda>dir. CHR '':'' \<in> set dir) parts then inherited else join '':'' parts)"

text \<open>
  The directory with \<^verbatim>\<open>scripts/env.sh\<close> nearest above a start. The list of the roots found loses equal
  neighbours only, which leaves its first element.
\<close>

definition has_env_script :: "cli_host \<Rightarrow> string \<Rightarrow> bool" where
  "has_env_script h dir = ho_is_file h (path_join (path_join dir ''scripts'') ''env.sh'')"

definition workspace_roots :: "cli_host \<Rightarrow> string \<Rightarrow> string list" where
  "workspace_roots h project_root =
     (let found = List.map_filter (\<lambda>start. find (has_env_script h) (parents start))
                    [absolute (ho_cwd h) project_root, ho_manifest_dir h]
      in case ho_var h ''PRINCESSIDE_ROOT'' of
           None \<Rightarrow> found
         | Some explicit \<Rightarrow>
             if has_env_script h (absolute (ho_cwd h) explicit) then absolute (ho_cwd h) explicit # found else found)"

definition bin_dirs :: "string \<Rightarrow> string list" where
  "bin_dirs root =
     (let tools = path_join root ''.toolchain''; prefix = path_join tools ''prefix''
      in [path_join (path_join tools ''cargo'') ''bin'', path_join prefix ''usr/lib/llvm-14/bin'',
          path_join prefix ''usr/bin'', path_join prefix ''bin'', path_join prefix ''usr/sbin''])"

definition lib_dirs :: "string \<Rightarrow> string list" where
  "lib_dirs root =
     (let prefix = path_join (path_join root ''.toolchain'') ''prefix''
      in [path_join prefix ''usr/lib/x86_64-linux-gnu'', path_join prefix ''lib/x86_64-linux-gnu'',
          path_join prefix ''usr/lib'', path_join prefix ''lib'', path_join prefix ''usr/lib/llvm-14/lib''])"

definition discover_with_qemu_hint :: "cli_host \<Rightarrow> string \<Rightarrow> string option \<Rightarrow> cli_toolchain" where
  "discover_with_qemu_hint h project_root qemu_hint =
     (let root = (case workspace_roots h project_root of [] \<Rightarrow> None | r # _ \<Rightarrow> Some r);
          hint = (case map_option (absolute (ho_cwd h)) qemu_hint of
                    None \<Rightarrow> None | Some dir \<Rightarrow> if ho_is_dir h dir then Some dir else None);
          path_parts = (case root of None \<Rightarrow> [] | Some r \<Rightarrow> filter (ho_is_dir h) (bin_dirs r));
          ld_parts = (case root of None \<Rightarrow> [] | Some r \<Rightarrow> filter (ho_is_dir h) (lib_dirs r));
          own_data = (case root of
                        None \<Rightarrow> None
                      | Some r \<Rightarrow>
                          let dir = path_join (path_join (path_join r ''.toolchain'') ''prefix'') ''usr/share/qemu''
                          in if ho_is_dir h dir then Some dir else None)
      in \<lparr>cx_workspace_root = root,
          cx_env = \<lparr>ce_path = join_paths path_parts (unwrap_or [] (ho_var h ''PATH'')),
                    ce_ld_library_path =
                      (if ld_parts = [] then None
                       else Some (join_paths ld_parts (unwrap_or [] (ho_var h ''LD_LIBRARY_PATH''))))\<rparr>,
          cx_qemu_data = (case hint of None \<Rightarrow> own_data | Some dir \<Rightarrow> Some dir)\<rparr>)"

definition discover_toolchain :: "cli_host \<Rightarrow> string \<Rightarrow> cli_toolchain" where
  "discover_toolchain h project_root = discover_with_qemu_hint h project_root (ho_var h ''PRINCESSIDE_QEMU_DATA'')"

subsection \<open>Tools\<close>

definition cli_which :: "cli_host \<Rightarrow> cli_toolchain \<Rightarrow> string \<Rightarrow> string option" where
  "cli_which h tc exe =
     (if CHR ''/'' \<in> set exe then (if ho_is_file h exe then Some exe else None)
      else find (ho_executable h) (map (\<lambda>dir. path_join dir exe) (split_char CHR '':'' (ce_path (cx_env tc)))))"

definition cli_version :: "cli_host \<Rightarrow> cli_toolchain \<Rightarrow> string \<Rightarrow> string list \<Rightarrow> string option" where
  "cli_version h tc exe args =
     Option.bind (cli_which h tc exe) (\<lambda>path.
     Option.bind (ok (ho_run h (Some (cx_env tc)) path args)) (\<lambda>out.
       let txt = from_utf8_lossy (ry_stdout out);
           shown = (if str_trim txt = [] then from_utf8_lossy (ry_stderr out) else txt)
       in find (\<lambda>l. l \<noteq> []) (map str_trim (str_lines shown))))"

definition cli_detect_one :: "cli_host \<Rightarrow> cli_toolchain \<Rightarrow> cli_tool \<Rightarrow> tool_info" where
  "cli_detect_one h tc t =
     (let path = cli_which h tc (ct_exe t); available = (path \<noteq> None)
      in \<lparr>ti_name = ct_name t, ti_path = path,
          ti_version = (if available then cli_version h tc (ct_exe t) (ct_version_args t) else None),
          ti_available = available, ti_required = ct_required t\<rparr>)"

definition cli_detect :: "cli_host \<Rightarrow> cli_toolchain \<Rightarrow> tool_info list" where
  "cli_detect h tc = map (cli_detect_one h tc) TOOLS"

subsection \<open>Facts: search paths\<close>

text \<open>Without the variable, the search path ends with an empty entry, which is the current directory.\<close>

lemma empty_entry: "join_paths [''/w/lib''] [] = ''/w/lib:''"
  by code_simp

lemma keep_once_components:
  "distinct (map components (keep_once seen dirs)) \<and>
   components ` set (keep_once seen dirs) = components ` set dirs - set seen"
  by (induction dirs arbitrary: seen) auto

lemma keep_once_append:
  "keep_once seen (xs @ ys) = keep_once seen xs @ keep_once (seen @ map components (keep_once seen xs)) ys"
  by (induction xs arbitrary: seen) simp_all

lemma keep_once_seen: "components ` set xs \<subseteq> set seen \<Longrightarrow> keep_once seen xs = []"
  by (induction xs) auto

lemma keep_once_new:
  "distinct (map components xs) \<Longrightarrow> components ` set xs \<inter> set seen = {} \<Longrightarrow> keep_once seen xs = xs"
  by (induction xs arbitrary: seen) auto

lemma keep_once_set: "set (keep_once seen dirs) \<subseteq> set dirs"
  by (induction dirs arbitrary: seen) auto

lemma keep_once_again: "keep_once [] (prefix @ keep_once [] (prefix @ dirs)) = keep_once [] (prefix @ dirs)"
proof -
  let ?p = "keep_once [] prefix"
  let ?q = "keep_once (map components ?p) dirs"
  have split: "keep_once [] (prefix @ dirs) = ?p @ ?q"
    by (simp add: keep_once_append)
  have "keep_once (map components ?p) (?p @ ?q) = keep_once (map components ?p) ?q"
    using keep_once_seen [of ?p "map components ?p"] by (simp add: keep_once_append)
  also have "\<dots> = ?q"
    using keep_once_components [of "map components ?p" dirs] by (intro keep_once_new) auto
  finally show ?thesis unfolding split by (simp add: keep_once_append)
qed

lemma split_char_ne: "split_char c s \<noteq> []"
  by (cases s) (auto split: list.splits)

lemma split_char_join: "ds \<noteq> [] \<Longrightarrow> list_all (\<lambda>d. c \<notin> set d) ds \<Longrightarrow> split_char c (join [c] ds) = ds"
  by (induction "[c]" ds rule: join.induct) (simp_all add: split_char_none split_char_append)

text \<open>
  C37. The search path given to a process holds every directory once: for all directories of the workspace
  without a colon in them and every inherited path, its entries are the workspace's and the inherited ones,
  no two of which are the same path, those of the workspace first; and giving it to an engine that
  prepares it again changes nothing.
\<close>

theorem search_path_once:
  assumes "list_all (\<lambda>d. CHR '':'' \<notin> set d) prefix"
  shows "let dirs = split_char CHR '':'' (join_paths prefix inherited)
    in distinct (map components dirs) \<and>
       components ` set dirs = components ` (set prefix \<union> set (split_char CHR '':'' inherited)) \<and>
       take (length (keep_once [] prefix)) dirs = keep_once [] prefix \<and>
       join_paths prefix (join_paths prefix inherited) = join_paths prefix inherited"
proof -
  let ?all = "prefix @ split_char CHR '':'' inherited"
  let ?kept = "keep_once [] ?all"
  have clean: "list_all (\<lambda>d. CHR '':'' \<notin> set d) ?kept"
    using keep_once_set [of "[]" ?all] assms by (auto simp: list_all_iff dest: split_char_pieces)
  then have join: "join_paths prefix inherited = join '':'' ?kept"
    by (auto simp: join_paths_def list_all_iff list_ex_iff)
  have "?kept \<noteq> []"
    using keep_once_components [of "[]" ?all] split_char_ne [of "CHR '':''" inherited] by auto
  then have split: "split_char CHR '':'' (join_paths prefix inherited) = ?kept"
    unfolding join using clean by (rule split_char_join)
  have "join_paths prefix (join_paths prefix inherited) = join_paths prefix inherited"
    unfolding join_paths_def [of prefix "join_paths prefix inherited"] split keep_once_again
    using clean by (simp add: join list_all_iff list_ex_iff)
  then show ?thesis
    unfolding split Let_def using keep_once_components [of "[]" ?all] by (auto simp: keep_once_append)
qed

theorem search_path_once_witness:
  "split_char CHR '':'' (join_paths [''/w/bin''] ''/bin:/w/bin/:/bin'') = [''/w/bin'', ''/bin''] \<and>
   join_paths [''/w/bin''] (join_paths [''/w/bin''] ''/bin:/w/bin/:/bin'') = join_paths [''/w/bin''] ''/bin:/w/bin/:/bin''"
proof -
  have "list_all (\<lambda>d. CHR '':'' \<notin> set d) [''/w/bin'']" by simp
  from search_path_once [OF this, of "''/bin:/w/bin/:/bin''"]
  have "join_paths [''/w/bin''] (join_paths [''/w/bin''] ''/bin:/w/bin/:/bin'') = join_paths [''/w/bin''] ''/bin:/w/bin/:/bin''"
    by (simp add: Let_def)
  moreover have "split_char CHR '':'' (join_paths [''/w/bin''] ''/bin:/w/bin/:/bin'') = [''/w/bin'', ''/bin'']"
    by code_simp
  ultimately show ?thesis by blast
qed

end
