(* ===== verification/Cli_Project.thy ===== *)
theory Cli_Project
  imports Cli_Env Build_Artifacts
begin

section \<open>Projects and symbols of the command line\<close>

text \<open>
  Models \<^verbatim>\<open>crates/princess-cli/src/project.rs\<close> and \<^verbatim>\<open>symbolize.rs\<close>: opening a project, choosing what to
  boot, and asking \<^verbatim>\<open>addr2line\<close>, \<^verbatim>\<open>nm\<close> and \<^verbatim>\<open>readelf\<close>. The programs, the files, the TOML parser and the hash
  function are parameters. Facts: what is booted exists; a location is what \<^verbatim>\<open>addr2line\<close> printed.
\<close>

subsection \<open>Projects\<close>

record cli_project =
  px_loaded :: loaded_config
  px_resolved :: resolved_project
  px_toolchain :: cli_toolchain

definition open_project ::
  "(string \<Rightarrow> toml_error + project_config) \<Rightarrow> file_system \<Rightarrow> cli_host \<Rightarrow> string \<Rightarrow> princess_error + cli_project" where
  "open_project from_str fs h dir =
     and_then (load_or_default from_str fs dir) (\<lambda>loaded.
       let resolved = resolve_project (ho_var h) (ho_cwd h) (lc_config loaded) (lc_root loaded)
       in Inr \<lparr>px_loaded = loaded, px_resolved = resolved, px_toolchain = discover_toolchain h (rp_root resolved)\<rparr>)"

definition source_note :: "cli_project \<Rightarrow> string" where
  "source_note p =
     (case lc_source (px_loaded p) of
        SourceManifest path \<Rightarrow> ''config: '' @ path
      | SourceDefaults reason \<Rightarrow> ''config: '' @ reason)"

text \<open>\<open>min_by_key\<close>: the first of the least.\<close>

fun least_first :: "('a \<Rightarrow> nat) \<Rightarrow> 'a list \<Rightarrow> 'a option" where
  "least_first f [] = None"
| "least_first f (x # xs) =
     (case least_first f xs of None \<Rightarrow> Some x | Some y \<Rightarrow> Some (if f y < f x then y else x))"

definition existing :: "(string \<Rightarrow> bool) \<Rightarrow> string option \<Rightarrow> string option" where
  "existing is_file path = (case path of None \<Rightarrow> None | Some p \<Rightarrow> if is_file p then Some p else None)"

definition kernel_elf :: "(string \<Rightarrow> bool) \<Rightarrow> cli_project \<Rightarrow> artifact list \<Rightarrow> string option" where
  "kernel_elf is_file p artifacts =
     (case existing is_file (rp_kernel (px_resolved p)) of
        Some chosen \<Rightarrow> Some chosen
      | None \<Rightarrow>
          (case least_first (\<lambda>a. length (components (af_path a)))
                  (filter (\<lambda>a. af_kind a = ArtElf \<and> is_file (af_path a)) artifacts) of
             Some elf \<Rightarrow> Some (af_path elf)
           | None \<Rightarrow> existing is_file (rp_symbols (px_resolved p))))"

definition boot_medium_of :: "(string \<Rightarrow> bool) \<Rightarrow> cli_project \<Rightarrow> artifact list \<Rightarrow> princess_error + boot_medium" where
  "boot_medium_of is_file p artifacts =
     (case existing is_file (map_option af_path (find (\<lambda>a. af_kind a = ArtIso) artifacts)) of
        Some path \<Rightarrow> Inr (MediumIso path)
      | None \<Rightarrow>
          (case existing is_file (map_option af_path (find (\<lambda>a. af_kind a = ArtImage) artifacts)) of
             Some path \<Rightarrow> Inr (MediumDisk path)
           | None \<Rightarrow>
               (case kernel_elf is_file p artifacts of
                  Some elf \<Rightarrow> Inr (MediumKernel elf)
                | None \<Rightarrow>
                    Inl (new_error NotFound (''no bootable artifact in '' @ rp_root (px_resolved p) @
                      '': build the project first (looked for an ISO, a raw image and an ELF)'')))))"

text \<open>The scan for artifacts is the one of the build crate, constant for constant.\<close>

definition discover_artifacts ::
  "(string \<Rightarrow> u8 list) \<Rightarrow> artifact_fs \<Rightarrow> string \<Rightarrow> string list \<Rightarrow> nat option \<Rightarrow> artifact list" where
  "discover_artifacts digest fs root declared newer_than = discover digest fs root declared newer_than"

subsection \<open>Symbols\<close>

record cli_symbolizer =
  yz_elf :: string
  yz_addr2line :: string
  yz_nm :: "string option"
  yz_readelf :: "string option"

definition symbolizer_new :: "cli_host \<Rightarrow> cli_toolchain \<Rightarrow> string \<Rightarrow> princess_error + cli_symbolizer" where
  "symbolizer_new h tc elf =
     (if \<not> ho_is_file h elf then Inl (new_error NotFound (''no ELF with debug info at '' @ elf))
      else case cli_which h tc ''addr2line'' of
        None \<Rightarrow> Inl (new_error ToolchainMissing (''addr2line is required to symbolicate a fault RIP but is not on PATH '' @
                  ''(run `bash scripts/doctor.sh` to see what is missing)''))
      | Some addr2line \<Rightarrow>
          Inr \<lparr>yz_elf = elf, yz_addr2line = addr2line, yz_nm = cli_which h tc ''nm'', yz_readelf = cli_which h tc ''readelf''\<rparr>)"

text \<open>The tools are started with the variables of the engine, not with those of the toolchain.\<close>

definition run_tool :: "cli_host \<Rightarrow> string \<Rightarrow> string list \<Rightarrow> princess_error + string" where
  "run_tool h program args =
     (case ho_run h None program args of
        Inl err \<Rightarrow> Inl (new_error ToolchainMissing (''cannot run '' @ program @ '': '' @ err))
      | Inr out \<Rightarrow>
          if \<not> ry_success out then
            Inl (with_detail (internal_error (program @ '' exited with '' @
                   (case ry_code out of None \<Rightarrow> ''signal'' | Some c \<Rightarrow> show_int c)))
                 (str_trim (from_utf8_lossy (ry_stderr out))))
          else Inr (from_utf8_lossy (ry_stdout out)))"

definition symbol_hex :: "u64 \<Rightarrow> string" where
  "symbol_hex address = ''0x'' @ pad_left 16 CHR ''0'' (show_hex (unat address))"

definition raw_lookup :: "cli_host \<Rightarrow> cli_symbolizer \<Rightarrow> u64 \<Rightarrow> princess_error + string" where
  "raw_lookup h y address = run_tool h (yz_addr2line y) [''-f'', ''-C'', ''-e'', yz_elf y, symbol_hex address]"

text \<open>A path that is not absolute is resolved next to the image.\<close>

definition next_to_image :: "string \<Rightarrow> string \<Rightarrow> string" where
  "next_to_image elf file =
     (if is_absolute file then file else normalize (path_join (unwrap_or ''.'' (path_parent elf)) file))"

definition parse_addr2line :: "string \<Rightarrow> string \<Rightarrow> symbolicated_location option" where
  "parse_addr2line txt elf =
     (case filter (\<lambda>l. str_trim l \<noteq> []) (str_lines txt) of
        first # second # _ \<Rightarrow>
          (let symbol = str_trim first
           in if symbol = ''??'' \<or> symbol = [] then None
              else case rsplit_once CHR '':'' (str_trim second) of
                None \<Rightarrow> None
              | Some (file, line) \<Rightarrow>
                  (case parse_u32 (str_trim line) of
                     None \<Rightarrow> None
                   | Some n \<Rightarrow>
                       if str_trim file = ''??'' \<or> n = 0 then None
                       else Some \<lparr>sy_symbol = symbol, sy_file = next_to_image elf (str_trim file), sy_line = n\<rparr>))
      | _ \<Rightarrow> None)"

definition lookup_symbol :: "cli_host \<Rightarrow> cli_symbolizer \<Rightarrow> u64 \<Rightarrow> princess_error + symbolicated_location option" where
  "lookup_symbol h y address =
     and_then (raw_lookup h y address) (\<lambda>txt. Inr (parse_addr2line txt (yz_elf y)))"

definition counts_as_symbol :: "string \<Rightarrow> bool" where
  "counts_as_symbol line =
     (case split_whitespace line of [] \<Rightarrow> False | token # _ \<Rightarrow> token \<noteq> [] \<and> list_all is_hex_digit token)"

definition symbol_count :: "cli_host \<Rightarrow> cli_symbolizer \<Rightarrow> u64 option" where
  "symbol_count h y =
     Option.bind (yz_nm y) (\<lambda>nm.
     Option.bind (ok (run_tool h nm [yz_elf y])) (\<lambda>txt.
       Some (word_of_nat (length (filter counts_as_symbol (str_lines txt))))))"

definition build_id_of :: "cli_host \<Rightarrow> cli_symbolizer \<Rightarrow> string option" where
  "build_id_of h y =
     Option.bind (yz_readelf y) (\<lambda>readelf.
     Option.bind (ok (run_tool h readelf [''-n'', yz_elf y])) (\<lambda>txt.
       find_map (\<lambda>l. map_option str_trim (strip_prefix ''Build ID:'' (str_trim l))) (str_lines txt)))"

subsection \<open>Facts\<close>

lemma existing_Some [simp]: "existing is_file p = Some q \<longleftrightarrow> p = Some q \<and> is_file q"
  by (auto simp: existing_def split: option.splits if_splits)

lemma least_first_in: "least_first f xs = Some x \<Longrightarrow> x \<in> set xs \<and> (\<forall>y \<in> set xs. f x \<le> f y)"
proof (induction xs arbitrary: x)
  case (Cons a xs)
  show ?case
  proof (cases "least_first f xs")
    case None
    then have "xs = []" by (cases xs) (auto split: option.splits)
    with Cons None show ?thesis by simp
  next
    case (Some y)
    with Cons.IH [OF Some] Cons.prems show ?thesis by (auto split: if_splits)
  qed
qed simp

lemma kernel_elf_exists: "kernel_elf is_file p artifacts = Some elf \<Longrightarrow> is_file elf"
  by (auto simp: kernel_elf_def dest: least_first_in split: option.splits)

text \<open>What is booted exists; nothing to boot is an error, never an empty path.\<close>

lemma boots_what_exists:
  "case boot_medium_of is_file p artifacts of
     Inr m \<Rightarrow> is_file (medium_path m)
   | Inl e \<Rightarrow> pe_code e = NotFound \<and> kernel_elf is_file p artifacts = None"
  by (auto simp: boot_medium_of_def new_error_def intro: kernel_elf_exists split: option.splits)

text \<open>A location that is reported has a line and, for an image with an absolute path, an absolute file.\<close>

lemma location_absolute:
  assumes "parse_addr2line txt elf = Some l" and "is_absolute elf" "path_parent elf = Some dir"
  shows "is_absolute (sy_file l) \<and> 0 < sy_line l \<and> sy_symbol l \<noteq> ''??''"
proof -
  have "is_absolute (next_to_image elf f)" for f
    using assms(2,3) path_parent_absolute
    by (simp add: next_to_image_def unwrap_or_def normalize_absolute path_join_absolute)
  then show ?thesis
    using assms(1) by (auto simp: parse_addr2line_def Let_def word_neq_0_conv split: list.splits option.splits if_splits prod.splits)
qed

end
