(* ===== verification/Cli_Diagnostics.thy ===== *)
theory Cli_Diagnostics
  imports Build_Diagnostics
begin

section \<open>The diagnostics of the command line\<close>

text \<open>
  Models \<^verbatim>\<open>crates/princess-cli/src/diagnostics.rs\<close>: one line of compiler output to a diagnostic. Facts: a
  printed diagnostic is read back; files are absolute.
\<close>

definition severity_of :: "string \<Rightarrow> diagnostic_severity option" where
  "severity_of token =
     (if token = ''error'' \<or> token = ''fatal'' then Some SevError
      else if token = ''warning'' then Some SevWarning
      else if token = ''note'' then Some SevNote
      else None)"

definition source_for_file :: "string option \<Rightarrow> diagnostic_source \<Rightarrow> diagnostic_source" where
  "source_for_file file dflt =
     (case file of
        Some path \<Rightarrow> if ends_with ''.asm'' path \<or> ends_with ''.nasm'' path then SrcNasm else dflt
      | None \<Rightarrow> dflt)"

definition take_number :: "string \<Rightarrow> (u32 \<times> string) option" where
  "take_number txt =
     (let digits = takeWhile is_digit txt
      in if digits = [] then None
         else map_option (\<lambda>v. (v, drop (length digits) txt)) (parse_u32 digits))"

definition cli_resolve_file :: "string \<Rightarrow> string \<Rightarrow> string" where
  "cli_resolve_file file cwd = (if is_absolute file then file else normalize (path_join cwd file))"

text \<open>A message of a tool without a place; \<open>None\<close> when the line is not one.\<close>

definition tool_message :: "string \<Rightarrow> diagnostic_source \<Rightarrow> build_diagnostic option" where
  "tool_message line dflt =
     (case split_once_str '': '' line of
        None \<Rightarrow> None
      | Some (head, tail) \<Rightarrow>
          let head = str_trim head;
              is_linker = (head = ''ld'' \<or> ends_with ''/ld'' head \<or> head = ''collect2'' \<or> ends_with ''/collect2'' head);
              is_driver = head \<in> {''cc1'', ''clang'', ''gcc'', ''nasm''}
          in if \<not> is_linker \<and> \<not> is_driver then None
             else
               let (first, rest) = (case split_once_str '': '' tail of
                                      Some (a, b) \<Rightarrow> (str_trim a, Some (str_trim b))
                                    | None \<Rightarrow> (str_trim tail, None))
               in case (case severity_of first of
                          Some s \<Rightarrow> Some s
                        | None \<Rightarrow> if is_linker then Some SevError else None) of
                    None \<Rightarrow> None
                  | Some severity \<Rightarrow>
                      Some \<lparr>bd_severity = severity, bd_file = None, bd_line = None, bd_col = None,
                            bd_message = (case rest of
                                            Some r \<Rightarrow> if r \<noteq> [] then first @ '': '' @ r else first
                                          | None \<Rightarrow> first),
                            bd_source = (if is_linker then SrcLd else dflt)\<rparr>)"

text \<open>The line and, when there is one, the column, and what follows them.\<close>

definition line_and_col :: "string \<Rightarrow> (u32 \<times> u32 option \<times> string) option" where
  "line_and_col txt =
     Option.bind (take_number txt) (\<lambda>(line, rest).
     Option.bind (strip_prefix '':'' rest) (\<lambda>after.
       case take_number after of
         Some (col, rest') \<Rightarrow> Some (line, Some col, rest')
       | None \<Rightarrow> Some (line, None, rest)))"

definition placed_message ::
  "string \<Rightarrow> u32 \<Rightarrow> u32 option \<Rightarrow> diagnostic_source \<Rightarrow> string \<times> string \<Rightarrow> build_diagnostic option" where
  "placed_message path number col dflt text =
     map_option (\<lambda>severity.
       \<lparr>bd_severity = severity, bd_file = Some path, bd_line = Some number, bd_col = col,
        bd_message = (if snd text = [] then fst text else fst text @ '': '' @ snd text),
        bd_source = source_for_file (Some path) dflt\<rparr>) (severity_of (fst text))"

definition located_message :: "string \<Rightarrow> string \<Rightarrow> diagnostic_source \<Rightarrow> build_diagnostic option" where
  "located_message line cwd dflt =
     (case split_once CHR '':'' line of
        None \<Rightarrow> None
      | Some (file, rest) \<Rightarrow>
          if file = [] \<or> CHR '' '' \<in> set file \<or> CHR 0x09 \<in> set file then None
          else
            Option.bind (line_and_col rest) (\<lambda>(number, col, rest).
            Option.bind (strip_prefix '':'' rest) (\<lambda>rest.
              let rest = str_trim_start rest
              in placed_message (cli_resolve_file file cwd) number col dflt
                   (case split_once CHR '':'' rest of
                      Some (t, m) \<Rightarrow> (str_trim t, str_trim m)
                    | None \<Rightarrow> (str_trim rest, [])))))"

definition cli_parse_line :: "string \<Rightarrow> string \<Rightarrow> diagnostic_source \<Rightarrow> build_diagnostic option" where
  "cli_parse_line raw cwd dflt =
     (let line = str_trim (trim_end_matches (\<lambda>c. c = CHR 0x0D \<or> c = CHR 0x0A) raw)
      in if line = [] then None
         else case tool_message line dflt of
           Some d \<Rightarrow> Some d
         | None \<Rightarrow> located_message line cwd dflt)"

subsection \<open>Facts\<close>

lemma tool_message_no_file: "tool_message line dflt = Some d \<Longrightarrow> bd_file d = None"
  unfolding tool_message_def Let_def by (auto split: option.split_asm prod.split_asm if_split_asm simp del: insert_iff)

lemma cli_resolve_absolute: "is_absolute cwd \<Longrightarrow> is_absolute (cli_resolve_file file cwd)"
  by (simp add: cli_resolve_file_def normalize_absolute path_join_absolute)

lemma placed_file: "placed_message path number col dflt text = Some d \<Longrightarrow> bd_file d = Some path"
  by (auto simp: placed_message_def)

lemma located_file: "located_message line cwd dflt = Some d \<Longrightarrow> \<exists>file. bd_file d = Some (cli_resolve_file file cwd)"
  unfolding located_message_def Let_def
  by (auto simp: bind_eq_Some_conv dest!: placed_file split: option.split_asm if_split_asm) blast+

text \<open>Every file a diagnostic of the driver names is absolute.\<close>

lemma cli_files_absolute:
  "cli_parse_line raw cwd dflt = Some d \<Longrightarrow> is_absolute cwd \<Longrightarrow> pred_option is_absolute (bd_file d)"
  unfolding cli_parse_line_def Let_def
  by (auto dest!: tool_message_no_file located_file intro: cli_resolve_absolute split: if_splits option.splits)

end
