(* ===== verification/Cli_Build.thy ===== *)
theory Cli_Build
  imports Cli_Project Cli_Diagnostics Event_Sink Process_Runner
begin

section \<open>Builds of the command line\<close>

text \<open>
  Models \<^verbatim>\<open>crates/princess-cli/src/build.rs\<close> and \<^verbatim>\<open>proc.rs\<close>: planning a build, the loop that reads the two
  pipes of its process and enforces deadline and cancellation, and the end of the build. The
  asynchronous \<open>select!\<close> is a script of what it selected; a script that ends leaves the loop running. The
  sink is the state, the process, the clock and the files are parameters.
\<close>

subsection \<open>Process groups\<close>

definition cli_kill_group :: "u32 \<Rightarrow> kill_result \<Rightarrow> princess_error + unit" where
  "cli_kill_group pgid rc =
     (if pgid = 0 then Inl (internal_error ''refusing to signal process group 0 (would signal this process)'')
      else case rc of
        KillOk \<Rightarrow> Inr ()
      | KillNoSuchProcess \<Rightarrow> Inr ()
      | KillFailed err \<Rightarrow>
          Inl (new_error Internal (''cannot signal process group '' @ show_nat (unat pgid) @ '': '' @ err)))"

text \<open>The answers to the two signals, and whether the group was alive each time it was looked at.\<close>

record kill_answers =
  kl_term :: kill_result
  kl_after_term :: "bool list"
  kl_kill :: kill_result
  kl_after_kill :: "bool list"

definition kill_group_and_wait :: "u32 \<Rightarrow> kill_answers \<Rightarrow> princess_error + unit" where
  "kill_group_and_wait pgid k =
     and_then (cli_kill_group pgid (kl_term k)) (\<lambda>_.
       if list_ex Not (take 20 (kl_after_term k)) then Inr ()
       else and_then (cli_kill_group pgid (kl_kill k)) (\<lambda>_.
         if list_ex Not (take 40 (kl_after_kill k)) then Inr ()
         else Inl (internal_error (''process group '' @ show_nat (unat pgid) @ '' still has survivors after SIGKILL''))))"

subsection \<open>Planning\<close>

record build_options =
  bp_targets :: "string list option"
  bp_timeout_ms :: "u64 option"

definition version_token :: "string \<Rightarrow> string option" where
  "version_token line =
     find (\<lambda>t. CHR ''.'' \<in> set t \<and> (case t of [] \<Rightarrow> False | c # _ \<Rightarrow> is_digit c) \<and>
               list_all (\<lambda>c. is_digit c \<or> c = CHR ''.'') t)
       (map (trim_matches (\<lambda>c. \<not> is_alnum c \<and> c \<noteq> CHR ''.'')) (split_whitespace line))"

definition cli_toolchain_id :: "cli_host \<Rightarrow> cli_project \<Rightarrow> string" where
  "cli_toolchain_id h p =
     (let config = rp_config (px_resolved p);
          backend = build_backend_str (bu_backend (cf_build config));
          cc = (case (tc_cc (cf_toolchain config), tc_assembler (cf_toolchain config)) of
                  (Some cc, _) \<Rightarrow> Some cc
                | (None, Some assembler) \<Rightarrow> Some assembler
                | (None, None) \<Rightarrow> None)
      in case cc of
           Some cc \<Rightarrow> backend @ ''+'' @ cc
         | None \<Rightarrow>
             backend @ ''+gcc-'' @
             unwrap_or ''unknown''
               (Option.bind (cli_version h (px_toolchain p) ''gcc'' [''--version'']) version_token))"

fun backend_argv :: "build_backend_kind \<Rightarrow> princess_error + string list" where
  "backend_argv BackMake = Inr [''make'']"
| "backend_argv BackCmake = Inr [''cmake'', ''--build'', ''.'']"
| "backend_argv BackCargo = Inr [''cargo'', ''build'']"
| "backend_argv BackZig = Inr [''zig'', ''build'']"
| "backend_argv BackJavac = Inr [''javac'']"
| "backend_argv BackCustom =
     Inl (invalid_config_error ''[build] backend = \"custom\" requires an explicit [build] command'')"

definition program_of :: "cli_host \<Rightarrow> cli_project \<Rightarrow> string \<Rightarrow> string option" where
  "program_of h p program =
     (if CHR ''/'' \<in> set program then
        existing (ho_is_file h)
          (Some (if is_absolute program then program else path_join (rp_build_cwd (px_resolved p)) program))
      else cli_which h (px_toolchain p) program)"

definition plan_cli_build :: "cli_host \<Rightarrow> cli_project \<Rightarrow> string list option \<Rightarrow> princess_error + build_plan" where
  "plan_cli_build h p targets =
     (let r = px_resolved p; backend = bu_backend (cf_build (rp_config r));
          base = (case rp_build_command r of
                    Some command \<Rightarrow>
                      if str_trim command \<noteq> [] then Inr (split_whitespace command) else backend_argv backend
                  | None \<Rightarrow> backend_argv backend);
          selected = (case targets of Some ts \<Rightarrow> ts | None \<Rightarrow> rp_targets r)
      in and_then base (\<lambda>argv0.
           let argv = argv0 @ (if backend = BackCmake then concat (map (\<lambda>t. [''--target'', t]) selected) else selected);
               program = (case argv of [] \<Rightarrow> [] | a # _ \<Rightarrow> a)
           in if program = [] then Inl (invalid_config_error ''empty build command'')
              else case program_of h p program of
                None \<Rightarrow>
                  Inl (new_error ToolchainMissing (''build tool `'' @ program @
                    ''` was not found (PATH, or a path relative to '' @ rp_build_cwd r @
                    ''); run `bash scripts/doctor.sh` or set [toolchain] in princess.toml''))
              | Some path \<Rightarrow>
                  Inr \<lparr>bl_backend = backend, bl_toolchain_id = cli_toolchain_id h p, bl_argv = path # tl argv,
                       bl_cwd = rp_build_cwd r, bl_env = Map.empty, bl_declared_artifacts = rp_declared_artifacts r,
                       bl_timeout_ms = None\<rparr>))"

subsection \<open>Output\<close>

text \<open>What the loop holds: the sink, both chunkers, and what it has seen. \<open>pu_armed\<close>: the deadline is still set.\<close>

record process_end =
  xe_code :: "int option"
  xe_signal :: "int option"

record 's pump =
  pu_sink :: 's
  pu_out :: chunker
  pu_err :: chunker
  pu_out_open :: bool
  pu_err_open :: bool
  pu_diagnostics :: "build_diagnostic list"
  pu_tail :: string
  pu_armed :: bool
  pu_timed_out :: bool
  pu_status :: "process_end option"

type_synonym ('s, 'a) pump_op = "('s pump, princess_error, 'a) op"

definition pump_start :: "bool \<Rightarrow> 's \<Rightarrow> 's pump" where
  "pump_start has_deadline s =
     \<lparr>pu_sink = s, pu_out = chunker_new, pu_err = chunker_new, pu_out_open = True, pu_err_open = True,
      pu_diagnostics = [], pu_tail = [], pu_armed = has_deadline, pu_timed_out = False, pu_status = None\<rparr>"

definition to_sink :: "('s, princess_error, 'a) op \<Rightarrow> ('s, 'a) pump_op" where
  "to_sink m p = (case m (pu_sink p) of (s, r) \<Rightarrow> (p\<lparr>pu_sink := s\<rparr>, r))"

definition set_pump :: "('s pump \<Rightarrow> 's pump) \<Rightarrow> ('s, unit) pump_op" where
  "set_pump f p = (f p, Inr ())"

definition OUTPUT_TAIL_LIMIT :: nat where "OUTPUT_TAIL_LIMIT = 8192"

definition trim_tail :: "string \<Rightarrow> string" where
  "trim_tail txt =
     (if length txt \<le> OUTPUT_TAIL_LIMIT then txt
      else drop (case find (\<lambda>i. length txt - OUTPUT_TAIL_LIMIT \<le> i \<and> char_boundary txt i) [0..<length txt] of
                   None \<Rightarrow> length txt | Some i \<Rightarrow> i) txt)"

definition emit_diagnostic :: "'s emitter \<Rightarrow> build_diagnostic \<Rightarrow> ('s, unit) pump_op" where
  "emit_diagnostic emit d =
     then_do (to_sink (emit (BuildDiagnostic d))) (\<lambda>_. set_pump (\<lambda>p. p\<lparr>pu_diagnostics := pu_diagnostics p @ [d]\<rparr>))"

definition cli_handle_chunk ::
  "'s emitter \<Rightarrow> string \<Rightarrow> diagnostic_source \<Rightarrow> string \<times> text_encoding \<Rightarrow> ('s, unit) pump_op" where
  "cli_handle_chunk emit cwd dflt chunk =
     then_do (to_sink (emit (LogAppend \<lparr>la_stream = StreamBuild, la_chunk = fst chunk, la_encoding = snd chunk\<rparr>))) (\<lambda>_.
     then_do (set_pump (\<lambda>p. p\<lparr>pu_tail := trim_tail (pu_tail p @ fst chunk)\<rparr>)) (\<lambda>_.
       each_do (\<lambda>line. case cli_parse_line line cwd dflt of
                   None \<Rightarrow> give ()
                 | Some d \<Rightarrow> emit_diagnostic emit d) (str_lines (fst chunk))))"

text \<open>All complete lines, one chunk after the other; or whatever there is.\<close>

function all_lines :: "chunker \<Rightarrow> (string \<times> text_encoding) list \<times> chunker" where
  "all_lines c =
     (case take_lines c of
        (None, c') \<Rightarrow> ([], c')
      | (Some chunk, c') \<Rightarrow> (case all_lines c' of (cs, c'') \<Rightarrow> (chunk # cs, c'')))"
  by pat_completeness auto
termination
  by (relation "measure (\<lambda>c. length (uc_pending c))") (auto dest: take_lines_shorter [OF sym])

declare all_lines.simps [simp del]

definition flush_chunks :: "bool \<Rightarrow> chunker \<Rightarrow> (string \<times> text_encoding) list \<times> chunker" where
  "flush_chunks lines_only c =
     (if lines_only then all_lines c
      else case take_available c of (None, c') \<Rightarrow> ([], c') | (Some chunk, c') \<Rightarrow> ([chunk], c'))"

definition remainder_chunks :: "chunker \<Rightarrow> (string \<times> text_encoding) list \<times> chunker" where
  "remainder_chunks c = (case take_remainder c of (None, c') \<Rightarrow> ([], c') | (Some chunk, c') \<Rightarrow> ([chunk], c'))"

definition hand_on_out ::
  "'s emitter \<Rightarrow> string \<Rightarrow> diagnostic_source \<Rightarrow> (chunker \<Rightarrow> (string \<times> text_encoding) list \<times> chunker) \<Rightarrow> ('s, unit) pump_op" where
  "hand_on_out emit cwd dflt take_from p =
     (case take_from (pu_out p) of (cs, c) \<Rightarrow> each_do (cli_handle_chunk emit cwd dflt) cs (p\<lparr>pu_out := c\<rparr>))"

definition hand_on_err ::
  "'s emitter \<Rightarrow> string \<Rightarrow> diagnostic_source \<Rightarrow> (chunker \<Rightarrow> (string \<times> text_encoding) list \<times> chunker) \<Rightarrow> ('s, unit) pump_op" where
  "hand_on_err emit cwd dflt take_from p =
     (case take_from (pu_err p) of (cs, c) \<Rightarrow> each_do (cli_handle_chunk emit cwd dflt) cs (p\<lparr>pu_err := c\<rparr>))"

subsection \<open>The loop\<close>

text \<open>What \<open>select!\<close> selected: a read of either pipe, the end of the process, 120 ms without anything, the deadline.\<close>

datatype selected =
    OutRead "string + string"
  | ErrRead "string + string"
  | ChildEnded "string + process_end"
  | IdleFlush
  | DeadlineReached kill_answers

text \<open>
  One iteration: whether the grace period since the end of the process was over at its start, what was
  selected, and the answers of the group when the cancellation flag was found set.
\<close>

record pump_tick =
  pt_grace_over :: bool
  pt_selected :: selected
  pt_cancelled :: "kill_answers option"

text \<open>An arm that is switched off is not selected.\<close>

fun arm_enabled :: "selected \<Rightarrow> 's pump \<Rightarrow> bool" where
  "arm_enabled (OutRead r) p = pu_out_open p"
| "arm_enabled (ErrRead r) p = pu_err_open p"
| "arm_enabled (ChildEnded r) p = (pu_status p = None)"
| "arm_enabled IdleFlush p = True"
| "arm_enabled (DeadlineReached k) p = pu_armed p"

definition all_ended :: "'s pump \<Rightarrow> bool" where
  "all_ended p \<longleftrightarrow> pu_status p \<noteq> None \<and> \<not> pu_out_open p \<and> \<not> pu_err_open p"

record build_pump =
  bq_cwd :: string
  bq_source :: diagnostic_source
  bq_pgid :: u32
  bq_limit_ms :: u64

definition out_read :: "'s emitter \<Rightarrow> build_pump \<Rightarrow> string + string \<Rightarrow> ('s, unit) pump_op" where
  "out_read emit q r =
     (let flush = hand_on_out emit (bq_cwd q) (bq_source q)
      in case r of
        Inr bytes \<Rightarrow>
          if bytes = [] then
            then_do (set_pump (\<lambda>p. p\<lparr>pu_out_open := False\<rparr>)) (\<lambda>_. flush (flush_chunks False))
          else then_do (set_pump (\<lambda>p. p\<lparr>pu_out := chunker_push bytes (pu_out p)\<rparr>)) (\<lambda>_. flush (flush_chunks True))
      | Inl err \<Rightarrow>
          then_do (set_pump (\<lambda>p. p\<lparr>pu_out_open := False\<rparr>)) (\<lambda>_.
            to_sink (sink_note emit (''build stdout read error: '' @ err))))"

definition err_read :: "'s emitter \<Rightarrow> build_pump \<Rightarrow> string + string \<Rightarrow> ('s, unit) pump_op" where
  "err_read emit q r =
     (let flush = hand_on_err emit (bq_cwd q) (bq_source q)
      in case r of
        Inr bytes \<Rightarrow>
          if bytes = [] then
            then_do (set_pump (\<lambda>p. p\<lparr>pu_err_open := False\<rparr>)) (\<lambda>_. flush (flush_chunks False))
          else then_do (set_pump (\<lambda>p. p\<lparr>pu_err := chunker_push bytes (pu_err p)\<rparr>)) (\<lambda>_. flush (flush_chunks True))
      | Inl err \<Rightarrow>
          then_do (set_pump (\<lambda>p. p\<lparr>pu_err_open := False\<rparr>)) (\<lambda>_.
            to_sink (sink_note emit (''build stderr read error: '' @ err))))"

definition of_res :: "princess_error + 'a \<Rightarrow> ('s, 'a) pump_op" where
  "of_res r p = (p, r)"

definition flush_both :: "'s emitter \<Rightarrow> build_pump \<Rightarrow> (chunker \<Rightarrow> (string \<times> text_encoding) list \<times> chunker) \<Rightarrow> ('s, unit) pump_op" where
  "flush_both emit q take_from =
     then_do (hand_on_out emit (bq_cwd q) (bq_source q) take_from) (\<lambda>_.
       hand_on_err emit (bq_cwd q) (bq_source q) take_from)"

fun build_step :: "'s emitter \<Rightarrow> build_pump \<Rightarrow> selected \<Rightarrow> ('s, unit) pump_op" where
  "build_step emit q (OutRead r) = out_read emit q r"
| "build_step emit q (ErrRead r) = err_read emit q r"
| "build_step emit q (ChildEnded (Inl err)) = of_res (Inl (internal_error (''cannot wait for the build: '' @ err)))"
| "build_step emit q (ChildEnded (Inr st)) = set_pump (\<lambda>p. p\<lparr>pu_status := Some st\<rparr>)"
| "build_step emit q IdleFlush = flush_both emit q (flush_chunks False)"
| "build_step emit q (DeadlineReached k) =
     then_do (set_pump (\<lambda>p. p\<lparr>pu_timed_out := True\<rparr>)) (\<lambda>_.
     then_do (to_sink (sink_note emit (''build exceeded its '' @ show_nat (unat (bq_limit_ms q)) @
        '' ms deadline; killing process group '' @ show_nat (unat (bq_pgid q))))) (\<lambda>_.
     then_do (of_res (kill_group_and_wait (bq_pgid q) k)) (\<lambda>_.
       set_pump (\<lambda>p. p\<lparr>pu_armed := False\<rparr>))))"

definition build_cancel :: "'s emitter \<Rightarrow> build_pump \<Rightarrow> kill_answers \<Rightarrow> ('s, unit) pump_op" where
  "build_cancel emit q k =
     then_do (to_sink (sink_note emit (''build cancelled; killing process group '' @ show_nat (unat (bq_pgid q))))) (\<lambda>_.
       of_res (kill_group_and_wait (bq_pgid q) k))"

text \<open>The loop gives whether it ended; it has not when the script did first.\<close>

fun build_loop :: "'s emitter \<Rightarrow> build_pump \<Rightarrow> pump_tick list \<Rightarrow> ('s, bool) pump_op" where
  "build_loop emit q [] p = (p, Inr (all_ended p))"
| "build_loop emit q (t # ts) p =
     (if all_ended p \<or> (pu_status p \<noteq> None \<and> pt_grace_over t) then (p, Inr True)
      else if \<not> arm_enabled (pt_selected t) p then build_loop emit q ts p
      else then_do (build_step emit q (pt_selected t)) (\<lambda>_.
             case pt_cancelled t of
               Some k \<Rightarrow> then_do (build_cancel emit q k) (\<lambda>_. give True)
             | None \<Rightarrow> build_loop emit q ts) p)"

subsection \<open>A whole build\<close>

text \<open>
  The process and the end of a build: how the spawn went, the script, the answer to the last wait, whether the flag was
  set when the status was decided and at the very end, the files then, and the times.
\<close>

record build_world =
  bw_spawn :: "io_error_kind \<times> string + u32"
  bw_ticks :: "pump_tick list"
  bw_reap :: "string + process_end"
  bw_cancelled :: bool
  bw_cancelled_last :: bool
  bw_fs :: artifact_fs
  bw_host_after :: cli_host
  bw_duration_ms :: u64

record cli_build_result =
  cr_plan :: build_plan
  cr_payload :: build_finished
  cr_diagnostics :: "build_diagnostic list"
  cr_exit_code :: "int option"
  cr_cancelled :: bool
  cr_timed_out :: bool
  cr_output_tail :: string

definition build_succeeded :: "cli_build_result \<Rightarrow> bool" where
  "build_succeeded r \<longleftrightarrow> bn_status (cr_payload r) = BuildOk"

definition cli_spawn_error :: "error_code \<Rightarrow> string \<Rightarrow> io_error_kind \<Rightarrow> string \<Rightarrow> princess_error" where
  "cli_spawn_error other program kind err =
     (let message = ''cannot execute '' @ program @ '': '' @ err
      in case kind of
           IoNotFound \<Rightarrow> new_error ToolchainMissing message
         | IoPermissionDenied \<Rightarrow> new_error SandboxDenied message
         | IoOther \<Rightarrow> new_error other message)"

definition emit_symbols_indexed :: "cli_host \<Rightarrow> cli_project \<Rightarrow> 's emitter \<Rightarrow> artifact list \<Rightarrow> ('s, princess_error, unit) op" where
  "emit_symbols_indexed h p emit artifacts =
     each_do (\<lambda>a.
       case symbolizer_new h (px_toolchain p) (af_path a) of
         Inl _ \<Rightarrow> give ()
       | Inr y \<Rightarrow>
           (case symbol_count h y of
              None \<Rightarrow> give ()
            | Some n \<Rightarrow>
                emit (SymbolsIndexed \<lparr>sx_artifact = af_path a, sx_build_id = build_id_of h y, sx_symbol_count = n\<rparr>)))
       (filter (\<lambda>a. af_kind a = ArtElf) artifacts)"

definition drain_build :: "'s emitter \<Rightarrow> build_pump \<Rightarrow> build_world \<Rightarrow> ('s, process_end) pump_op" where
  "drain_build emit q W =
     then_do (flush_both emit q (flush_chunks False)) (\<lambda>_.
     then_do (flush_both emit q remainder_chunks) (\<lambda>_ p.
       case pu_status p of
         Some st \<Rightarrow> (p, Inr st)
       | None \<Rightarrow> (p, map_err (\<lambda>err. internal_error (''cannot reap the build: '' @ err)) (bw_reap W))))"

definition cli_build_status :: "build_world \<Rightarrow> bool \<Rightarrow> process_end \<Rightarrow> build_status" where
  "cli_build_status W timed_out st =
     (if bw_cancelled W then BuildCancelled
      else if timed_out then BuildFailedStatus
      else if xe_code st = Some 0 then BuildOk
      else BuildFailedStatus)"

definition report_artifacts ::
  "(string \<Rightarrow> u8 list) \<Rightarrow> cli_project \<Rightarrow> 's emitter \<Rightarrow> build_world \<Rightarrow> ('s, princess_error, artifact list) op" where
  "report_artifacts digest p emit W =
     (let declared = rp_declared_artifacts (px_resolved p);
          arts = discover_artifacts digest (bw_fs W) (rp_root (px_resolved p)) declared None
      in then_do (each_do (\<lambda>path. sink_note emit (''declared artifact '' @ path @ '' was not produced''))
                    (filter (\<lambda>path. \<not> fs_is_file (bw_fs W) path) declared)) (\<lambda>_.
         then_do (each_do (\<lambda>a. emit (ArtifactChanged \<lparr>ac_path = af_path a, ac_kind = af_kind a\<rparr>)) arts) (\<lambda>_.
         then_do (emit_symbols_indexed (bw_host_after W) p emit arts) (\<lambda>_. give arts))))"

definition build_summary :: "build_finished \<Rightarrow> string \<Rightarrow> string" where
  "build_summary f op_id =
     ''build '' @ build_status_str (bn_status f) @ '' in '' @ show_nat (unat (bn_duration_ms f)) @ '' ms'' @
     (case bn_exit_code f of Some code \<Rightarrow> '', exit '' @ show_int code | None \<Rightarrow> []) @ '' (op '' @ op_id @ '')''"

definition end_build ::
  "(string \<Rightarrow> u8 list) \<Rightarrow> cli_project \<Rightarrow> 's emitter \<Rightarrow> string \<Rightarrow> build_world \<Rightarrow> bool \<Rightarrow> process_end \<Rightarrow>
   ('s, princess_error, build_finished) op" where
  "end_build digest p emit op_id W timed_out st =
     (let status = cli_build_status W timed_out st
      in then_do (if \<not> bw_cancelled W \<and> timed_out then sink_note emit ''build ended by timeout: reported as failed'' else give ()) (\<lambda>_.
         then_do (report_artifacts digest p emit W) (\<lambda>arts.
           let payload = \<lparr>bn_status = status, bn_exit_code = xe_code st, bn_duration_ms = bw_duration_ms W, bn_artifacts = arts\<rparr>
           in then_do (sink_note emit (build_summary payload op_id)) (\<lambda>_.
              then_do (emit (BuildFinished payload)) (\<lambda>_. give payload)))))"

definition start_failed :: "'s emitter \<Rightarrow> build_plan \<Rightarrow> build_world \<Rightarrow> princess_error \<Rightarrow> ('s, princess_error, 'a) op" where
  "start_failed emit plan W error =
     then_do (sink_note emit (''build failed to start: '' @ show_error error)) (\<lambda>_.
     then_do (emit (BuildFinished \<lparr>bn_status = BuildFailedStatus, bn_exit_code = None, bn_duration_ms = bw_duration_ms W,
                                   bn_artifacts = []\<rparr>)) (\<lambda>_ s.
       (s, Inl (with_detail error (join '' '' (bl_argv plan))))))"

text \<open>\<open>None\<close>: the loop is still running when the script ends.\<close>

definition run_pump ::
  "(string \<Rightarrow> u8 list) \<Rightarrow> cli_project \<Rightarrow> 's emitter \<Rightarrow> string \<Rightarrow> build_plan \<Rightarrow> u64 option \<Rightarrow> build_world \<Rightarrow> u32 \<Rightarrow>
   ('s, princess_error, cli_build_result option) op" where
  "run_pump digest p emit op_id plan limit W pgid s =
     (let q = \<lparr>bq_cwd = bl_cwd plan, bq_source = (if str_contains ''clang'' (hd (bl_argv plan)) then SrcClang else SrcGcc),
               bq_pgid = pgid, bq_limit_ms = unwrap_or 0 limit\<rparr>
      in case build_loop emit q (bw_ticks W) (pump_start (limit \<noteq> None) s) of
           (pump, Inl e) \<Rightarrow> (pu_sink pump, Inl e)
         | (pump, Inr False) \<Rightarrow> (pu_sink pump, Inr None)
         | (pump, Inr True) \<Rightarrow>
             (case drain_build emit q W pump of
                (pump', Inl e) \<Rightarrow> (pu_sink pump', Inl e)
              | (pump', Inr st) \<Rightarrow>
                  then_do (end_build digest p emit op_id W (pu_timed_out pump') st) (\<lambda>payload.
                    give (Some \<lparr>cr_plan = plan, cr_payload = payload, cr_diagnostics = pu_diagnostics pump',
                                cr_exit_code = xe_code st, cr_cancelled = bw_cancelled_last W,
                                cr_timed_out = pu_timed_out pump', cr_output_tail = pu_tail pump'\<rparr>)) (pu_sink pump')))"

definition execute_cli_build ::
  "(string \<Rightarrow> u8 list) \<Rightarrow> cli_host \<Rightarrow> cli_project \<Rightarrow> 's emitter \<Rightarrow> string option \<Rightarrow> build_options \<Rightarrow> build_world \<Rightarrow>
   ('s, princess_error, cli_build_result option) op" where
  "execute_cli_build digest h p emit op_id opts W s =
     (case plan_cli_build h p (bp_targets opts) of
        Inl e \<Rightarrow> (s, Inl e)
      | Inr plan \<Rightarrow>
          then_do (emit (BuildStarted (started_event plan))) (\<lambda>_.
            case bw_spawn W of
              Inl (kind, err) \<Rightarrow> start_failed emit plan W (cli_spawn_error Internal (hd (bl_argv plan)) kind err)
            | Inr pgid \<Rightarrow>
                run_pump digest p emit (unwrap_or ''op-unknown'' op_id) plan
                  (case bl_timeout_ms plan of Some ms \<Rightarrow> Some ms | None \<Rightarrow> bp_timeout_ms opts) W pgid) s)"

subsection \<open>Facts: the events of a build\<close>

text \<open>What a build says between its start and its end.\<close>

definition in_build :: "event_body \<Rightarrow> bool" where
  "in_build b \<longleftrightarrow> body_kind b \<in> {KLogAppend, KBuildDiagnostic, KArtifactChanged, KSymbolsIndexed}"

lemma in_build_simps [simp]:
  "in_build (LogAppend l)" "in_build (BuildDiagnostic d)" "in_build (ArtifactChanged a)" "in_build (SymbolsIndexed x)"
  by (simp_all add: in_build_def)

abbreviation building :: "('s \<Rightarrow> event_body list) \<Rightarrow> event_body list \<Rightarrow> 's \<Rightarrow> bool" where
  "building bodies base \<equiv> grown in_build bodies base"

lemma build_emits:
  assumes acc: "accepting emit bodies"
  shows "keeps (building bodies base) (sink_note emit line)"
    and "in_build b \<Longrightarrow> keeps (building bodies base) (emit b)"
proof -
  show "keeps (building bodies base) (sink_note emit line)"
    unfolding sink_note_def by (rule keeps_grown_log [OF acc]) simp
  show "in_build b \<Longrightarrow> keeps (building bodies base) (emit b)"
    by (rule keeps_grown [OF acc])
qed

lemma keeps_to_sink: "keeps P m \<Longrightarrow> keeps (\<lambda>p. P (pu_sink p)) (to_sink m)"
  by (auto simp: yields_def to_sink_def split: prod.split)

lemma keeps_set_pump: "(\<And>p. pu_sink (f p) = pu_sink p) \<Longrightarrow> keeps (\<lambda>p. Q (pu_sink p)) (set_pump f)"
  by (rule keepsI) (simp add: set_pump_def)

lemma keeps_of_res: "keeps P (of_res r)"
  by (rule keepsI) (simp add: of_res_def)

text \<open>Whatever every event of a build keeps of the sink, the steps of a build keep.\<close>

abbreviation building_keeps :: "('s \<Rightarrow> bool) \<Rightarrow> 's emitter \<Rightarrow> bool" where
  "building_keeps P emit \<equiv> (\<forall>b. in_build b \<longrightarrow> keeps P (emit b))"

lemma keeps_in_build: "building_keeps P emit \<Longrightarrow> in_build b \<Longrightarrow> keeps P (emit b)"
  by blast

lemma keeps_build_note: "building_keeps P emit \<Longrightarrow> keeps P (sink_note emit line)"
  by (simp add: sink_note_def sink_log_def)

lemmas keeps_build_emits = keeps_in_build keeps_build_note

abbreviation pumping :: "('s \<Rightarrow> bool) \<Rightarrow> 's pump \<Rightarrow> bool" where
  "pumping P p \<equiv> P (pu_sink p)"

lemma keeps_handle_chunk:
  assumes em: "building_keeps P emit"
  shows "keeps (pumping P) (cli_handle_chunk emit cwd dflt chunk)"
  unfolding cli_handle_chunk_def emit_diagnostic_def
  by (intro keeping keeps_to_sink keeps_set_pump keeps_build_emits [OF em]) simp_all

lemma keeps_hand_on:
  assumes em: "building_keeps P emit"
  shows "keeps (pumping P) (hand_on_out emit cwd dflt f)" "keeps (pumping P) (hand_on_err emit cwd dflt f)"
proof -
  have each: "keeps (pumping P) (each_do (cli_handle_chunk emit cwd dflt) cs)" for cs
    by (intro keeping keeps_handle_chunk [OF em])
  show "keeps (pumping P) (hand_on_out emit cwd dflt f)"
  proof (rule keepsI)
    fix p :: "'a pump" assume p: "pumping P p"
    obtain cs c where "f (pu_out p) = (cs, c)" by (cases "f (pu_out p)")
    with keepsD [OF each, of "p\<lparr>pu_out := c\<rparr>"] p show "pumping P (fst (hand_on_out emit cwd dflt f p))"
      by (simp add: hand_on_out_def)
  qed
  show "keeps (pumping P) (hand_on_err emit cwd dflt f)"
  proof (rule keepsI)
    fix p :: "'a pump" assume p: "pumping P p"
    obtain cs c where "f (pu_err p) = (cs, c)" by (cases "f (pu_err p)")
    with keepsD [OF each, of "p\<lparr>pu_err := c\<rparr>"] p show "pumping P (fst (hand_on_err emit cwd dflt f p))"
      by (simp add: hand_on_err_def)
  qed
qed

lemma keeps_flush_both:
  assumes em: "building_keeps P emit"
  shows "keeps (pumping P) (flush_both emit q f)"
  unfolding flush_both_def by (intro keeping keeps_hand_on [OF em])

lemma keeps_build_step:
  assumes em: "building_keeps P emit"
  shows "keeps (pumping P) (build_step emit q x)"
proof -
  note keep = keeping keeps_to_sink keeps_set_pump keeps_of_res keeps_hand_on [OF em] keeps_flush_both [OF em] keeps_build_emits [OF em]
  have "keeps (pumping P) (out_read emit q r)" "keeps (pumping P) (err_read emit q r)" for r
    unfolding out_read_def err_read_def Let_def by (intro keep; simp)+
  then show ?thesis
    by (cases "(emit, q, x)" rule: build_step.cases) (simp_all, (intro keep; simp)+)
qed

lemma keeps_build_loop:
  assumes em: "building_keeps P emit"
  shows "keeps (pumping P) (build_loop emit q ts)"
proof (induction ts)
  case Nil
  show ?case by (rule keepsI) simp
next
  case (Cons t ts)
  have "keeps (pumping P) (then_do (build_step emit q (pt_selected t)) (\<lambda>_.
      case pt_cancelled t of
        Some k \<Rightarrow> then_do (build_cancel emit q k) (\<lambda>_. give True)
      | None \<Rightarrow> build_loop emit q ts))"
    unfolding build_cancel_def
    by (intro keeping keeps_build_step [OF em] keeps_to_sink keeps_of_res keeps_build_emits [OF em] Cons)
  with Cons show ?case by (auto simp: yields_def)
qed

lemma keeps_drain_build:
  assumes em: "building_keeps P emit"
  shows "keeps (pumping P) (drain_build emit q W)"
proof -
  have "keeps (pumping P) (\<lambda>p. case pu_status p of
       Some st \<Rightarrow> (p, Inr st)
     | None \<Rightarrow> (p, map_err (\<lambda>err. internal_error (''cannot reap the build: '' @ err)) (bw_reap W)))"
    by (rule keepsI) (simp split: option.split)
  then show ?thesis
    unfolding drain_build_def by (intro keeping keeps_flush_both [OF em])
qed

lemma keeps_report_artifacts:
  assumes em: "building_keeps P emit"
  shows "keeps P (report_artifacts digest p emit W)"
  unfolding report_artifacts_def emit_symbols_indexed_def Let_def
  by (intro keeping keeps_build_emits [OF em]; simp)

text \<open>A build keeps what its other events keep too.\<close>

lemma keeps_execute_build:
  assumes em: "\<And>b. keeps P (emit b)"
  shows "keeps P (execute_cli_build digest h p emit op_id opts W)"
proof -
  have build: "building_keeps P emit" by (simp add: em)
  note keep = keeping em keeps_build_emits [OF build] keeps_report_artifacts [OF build]
  have ended: "keeps P (end_build digest p emit op_id W timed_out st)" for op_id timed_out st
    unfolding end_build_def Let_def by (intro keep)
  have failed: "keeps P (start_failed emit plan W error)" for plan error
    unfolding start_failed_def by (intro keep)
  have pumped: "keeps P (run_pump digest p emit op_id plan limit W pgid)" for op_id plan limit pgid
  proof (rule keepsI)
    fix s assume s: "P s"
    define q where "q = \<lparr>bq_cwd = bl_cwd plan, bq_source = (if str_contains ''clang'' (hd (bl_argv plan)) then SrcClang else SrcGcc),
        bq_pgid = pgid, bq_limit_ms = unwrap_or 0 limit\<rparr>"
    obtain p1 r1 where loop: "build_loop emit q (bw_ticks W) (pump_start (limit \<noteq> None) s) = (p1, r1)"
      by (cases "build_loop emit q (bw_ticks W) (pump_start (limit \<noteq> None) s)")
    have w1: "P (pu_sink p1)"
      using keepsD [OF keeps_build_loop [OF build], where s = "pump_start (limit \<noteq> None) s"] s loop
      by (metis fst_conv pump_start_def pump.select_convs(1))
    obtain p2 r2 where drain: "drain_build emit q W p1 = (p2, r2)" by (cases "drain_build emit q W p1")
    have w2: "P (pu_sink p2)"
      using keepsD [OF keeps_drain_build [OF build], where s = p1] w1 drain by (metis fst_conv)
    have ended': "end_build digest p emit op_id W timed_out st (pu_sink p2) = (s', r) \<Longrightarrow> P s'" for op_id timed_out st s' r
      using keepsD [OF ended w2] by (metis fst_conv)
    show "P (fst (run_pump digest p emit op_id plan limit W pgid s))"
      using w1 w2 ended' unfolding run_pump_def Let_def q_def [symmetric] loop
      by (auto simp: drain then_do_def give_def split: sum.split bool.split prod.split)
  qed
  show ?thesis
  proof (rule keepsI)
    fix s assume "P s"
    have "keeps P (then_do (emit b) (\<lambda>_. case bw_spawn W of
        Inl (kind, err) \<Rightarrow> start_failed emit plan W (cli_spawn_error Internal (hd (bl_argv plan)) kind err)
      | Inr pgid \<Rightarrow> run_pump digest p emit op plan limit W pgid))" for b plan op limit
      by (intro keep failed pumped)
    from keepsD [OF this \<open>P s\<close>] show "P (fst (execute_cli_build digest h p emit op_id opts W s))"
      by (simp add: execute_cli_build_def \<open>P s\<close> split: sum.split)
  qed
qed

lemma build_is_building: "accepting emit bodies \<Longrightarrow> building_keeps (building bodies base) emit"
  by (simp add: keeps_grown)

lemma reports_artifacts:
  assumes acc: "accepting emit bodies"
  shows "keeps (building bodies base) (report_artifacts digest p emit W)" "never_fails (report_artifacts digest p emit W)"
proof -
  show "keeps (building bodies base) (report_artifacts digest p emit W)"
    by (rule keeps_report_artifacts [OF build_is_building [OF acc]])
  show "never_fails (report_artifacts digest p emit W)"
    unfolding report_artifacts_def emit_symbols_indexed_def Let_def
    by (intro never_fails_then never_fails_each never_fails_give note_accepted [OF acc] never_refused [OF acc])
      (simp add: never_fails_give never_refused [OF acc] split: sum.split option.split)
qed

lemma end_build_last:
  assumes acc: "accepting emit bodies" and s: "building bodies base s"
  shows "\<exists>s' payload work. end_build digest p emit op_id W timed_out st s = (s', Inr payload) \<and>
    bodies s' = base @ work @ [BuildFinished payload] \<and> list_all in_build work \<and>
    bn_status payload = cli_build_status W timed_out st \<and> bn_exit_code payload = xe_code st"
proof -
  let ?note = "if \<not> bw_cancelled W \<and> timed_out then sink_note emit ''build ended by timeout: reported as failed'' else give ()"
  let ?payload = "\<lambda>arts. \<lparr>bn_status = cli_build_status W timed_out st, bn_exit_code = xe_code st,
      bn_duration_ms = bw_duration_ms W, bn_artifacts = arts\<rparr>"
  have quiet: "never_fails ?note" "keeps (building bodies base) ?note"
    by (intro never_fails_if never_fails_give note_accepted [OF acc], intro keeping build_emits [OF acc])
  note runs = keeps_runs [where P = "building bodies base"]
  obtain s1 where s1: "?note s = (s1, Inr ())" "building bodies base s1"
    by (rule runs [OF quiet s]) auto
  obtain s2 arts where s2: "report_artifacts digest p emit W s1 = (s2, Inr arts)" "building bodies base s2"
    by (rule runs [OF reports_artifacts(2,1) [OF acc] s1(2)])
  obtain s3 where s3: "sink_note emit (build_summary (?payload arts) op_id) s2 = (s3, Inr ())" and "building bodies base s3"
    by (rule runs [OF note_accepted [OF acc] build_emits(1) [OF acc] s2(2)]) auto
  then obtain work where work: "bodies s3 = base @ work" "list_all in_build work"
    by (auto simp: grown_def)
  obtain s4 where s4: "emit (BuildFinished (?payload arts)) s3 = (s4, Inr ())" "bodies s4 = bodies s3 @ [BuildFinished (?payload arts)]"
    using accepted [OF acc] by blast
  have "end_build digest p emit op_id W timed_out st s = (s4, Inr (?payload arts))"
    unfolding end_build_def Let_def using s1(1) s2(1) s3 s4(1) by (simp add: then_do_def give_def)
  with s4 work show ?thesis by (intro exI [of _ s4] exI [of _ "?payload arts"] exI [of _ work]) simp
qed

lemma start_failed_last:
  assumes acc: "accepting emit bodies"
  shows "\<exists>s' work. start_failed emit plan W error s = (s', Inl (with_detail error (join '' '' (bl_argv plan)))) \<and>
    bodies s' = bodies s @ work @ [BuildFinished \<lparr>bn_status = BuildFailedStatus, bn_exit_code = None,
      bn_duration_ms = bw_duration_ms W, bn_artifacts = []\<rparr>] \<and> list_all in_build work"
proof -
  let ?last = "BuildFinished \<lparr>bn_status = BuildFailedStatus, bn_exit_code = None, bn_duration_ms = bw_duration_ms W, bn_artifacts = []\<rparr>"
  note runs = keeps_runs [where P = "building bodies (bodies s)"]
  obtain s1 where s1: "sink_note emit (''build failed to start: '' @ show_error error) s = (s1, Inr ())" "building bodies (bodies s) s1"
    by (rule runs [OF note_accepted [OF acc] build_emits(1) [OF acc] grown_start]) auto
  then obtain work where "bodies s1 = bodies s @ work" "list_all in_build work" by (auto simp: grown_def)
  moreover obtain s2 where "emit ?last s1 = (s2, Inr ())" "bodies s2 = bodies s1 @ [?last]"
    using accepted [OF acc] by blast
  ultimately show ?thesis
    using s1(1) by (intro exI [of _ s2] exI [of _ work]) (simp add: start_failed_def then_do_def)
qed

text \<open>What running the process of a build leaves in the sink.\<close>

lemma run_pump_says:
  assumes acc: "accepting emit bodies" and s: "building bodies base s"
  shows "case run_pump digest p emit op_id plan limit W pgid s of
      (s', Inr (Some r)) \<Rightarrow>
        cr_plan r = plan \<and> (bn_status (cr_payload r) = BuildOk \<longleftrightarrow> \<not> bw_cancelled W \<and> \<not> cr_timed_out r \<and> cr_exit_code r = Some 0) \<and>
        (\<exists>work. bodies s' = base @ work @ [BuildFinished (cr_payload r)] \<and> list_all in_build work)
    | (s', _) \<Rightarrow> building bodies base s'"
proof -
  define q where "q = \<lparr>bq_cwd = bl_cwd plan, bq_source = (if str_contains ''clang'' (hd (bl_argv plan)) then SrcClang else SrcGcc),
      bq_pgid = pgid, bq_limit_ms = unwrap_or 0 limit\<rparr>"
  obtain p1 r1 where loop: "build_loop emit q (bw_ticks W) (pump_start (limit \<noteq> None) s) = (p1, r1)"
    by (cases "build_loop emit q (bw_ticks W) (pump_start (limit \<noteq> None) s)")
  have w1: "building bodies base (pu_sink p1)"
    using keepsD [OF keeps_build_loop [OF build_is_building [OF acc]], where s = "pump_start (limit \<noteq> None) s"] s loop
    by (metis fst_conv pump_start_def pump.select_convs(1))
  note run = run_pump_def [of digest p emit op_id plan limit W pgid s] Let_def q_def [symmetric] loop
  show ?thesis
  proof (cases "r1 = Inr True")
    case False
    with w1 show ?thesis
      unfolding run by (cases r1) (auto simp: q_def [symmetric] loop split: sum.split bool.split)
  next
    case True
    obtain p2 r2 where drain: "drain_build emit q W p1 = (p2, r2)" by (cases "drain_build emit q W p1")
    have w2: "building bodies base (pu_sink p2)"
      using keepsD [OF keeps_drain_build [OF build_is_building [OF acc]], where s = p1] w1 drain by (metis fst_conv)
    show ?thesis
    proof (cases r2)
      case (Inl e)
      with w2 True drain show ?thesis unfolding run by (simp add: q_def [symmetric] loop)
    next
      case (Inr st)
      obtain s' payload work where e: "end_build digest p emit op_id W (pu_timed_out p2) st (pu_sink p2) = (s', Inr payload)"
          "bodies s' = base @ work @ [BuildFinished payload]" "list_all in_build work"
          "bn_status payload = cli_build_status W (pu_timed_out p2) st"
        using end_build_last [OF acc w2] by blast
      with Inr True drain show ?thesis
        unfolding run by (auto simp: q_def [symmetric] loop then_do_def give_def cli_build_status_def)
    qed
  qed
qed


text \<open>A host whose only program is \<^verbatim>\<open>make\<close>, which cannot be started.\<close>

definition demo_host :: cli_host where
  "demo_host =
     \<lparr>ho_var = Map.empty, ho_cwd = Some ''/'', ho_manifest_dir = ''/src'', ho_is_file = (\<lambda>_. False), ho_is_dir = (\<lambda>_. False),
      ho_executable = (\<lambda>f. f = ''/bin/make''), ho_run = (\<lambda>_ _ _. Inl ''no'')\<rparr>"

definition demo_project :: cli_project where
  "demo_project =
     \<lparr>px_loaded = \<lparr>lc_config = project_config_default, lc_source = SourceManifest ''/k/princess.toml'', lc_root = ''/k''\<rparr>,
      px_resolved = resolve_project Map.empty (Some ''/'') project_config_default ''/k'',
      px_toolchain = \<lparr>cx_workspace_root = None, cx_env = \<lparr>ce_path = ''/bin'', ce_ld_library_path = None\<rparr>, cx_qemu_data = None\<rparr>\<rparr>"

definition no_artifacts :: artifact_fs where
  "no_artifacts = \<lparr>fs_is_file = (\<lambda>_. False), fs_is_dir = (\<lambda>_. False), fs_read_dir = (\<lambda>_. None), fs_stat = Inl, fs_open = Inl\<rparr>"

definition unstartable :: build_world where
  "unstartable =
     \<lparr>bw_spawn = Inl (IoPermissionDenied, ''denied''), bw_ticks = [], bw_reap = Inl ''none'', bw_cancelled = False,
      bw_cancelled_last = False, bw_fs = no_artifacts, bw_host_after = demo_host, bw_duration_ms = 1\<rparr>"


end
