(* ===== verification/Cli_Serial.thy ===== *)
theory Cli_Serial
  imports Serial_Observer
begin

section \<open>The serial observer of the command line\<close>

text \<open>
  Models \<^verbatim>\<open>crates/princess-cli/src/serial.rs\<close>, the observer the headless driver uses. Its readers of numbers,
  vectors and logs are word for word those of \<^verbatim>\<open>princess-run\<close> and are taken from Serial_Observer; its facts
  about a fault, its banner and its state are its own. Facts: both observers report the same faults.
\<close>

definition BANNER :: string where "BANNER = ''PrincessIDE reference kernel booted''"

record cli_fault =
  cf_vector_number :: u32
  cf_vector :: string
  cf_rip :: u64
  cf_rip_text :: string
  cf_error_code :: u64
  cf_cs :: string
  cf_rflags :: string

definition cli_into_payload :: "cli_fault \<Rightarrow> symbolicated_location option \<Rightarrow> run_fault" where
  "cli_into_payload f loc =
     \<lparr>rf_vector = cf_vector f, rf_rip = cf_rip f, rf_rip_text = cf_rip_text f, rf_error_code = cf_error_code f,
      rf_regs = Map.empty(''RIP'' \<mapsto> cf_rip_text f, ''CS'' \<mapsto> cf_cs f, ''RFLAGS'' \<mapsto> cf_rflags f),
      rf_symbolicated = loc\<rparr>"

datatype cli_observation = SawBanner | SawFault cli_fault | SawPanic

record cli_observer =
  cv_banner_seen :: bool
  cv_panic_seen :: bool
  cv_last_vector :: "(u32 \<times> string) option"
  cv_fault :: "cli_fault option"

definition cli_observer_new :: cli_observer where
  "cli_observer_new = \<lparr>cv_banner_seen = False, cv_panic_seen = False, cv_last_vector = None, cv_fault = None\<rparr>"

text \<open>The fields after the address: one that is missing is empty, an error code that is not a number is 0.\<close>

definition cli_fault_field :: "string \<Rightarrow> cli_fault \<Rightarrow> cli_fault" where
  "cli_fault_field fld f =
     (case strip_prefix ''cs='' fld of
        Some v \<Rightarrow> f\<lparr>cf_cs := v\<rparr>
      | None \<Rightarrow>
     (case strip_prefix ''rflags='' fld of
        Some v \<Rightarrow> f\<lparr>cf_rflags := v\<rparr>
      | None \<Rightarrow>
     (case strip_prefix ''error='' fld of
        Some v \<Rightarrow> f\<lparr>cf_error_code := unwrap_or 0 (serial_hex_u64 v)\<rparr>
      | None \<Rightarrow> f)))"

definition cli_parse_fault :: "string \<Rightarrow> cli_fault option" where
  "cli_parse_fault rest =
     (case split_whitespace rest of
        [] \<Rightarrow> None
      | rip_text # flds \<Rightarrow>
          (case serial_hex_u64 rip_text of
             None \<Rightarrow> None
           | Some rip \<Rightarrow>
               Some (fold cli_fault_field flds
                 \<lparr>cf_vector_number = 0, cf_vector = [], cf_rip = rip, cf_rip_text = rip_text, cf_error_code = 0,
                  cf_cs = [], cf_rflags = []\<rparr>)))"

text \<open>The blocks of \<open>feed\<close>, in order.\<close>

definition cli_feed_banner :: "string \<Rightarrow> cli_observer \<Rightarrow> cli_observer \<times> cli_observation list" where
  "cli_feed_banner line s =
     (if \<not> cv_banner_seen s \<and> str_contains BANNER line then (s\<lparr>cv_banner_seen := True\<rparr>, [SawBanner]) else (s, []))"

definition cli_feed_vector :: "string \<Rightarrow> cli_observer \<Rightarrow> cli_observer" where
  "cli_feed_vector line s =
     (case split_once_str EXCEPTION_PREFIX line of
        None \<Rightarrow> s
      | Some (_, rest) \<Rightarrow>
          (case parse_vector rest of None \<Rightarrow> s | Some v \<Rightarrow> s\<lparr>cv_last_vector := Some v\<rparr>))"

definition cli_feed_fault :: "string \<Rightarrow> cli_observer \<Rightarrow> cli_observer \<times> cli_observation list" where
  "cli_feed_fault line s =
     (case split_once_str FAULT_PREFIX line of
        None \<Rightarrow> (s, [])
      | Some (_, rest) \<Rightarrow>
          (case cli_parse_fault rest of
             None \<Rightarrow> (s, [])
           | Some f0 \<Rightarrow>
               let f = (case cv_last_vector s of
                          None \<Rightarrow> f0
                        | Some (number, name) \<Rightarrow> f0\<lparr>cf_vector_number := number, cf_vector := name\<rparr>)
               in (s\<lparr>cv_fault := Some f\<rparr>, [SawFault f])))"

definition cli_feed_panic :: "string \<Rightarrow> cli_observer \<Rightarrow> cli_observer \<times> cli_observation list" where
  "cli_feed_panic line s =
     (if str_contains PANIC_PREFIX line \<and> \<not> cv_panic_seen s then (s\<lparr>cv_panic_seen := True\<rparr>, [SawPanic]) else (s, []))"

definition cli_feed :: "cli_observer \<Rightarrow> string \<Rightarrow> cli_observer \<times> cli_observation list" where
  "cli_feed s line =
     (case cli_feed_banner line s of (s1, o1) \<Rightarrow>
      case cli_feed_fault line (cli_feed_vector line s1) of (s2, o2) \<Rightarrow>
      case cli_feed_panic line s2 of (s3, o3) \<Rightarrow> (s3, o1 @ o2 @ o3))"

subsection \<open>Facts\<close>

fun cli_feed_all :: "cli_observer \<Rightarrow> string list \<Rightarrow> cli_observer \<times> cli_observation list" where
  "cli_feed_all s [] = (s, [])"
| "cli_feed_all s (l # ls) =
     (case cli_feed s l of (s', o1) \<Rightarrow> case cli_feed_all s' ls of (s'', o2) \<Rightarrow> (s'', o1 @ o2))"

definition seen_faults :: "cli_observation list \<Rightarrow> cli_fault list" where
  "seen_faults obs = concat (map (\<lambda>x. case x of SawFault f \<Rightarrow> [f] | _ \<Rightarrow> []) obs)"

text \<open>A fault of the engine, with what it leaves open filled in.\<close>

definition filled :: "raw_fault \<Rightarrow> cli_fault" where
  "filled f =
     \<lparr>cf_vector_number = unwrap_or 0 (fa_vector_number f), cf_vector = fa_vector f, cf_rip = fa_rip f,
      cf_rip_text = fa_rip_text f, cf_error_code = fa_error_code f, cf_cs = unwrap_or [] (fa_cs f),
      cf_rflags = unwrap_or [] (fa_rflags f)\<rparr>"

lemma filled_field: "filled (fault_field fld f) = cli_fault_field fld (filled f)"
  by (simp add: filled_def fault_field_def cli_fault_field_def unwrap_or_def split: option.split)

lemma filled_fold: "filled (fold fault_field flds f) = fold cli_fault_field flds (filled f)"
  by (induction flds arbitrary: f) (simp_all add: filled_field)

lemma filled_parse: "map_option filled (parse_fault rest) = cli_parse_fault rest"
  by (simp add: parse_fault_def cli_parse_fault_def filled_fold split: list.split option.split)
    (simp add: filled_def unwrap_or_def)

definition same_view :: "serial_observer \<Rightarrow> cli_observer \<Rightarrow> bool" where
  "same_view s c \<longleftrightarrow>
     sv_last_vector s = cv_last_vector c \<and> sv_panic_seen s = cv_panic_seen c \<and> map_option filled (sv_fault s) = cv_fault c"

lemma seen_append [simp]:
  "seen_faults (a @ b) = seen_faults a @ seen_faults b" "seen_faults [] = []" "seen_faults [SawFault f] = [f]"
  "seen_faults [SawBanner] = []" "seen_faults [SawPanic] = []"
  by (simp_all add: seen_faults_def)

lemma view_step:
  assumes "same_view s c" "\<not> str_contains ''FAULT_ERROR='' l"
  shows "same_view (fst (feed s l)) (fst (cli_feed c l)) \<and>
    map filled (faults_of (snd (feed s l))) = seen_faults (snd (cli_feed c l))"
proof -
  define s2 where "s2 = fst (feed_paging l (fst (feed_banner l s)))"
  define c1 where "c1 = fst (cli_feed_banner l c)"
  have v1: "same_view s2 c1" and q: "seen_faults (snd (cli_feed_banner l c)) = []"
    using assms(1) by (auto simp: s2_def c1_def same_view_def cli_feed_banner_def)
  have v2: "same_view (feed_vector l s2) (cli_feed_vector l c1)"
    using v1 by (auto simp: same_view_def feed_vector_def cli_feed_vector_def split: option.split)
  have none: "line_error l = None"
    using assms(2) split_once_str_None [of "''FAULT_ERROR=''" l] by (simp add: line_error_def)
  have v3: "same_view (fst (feed_fault l t)) (fst (cli_feed_fault l d)) \<and>
      map filled (faults_of (snd (feed_fault l t))) = seen_faults (snd (cli_feed_fault l d))" if "same_view t d" for t d
  proof (cases "split_once_str FAULT_PREFIX l")
    case None
    with that show ?thesis by (simp add: feed_fault_def cli_feed_fault_def)
  next
    case (Some ab)
    obtain a b where ab: "ab = (a, b)" by (cases ab)
    show ?thesis
    proof (cases "parse_fault b")
      case None
      with filled_parse [of b] Some ab that show ?thesis by (simp add: feed_fault_def cli_feed_fault_def)
    next
      case f0: (Some f0)
      with filled_parse [of b] have "cli_parse_fault b = Some (filled f0)" by simp
      with f0 Some ab that none show ?thesis
        by (auto simp: feed_fault_def cli_feed_fault_def Let_def same_view_def filled_def unwrap_or_def split: option.split)
    qed
  qed
  have v4: "same_view (fst (feed_panic l t)) (fst (cli_feed_panic l d)) \<and> seen_faults (snd (cli_feed_panic l d)) = []"
    if "same_view t d" for t d
    using that by (auto simp: same_view_def feed_panic_def cli_feed_panic_def)
  show ?thesis
    using v3 [OF v2] v4 q
    unfolding feed_state feed_observations Let_def s2_def [symmetric] cli_feed_def c1_def
    by (auto simp: case_prod_beta)
qed

lemma view_all:
  "same_view s c \<Longrightarrow> list_all (\<lambda>l. \<not> str_contains ''FAULT_ERROR='' l) ls \<Longrightarrow>
     same_view (fst (feed_all s ls)) (fst (cli_feed_all c ls)) \<and>
     map filled (faults_of (snd (feed_all s ls))) = seen_faults (snd (cli_feed_all c ls))"
proof (induction ls arbitrary: s c)
  case (Cons l ls)
  then have "same_view (fst (feed s l)) (fst (cli_feed c l))"
      "map filled (faults_of (snd (feed s l))) = seen_faults (snd (cli_feed c l))"
    using view_step by auto
  with Cons show ?case by (simp add: feed_all_simp case_prod_beta)
qed simp

text \<open>
  C38. The headless driver and the run engine see the same faults: on every serial text, leaving out the
  lines that carry the separate error code only the engine knows, both report the same faults in the same
  order, with the same vector, address, error code and registers, where the driver has an empty register
  for one that is missing; and both have seen a panic or neither.
\<close>

theorem observers_agree:
  "let ls = filter (\<lambda>l. \<not> str_contains ''FAULT_ERROR='' l) (str_lines txt);
       engine = feed_all observer_new ls; driver = cli_feed_all cli_observer_new ls
   in map filled (faults_of (snd engine)) = seen_faults (snd driver) \<and>
      (sv_panic_seen (fst engine) \<longleftrightarrow> cv_panic_seen (fst driver)) \<and>
      map_option filled (sv_fault (fst engine)) = cv_fault (fst driver)"
proof -
  have start: "same_view observer_new cli_observer_new"
    by (simp add: same_view_def observer_new_def cli_observer_new_def)
  show ?thesis
    using view_all [OF start, of "filter (\<lambda>l. \<not> str_contains ''FAULT_ERROR='' l) (str_lines txt)"]
    by (auto simp: Let_def same_view_def list_all_iff)
qed

end
