(* ===== verification/Cli_Run.thy ===== *)
theory Cli_Run
  imports Cli_Build Cli_Serial "HOL-Library.Multiset"
begin

section \<open>Runs of the command line\<close>

text \<open>
  Models \<^verbatim>\<open>crates/princess-cli/src/run.rs\<close>: the command line of the emulator, and a run: build, boot, read the
  serial line and the emulator's own channel until it ends, is stopped or is cancelled, and say why it ended. As in
  Cli_Build, \<open>select!\<close> is a script of what it selected. Facts: the flags the engine owns, and the events of a run.
\<close>

definition MAX_FAULT_EVENTS :: nat where "MAX_FAULT_EVENTS = 16"

record cli_run_options =
  ruo_timeout_ms :: "u64 option"
  ruo_cancel_after_ms :: "u64 option"
  ruo_do_build :: bool
  ruo_keep_qemu_log :: bool

subsection \<open>Planning\<close>

definition CLI_OWNED_FLAGS :: "string list" where
  "CLI_OWNED_FLAGS =
     [''-serial'', ''-monitor'', ''-display'', ''-nographic'', ''-d'', ''-D'', ''-cdrom'', ''-boot'', ''-kernel'', ''-no-reboot'']"

text \<open>The arguments kept and the ones dropped, with the value of a dropped flag when it has one.\<close>

fun split_args :: "string list \<Rightarrow> string list \<times> string list" where
  "split_args [] = ([], [])"
| "split_args [token] = (if token \<in> set CLI_OWNED_FLAGS then ([], [token]) else ([token], []))"
| "split_args (token # v # rest) =
     (if token \<in> set CLI_OWNED_FLAGS then
        (if \<not> starts_with ''-'' v then (case split_args rest of (kept, dropped) \<Rightarrow> (kept, token # v # dropped))
         else (case split_args (v # rest) of (kept, dropped) \<Rightarrow> (kept, token # dropped)))
      else (case split_args (v # rest) of (kept, dropped) \<Rightarrow> (token # kept, dropped)))"

definition qemu_debug_log :: "cli_project \<Rightarrow> string" where
  "qemu_debug_log p = path_join (path_join (rp_root (px_resolved p)) ''build'') ''qemu-debug.log''"

definition cli_medium_args :: "boot_medium \<Rightarrow> string list" where
  "cli_medium_args m =
     (case m of
        MediumIso path \<Rightarrow> [''-cdrom'', path, ''-boot'', ''d'']
      | MediumKernel path \<Rightarrow> [''-kernel'', path]
      | MediumDisk path \<Rightarrow> [''-drive'', ''file='' @ path @ '',format=raw,if=floppy''])"

definition engine_args :: "cli_project \<Rightarrow> string list" where
  "engine_args p =
     [''-display'', ''none'', ''-monitor'', ''none'', ''-serial'', ''stdio'', ''-no-reboot'',
      ''-d'', ''int,cpu_reset,guest_errors'', ''-D'', qemu_debug_log p]"

definition plan_cli_run :: "cli_host \<Rightarrow> cli_project \<Rightarrow> boot_medium \<Rightarrow> cli_run_options \<Rightarrow> princess_error + run_plan" where
  "plan_cli_run h p medium opts =
     (let run = cf_run (rp_config (px_resolved p)); stub = de_stub (cf_debug (rp_config (px_resolved p)))
      in case cli_which h (px_toolchain p) ''qemu-system-x86_64'' of
           None \<Rightarrow>
             Inl (new_error ToolchainMissing
               ''qemu-system-x86_64 was not found on PATH; run `bash scripts/bootstrap-toolchain.sh`'')
         | Some qemu \<Rightarrow>
             Inr \<lparr>rn_backend = run_backend_str (ru_backend run),
                  rn_argv = qemu # (case cx_qemu_data (px_toolchain p) of None \<Rightarrow> [] | Some data \<Rightarrow> [''-L'', data]) @
                    fst (split_args (ru_args run)) @ cli_medium_args medium @ engine_args p,
                  rn_cwd = rp_build_cwd (px_resolved p), rn_boot_medium = medium, rn_boot = ru_boot run,
                  rn_timeout_ms = unwrap_or (ru_timeout_ms run) (ruo_timeout_ms opts),
                  rn_serial = \<lparr>sc_device = ss_device (ru_serial run), sc_tee_to_file = rp_serial_tee_to_file (px_resolved p)\<rparr>,
                  rn_gdb_stub =
                    (if ''-s'' \<in> set (ru_args run) then
                       Some \<lparr>gs_host = st_host stub, gs_port = st_port stub, gs_mode = st_mode stub\<rparr>
                     else None)\<rparr>)"

subsection \<open>Output\<close>

text \<open>
  What the loop holds: the sink, both chunkers, the text written to the serial log when there is one, the observer, the
  faults reported, the emulator's text, and the flags. \<open>ma_cancelled\<close>: the token was set by this run.
\<close>

record 's machine =
  ma_sink :: 's
  ma_serial :: chunker
  ma_monitor :: chunker
  ma_serial_open :: bool
  ma_monitor_open :: bool
  ma_log :: "string option"
  ma_observer :: cli_observer
  ma_faults :: "run_fault list"
  ma_monitor_text :: string
  ma_timed_out :: bool
  ma_cancelled :: bool
  ma_armed :: bool
  ma_cancel_armed :: bool
  ma_kill_done :: bool
  ma_status :: "process_end option"

type_synonym ('s, 'a) machine_op = "('s machine, princess_error, 'a) op"

definition machine_start :: "bool \<Rightarrow> bool \<Rightarrow> 's \<Rightarrow> 's machine" where
  "machine_start with_log cancel_armed s =
     \<lparr>ma_sink = s, ma_serial = chunker_new, ma_monitor = chunker_new, ma_serial_open = True, ma_monitor_open = True,
      ma_log = (if with_log then Some [] else None), ma_observer = cli_observer_new, ma_faults = [], ma_monitor_text = [],
      ma_timed_out = False, ma_cancelled = False, ma_armed = True, ma_cancel_armed = cancel_armed, ma_kill_done = False,
      ma_status = None\<rparr>"

definition at_ma :: "('s, princess_error, 'a) op \<Rightarrow> ('s, 'a) machine_op" where
  "at_ma m p = (case m (ma_sink p) of (s, r) \<Rightarrow> (p\<lparr>ma_sink := s\<rparr>, r))"

definition set_ma :: "('s machine \<Rightarrow> 's machine) \<Rightarrow> ('s, unit) machine_op" where
  "set_ma f p = (f p, Inr ())"

definition ma_res :: "princess_error + 'a \<Rightarrow> ('s, 'a) machine_op" where
  "ma_res r p = (p, r)"

text \<open>The surroundings of the loop: writing to the log, what \<open>addr2line\<close> says, the process group and the limits.\<close>

record run_setting =
  rg_write :: "string \<Rightarrow> string \<Rightarrow> string + unit"
  rg_symbolicate :: "u64 \<Rightarrow> symbolicated_location option"
  rg_pgid :: u32
  rg_timeout_ms :: u64
  rg_cancel_after_ms :: u64

definition write_log :: "run_setting \<Rightarrow> string \<Rightarrow> ('s, unit) machine_op" where
  "write_log g txt p =
     (case ma_log p of
        None \<Rightarrow> (p, Inr ())
      | Some old \<Rightarrow>
          (case rg_write g old txt of
             Inl err \<Rightarrow> (p, Inl (internal_error (''cannot write the serial log: '' @ err)))
           | Inr _ \<Rightarrow> (p\<lparr>ma_log := Some (old @ txt)\<rparr>, Inr ())))"

definition location_note :: "cli_fault \<Rightarrow> symbolicated_location option \<Rightarrow> string" where
  "location_note raw loc =
     (case loc of
        Some l \<Rightarrow>
          ''fault '' @ show_hex_alt (unat (cf_rip raw)) @ '' symbolicated as '' @ sy_symbol l @ '' at '' @ sy_file l @ '':'' @
          show_nat (unat (sy_line l))
      | None \<Rightarrow>
          ''fault '' @ show_hex_alt (unat (cf_rip raw)) @ '' could not be symbolicated (no debug info covers it)'')"

definition report_cli_fault :: "'s emitter \<Rightarrow> run_fault \<Rightarrow> ('s, unit) machine_op" where
  "report_cli_fault emit payload p =
     (if MAX_FAULT_EVENTS \<le> length (ma_faults p) then
        at_ma (sink_note emit (''more than '' @ show_nat MAX_FAULT_EVENTS @
          '' faults in this run; suppressing further run.fault events'')) p
      else then_do (at_ma (emit (RunFault payload))) (\<lambda>_.
             set_ma (\<lambda>p. p\<lparr>ma_faults := ma_faults p @ [payload]\<rparr>)) p)"

fun cli_observation_op :: "'s emitter \<Rightarrow> run_setting \<Rightarrow> cli_observation \<Rightarrow> ('s, unit) machine_op" where
  "cli_observation_op emit g SawBanner = at_ma (sink_note emit ''guest banner observed on serial.com1'')"
| "cli_observation_op emit g SawPanic = at_ma (sink_note emit ''guest panic observed on serial.com1'')"
| "cli_observation_op emit g (SawFault raw) =
     (let loc = rg_symbolicate g (cf_rip raw)
      in then_do (at_ma (sink_note emit (location_note raw loc))) (\<lambda>_.
           report_cli_fault emit (cli_into_payload raw loc)))"

definition cli_serial_line :: "'s emitter \<Rightarrow> run_setting \<Rightarrow> string \<Rightarrow> ('s, unit) machine_op" where
  "cli_serial_line emit g line p =
     (case cli_feed (ma_observer p) line of
        (o', obs) \<Rightarrow> each_do (cli_observation_op emit g) obs (p\<lparr>ma_observer := o'\<rparr>))"

text \<open>A chunk is written, then emitted, then read.\<close>

definition push_serial :: "'s emitter \<Rightarrow> run_setting \<Rightarrow> string \<times> text_encoding \<Rightarrow> ('s, unit) machine_op" where
  "push_serial emit g chunk =
     then_do (write_log g (fst chunk)) (\<lambda>_.
     then_do (at_ma (emit (LogAppend \<lparr>la_stream = SerialCom1, la_chunk = fst chunk, la_encoding = snd chunk\<rparr>))) (\<lambda>_.
       each_do (cli_serial_line emit g) (str_lines (fst chunk))))"

definition drain_serial ::
  "'s emitter \<Rightarrow> run_setting \<Rightarrow> (chunker \<Rightarrow> (string \<times> text_encoding) list \<times> chunker) \<Rightarrow> ('s, unit) machine_op" where
  "drain_serial emit g take_from p =
     (case take_from (ma_serial p) of (cs, c) \<Rightarrow> each_do (push_serial emit g) cs (p\<lparr>ma_serial := c\<rparr>))"

definition monitor_append :: "'s emitter \<Rightarrow> string \<times> text_encoding \<Rightarrow> ('s, unit) machine_op" where
  "monitor_append emit chunk =
     at_ma (emit (LogAppend \<lparr>la_stream = QemuMonitor, la_chunk = fst chunk, la_encoding = snd chunk\<rparr>))"

definition drain_monitor :: "'s emitter \<Rightarrow> bool \<Rightarrow> ('s, unit) machine_op" where
  "drain_monitor emit lines_only p =
     (case (if lines_only then take_lines (ma_monitor p) else take_available (ma_monitor p)) of
        (None, c) \<Rightarrow> (p\<lparr>ma_monitor := c\<rparr>, Inr ())
      | (Some chunk, c) \<Rightarrow>
          monitor_append emit chunk (p\<lparr>ma_monitor := c, ma_monitor_text := ma_monitor_text p @ fst chunk\<rparr>))"

subsection \<open>The loop\<close>

datatype run_selected =
    SerialRead "string + string"
  | MonitorRead "string + string"
  | EmulatorEnded "string + process_end"
  | RunIdle
  | RunDeadline kill_answers
  | CancelDeadline kill_answers

text \<open>
  One iteration: whether the grace period was over, what was selected, the cancellation flag as set from outside, the
  answers of the group when it is killed for that, and of the wait after a kill.
\<close>

record run_tick =
  rt_grace_over :: bool
  rt_selected :: run_selected
  rt_cancelled :: bool
  rt_kill :: kill_answers
  rt_wait :: "string + process_end"

fun run_arm_enabled :: "run_selected \<Rightarrow> 's machine \<Rightarrow> bool" where
  "run_arm_enabled (SerialRead r) p = ma_serial_open p"
| "run_arm_enabled (MonitorRead r) p = ma_monitor_open p"
| "run_arm_enabled (EmulatorEnded r) p = (ma_status p = None)"
| "run_arm_enabled RunIdle p = True"
| "run_arm_enabled (RunDeadline k) p = ma_armed p"
| "run_arm_enabled (CancelDeadline k) p = ma_cancel_armed p"

definition run_all_ended :: "'s machine \<Rightarrow> bool" where
  "run_all_ended p \<longleftrightarrow> ma_status p \<noteq> None \<and> \<not> ma_serial_open p \<and> \<not> ma_monitor_open p"

definition serial_read :: "'s emitter \<Rightarrow> run_setting \<Rightarrow> string + string \<Rightarrow> ('s, unit) machine_op" where
  "serial_read emit g r =
     (case r of
        Inr bytes \<Rightarrow>
          if bytes = [] then
            then_do (set_ma (\<lambda>p. p\<lparr>ma_serial_open := False\<rparr>)) (\<lambda>_. drain_serial emit g (flush_chunks False))
          else
            then_do (set_ma (\<lambda>p. p\<lparr>ma_serial := chunker_push bytes (ma_serial p)\<rparr>)) (\<lambda>_. drain_serial emit g (flush_chunks True))
      | Inl err \<Rightarrow>
          then_do (set_ma (\<lambda>p. p\<lparr>ma_serial_open := False\<rparr>)) (\<lambda>_. at_ma (sink_note emit (''serial read error: '' @ err))))"

definition monitor_read :: "'s emitter \<Rightarrow> string + string \<Rightarrow> ('s, unit) machine_op" where
  "monitor_read emit r =
     (case r of
        Inr bytes \<Rightarrow>
          if bytes = [] then
            then_do (set_ma (\<lambda>p. p\<lparr>ma_monitor_open := False\<rparr>)) (\<lambda>_. drain_monitor emit False)
          else
            then_do (set_ma (\<lambda>p. p\<lparr>ma_monitor := chunker_push bytes (ma_monitor p)\<rparr>)) (\<lambda>_. drain_monitor emit True)
      | Inl err \<Rightarrow>
          then_do (set_ma (\<lambda>p. p\<lparr>ma_monitor_open := False\<rparr>)) (\<lambda>_. at_ma (sink_note emit (''qemu stderr read error: '' @ err))))"

definition qemu_failed :: "string \<Rightarrow> string \<Rightarrow> princess_error" where
  "qemu_failed what err = new_error QemuFailed (what @ err)"

definition run_deadline :: "'s emitter \<Rightarrow> run_setting \<Rightarrow> kill_answers \<Rightarrow> ('s, unit) machine_op" where
  "run_deadline emit g k =
     then_do (set_ma (\<lambda>p. p\<lparr>ma_armed := False, ma_timed_out := True, ma_kill_done := True\<rparr>)) (\<lambda>_.
     then_do (at_ma (sink_note emit (''run exceeded its '' @ show_nat (unat (rg_timeout_ms g)) @
        '' ms deadline; killing process group '' @ show_nat (unat (rg_pgid g))))) (\<lambda>_.
       ma_res (kill_group_and_wait (rg_pgid g) k)))"

definition cancel_deadline :: "'s emitter \<Rightarrow> run_setting \<Rightarrow> kill_answers \<Rightarrow> ('s, unit) machine_op" where
  "cancel_deadline emit g k =
     then_do (set_ma (\<lambda>p. p\<lparr>ma_cancel_armed := False, ma_kill_done := True\<rparr>)) (\<lambda>_.
     then_do (at_ma (sink_note emit (''run cancelled after '' @ show_nat (unat (rg_cancel_after_ms g)) @
        '' ms (--cancel-after-ms); killing process group '' @ show_nat (unat (rg_pgid g))))) (\<lambda>_.
     then_do (set_ma (\<lambda>p. p\<lparr>ma_cancelled := True\<rparr>)) (\<lambda>_.
       ma_res (kill_group_and_wait (rg_pgid g) k))))"

fun run_step :: "'s emitter \<Rightarrow> run_setting \<Rightarrow> run_selected \<Rightarrow> ('s, unit) machine_op" where
  "run_step emit g (SerialRead r) = serial_read emit g r"
| "run_step emit g (MonitorRead r) = monitor_read emit r"
| "run_step emit g (EmulatorEnded (Inl err)) = ma_res (Inl (qemu_failed ''cannot wait for qemu: '' err))"
| "run_step emit g (EmulatorEnded (Inr st)) = set_ma (\<lambda>p. p\<lparr>ma_status := Some st\<rparr>)"
| "run_step emit g RunIdle = then_do (drain_serial emit g (flush_chunks False)) (\<lambda>_. drain_monitor emit False)"
| "run_step emit g (RunDeadline k) = run_deadline emit g k"
| "run_step emit g (CancelDeadline k) = cancel_deadline emit g k"

text \<open>After the arm: a cancellation from outside, and the reaping of what was killed.\<close>

definition outside_cancel :: "'s emitter \<Rightarrow> run_setting \<Rightarrow> run_tick \<Rightarrow> ('s, unit) machine_op" where
  "outside_cancel emit g t p =
     (if (rt_cancelled t \<or> ma_cancelled p) \<and> \<not> ma_kill_done p \<and> ma_status p = None then
        then_do (set_ma (\<lambda>p. p\<lparr>ma_kill_done := True\<rparr>)) (\<lambda>_.
        then_do (at_ma (sink_note emit (''run cancelled; killing process group '' @ show_nat (unat (rg_pgid g))))) (\<lambda>_.
          ma_res (kill_group_and_wait (rg_pgid g) (rt_kill t)))) p
      else (p, Inr ()))"

definition reap_killed :: "run_tick \<Rightarrow> ('s, unit) machine_op" where
  "reap_killed t p =
     (if ma_kill_done p \<and> ma_status p = None then
        (case rt_wait t of
           Inl err \<Rightarrow> (p, Inl (qemu_failed ''cannot reap qemu: '' err))
         | Inr st \<Rightarrow> (p\<lparr>ma_status := Some st\<rparr>, Inr ()))
      else (p, Inr ()))"

fun run_loop :: "'s emitter \<Rightarrow> run_setting \<Rightarrow> run_tick list \<Rightarrow> ('s, bool) machine_op" where
  "run_loop emit g [] p = (p, Inr (run_all_ended p))"
| "run_loop emit g (t # ts) p =
     (if run_all_ended p \<or> (ma_status p \<noteq> None \<and> rt_grace_over t) then (p, Inr True)
      else if \<not> run_arm_enabled (rt_selected t) p then run_loop emit g ts p
      else then_do (run_step emit g (rt_selected t)) (\<lambda>_.
           then_do (outside_cancel emit g t) (\<lambda>_.
           then_do (reap_killed t) (\<lambda>_. run_loop emit g ts))) p)"

definition drain_run :: "'s emitter \<Rightarrow> run_setting \<Rightarrow> string + process_end \<Rightarrow> ('s, process_end) machine_op" where
  "drain_run emit g reap =
     then_do (drain_serial emit g (flush_chunks False)) (\<lambda>_.
     then_do (drain_monitor emit False) (\<lambda>_.
     then_do (drain_serial emit g remainder_chunks) (\<lambda>_.
     then_do (\<lambda>p. case take_remainder (ma_monitor p) of
                (None, c) \<Rightarrow> (p\<lparr>ma_monitor := c\<rparr>, Inr ())
              | (Some chunk, c) \<Rightarrow> monitor_append emit chunk (p\<lparr>ma_monitor := c\<rparr>)) (\<lambda>_ p.
       case ma_status p of
         Some st \<Rightarrow> (p, Inr st)
       | None \<Rightarrow> (p, map_err (qemu_failed ''cannot reap qemu: '') reap)))))"

subsection \<open>A whole run\<close>

text \<open>
  The surroundings of a run: the build before it, the host and the files after that, the serial log, the spawn, the
  script, the last wait, the flag as set from outside at the end, the emulator's log file and the time.
\<close>

record run_world =
  rw_build :: build_world
  rw_host :: cli_host
  rw_fs :: artifact_fs
  rw_create_log :: "string \<Rightarrow> string + unit"
  rw_write :: "string \<Rightarrow> string \<Rightarrow> string + unit"
  rw_spawn :: "io_error_kind \<times> string + u32"
  rw_ticks :: "run_tick list"
  rw_reap :: "string + process_end"
  rw_cancelled :: bool
  rw_debug_log :: string
  rw_uptime_ms :: u64

record cli_run_result =
  rr_plan :: run_plan
  rr_outcome :: run_outcome
  rr_serial_log :: "string option"
  rr_build :: "cli_build_result option"

definition detect_reset :: "string \<Rightarrow> string \<Rightarrow> bool" where
  "detect_reset qemu_debug monitor_text = list_ex detect_triple_fault [qemu_debug, monitor_text]"

definition facts_of :: "run_world \<Rightarrow> 's machine \<Rightarrow> process_end \<Rightarrow> exit_facts" where
  "facts_of W p st =
     (let cancelled = rw_cancelled W \<or> ma_cancelled p; reset = detect_reset (rw_debug_log W) (ma_monitor_text p)
      in \<lparr>ef_exit_code = xe_code st, ef_signal = xe_signal st, ef_timed_out = ma_timed_out p,
          ef_cancelled = (cancelled \<and> \<not> ma_timed_out p),
          ef_guest_powered_off = (\<not> ma_timed_out p \<and> \<not> cancelled \<and> \<not> reset \<and> xe_code st = Some 0),
          ef_triple_fault = reset\<rparr>)"

definition debug_code :: "int option \<Rightarrow> string" where
  "debug_code x = (case x of None \<Rightarrow> ''None'' | Some i \<Rightarrow> ''Some('' @ show_int i @ '')'')"

definition serial_evidence :: "'s machine \<Rightarrow> string" where
  "serial_evidence p =
     ''serial: banner_seen='' @ show_flag (cv_banner_seen (ma_observer p)) @ '' panic_seen='' @
     show_flag (cv_panic_seen (ma_observer p)) @ '' faults='' @ show_nat (length (ma_faults p)) @
     (case cv_fault (ma_observer p) of
        Some f \<Rightarrow> '' last_fault='' @ cf_rip_text f @ '' '' @ cf_vector f
      | None \<Rightarrow> [])"

definition ended_note :: "run_outcome \<Rightarrow> string" where
  "ended_note out =
     ''run ended: reason='' @ exit_reason_str (ro_reason out) @ '', exit='' @ debug_code (ro_exit_code out) @
     '', uptime='' @ show_nat (unat (ro_uptime_ms out)) @ '' ms'' @
     (case ro_serial_log out of Some path \<Rightarrow> '', serial log '' @ path | None \<Rightarrow> [])"

definition end_run ::
  "'s emitter \<Rightarrow> run_plan \<Rightarrow> run_world \<Rightarrow> 's machine \<Rightarrow> process_end \<Rightarrow> ('s, princess_error, run_outcome) op" where
  "end_run emit plan W p st =
     (let facts = facts_of W p st;
          out = \<lparr>ro_exit_code = xe_code st, ro_reason = classify_exit facts, ro_uptime_ms = rw_uptime_ms W,
                 ro_fault = (if ma_faults p = [] then None else Some (last (ma_faults p))),
                 ro_serial_log = sc_tee_to_file (rn_serial plan)\<rparr>
      in then_do (if ef_triple_fault facts then
                    sink_note emit ''guest reset without a recovery path (triple fault) observed in the QEMU log''
                  else give ()) (\<lambda>_.
         then_do (sink_note emit (serial_evidence p)) (\<lambda>_.
         then_do (sink_note emit (ended_note out)) (\<lambda>_.
         then_do (emit (RunExited (exited_event out))) (\<lambda>_. give out)))))"

definition run_start_failed :: "'s emitter \<Rightarrow> run_plan \<Rightarrow> run_world \<Rightarrow> princess_error \<Rightarrow> ('s, princess_error, 'a) op" where
  "run_start_failed emit plan W error =
     then_do (sink_note emit (''run failed to start: '' @ show_error error)) (\<lambda>_.
     then_do (emit (RunExited (exited_event
        \<lparr>ro_exit_code = None, ro_reason = Killed, ro_uptime_ms = rw_uptime_ms W, ro_fault = None,
         ro_serial_log = sc_tee_to_file (rn_serial plan)\<rparr>))) (\<lambda>_ s.
       (s, Inl (with_detail error (join '' '' (rn_argv plan))))))"

text \<open>The loop, what is left in the chunkers, and the report. \<open>None\<close>: the loop is still running when the script ends.\<close>

definition pump_run ::
  "'s emitter \<Rightarrow> run_plan \<Rightarrow> cli_run_options \<Rightarrow> run_world \<Rightarrow> run_setting \<Rightarrow> ('s, princess_error, run_outcome option) op" where
  "pump_run emit plan opts W g s =
     (case run_loop emit g (rw_ticks W)
             (machine_start (sc_tee_to_file (rn_serial plan) \<noteq> None) (ruo_cancel_after_ms opts \<noteq> None) s) of
        (m, Inl e) \<Rightarrow> (ma_sink m, Inl e)
      | (m, Inr False) \<Rightarrow> (ma_sink m, Inr None)
      | (m, Inr True) \<Rightarrow>
          (case drain_run emit g (rw_reap W) m of
             (m', Inl e) \<Rightarrow> (ma_sink m', Inl e)
           | (m', Inr st) \<Rightarrow> then_do (end_run emit plan W m' st) (\<lambda>out. give (Some out)) (ma_sink m')))"

definition run_emulator ::
  "cli_project \<Rightarrow> 's emitter \<Rightarrow> run_plan \<Rightarrow> cli_run_options \<Rightarrow> run_world \<Rightarrow> artifact list \<Rightarrow> u32 \<Rightarrow>
   ('s, princess_error, run_outcome option) op" where
  "run_emulator p emit plan opts W artifacts pgid =
     (let h = rw_host W;
          y = Option.bind (kernel_elf (ho_is_file h) p artifacts) (\<lambda>elf. ok (symbolizer_new h (px_toolchain p) elf));
          g = \<lparr>rg_write = rw_write W,
               rg_symbolicate = (\<lambda>rip. Option.bind y (\<lambda>y. Option.bind (ok (lookup_symbol h y rip)) (\<lambda>l. l))),
               rg_pgid = pgid, rg_timeout_ms = rn_timeout_ms plan, rg_cancel_after_ms = unwrap_or 0 (ruo_cancel_after_ms opts)\<rparr>
      in then_do (if y = None then sink_note emit ''no ELF with debug info: faults will be reported unsymbolicated'' else give ()) (\<lambda>_.
           pump_run emit plan opts W g))"

text \<open>From \<^verbatim>\<open>run.started\<close> on.\<close>

definition boot_plan ::
  "cli_project \<Rightarrow> 's emitter \<Rightarrow> run_plan \<Rightarrow> cli_run_options \<Rightarrow> run_world \<Rightarrow> artifact list \<Rightarrow>
   ('s, princess_error, run_outcome option) op" where
  "boot_plan p emit plan opts W artifacts =
     then_do (emit (RunStarted \<lparr>rs_qemu_argv = rn_argv plan, rs_gdb_stub = map_option stub_endpoint (rn_gdb_stub plan)\<rparr>)) (\<lambda>_.
       case (case sc_tee_to_file (rn_serial plan) of
               None \<Rightarrow> Inr ()
             | Some path \<Rightarrow>
                 map_err (\<lambda>err. internal_error (''cannot create serial log '' @ path @ '': '' @ err)) (rw_create_log W path)) of
         Inl e \<Rightarrow> (\<lambda>s. (s, Inl e))
       | Inr _ \<Rightarrow>
           (case rw_spawn W of
              Inl (kind, err) \<Rightarrow> run_start_failed emit plan W (cli_spawn_error QemuFailed (hd (rn_argv plan)) kind err)
            | Inr pgid \<Rightarrow> run_emulator p emit plan opts W artifacts pgid))"

text \<open>The build that comes first: its artifacts, and its result when there was one.\<close>

definition build_first ::
  "(string \<Rightarrow> u8 list) \<Rightarrow> cli_host \<Rightarrow> cli_project \<Rightarrow> 's emitter \<Rightarrow> string option \<Rightarrow> cli_run_options \<Rightarrow> run_world \<Rightarrow>
   ('s, princess_error, (artifact list \<times> cli_build_result option) option) op" where
  "build_first digest h p emit op_id opts W =
     (if ruo_do_build opts then
        then_do (execute_cli_build digest h p emit op_id \<lparr>bp_targets = None, bp_timeout_ms = None\<rparr> (rw_build W)) (\<lambda>r.
          case r of
            None \<Rightarrow> give None
          | Some result \<Rightarrow>
              then_do (if \<not> build_succeeded result then
                         sink_note emit ''build did not succeed; booting the artifacts that exist anyway''
                       else give ()) (\<lambda>_.
                give (Some (bn_artifacts (cr_payload result), Some result))))
      else give (Some (discover_artifacts digest (rw_fs W) (rp_root (px_resolved p)) (rp_declared_artifacts (px_resolved p)) None,
                       None)))"

definition execute_cli_run ::
  "(string \<Rightarrow> u8 list) \<Rightarrow> cli_host \<Rightarrow> cli_project \<Rightarrow> 's emitter \<Rightarrow> string option \<Rightarrow> cli_run_options \<Rightarrow> run_world \<Rightarrow>
   ('s, princess_error, cli_run_result option) op" where
  "execute_cli_run digest h p emit op_id opts W =
     then_do (build_first digest h p emit op_id opts W) (\<lambda>built.
       case built of
         None \<Rightarrow> give None
       | Some (artifacts, build_result) \<Rightarrow>
           then_do (\<lambda>s. (s, boot_medium_of (ho_is_file (rw_host W)) p artifacts)) (\<lambda>medium.
           then_do (let dropped = snd (split_args (ru_args (cf_run (rp_config (px_resolved p)))))
                    in if dropped \<noteq> [] then
                         sink_note emit (''[run] args contains emulator flags the engine owns and ignores: '' @ join '' '' dropped)
                       else give ()) (\<lambda>_.
           then_do (\<lambda>s. (s, plan_cli_run (rw_host W) p medium opts)) (\<lambda>plan.
           then_do (boot_plan p emit plan opts W artifacts) (\<lambda>out.
             give (map_option (\<lambda>out'. \<lparr>rr_plan = plan, rr_outcome = out', rr_serial_log = sc_tee_to_file (rn_serial plan),
                                       rr_build = build_result\<rparr>) out))))))"

subsection \<open>Facts: the flags the engine owns\<close>

lemma owned_are_flags: "t \<in> set CLI_OWNED_FLAGS \<Longrightarrow> starts_with ''-'' t"
  by (auto simp: CLI_OWNED_FLAGS_def)

text \<open>No argument is lost or invented, and none that is kept is a flag of the engine.\<close>

lemma split_args_lossless: "mset (fst (split_args args)) + mset (snd (split_args args)) = mset args"
proof (induction args rule: split_args.induct)
  case (3 token v rest)
  then show ?case by (cases "token \<in> set CLI_OWNED_FLAGS") (auto split: prod.splits)
qed auto

lemma split_args_keeps_none: "set (fst (split_args args)) \<inter> set CLI_OWNED_FLAGS = {}"
proof (induction args rule: split_args.induct)
  case (3 token v rest)
  then show ?case by (cases "token \<in> set CLI_OWNED_FLAGS") (auto split: prod.splits)
qed auto

subsection \<open>Facts: what a run keeps of its sink\<close>

lemma keeps_stay: "keeps P (\<lambda>p. (p, r))"
  by (rule keepsI) simp

lemma keeps_branch: "keeps P m \<Longrightarrow> keeps P n \<Longrightarrow> keeps P (\<lambda>p. if c p then m p else n p)"
  by (auto simp: yields_def split: prod.split)

lemma keeps_ma_res: "keeps P (ma_res r)"
  by (rule keepsI) (simp add: ma_res_def)

text \<open>What every event keeps of the sink, a run keeps.\<close>

abbreviation sinking :: "('s \<Rightarrow> bool) \<Rightarrow> 's machine \<Rightarrow> bool" where
  "sinking P p \<equiv> P (ma_sink p)"

lemma keeps_at_ma: "keeps P m \<Longrightarrow> keeps (sinking P) (at_ma m)"
  by (auto simp: yields_def at_ma_def split: prod.split)

lemma keeps_set_other: "(\<And>p. ma_sink (f p) = ma_sink p) \<Longrightarrow> keeps (sinking P) (set_ma f)"
  by (rule keepsI) (simp add: set_ma_def)

lemma keeps_every_note: "(\<And>b. keeps P (emit b)) \<Longrightarrow> keeps P (sink_note emit line)"
  by (simp add: sink_note_def sink_log_def)

lemma keeps_sink_serial:
  assumes em: "\<And>b. keeps P (emit b)"
  shows "keeps (sinking P) (push_serial emit g chunk)" "keeps (sinking P) (drain_serial emit g f)"
    "keeps (sinking P) (drain_monitor emit q)" "keeps (sinking P) (monitor_append emit mon)"
proof -
  note emits = keeps_at_ma [OF em] keeps_at_ma [OF keeps_every_note [of P emit, OF em]]
  note sunk = keepsD [where P = "sinking P"]
  have wlog: "keeps (sinking P) (write_log g t)" for t
    by (rule keepsI) (auto simp: write_log_def split: option.split sum.split)
  have rep: "keeps (sinking P) (report_cli_fault emit f)" for f
    unfolding report_cli_fault_def by (rule keeps_branch; intro keeping emits keeps_set_other) simp
  have obs: "keeps (sinking P) (cli_observation_op emit g x)" for x
    by (cases x) (simp_all add: Let_def, (intro keeping emits rep)+)
  have line: "keeps (sinking P) (cli_serial_line emit g l)" for l
    by (rule keepsI) (auto simp: cli_serial_line_def split: prod.split intro!: sunk keeps_each obs)
  show push: "keeps (sinking P) (push_serial emit g chunk)" for chunk
    unfolding push_serial_def by (intro keeping wlog line emits)
  show mon: "keeps (sinking P) (monitor_append emit mon)" for mon
    unfolding monitor_append_def by (rule emits)
  show "keeps (sinking P) (drain_serial emit g f)"
    by (rule keepsI) (auto simp: drain_serial_def split: prod.split intro!: sunk keeps_each push)
  show "keeps (sinking P) (drain_monitor emit q)"
    by (rule keepsI) (auto simp: drain_monitor_def split: prod.split option.split intro!: sunk mon)
qed

lemma keeps_sink_loop:
  assumes em: "\<And>b. keeps P (emit b)"
  shows "keeps (sinking P) (run_loop emit g ts)" "keeps (sinking P) (drain_run emit g reap)"
proof -
  note keep = keeping keeps_set_other keeps_ma_res keeps_stay keeps_sink_serial [of P emit, OF em]
    keeps_at_ma [OF keeps_every_note [of P emit, OF em]]
  have reads: "keeps (sinking P) (serial_read emit g r)" "keeps (sinking P) (monitor_read emit r)" for r
    unfolding serial_read_def monitor_read_def by (intro keep; simp)+
  have ends: "keeps (sinking P) (run_deadline emit g k)" "keeps (sinking P) (cancel_deadline emit g k)" for k
    unfolding run_deadline_def cancel_deadline_def by (intro keep; simp)+
  have step: "keeps (sinking P) (run_step emit g x)" for x
    by (cases "(emit, g, x)" rule: run_step.cases) (simp_all add: reads ends, (intro keep; simp)+)
  have after: "keeps (sinking P) (outside_cancel emit g t)" "keeps (sinking P) (reap_killed t)" for t
    unfolding outside_cancel_def
    by (rule keeps_branch, (intro keep; simp)+, rule keepsI, simp add: reap_killed_def split: sum.split)
  show "keeps (sinking P) (run_loop emit g ts)"
  proof (induction ts)
    case Nil
    show ?case by (rule keepsI) simp
  next
    case (Cons t ts)
    have "keeps (sinking P) (then_do (run_step emit g (rt_selected t)) (\<lambda>_.
        then_do (outside_cancel emit g t) (\<lambda>_. then_do (reap_killed t) (\<lambda>_. run_loop emit g ts))))"
      by (intro keeping step after Cons)
    with Cons show ?case by (auto simp: yields_def)
  qed
  have "keeps (sinking P) (\<lambda>p. case ma_status p of
       Some st \<Rightarrow> (p, Inr st)
     | None \<Rightarrow> (p, map_err (qemu_failed ''cannot reap qemu: '') reap))"
    by (rule keepsI) (simp split: option.split)
  moreover have "keeps (sinking P) (\<lambda>p. case take_remainder (ma_monitor p) of
       (None, c) \<Rightarrow> (p\<lparr>ma_monitor := c\<rparr>, Inr ())
     | (Some chunk, c) \<Rightarrow> monitor_append emit chunk (p\<lparr>ma_monitor := c\<rparr>))"
    by (rule keepsI) (auto split: prod.split option.split intro!: keepsD [where P = "sinking P"] keeps_sink_serial [of P emit, OF em])
  ultimately show "keeps (sinking P) (drain_run emit g reap)"
    unfolding drain_run_def by (intro keep)
qed

lemma keeps_pump_run:
  assumes em: "\<And>b. keeps P (emit b)"
  shows "keeps P (pump_run emit plan opts W g)"
proof (rule keepsI)
  fix s assume s: "P s"
  let ?m = "machine_start (sc_tee_to_file (rn_serial plan) \<noteq> None) (ruo_cancel_after_ms opts \<noteq> None) s"
  obtain p1 r1 where loop: "run_loop emit g (rw_ticks W) ?m = (p1, r1)" by (cases "run_loop emit g (rw_ticks W) ?m")
  have p1: "P (ma_sink p1)"
    using keepsD [OF keeps_sink_loop(1) [of P emit, OF em], where s = ?m] s loop by (metis fst_conv machine_start_def machine.select_convs(1))
  obtain p2 r2 where drain: "drain_run emit g (rw_reap W) p1 = (p2, r2)" by (cases "drain_run emit g (rw_reap W) p1")
  have p2: "P (ma_sink p2)"
    using keepsD [OF keeps_sink_loop(2) [of P emit, OF em], where s = p1] p1 drain by (metis fst_conv)
  have "keeps P (end_run emit plan W p st)" for p st
    unfolding end_run_def Let_def by (intro keeping em keeps_every_note [of P emit, OF em])
  from keepsD [OF this p2] have ended: "end_run emit plan W p st (ma_sink p2) = (s', r) \<Longrightarrow> P s'" for p st s' r
    by (metis fst_conv)
  show "P (fst (pump_run emit plan opts W g s))"
    using p1 p2 ended unfolding pump_run_def loop
    by (auto simp: drain then_do_def give_def split: sum.split bool.split prod.split)
qed

lemma keeps_execute_run:
  assumes em: "\<And>b. keeps P (emit b)"
  shows "keeps P (execute_cli_run digest h p emit op_id opts W)"
proof -
  note keep = keeping em keeps_stay keeps_every_note [of P emit, OF em]
  have failed: "keeps P (run_start_failed emit plan W error)" for plan error
    unfolding run_start_failed_def by (intro keep)
  have emulated: "keeps P (run_emulator p emit plan opts W artifacts pgid)" for plan artifacts pgid
    unfolding run_emulator_def Let_def by (intro keep keeps_pump_run [of P emit, OF em])
  have booted: "keeps P (boot_plan p emit plan opts W artifacts)" for plan artifacts
    unfolding boot_plan_def by (intro keep failed emulated)
  have "keeps P (build_first digest h p emit op_id opts W)"
    unfolding build_first_def by (intro keep keeps_execute_build [of P emit, OF em])
  then show ?thesis
    unfolding execute_cli_run_def Let_def by (intro keep booted)
qed

subsection \<open>Facts: the events of a run\<close>

text \<open>What a run says between its start and its end.\<close>

definition in_boot :: "event_body \<Rightarrow> bool" where
  "in_boot b \<longleftrightarrow> body_kind b \<in> {KLogAppend, KRunFault}"

lemma in_boot_simps [simp]: "in_boot (LogAppend l)" "in_boot (RunFault f)"
  by (simp_all add: in_boot_def)

text \<open>
  The loop's state agrees with the stream: what was said since \<open>base\<close>, the faults reported, never more than the
  limit, and the serial log.
\<close>

definition faults_in :: "event_body list \<Rightarrow> run_fault list" where
  "faults_in es = concat (map (\<lambda>b. case b of RunFault f \<Rightarrow> [f] | _ \<Rightarrow> []) es)"

definition com1_text :: "event_body list \<Rightarrow> string" where
  "com1_text es = concat (map (\<lambda>b. case b of LogAppend l \<Rightarrow> if la_stream l = SerialCom1 then la_chunk l else [] | _ \<Rightarrow> []) es)"

lemma in_streams_simps [simp]:
  "faults_in [] = []" "faults_in (es @ fs) = faults_in es @ faults_in fs" "faults_in [LogAppend l] = []" "faults_in [RunFault f] = [f]"
  "com1_text [] = []" "com1_text (es @ fs) = com1_text es @ com1_text fs" "com1_text [RunFault f] = []"
  "com1_text [LogAppend l] = (if la_stream l = SerialCom1 then la_chunk l else [])"
  by (simp_all add: faults_in_def com1_text_def)

definition booting :: "('s \<Rightarrow> event_body list) \<Rightarrow> event_body list \<Rightarrow> 's machine \<Rightarrow> bool" where
  "booting bodies base p \<longleftrightarrow>
     (\<exists>work. bodies (ma_sink p) = base @ work \<and> list_all in_boot work \<and> faults_in work = ma_faults p \<and>
       length (ma_faults p) \<le> MAX_FAULT_EVENTS \<and> (case ma_log p of None \<Rightarrow> True | Some kept \<Rightarrow> kept = com1_text work))"

lemma booting_start:
  "bodies s = base @ said \<Longrightarrow> list_all in_boot said \<Longrightarrow> faults_in said = [] \<Longrightarrow> com1_text said = [] \<Longrightarrow>
     booting bodies base (machine_start with_log cancel_armed s)"
  by (simp add: booting_def machine_start_def)

lemma booting_cong [cong]:
  "ma_sink p = ma_sink p' \<Longrightarrow> ma_faults p = ma_faults p' \<Longrightarrow> ma_log p = ma_log p' \<Longrightarrow> booting bodies base p = booting bodies base p'"
  by (simp add: booting_def)

lemma keeps_set_ma:
  "(\<And>p. ma_sink (f p) = ma_sink p \<and> ma_faults (f p) = ma_faults p \<and> ma_log (f p) = ma_log p) \<Longrightarrow>
     keeps (booting bodies base) (set_ma f)"
  by (rule keepsI) (simp add: set_ma_def booting_def)

lemmas booted = keepsD [where P = "booting bodies base"] for bodies base

lemma at_ma_emit:
  assumes acc: "accepting emit bodies"
  shows "\<exists>s'. at_ma (emit b) p = (p\<lparr>ma_sink := s'\<rparr>, Inr ()) \<and> bodies s' = bodies (ma_sink p) @ [b]"
  using accepted [OF acc, of b "ma_sink p"] by (auto simp: at_ma_def)

lemma keeps_boot_log:
  assumes acc: "accepting emit bodies"
  shows "la_stream l \<noteq> SerialCom1 \<Longrightarrow> keeps (booting bodies base) (at_ma (emit (LogAppend l)))"
    and "keeps (booting bodies base) (at_ma (sink_note emit line))"
proof -
  show log: "keeps (booting bodies base) (at_ma (emit (LogAppend l)))" if "la_stream l \<noteq> SerialCom1" for l
  proof (rule keepsI)
    fix p assume p: "booting bodies base p"
    obtain s' where "at_ma (emit (LogAppend l)) p = (p\<lparr>ma_sink := s'\<rparr>, Inr ())" "bodies s' = bodies (ma_sink p) @ [LogAppend l]"
      using at_ma_emit [OF acc] by blast
    with p that show "booting bodies base (fst (at_ma (emit (LogAppend l)) p))"
      by (auto simp: booting_def split: option.splits)
  qed
  show "keeps (booting bodies base) (at_ma (sink_note emit line))"
    unfolding sink_note_def sink_log_def by (rule log) simp
qed

lemma keeps_fault_report:
  assumes acc: "accepting emit bodies"
  shows "keeps (booting bodies base) (report_cli_fault emit f)"
proof (rule keepsI)
  fix p assume p: "booting bodies base p"
  show "booting bodies base (fst (report_cli_fault emit f p))"
  proof (cases "MAX_FAULT_EVENTS \<le> length (ma_faults p)")
    case True
    then show ?thesis using booted [OF keeps_boot_log(2) [OF acc] p] by (simp add: report_cli_fault_def)
  next
    case False
    obtain s' where "at_ma (emit (RunFault f)) p = (p\<lparr>ma_sink := s'\<rparr>, Inr ())" "bodies s' = bodies (ma_sink p) @ [RunFault f]"
      using at_ma_emit [OF acc] by blast
    with False p show ?thesis
      by (auto simp: report_cli_fault_def then_do_def set_ma_def booting_def split: option.splits)
  qed
qed

text \<open>A chunk reaches the log before its event and its lines.\<close>

lemma keeps_push_serial:
  assumes acc: "accepting emit bodies"
  shows "keeps (booting bodies base) (push_serial emit g chunk)"
proof -
  have obs: "keeps (booting bodies base) (cli_observation_op emit g x)" for x
    by (cases x) (simp_all add: Let_def, (intro keeping keeps_boot_log(2) [OF acc] keeps_fault_report [OF acc])+)
  have line: "keeps (booting bodies base) (cli_serial_line emit g l)" for l
    by (rule keepsI) (auto simp: cli_serial_line_def split: prod.split intro!: booted keeps_each obs)
  let ?event = "LogAppend \<lparr>la_stream = SerialCom1, la_chunk = fst chunk, la_encoding = snd chunk\<rparr>"
  let ?rest = "\<lambda>_::unit. each_do (cli_serial_line emit g) (str_lines (fst chunk))"
  show ?thesis
  proof (rule keepsI)
    fix p assume p: "booting bodies base p"
    have logged: "booting bodies base (fst (then_do (at_ma (emit ?event)) ?rest p'))"
      if "ma_sink p' = ma_sink p" "ma_faults p' = ma_faults p" "ma_log p' = map_option (\<lambda>old. old @ fst chunk) (ma_log p)" for p'
    proof -
      obtain s' where s': "at_ma (emit ?event) p' = (p'\<lparr>ma_sink := s'\<rparr>, Inr ())" "bodies s' = bodies (ma_sink p') @ [?event]"
        using at_ma_emit [OF acc] by blast
      with p that have "booting bodies base (p'\<lparr>ma_sink := s'\<rparr>)"
        by (auto simp: booting_def split: option.splits)
      then show ?thesis by (simp add: then_do_def s'(1) booted keeps_each line)
    qed
    show "booting bodies base (fst (push_serial emit g chunk p))"
      unfolding push_serial_def
      by (subst then_do_def) (auto simp: write_log_def p logged split: option.split sum.split)
  qed
qed

lemma keeps_drains:
  assumes acc: "accepting emit bodies"
  shows "keeps (booting bodies base) (drain_serial emit g f)" "keeps (booting bodies base) (drain_monitor emit q)"
    "keeps (booting bodies base) (monitor_append emit chunk)"
proof -
  show mon: "keeps (booting bodies base) (monitor_append emit chunk)" for chunk
    unfolding monitor_append_def by (rule keeps_boot_log(1) [OF acc]) simp
  show "keeps (booting bodies base) (drain_serial emit g f)"
    by (rule keepsI) (auto simp: drain_serial_def split: prod.split intro!: booted keeps_each keeps_push_serial [OF acc])
  show "keeps (booting bodies base) (drain_monitor emit q)"
    by (rule keepsI) (auto simp: drain_monitor_def split: prod.split option.split intro!: booted mon)
qed

lemma keeps_run_step:
  assumes acc: "accepting emit bodies"
  shows "keeps (booting bodies base) (run_step emit g x)"
proof -
  note keep = keeping keeps_set_ma keeps_ma_res keeps_drains [OF acc] keeps_boot_log(2) [OF acc]
  have "keeps (booting bodies base) (serial_read emit g r)" "keeps (booting bodies base) (monitor_read emit r)" for r
    unfolding serial_read_def monitor_read_def by (intro keep; simp)+
  moreover have "keeps (booting bodies base) (run_deadline emit g k)" "keeps (booting bodies base) (cancel_deadline emit g k)" for k
    unfolding run_deadline_def cancel_deadline_def by (intro keep; simp)+
  ultimately show ?thesis
    by (cases "(emit, g, x)" rule: run_step.cases) (simp_all, (intro keep; simp)+)
qed

lemma keeps_after_step:
  assumes acc: "accepting emit bodies"
  shows "keeps (booting bodies base) (outside_cancel emit g t)" "keeps (booting bodies base) (reap_killed t)"
proof -
  show "keeps (booting bodies base) (outside_cancel emit g t)"
    unfolding outside_cancel_def
    by (rule keeps_branch) (intro keeping keeps_stay keeps_set_ma keeps_ma_res keeps_boot_log(2) [OF acc]; simp)+
  show "keeps (booting bodies base) (reap_killed t)"
    by (rule keepsI) (simp add: reap_killed_def split: sum.split)
qed

lemma keeps_run_loop:
  assumes acc: "accepting emit bodies"
  shows "keeps (booting bodies base) (run_loop emit g ts)"
proof (induction ts)
  case Nil
  show ?case by (rule keepsI) simp
next
  case (Cons t ts)
  have "keeps (booting bodies base) (then_do (run_step emit g (rt_selected t)) (\<lambda>_.
      then_do (outside_cancel emit g t) (\<lambda>_. then_do (reap_killed t) (\<lambda>_. run_loop emit g ts))))"
    by (intro keeping keeps_run_step [OF acc] keeps_after_step [OF acc] Cons)
  with Cons show ?case by (auto simp: yields_def)
qed

lemma keeps_drain_run:
  assumes acc: "accepting emit bodies"
  shows "keeps (booting bodies base) (drain_run emit g reap)"
proof -
  have "keeps (booting bodies base) (\<lambda>p. case ma_status p of
       Some st \<Rightarrow> (p, Inr st)
     | None \<Rightarrow> (p, map_err (qemu_failed ''cannot reap qemu: '') reap))"
    by (rule keepsI) (simp split: option.split)
  moreover have "keeps (booting bodies base) (\<lambda>p. case take_remainder (ma_monitor p) of
       (None, c) \<Rightarrow> (p\<lparr>ma_monitor := c\<rparr>, Inr ())
     | (Some chunk, c) \<Rightarrow> monitor_append emit chunk (p\<lparr>ma_monitor := c\<rparr>))"
    by (rule keepsI) (auto split: prod.split option.split intro!: booted keeps_drains [OF acc])
  ultimately show ?thesis
    unfolding drain_run_def by (intro keeping keeps_drains [OF acc])
qed

text \<open>What the loop wrote to the serial log is what it reported of the serial line, also when it ends early.\<close>

lemma serial_log_is_stream:
  assumes "accepting emit bodies" and "run_loop emit g ts (machine_start True c s) = (p, r)"
  shows "\<exists>work. bodies (ma_sink p) = bodies s @ work \<and> ma_log p \<in> {None, Some (com1_text work)}"
  using booted [OF keeps_run_loop [OF assms(1)] booting_start [of bodies s "bodies s" "[]" True c], of g ts] assms(2)
  by (cases "ma_log p") (auto simp: booting_def)

lemma end_run_last:
  assumes acc: "accepting emit bodies" and p: "booting bodies base p"
  shows "\<exists>s' work. end_run emit plan W p st (ma_sink p) =
      (s', Inr \<lparr>ro_exit_code = xe_code st, ro_reason = classify_exit (facts_of W p st), ro_uptime_ms = rw_uptime_ms W,
                ro_fault = (if faults_in work = [] then None else Some (last (faults_in work))),
                ro_serial_log = sc_tee_to_file (rn_serial plan)\<rparr>) \<and>
    bodies s' = base @ work @ [RunExited \<lparr>rx_exit_code = xe_code st, rx_reason = classify_exit (facts_of W p st),
      rx_uptime_ms = rw_uptime_ms W\<rparr>] \<and> list_all in_boot work \<and> length (faults_in work) \<le> MAX_FAULT_EVENTS"
proof -
  let ?out = "\<lparr>ro_exit_code = xe_code st, ro_reason = classify_exit (facts_of W p st), ro_uptime_ms = rw_uptime_ms W,
      ro_fault = (if ma_faults p = [] then None else Some (last (ma_faults p))), ro_serial_log = sc_tee_to_file (rn_serial plan)\<rparr>"
  let ?P = "\<lambda>s. \<exists>work. bodies s = base @ work \<and> list_all in_boot work \<and> faults_in work = ma_faults p"
  let ?reset = "if ef_triple_fault (facts_of W p st) then
      sink_note emit ''guest reset without a recovery path (triple fault) observed in the QEMU log'' else give ()"
  have said: "keeps ?P (sink_note emit line)" for line
  proof (rule keepsI)
    fix s assume "?P s"
    then obtain work where work: "bodies s = base @ work" "list_all in_boot work" "faults_in work = ma_faults p" by blast
    let ?l = "LogAppend \<lparr>la_stream = StreamIde, la_chunk = ensure_newline line, la_encoding = EncUtf8\<rparr>"
    from work acc show "?P (fst (sink_note emit line s))"
      by (intro exI [of _ "work @ [?l]"]) (simp add: sink_note_def sink_log_def accepting_def)
  qed
  note runs = keeps_runs [where P = ?P]
  have "?P (ma_sink p)" and few: "length (ma_faults p) \<le> MAX_FAULT_EVENTS" using p by (auto simp: booting_def)
  then have start: "?P (ma_sink p)" by blast
  have reset: "never_fails ?reset" "keeps ?P ?reset"
    by (intro never_fails_if never_fails_give note_accepted [OF acc], intro keeping said)
  obtain s1 where s1: "?reset (ma_sink p) = (s1, Inr ())" "?P s1"
    by (rule runs [OF reset start]) auto
  obtain s2 where s2: "sink_note emit (serial_evidence p) s1 = (s2, Inr ())" "?P s2"
    by (rule runs [OF note_accepted [OF acc] said s1(2)]) auto
  obtain s3 where s3: "sink_note emit (ended_note ?out) s2 = (s3, Inr ())" "?P s3"
    by (rule runs [OF note_accepted [OF acc] said s2(2)]) auto
  then obtain work where work: "bodies s3 = base @ work" "list_all in_boot work" "faults_in work = ma_faults p" by blast
  obtain s4 where s4: "emit (RunExited (exited_event ?out)) s3 = (s4, Inr ())" "bodies s4 = bodies s3 @ [RunExited (exited_event ?out)]"
    using accepted [OF acc] by blast
  have "end_run emit plan W p st (ma_sink p) = (s4, Inr ?out)"
    unfolding end_run_def Let_def using s1(1) s2(1) s3(1) s4(1) by (simp add: then_do_def give_def)
  with s4(2) work few show ?thesis
    by (intro exI [of _ s4] exI [of _ work]) (simp add: exited_event_def)
qed

text \<open>How the stream of a run that returns an outcome ends, with the events \<open>work\<close> since its start and \<open>final\<close> at its end.\<close>

definition outcome_ending :: "run_outcome \<Rightarrow> event_body list \<Rightarrow> event_body list \<Rightarrow> bool" where
  "outcome_ending out work final \<longleftrightarrow>
     final = [RunExited (exited_event out)] \<and> length (faults_in work) \<le> MAX_FAULT_EVENTS \<and>
     ro_fault out = (if faults_in work = [] then None else Some (last (faults_in work))) \<and>
     (ro_reason out = GuestShutdown \<longrightarrow> ro_exit_code out = Some 0)"

text \<open>The serial log of a plan, when it could not be created; and the ending of any run that was planned.\<close>

definition log_refused :: "run_world \<Rightarrow> run_plan \<Rightarrow> bool" where
  "log_refused W plan = (case map_option (rw_create_log W) (sc_tee_to_file (rn_serial plan)) of Some (Inl _) \<Rightarrow> True | _ \<Rightarrow> False)"

definition run_ending ::
  "run_plan \<Rightarrow> run_world \<Rightarrow> princess_error + run_outcome option \<Rightarrow> event_body list \<Rightarrow> event_body list \<Rightarrow> bool" where
  "run_ending plan W r work final =
     (if log_refused W plan then isl r \<and> final = []
      else case rw_spawn W of
        Inl _ \<Rightarrow> isl r \<and> (\<exists>x. final = [RunExited x] \<and> rx_reason x = Killed \<and> rx_exit_code x = None)
      | Inr _ \<Rightarrow> (case r of Inr (Some out) \<Rightarrow> outcome_ending out work final | _ \<Rightarrow> final = []))"

lemma shutdown_exits_0: "classify_exit (facts_of W p st) = GuestShutdown \<Longrightarrow> xe_code st = Some 0"
  by (auto simp: classify_exit_def facts_of_def Let_def split: if_splits option.splits)

text \<open>From the loop on: nothing final was said unless an outcome is returned.\<close>

definition run_says ::
  "('s \<Rightarrow> event_body list) \<Rightarrow> event_body list \<Rightarrow> 's \<times> (princess_error + run_outcome option) \<Rightarrow> bool" where
  "run_says bodies base answer \<longleftrightarrow>
     (\<exists>work final. bodies (fst answer) = base @ work @ final \<and> list_all in_boot work \<and>
       (case snd answer of Inr (Some out) \<Rightarrow> outcome_ending out work final | _ \<Rightarrow> final = []))"

lemma run_says_unfinished: "booting bodies base p \<Longrightarrow> (\<And>out. r \<noteq> Inr (Some out)) \<Longrightarrow> run_says bodies base (ma_sink p, r)"
  unfolding run_says_def booting_def
  by (elim exE, rename_tac work, rule_tac x = work in exI, rule_tac x = "[]" in exI) (auto split: sum.split option.split)

lemma pump_run_says:
  assumes acc: "accepting emit bodies" and m: "\<And>with_log cancel_armed. booting bodies base (machine_start with_log cancel_armed s)"
  shows "run_says bodies base (pump_run emit plan opts W g s)"
proof -
  let ?m = "machine_start (sc_tee_to_file (rn_serial plan) \<noteq> None) (ruo_cancel_after_ms opts \<noteq> None) s"
  obtain p1 r1 where loop: "run_loop emit g (rw_ticks W) ?m = (p1, r1)" by (cases "run_loop emit g (rw_ticks W) ?m")
  with booted [OF keeps_run_loop [OF acc] m] have p1: "booting bodies base p1" by (metis fst_conv)
  show ?thesis
  proof (cases "r1 = Inr True")
    case False
    with p1 loop show ?thesis
      by (auto simp: pump_run_def intro: run_says_unfinished split: sum.split bool.split)
  next
    case True
    obtain p2 r2 where drain: "drain_run emit g (rw_reap W) p1 = (p2, r2)" by (cases "drain_run emit g (rw_reap W) p1")
    with booted [OF keeps_drain_run [OF acc] p1] have p2: "booting bodies base p2" by (metis fst_conv)
    show ?thesis
    proof (cases r2)
      case (Inl e)
      with True loop drain p2 show ?thesis by (simp add: pump_run_def run_says_unfinished)
    next
      case (Inr st)
      show ?thesis
        using end_run_last [OF acc p2, of plan W st] True loop drain Inr
        by (auto simp: pump_run_def run_says_def outcome_ending_def then_do_def give_def exited_event_def shutdown_exits_0)
    qed
  qed
qed

lemma ide_said: "\<exists>l. sink_note emit line = emit (LogAppend l) \<and> la_stream l = StreamIde"
  by (rule exI [of _ "\<lparr>la_stream = StreamIde, la_chunk = ensure_newline line, la_encoding = EncUtf8\<rparr>"])
    (simp add: sink_note_def sink_log_def)

lemma keeps_boot_note: "accepting emit bodies \<Longrightarrow> keeps (grown in_boot bodies base) (sink_note emit line)"
  unfolding sink_note_def by (rule keeps_grown_log) simp_all

lemma run_emulator_says:
  assumes acc: "accepting emit bodies"
  shows "run_says bodies (bodies s) (run_emulator p emit plan opts W artifacts pgid s)"
proof -
  obtain l where l: "sink_note emit ''no ELF with debug info: faults will be reported unsymbolicated'' = emit (LogAppend l)"
    and ide: "la_stream l = StreamIde"
    using ide_said by blast
  obtain s1 where s1: "emit (LogAppend l) s = (s1, Inr ())" "bodies s1 = bodies s @ [LogAppend l]"
    using accepted [OF acc] by blast
  have "booting bodies (bodies s) (machine_start w c s)" "booting bodies (bodies s) (machine_start w c s1)" for w c
    using booting_start [of bodies s "bodies s" "[]"] booting_start [of bodies s1 "bodies s" "[LogAppend l]"] by (simp_all add: s1 ide)
  then show ?thesis
    by (auto simp: run_emulator_def Let_def then_do_def give_def l s1 intro: pump_run_says [OF acc])
qed

lemma run_start_failed_last:
  assumes acc: "accepting emit bodies"
  shows "\<exists>s' e l x. run_start_failed emit plan W error s = (s', Inl e) \<and> bodies s' = bodies s @ [LogAppend l, RunExited x] \<and>
    rx_reason x = Killed \<and> rx_exit_code x = None"
proof -
  obtain l where l: "sink_note emit (''run failed to start: '' @ show_error error) = emit (LogAppend l)"
    using ide_said by blast
  obtain s1 where s1: "emit (LogAppend l) s = (s1, Inr ())" "bodies s1 = bodies s @ [LogAppend l]"
    using accepted [OF acc] by blast
  let ?x = "\<lparr>rx_exit_code = None, rx_reason = Killed, rx_uptime_ms = rw_uptime_ms W\<rparr>"
  obtain s2 where s2: "emit (RunExited ?x) s1 = (s2, Inr ())" "bodies s2 = bodies s1 @ [RunExited ?x]"
    using accepted [OF acc] by blast
  show ?thesis
    unfolding run_start_failed_def then_do_def l exited_event_def using s1 s2 by simp
qed

lemma boot_plan_says:
  assumes acc: "accepting emit bodies"
  shows "case boot_plan p emit plan opts W artifacts s of
      (s', r) \<Rightarrow> \<exists>work final.
        bodies s' = bodies s @ RunStarted \<lparr>rs_qemu_argv = rn_argv plan, rs_gdb_stub = map_option stub_endpoint (rn_gdb_stub plan)\<rparr> #
          work @ final \<and> list_all in_boot work \<and> run_ending plan W r work final"
proof -
  let ?started = "RunStarted \<lparr>rs_qemu_argv = rn_argv plan, rs_gdb_stub = map_option stub_endpoint (rn_gdb_stub plan)\<rparr>"
  obtain s0 where s0: "emit ?started s = (s0, Inr ())" "bodies s0 = bodies s @ [?started]"
    using accepted [OF acc] by blast
  consider (refused) "log_refused W plan" | (failed) kind err where "\<not> log_refused W plan" "rw_spawn W = Inl (kind, err)"
    | (ran) pgid where "\<not> log_refused W plan" "rw_spawn W = Inr pgid"
    by (cases "rw_spawn W") auto
  then show ?thesis
  proof cases
    case refused': refused
    then obtain e where "boot_plan p emit plan opts W artifacts s = (s0, Inl e)"
      by (auto simp: boot_plan_def then_do_def s0 log_refused_def split: option.splits sum.splits)
    with refused' s0(2) show ?thesis by (auto simp: run_ending_def intro!: exI [of _ "[]"])
  next
    case failed': failed
    let ?e = "cli_spawn_error QemuFailed (hd (rn_argv plan)) kind err"
    have "boot_plan p emit plan opts W artifacts s = run_start_failed emit plan W ?e s0"
      using failed' by (auto simp: boot_plan_def then_do_def s0 log_refused_def split: option.splits sum.splits)
    moreover obtain s' e l x where "run_start_failed emit plan W ?e s0 = (s', Inl e :: princess_error + run_outcome option)"
        "bodies s' = bodies s0 @ [LogAppend l, RunExited x]" "rx_reason x = Killed" "rx_exit_code x = None"
      using run_start_failed_last [OF acc] by metis
    ultimately show ?thesis
      using failed' s0(2)
      by - (rule case_prodI2, rule exI [of _ "[LogAppend l]"], rule exI [of _ "[RunExited x]"], simp add: run_ending_def)
  next
    case ran': ran
    have "boot_plan p emit plan opts W artifacts s = run_emulator p emit plan opts W artifacts pgid s0"
      using ran' by (auto simp: boot_plan_def then_do_def s0 log_refused_def split: option.splits sum.splits)
    moreover obtain s' r where out: "run_emulator p emit plan opts W artifacts pgid s0 = (s', r)"
      by (cases "run_emulator p emit plan opts W artifacts pgid s0")
    ultimately have out': "boot_plan p emit plan opts W artifacts s = (s', r)" by simp
    obtain work final where "bodies s' = bodies s0 @ work @ final" "list_all in_boot work"
        "case r of Inr (Some out) \<Rightarrow> outcome_ending out work final | _ \<Rightarrow> final = []"
      using run_emulator_says [OF acc, where s = s0 and plan = plan and W = W and p = p and opts = opts and artifacts = artifacts and pgid = pgid] unfolding out run_says_def fst_conv snd_conv by blast
    note emulated = this
    have "run_ending plan W r work final" using ran' emulated(3) by (simp add: run_ending_def)
    with emulated(1,2) s0(2) have
      "\<exists>work final. bodies s' = bodies s @ ?started # work @ final \<and> list_all in_boot work \<and> run_ending plan W r work final"
      by - (rule exI [of _ work], rule exI [of _ final], simp)
    then show ?thesis unfolding out' prod.case .
  qed
qed


text \<open>A host on which every program is found and nothing can be started, and a project with a kernel.\<close>

definition demo_run_project :: cli_project where
  "demo_run_project = demo_project\<lparr>px_resolved := (px_resolved demo_project)\<lparr>rp_kernel := Some ''/k/k.elf''\<rparr>\<rparr>"

definition unbootable :: run_world where
  "unbootable =
     \<lparr>rw_build = unstartable, rw_host = demo_host\<lparr>ho_is_file := (\<lambda>_. True), ho_executable := (\<lambda>_. True)\<rparr>, rw_fs = no_artifacts,
      rw_create_log = (\<lambda>_. Inr ()), rw_write = (\<lambda>_ _. Inr ()), rw_spawn = Inl (IoPermissionDenied, ''denied''), rw_ticks = [],
      rw_reap = Inl ''none'', rw_cancelled = False, rw_debug_log = [], rw_uptime_ms = 1\<rparr>"

definition boot_only :: cli_run_options where
  "boot_only = \<lparr>ruo_timeout_ms = None, ruo_cancel_after_ms = None, ruo_do_build = False, ruo_keep_qemu_log = False\<rparr>"


end
