(* ===== verification/Spec2Isabelle.thy ===== *)
theory Spec2Isabelle
  imports Register_Walk Descriptor Hex_Reader Qemu_Run Jvm_Run Debug_Calls Ai_Provider Build_Backend Cli_Args Cli_Run Language
begin

text \<open>
  PrincessIDE: the cores of its crates, verified.

  PrincessIDE is a workbench for operating-system kernels. Its engine is a set of crates under
  \<^verbatim>\<open>src/crates\<close>: \<^verbatim>\<open>princess-core\<close> holds the contract (errors, events, configuration, the traits of
  the backends), \<^verbatim>\<open>princess-run\<close> runs a kernel under QEMU and observes its serial line,
  \<^verbatim>\<open>princess-bin\<close> looks into a stopped guest (memory, page tables, descriptor tables, monitor
  listings) and into binary files, \<^verbatim>\<open>princess-debug\<close> talks to a debug adapter, \<^verbatim>\<open>princess-ai\<close> to a
  model, \<^verbatim>\<open>princess-build\<close> finds the tools, builds a kernel and reads what compilers print, and
  \<^verbatim>\<open>princess-lang\<close> holds the language packages. This development translates the parts of these crates
  that decide something and states what makes them correct.

  How the parts interact. A manifest is loaded and resolved (Config) into a plan (Qemu_Plan); a
  run of the plan (Qemu_Run) starts a process whose pipes are cut into chunks (Stream_Chunker,
  Process_Runner), whose serial text is observed line by line (Serial_Observer), and which is
  reported as events through a sink (Event_Sink), normally the recorder of the event stream
  (Event_Stream). For a stopped guest the monitor's text is parsed (Monitor), the page walk
  starts at the registers it printed (Register_Walk) over guest memory (Guest_Memory, Page_Table),
  and the tables of the processor are decoded (Descriptor). A debug session (Debug_Session) starts its own machine (Debug_Qemu)
  and an adapter, sends requests over the transport (Dap_Transport, Dap_Framing) and reads memory,
  breakpoints and registers from the text of GDB commands (Repl, Gdb_Capability).

  Theories and sources:
  \<^item> Prelude, Rust_Text, Rust_Str, Utf8: shared lemmas and what the code uses of the standard
    library: results and fallible operations on a state, words, numbers in text, \<open>str\<close> operations,
    UTF-8 validation and lossy decoding.
  \<^item> Guest_Memory, Page_Table, Register_Walk, Descriptor, Monitor, Hex_Reader: \<^verbatim>\<open>guestmem.rs\<close>,
    \<^verbatim>\<open>pagetable.rs\<close>, \<^verbatim>\<open>descriptor.rs\<close>, \<^verbatim>\<open>monitor.rs\<close> and \<^verbatim>\<open>hex.rs\<close> of princess-bin. Lemmas: the walk
    is the architecture's translation, and where it departs; decoders invert the architecture's
    encodings; listings are read back as printed; cached reads are the file's bytes.
  \<^item> Core_Error, Core_Types, Event_Stream, Event_Sink, Config, Stream_Chunker: \<^verbatim>\<open>error.rs\<close>,
    \<^verbatim>\<open>types.rs\<close>, \<^verbatim>\<open>hash.rs\<close>, \<^verbatim>\<open>event.rs\<close>, \<^verbatim>\<open>traits.rs\<close>, \<^verbatim>\<open>config.rs\<close> and \<^verbatim>\<open>stream.rs\<close> of princess-core.
    Lemmas: recorded streams validate and replay; kinds and payloads agree; chunks partition the
    stream and cut no character; loading never guesses; resolved paths are absolute.
  \<^item> Serial_Observer, Process_Runner, Qemu_Plan, Qemu_Run: \<^verbatim>\<open>serial.rs\<close>, \<^verbatim>\<open>exit.rs\<close>, \<^verbatim>\<open>process.rs\<close>,
    \<^verbatim>\<open>qemu.rs\<close> and \<^verbatim>\<open>backend.rs\<close> of princess-run. Lemmas: the incremental observer is a function of
    the history; the tee file precedes the events; the planned command line keeps its contract;
    a run is complete on every path out and its faults are those of the log.
  \<^item> Dap_Framing, Repl, Dap_Transport, Gdb_Capability, Arch_Check, Debug_Qemu, Base64, Debug_Session,
    Debug_Calls: \<^verbatim>\<open>framing.rs\<close>, \<^verbatim>\<open>repl.rs\<close>, \<^verbatim>\<open>transport.rs\<close>, \<^verbatim>\<open>capability.rs\<close>, \<^verbatim>\<open>arch.rs\<close>, \<^verbatim>\<open>qemu.rs\<close> and
    \<^verbatim>\<open>backend.rs\<close> of princess-debug, over the accessors of Json_Access. Lemmas: messages survive any
    cutting of the stream; refusals are errors; a wait keeps what it does not return; a physical read
    ends and is never short; whatever is called, the adapter is sent whole, numbered requests, and
    only ready sessions send.
  \<^item> Sse, Ai_Config, Http, Ai_Provider: \<^verbatim>\<open>sse.rs\<close>, \<^verbatim>\<open>config.rs\<close>, \<^verbatim>\<open>error_map.rs\<close>, \<^verbatim>\<open>http.rs\<close> and
    \<^verbatim>\<open>openai.rs\<close> of princess-ai. Lemmas: a completion and an HTTP response are read the same however they
    are cut; the text of a completion arrives in order; every completion ends with one terminal event.
  \<^item> Build_Diagnostics, Toolchain, Compile_Database, Build_Process, Build_Artifacts, Build_Backend:
    \<^verbatim>\<open>diagnostics.rs\<close>, \<^verbatim>\<open>toolchain.rs\<close>, \<^verbatim>\<open>clangd.rs\<close> with \<^verbatim>\<open>manifest.rs\<close>, \<^verbatim>\<open>process.rs\<close>, \<^verbatim>\<open>artifacts.rs\<close>,
    and \<^verbatim>\<open>backend.rs\<close> with \<^verbatim>\<open>javac.rs\<close> of princess-build. A build is a plan made from the project, run by a
    process whose lines are parsed as they come, followed by the compile database, the scan for artifacts and
    \<^verbatim>\<open>build.finished\<close>; its state is the sink, the world and the files written. Lemmas: a compiler's message
    is read back; the files named are absolute; what the flush of the last diagnostic loses; a tool is the
    first candidate that answers; quoted words survive splitting; a build ends as its command does.
  \<^item> Jvm_Run: \<^verbatim>\<open>jvm.rs\<close> of princess-run. Language: \<^verbatim>\<open>manifest.rs\<close>, \<^verbatim>\<open>adapter.rs\<close> and \<^verbatim>\<open>registry.rs\<close>
    of princess-lang. Lemma: a registry holds valid manifests only.

  Conventions. Structs are records, enums datatypes, machine integers words of their width with
  the wrap-around of a release build; lengths and counters bounded by memory are natural numbers.
  A string is the list of its bytes. A \<open>Result\<close> is a sum with the error on the left; a panic is a
  value where the code can reach one. The outside is an argument: files, the clock, processes,
  signals, JSON and TOML libraries, hashing, writers. A loop over what the outside gives is a
  recursion over the list of what it gave, and a list that ends leaves the loop running. All
  other loops terminate by measures that are proved; no definition uses fuel.

  Interfaces are locales interpreted on the model's own definitions: guest memory as the walk and
  the decoders read it (Guest_Memory), a file read at offsets and one that does not change
  (Hex_Reader), and an event sink (Event_Sink), whose client is the run of Qemu_Run.

  Not modelled. The serde derivations and everything inside third-party crates (object, gimli,
  capstone, toml, serde_json); threads and sockets as such; the panics of debug builds on
  overflow; the Tauri shell. Not modelled yet: the command line, the symbol provider and the views.
\<close>

end
